(* ===== verification/Prelude.thy ===== *)
theory Prelude
  imports Main "HOL-Library.Word" "HOL-Library.Signed_Division"
begin

text \<open>
  The shared base of the development: the machine types of Go that the code uses, the outcome of
  running code that may panic, Go's slice indexing and integer remainder, the decimal rendering
  of \<open>strconv.FormatUint\<close> and \<open>fmt.Sprintf\<close>, times and durations, and the generic lemmas on
  lists and words that the component theories share.
\<close>

unbundle bit_operations_syntax

named_theorems run_simps

section \<open>Machine types\<close>

type_synonym u8 = "8 word"
type_synonym u32 = "32 word"
type_synonym u64 = "64 word"

text \<open>Go's \<open>int64\<close> is a 64-bit word read as two's complement, \<open>time.Duration\<close> is one too
  (nanoseconds). \<open>time.Time\<close> is the number of nanoseconds since Go's zero time, the first
  instant of year 1. Go's \<open>int\<close> is \<open>int\<close> where the code keeps it within the length of a slice.\<close>

type_synonym i32 = "32 word"
type_synonym i64 = "64 word"
type_synonym Duration = "64 word"
type_synonym Time = int

section \<open>Running code that may panic\<close>

datatype panic =
    IndexOutOfRange
  | NilDereference
  | IntegerDivideByZero
  | TypeAssertion
  | MakeSliceOutOfRange
  | PanicMessage string

type_synonym 'a run = "panic + 'a"

definition run_bind :: "'a run \<Rightarrow> ('a \<Rightarrow> 'b run) \<Rightarrow> 'b run" where
  "run_bind r f = (case r of Inl p \<Rightarrow> Inl p | Inr x \<Rightarrow> f x)"

definition run_map :: "('a \<Rightarrow> 'b) \<Rightarrow> 'a run \<Rightarrow> 'b run" where
  "run_map f r = run_bind r (\<lambda>x. Inr (f x))"

lemma run_bind_Inr [simp]: "run_bind (Inr x) f = f x"
  by (simp add: run_bind_def)

lemma run_bind_Inl [simp]: "run_bind (Inl p) f = Inl p"
  by (simp add: run_bind_def)

lemma run_bind_eq_Inr: "run_bind r f = Inr y \<longleftrightarrow> (\<exists>x. r = Inr x \<and> f x = Inr y)"
  by (cases r) auto

lemma run_map_Inr [simp]: "run_map f (Inr x) = Inr (f x)"
  by (simp add: run_map_def)

lemma run_map_Inl [simp]: "run_map f (Inl p) = Inl p"
  by (simp add: run_map_def)

text \<open>The same operation called once per element of a list: the first panic ends the run.\<close>

fun run_all :: "('s \<Rightarrow> 'e \<Rightarrow> 's run) \<Rightarrow> 's \<Rightarrow> 'e list \<Rightarrow> 's run" where
  "run_all f s [] = Inr s"
| "run_all f s (e # es) = run_bind (f s e) (\<lambda>s'. run_all f s' es)"

text \<open>Slice indexing \<open>xs[i]\<close> and slice assignment \<open>xs[i] = v\<close>: out of range is a panic.\<close>

definition index_at :: "'a list \<Rightarrow> int \<Rightarrow> 'a run" where
  "index_at xs i = (if 0 \<le> i \<and> i < int (length xs) then Inr (xs ! nat i) else Inl IndexOutOfRange)"

definition update_at :: "'a list \<Rightarrow> int \<Rightarrow> 'a \<Rightarrow> 'a list run" where
  "update_at xs i v =
     (if 0 \<le> i \<and> i < int (length xs) then Inr (xs[nat i := v]) else Inl IndexOutOfRange)"

lemma index_at_nat [simp]: "i < length xs \<Longrightarrow> index_at xs (int i) = Inr (xs ! i)"
  by (simp add: index_at_def)

lemma update_at_nat [simp]: "i < length xs \<Longrightarrow> update_at xs (int i) v = Inr (xs[i := v])"
  by (simp add: update_at_def)

lemma index_at_out: "int (length xs) \<le> i \<Longrightarrow> index_at xs i = Inl IndexOutOfRange"
  by (simp add: index_at_def)

text \<open>Go's \<open>%\<close> on signed integers truncates towards zero and panics on a zero divisor.\<close>

definition go_rem :: "int \<Rightarrow> int \<Rightarrow> int run" where
  "go_rem a b = (if b = 0 then Inl IntegerDivideByZero else Inr (a smod b))"

lemma go_rem_nat [simp]: "0 < m \<Longrightarrow> go_rem (int a) (int m) = Inr (int (a mod m))"
  by (simp add: go_rem_def signed_modulo_int_def sgn_if zmod_int)

text \<open>Unsigned \<open>/\<close> and \<open>%\<close> panic on a zero divisor.\<close>

definition word_div :: "'w::len word \<Rightarrow> 'w word \<Rightarrow> 'w word run" where
  "word_div a b = (if b = 0 then Inl IntegerDivideByZero else Inr (a div b))"

definition word_rem :: "'w::len word \<Rightarrow> 'w word \<Rightarrow> 'w word run" where
  "word_rem a b = (if b = 0 then Inl IntegerDivideByZero else Inr (a mod b))"

lemma word_div_nonzero [simp]: "b \<noteq> 0 \<Longrightarrow> word_div a b = Inr (a div b)"
  by (simp add: word_div_def)

lemma word_rem_nonzero [simp]: "b \<noteq> 0 \<Longrightarrow> word_rem a b = Inr (a mod b)"
  by (simp add: word_rem_def)

text \<open>Division of durations truncates towards zero.\<close>

definition duration_div :: "Duration \<Rightarrow> Duration \<Rightarrow> Duration run" where
  "duration_div a b =
     (if b = 0 then Inl IntegerDivideByZero else Inr (word_of_int (sint a sdiv sint b)))"

section \<open>Decimal rendering\<close>

text \<open>\<open>strconv.FormatUint(n, 10)\<close>, and what \<open>%d\<close> prints for an unsigned integer.\<close>

definition digit_char :: "nat \<Rightarrow> char" where
  "digit_char d = char_of (48 + d)"

fun format_nat :: "nat \<Rightarrow> string" where
  "format_nat n = (if n < 10 then [digit_char n] else format_nat (n div 10) @ [digit_char (n mod 10)])"

declare format_nat.simps [simp del]

definition FormatUint :: "u64 \<Rightarrow> string" where
  "FormatUint w = format_nat (unat w)"

lemma digit_char_code: "d < 10 \<Longrightarrow> of_char (digit_char d) = (48 + d :: nat)"
  by (simp add: digit_char_def)

lemma format_nat_digits: "c \<in> set (format_nat n) \<Longrightarrow> \<exists>d<10. c = digit_char d"
proof (induction n rule: format_nat.induct)
  case (1 n)
  show ?case
  proof (cases "n < 10")
    case True
    with 1 show ?thesis by (auto simp: format_nat.simps [of n])
  next
    case False
    with 1 show ?thesis
      by (auto simp: format_nat.simps [of n] intro: exI [of _ "n mod 10"])
  qed
qed

lemma format_nat_not_in:
  assumes "of_char c < (48::nat) \<or> (57::nat) < of_char c"
  shows "c \<notin> set (format_nat n)"
proof
  assume "c \<in> set (format_nat n)"
  then obtain d where "d < 10" and "c = digit_char d"
    using format_nat_digits by blast
  with assms digit_char_code [of d] show False by simp
qed

lemma digit_char_inj: "d < 10 \<Longrightarrow> e < 10 \<Longrightarrow> digit_char d = digit_char e \<Longrightarrow> d = e"
  by (metis add_left_cancel digit_char_code)

lemma format_nat_nonempty: "format_nat n \<noteq> []"
  by (subst format_nat.simps) simp

lemma format_nat_inj: "format_nat m = format_nat n \<Longrightarrow> m = n"
proof (induction m arbitrary: n rule: format_nat.induct)
  case (1 m)
  show ?case
  proof (cases "m < 10")
    case True
    with "1.prems" show ?thesis
      using format_nat_nonempty [of "n div 10"]
      by (auto simp: format_nat.simps [of m] format_nat.simps [of n] split: if_splits
          dest: digit_char_inj)
  next
    case mge: False
    show ?thesis
    proof (cases "n < 10")
      case True
      with mge "1.prems" show ?thesis
        using format_nat_nonempty [of "m div 10"]
        by (auto simp: format_nat.simps [of m] format_nat.simps [of n])
    next
      case False
      with mge "1.prems" have "format_nat (m div 10) = format_nat (n div 10)"
        and "digit_char (m mod 10) = digit_char (n mod 10)"
        by (auto simp: format_nat.simps [of m] format_nat.simps [of n])
      moreover have "m div 10 = n div 10"
        using "1.IH" mge calculation(1) by blast
      moreover have "m mod 10 = n mod 10"
        using calculation(2) by (rule digit_char_inj [rotated 2]) simp_all
      ultimately show ?thesis by (metis div_mult_mod_eq)
    qed
  qed
qed

lemma FormatUint_inj: "FormatUint v = FormatUint w \<Longrightarrow> v = w"
  by (simp add: FormatUint_def format_nat_inj word_unat_eq_iff)

lemma FormatUint_not_in:
  "of_char c < (48::nat) \<or> (57::nat) < of_char c \<Longrightarrow> c \<notin> set (FormatUint w)"
  by (simp add: FormatUint_def format_nat_not_in)

text \<open>Two strings joined by a separator that the first parts do not hold split uniquely.\<close>

lemma split_at_separator:
  assumes "xs @ c # ys = xs' @ c # ys'" and "c \<notin> set xs" and "c \<notin> set xs'"
  shows "xs = xs' \<and> ys = ys'"
  using assms
proof (induction xs arbitrary: xs')
  case Nil
  then show ?case by (cases xs') auto
next
  case (Cons x xs)
  then show ?case by (cases xs') auto
qed

section \<open>Times and durations\<close>

definition nanosecond_bound :: int where
  "nanosecond_bound = 2 ^ 63"

definition Millisecond :: Duration where
  "Millisecond = 1000000"

definition Second :: Duration where
  "Second = 1000000000"

definition Minute :: Duration where
  "Minute = 60000000000"

definition Time_IsZero :: "Time \<Rightarrow> bool" where
  "Time_IsZero t \<longleftrightarrow> t = 0"

definition Time_Add :: "Time \<Rightarrow> Duration \<Rightarrow> Time" where
  "Time_Add t d = t + sint d"

text \<open>\<open>t.Sub(u)\<close> saturates at the largest and the smallest duration; \<open>time.Since(u)\<close> is
  \<open>now.Sub(u)\<close>.\<close>

definition Time_Sub :: "Time \<Rightarrow> Time \<Rightarrow> Duration" where
  "Time_Sub t u = word_of_int (max (- (2 ^ 63)) (min (2 ^ 63 - 1) (t - u)))"

text \<open>The Unix epoch, in nanoseconds since the zero time.\<close>

definition unix_epoch :: Time where
  "unix_epoch = 62135596800 * 1000000000"

definition Time_Unix :: "i64 \<Rightarrow> i64 \<Rightarrow> Time" where
  "Time_Unix sec nsec = unix_epoch + sint sec * 1000000000 + sint nsec"

definition Time_UnixMilli :: "Time \<Rightarrow> i64" where
  "Time_UnixMilli t = word_of_int ((t - unix_epoch) div 1000000)"

definition time_of_UnixMilli :: "i64 \<Rightarrow> Time" where
  "time_of_UnixMilli ms = unix_epoch + sint ms * 1000000"

lemma sint_word_of_int_64:
  "- (2 ^ 63) \<le> k \<Longrightarrow> k < 2 ^ 63 \<Longrightarrow> sint (word_of_int k :: 64 word) = k"
  by (simp add: signed_take_bit_int_eq_self_iff sint_sbintrunc')

lemma sint_Time_Sub:
  "sint (Time_Sub t u) = max (- (2 ^ 63)) (min (2 ^ 63 - 1) (t - u))"
  unfolding Time_Sub_def by (rule sint_word_of_int_64) (simp_all add: max_def min_def)

lemma time_UnixMilli_roundtrip: "Time_UnixMilli (time_of_UnixMilli ms) = ms"
  by (simp add: Time_UnixMilli_def time_of_UnixMilli_def)

section \<open>Generic lemmas\<close>

text \<open>Unsigned arithmetic read in \<open>nat\<close>.\<close>

lemma unat_less_64: "unat (w::u64) < 2 ^ 64"
  using unsigned_less [of w] by simp

lemma unat_less_32: "unat (w::u32) < 2 ^ 32"
  using unsigned_less [of w] by simp

lemma unat_diff_word: "(b::'w::len word) \<le> a \<Longrightarrow> unat (a - b) = unat a - unat b"
  by (simp add: unat_sub)

lemma unat_add_no_overflow:
  "unat (a::'w::len word) + unat b < 2 ^ LENGTH('w) \<Longrightarrow> unat (a + b) = unat a + unat b"
  by (simp add: unat_word_ariths(1))

lemma unat_sub_wraps:
  fixes a b :: "'w::len word"
  assumes "a < b"
  shows "unat (a - b) = 2 ^ LENGTH('w) + unat a - unat b"
proof -
  have "uint (a - b) = (uint a - uint b) mod 2 ^ LENGTH('w)"
    by (simp add: uint_word_ariths)
  also have "\<dots> = (uint a - uint b + 2 ^ LENGTH('w)) mod 2 ^ LENGTH('w)"
    by simp
  also have "\<dots> = uint a - uint b + 2 ^ LENGTH('w)"
  proof (rule mod_pos_pos_trivial)
    show "0 \<le> uint a - uint b + 2 ^ LENGTH('w)"
      using uint_lt2p [of b] uint_ge_0 [of a] by linarith
    show "uint a - uint b + 2 ^ LENGTH('w) < 2 ^ LENGTH('w)"
      using assms by (simp add: word_less_def)
  qed
  finally have "int (unat (a - b)) = int (unat a) - int (unat b) + int (2 ^ LENGTH('w))"
    by (simp only: uint_nat of_nat_power of_nat_numeral)
  then have "unat (a - b) + unat b = 2 ^ LENGTH('w) + unat a" by linarith
  then show ?thesis by linarith
qed

subsection \<open>Rings\<close>

text \<open>The position written \<open>i + 1\<close> writes before the next one, in a ring of \<open>W\<close> cells whose
  next write goes to \<open>p\<close>, and the last \<open>n\<close> cells written, most recent first.\<close>

definition back_pos :: "nat \<Rightarrow> nat \<Rightarrow> nat \<Rightarrow> nat" where
  "back_pos W p i = (p + W - 1 - i) mod W"

definition ring_window :: "(nat \<Rightarrow> 'a) \<Rightarrow> nat \<Rightarrow> nat \<Rightarrow> nat \<Rightarrow> 'a list" where
  "ring_window f W p n = map (\<lambda>i. f (back_pos W p i)) [0..<n]"

lemma back_pos_less [simp]: "0 < W \<Longrightarrow> back_pos W p i < W"
  by (simp add: back_pos_def)

lemma back_pos_0: "p < W \<Longrightarrow> back_pos W (Suc p mod W) 0 = p"
  by (cases "Suc p = W") (auto simp: back_pos_def)

lemma back_pos_Suc:
  assumes "p < W" "Suc i < W"
  shows "back_pos W (Suc p mod W) (Suc i) = back_pos W p i"
proof (cases "Suc p = W")
  case True
  with assms obtain d where d: "p = Suc i + d"
    by (metis Suc_less_eq less_iff_Suc_add add_Suc)
  have "(d + W) mod W = d" using True d by simp
  with True d show ?thesis by (simp add: back_pos_def add.commute)
next
  case False
  with assms show ?thesis by (simp add: back_pos_def)
qed

lemma back_pos_neq:
  assumes "p < W" "Suc i < W"
  shows "back_pos W p i \<noteq> p"
proof (cases "Suc i \<le> p")
  case True
  then have "back_pos W p i = (p - Suc i + W) mod W" using assms by (simp add: back_pos_def)
  also have "\<dots> = p - Suc i" using assms by simp
  finally show ?thesis using True by linarith
next
  case False
  then have "back_pos W p i = p + W - Suc i" using assms by (simp add: back_pos_def)
  with assms show ?thesis by simp
qed

lemma back_pos_last: "p < W \<Longrightarrow> back_pos W p (W - Suc 0) = p"
  by (auto simp: back_pos_def)

lemma length_ring_window [simp]: "length (ring_window f W p n) = n"
  by (simp add: ring_window_def)

lemma ring_window_0 [simp]: "ring_window f W p 0 = []"
  by (simp add: ring_window_def)

lemma ring_window_cong:
  "0 < W \<Longrightarrow> (\<And>k. k < W \<Longrightarrow> f k = g k) \<Longrightarrow> ring_window f W p n = ring_window g W p n"
  by (simp add: ring_window_def)

text \<open>Writing \<open>e\<close> at \<open>p\<close> and moving on puts \<open>e\<close> in front and drops what no longer fits.\<close>

lemma ring_window_write:
  assumes "p < W" "n \<le> W"
  shows "ring_window (f(p := e)) W (Suc p mod W) (min W (Suc n)) = take W (e # ring_window f W p n)"
proof (rule nth_equalityI)
  fix i assume "i < length (ring_window (f(p := e)) W (Suc p mod W) (min W (Suc n)))"
  then have i: "i < W" "i < Suc n" by simp_all
  show "ring_window (f(p := e)) W (Suc p mod W) (min W (Suc n)) ! i
      = take W (e # ring_window f W p n) ! i"
  proof (cases i)
    case 0
    with assms i show ?thesis by (simp add: ring_window_def back_pos_0)
  next
    case (Suc k)
    with assms i show ?thesis by (simp add: ring_window_def back_pos_Suc back_pos_neq)
  qed
qed simp

lemma ring_window_last:
  "p < W \<Longrightarrow> last (ring_window f W p W) = f p"
  using back_pos_last [of p W] by (cases W) (auto simp: ring_window_def)

lemma take_rev_step: "take W (rev es @ take W (e # ws)) = take W (rev (e # es) @ ws)"
  by (simp add: min_def take_take)

end
