(* ===== verification/BitRing.thy ===== *)
theory BitRing
  imports Prelude Complex_Main
begin

text \<open>
  \<open>internal/pkg/bitring/bitring.go\<close>: a sliding window of events kept as one bit per event in
  64-bit words. The record and the operations follow the Go type field by field; the abstract view
  is \<open>BitRing_window\<close>, the list of the last events, most recent first. The lemmas show that the
  bit operations read and write one bit, that \<open>Add\<close> is \<open>take windowSize (e # window)\<close> on
  the abstract view, that the event counter is the number of events of the window, and what
  \<open>ThresholdTriggering\<close> answers. A \<open>float64\<close> is a real number; the rounding of \<open>float64\<close>
  arithmetic is the parameter \<open>rnd\<close>.
\<close>

section \<open>The ring and its operations\<close>

definition bitsPerWord :: int where "bitsPerWord = 64"
definition bitsMask :: int where "bitsMask = bitsPerWord - 1"
definition bitsShift :: nat where "bitsShift = 6"
definition defaultWindowSize :: int where "defaultWindowSize = 128"
definition defaultMinConsecutive :: int where "defaultMinConsecutive = 3"

record BitRing =
  br_words :: "u64 list"
  br_windowSize :: int
  br_writePos :: int
  br_isFull :: bool
  br_eventCount :: int
  br_consecutiveThreshold :: int
  br_eventRateThreshold :: real

definition BitRing_bitAt :: "BitRing \<Rightarrow> int \<Rightarrow> bool run" where
  "BitRing_bitAt br index =
     (let pos = drop_bit bitsShift index;
          offset = nat (index AND bitsMask)
      in run_map (\<lambda>w. (drop_bit offset w) AND 1 = 1) (index_at (br_words br) pos))"

definition BitRing_setBit :: "BitRing \<Rightarrow> int \<Rightarrow> bool \<Rightarrow> BitRing run" where
  "BitRing_setBit br index val =
     (let pos = drop_bit bitsShift index;
          offset = nat (index AND bitsMask)
      in run_bind (index_at (br_words br) pos) (\<lambda>w.
         let w' = (if val then w OR push_bit offset 1 else w AND NOT (push_bit offset 1))
         in run_map (\<lambda>ws. br\<lparr>br_words := ws\<rparr>) (update_at (br_words br) pos w')))"

definition BitRing_Add :: "BitRing \<Rightarrow> bool \<Rightarrow> BitRing run" where
  "BitRing_Add br eventHappened =
     run_bind (BitRing_bitAt br (br_writePos br)) (\<lambda>oldBit.
     let br1 = (if br_isFull br \<and> oldBit then br\<lparr>br_eventCount := br_eventCount br - 1\<rparr> else br)
     in run_bind (BitRing_setBit br1 (br_writePos br1) eventHappened) (\<lambda>br2.
        let br3 = (if eventHappened then br2\<lparr>br_eventCount := br_eventCount br2 + 1\<rparr> else br2);
            br4 = br3\<lparr>br_writePos := br_writePos br3 + 1\<rparr>
        in Inr (if br_writePos br4 \<ge> br_windowSize br4
                then br4\<lparr>br_writePos := 0, br_isFull := True\<rparr> else br4)))"

definition BitRing_currWindowSize :: "BitRing \<Rightarrow> int" where
  "BitRing_currWindowSize br = (if br_isFull br then br_windowSize br else br_writePos br)"

text \<open>The loop over the last \<open>consecutiveThreshold\<close> positions: \<open>i\<close> is the loop variable and
  the last argument counts the iterations that are left.\<close>

fun BitRing_lastAll :: "BitRing \<Rightarrow> int \<Rightarrow> nat \<Rightarrow> bool run" where
  "BitRing_lastAll br i 0 = Inr True"
| "BitRing_lastAll br i (Suc n) =
     run_bind (go_rem (br_writePos br - i + br_windowSize br) (br_windowSize br)) (\<lambda>pos.
     run_bind (BitRing_bitAt br pos) (\<lambda>b.
     if b then BitRing_lastAll br (i + 1) n else Inr False))"

definition BitRing_ThresholdTriggering :: "(real \<Rightarrow> real) \<Rightarrow> BitRing \<Rightarrow> bool run" where
  "BitRing_ThresholdTriggering rnd br =
     (let currSize = BitRing_currWindowSize br in
      if currSize = 0 then Inr False
      else
        run_bind
          (if currSize \<ge> br_consecutiveThreshold br
           then BitRing_lastAll br 1 (nat (br_consecutiveThreshold br))
           else Inr False)
          (\<lambda>all. if all then Inr True
                 else Inr (rnd (rnd (of_int (br_eventCount br)) / rnd (of_int currSize))
                           > br_eventRateThreshold br)))"

definition NewBitRing :: "int \<Rightarrow> int \<Rightarrow> real \<Rightarrow> BitRing" where
  "NewBitRing windowSize consecutiveThreshold eventRateThreshold =
     (let windowSize = (if windowSize \<le> 0 then defaultWindowSize else windowSize);
          consecutiveThreshold =
            (if consecutiveThreshold \<le> 0 then defaultMinConsecutive else consecutiveThreshold);
          consecutiveThreshold =
            (if consecutiveThreshold > windowSize then windowSize else consecutiveThreshold);
          eventRateThreshold = (if eventRateThreshold > 1 then 1 else eventRateThreshold)
      in \<lparr>br_words = replicate (nat ((windowSize + bitsMask) div bitsPerWord)) 0,
          br_windowSize = windowSize, br_writePos = 0, br_isFull = False, br_eventCount = 0,
          br_consecutiveThreshold = consecutiveThreshold,
          br_eventRateThreshold = eventRateThreshold\<rparr>)"

section \<open>The abstract view\<close>

text \<open>The bit of position \<open>j\<close>, and the window: the last events, most recent first.\<close>

definition bit_of :: "u64 list \<Rightarrow> nat \<Rightarrow> bool" where
  "bit_of ws j = bit (ws ! (j div 64)) (j mod 64)"

definition BitRing_window :: "BitRing \<Rightarrow> bool list" where
  "BitRing_window br =
     ring_window (bit_of (br_words br)) (nat (br_windowSize br)) (nat (br_writePos br))
       (nat (BitRing_currWindowSize br))"

definition BitRing_inv :: "BitRing \<Rightarrow> bool" where
  "BitRing_inv br \<longleftrightarrow>
     0 < br_windowSize br \<and> 0 \<le> br_writePos br \<and> br_writePos br < br_windowSize br \<and>
     br_windowSize br \<le> 64 * int (length (br_words br)) \<and>
     0 < br_consecutiveThreshold br \<and> br_consecutiveThreshold br \<le> br_windowSize br \<and>
     br_eventCount br = int (count_list (BitRing_window br) True)"

section \<open>Bits\<close>

lemma index_split: "drop_bit bitsShift (int j) = int (j div 64)"
  "nat (int j AND bitsMask) = j mod 64"
proof -
  show "drop_bit bitsShift (int j) = int (j div 64)"
    by (simp add: bitsShift_def drop_bit_eq_div zdiv_int)
  have "int j AND (mask 6) = int j mod 64"
    by (simp add: take_bit_eq_mod flip: take_bit_eq_mask)
  then show "nat (int j AND bitsMask) = j mod 64"
    by (simp add: bitsMask_def bitsPerWord_def mask_eq_exp_minus_1 nat_mod_distrib)
qed

lemma drop_bit_and_1: "(drop_bit n w AND 1 = (1::u64)) = bit w n"
  by (simp add: bit_iff_odd_drop_bit and_one_eq odd_iff_mod_2_eq_one)

lemma bitAt_eq [run_simps]:
  "j < 64 * length (br_words br) \<Longrightarrow> BitRing_bitAt br (int j) = Inr (bit_of (br_words br) j)"
  by (simp add: BitRing_bitAt_def index_split bit_of_def Let_def drop_bit_and_1 less_mult_imp_div_less
      mult.commute)

definition write_bit :: "u64 list \<Rightarrow> nat \<Rightarrow> bool \<Rightarrow> u64 list" where
  "write_bit ws j v = ws[j div 64 :=
     (if v then ws ! (j div 64) OR push_bit (j mod 64) 1
      else ws ! (j div 64) AND NOT (push_bit (j mod 64) 1))]"

lemma length_write_bit [simp]: "length (write_bit ws j v) = length ws"
  by (simp add: write_bit_def)

lemma setBit_eq [run_simps]:
  "j < 64 * length (br_words br) \<Longrightarrow>
   BitRing_setBit br (int j) v = Inr (br\<lparr>br_words := write_bit (br_words br) j v\<rparr>)"
  by (simp add: BitRing_setBit_def index_split write_bit_def Let_def less_mult_imp_div_less
      mult.commute)

lemma div_mod_64_eq: "j div 64 = k div 64 \<Longrightarrow> j mod 64 = k mod (64::nat) \<Longrightarrow> j = k"
  by (metis div_mult_mod_eq)

lemma bit_of_write_bit:
  assumes "j < 64 * length ws"
  shows "bit_of (write_bit ws j v) k = (if k = j then v else bit_of ws k)"
proof -
  have len: "j div 64 < length ws" using assms by (simp add: less_mult_imp_div_less mult.commute)
  show ?thesis
  proof (cases "k div 64 = j div 64")
    case True
    have "k mod 64 < 64" "j mod 64 < 64" by simp_all
    with True len show ?thesis
      by (auto simp: bit_of_def write_bit_def bit_simps dest: div_mod_64_eq)
  next
    case False
    then show ?thesis by (auto simp: bit_of_def write_bit_def)
  qed
qed

section \<open>Adding an event\<close>

lemma next_pos: "p < W \<Longrightarrow> (if int p + 1 \<ge> int W then 0 else int p + 1) = int (Suc p mod W)"
  by (auto simp: mod_Suc)

text \<open>The state after \<open>Add\<close>, and the panics it cannot have.\<close>

definition BitRing_added :: "BitRing \<Rightarrow> bool \<Rightarrow> BitRing" where
  "BitRing_added br e =
     (let p = nat (br_writePos br); W = nat (br_windowSize br) in
      br\<lparr>br_words := write_bit (br_words br) p e,
         br_writePos := int (Suc p mod W),
         br_isFull := br_isFull br \<or> Suc p = W,
         br_eventCount := br_eventCount br
           - (if br_isFull br \<and> bit_of (br_words br) p then 1 else 0) + (if e then 1 else 0)\<rparr>)"

lemma BitRing_inv_nat:
  assumes "BitRing_inv br"
  obtains p W where "br_writePos br = int p" "br_windowSize br = int W" "p < W"
    "W \<le> 64 * length (br_words br)"
proof
  show "br_writePos br = int (nat (br_writePos br))" "br_windowSize br = int (nat (br_windowSize br))"
    using assms by (simp_all add: BitRing_inv_def)
  show "nat (br_writePos br) < nat (br_windowSize br)"
    "nat (br_windowSize br) \<le> 64 * length (br_words br)"
    using assms by (auto simp: BitRing_inv_def)
qed

lemma Add_eq:
  assumes "BitRing_inv br"
  shows "BitRing_Add br e = Inr (BitRing_added br e)"
proof -
  from assms obtain p W where pW: "br_writePos br = int p" "br_windowSize br = int W" "p < W"
    "W \<le> 64 * length (br_words br)" by (rule BitRing_inv_nat)
  then have "p < 64 * length (br_words br)" by simp
  with pW show ?thesis
    by (cases br) (auto simp: BitRing_Add_def BitRing_added_def run_simps Let_def mod_Suc)
qed

lemma BitRing_added_fields [simp]:
  "br_windowSize (BitRing_added br e) = br_windowSize br"
  "br_consecutiveThreshold (BitRing_added br e) = br_consecutiveThreshold br"
  "br_eventRateThreshold (BitRing_added br e) = br_eventRateThreshold br"
  "length (br_words (BitRing_added br e)) = length (br_words br)"
  by (simp_all add: BitRing_added_def Let_def)

lemma length_BitRing_window [simp]:
  "length (BitRing_window br) = nat (BitRing_currWindowSize br)"
  by (simp add: BitRing_window_def)

lemma currWindowSize_added:
  assumes "BitRing_inv br"
  shows "nat (BitRing_currWindowSize (BitRing_added br e))
       = min (nat (br_windowSize br)) (Suc (nat (BitRing_currWindowSize br)))"
proof -
  from assms obtain p W where "br_writePos br = int p" "br_windowSize br = int W" "p < W"
    by (rule BitRing_inv_nat)
  then show ?thesis
    by (auto simp: BitRing_currWindowSize_def BitRing_added_def Let_def mod_Suc)
qed

lemma window_added:
  assumes "BitRing_inv br"
  shows "BitRing_window (BitRing_added br e) = take (nat (br_windowSize br)) (e # BitRing_window br)"
proof -
  from assms obtain p W where pW: "br_writePos br = int p" "br_windowSize br = int W" "p < W"
    "W \<le> 64 * length (br_words br)" by (rule BitRing_inv_nat)
  have n: "nat (BitRing_currWindowSize br) \<le> W" using pW by (simp add: BitRing_currWindowSize_def)
  have bits: "bit_of (br_words (BitRing_added br e)) = (bit_of (br_words br))(p := e)"
    using pW by (intro ext) (simp add: BitRing_added_def bit_of_write_bit Let_def)
  have pos: "nat (br_writePos (BitRing_added br e)) = Suc p mod W"
    using pW by (simp add: BitRing_added_def Let_def)
  show ?thesis
    using ring_window_write [OF pW(3) n, of "bit_of (br_words br)" e] pW
    by (simp add: BitRing_window_def bits pos currWindowSize_added [OF assms])
qed

text \<open>The counter follows the window: the event that leaves a full ring is the oldest one.\<close>

lemma window_full_last:
  assumes "BitRing_inv br" and "br_isFull br"
  shows "BitRing_window br \<noteq> []"
    and "last (BitRing_window br) = bit_of (br_words br) (nat (br_writePos br))"
proof -
  from assms(1) obtain p W where pW: "br_writePos br = int p" "br_windowSize br = int W" "p < W"
    by (rule BitRing_inv_nat)
  with assms(2) have len: "length (BitRing_window br) = W"
    by (simp add: BitRing_currWindowSize_def)
  with pW(3) show "BitRing_window br \<noteq> []" by (metis list.size(3) not_less_zero)
  show "last (BitRing_window br) = bit_of (br_words br) (nat (br_writePos br))"
    using pW assms(2) by (simp add: BitRing_window_def BitRing_currWindowSize_def ring_window_last)
qed

lemma count_take_full:
  assumes "xs \<noteq> []"
  shows "int (count_list (take (length xs) (e # xs)) True)
       = int (count_list xs True) - (if last xs then 1 else 0) + (if e then 1 else 0)"
proof -
  from assms obtain ys y where "xs = ys @ [y]" by (cases xs rule: rev_cases) auto
  then show ?thesis by simp
qed

lemma eventCount_added:
  assumes "BitRing_inv br"
  shows "br_eventCount (BitRing_added br e)
       = int (count_list (BitRing_window (BitRing_added br e)) True)"
proof (cases "br_isFull br")
  case True
  from assms obtain p W where pW: "br_writePos br = int p" "br_windowSize br = int W" "p < W"
    by (rule BitRing_inv_nat)
  have len: "nat (br_windowSize br) = length (BitRing_window br)"
    using True by (simp add: BitRing_currWindowSize_def)
  note full = window_full_last [OF assms True]
  have "int (count_list (BitRing_window (BitRing_added br e)) True)
      = int (count_list (BitRing_window br) True) - (if last (BitRing_window br) then 1 else 0)
        + (if e then 1 else 0)"
    unfolding window_added [OF assms] len by (rule count_take_full [OF full(1)])
  with assms True full(2) show ?thesis
    by (simp add: BitRing_added_def BitRing_inv_def Let_def)
next
  case False
  from assms obtain p W where pW: "br_writePos br = int p" "br_windowSize br = int W" "p < W"
    by (rule BitRing_inv_nat)
  then have "length (e # BitRing_window br) \<le> nat (br_windowSize br)"
    using False by (simp add: BitRing_currWindowSize_def)
  then have "BitRing_window (BitRing_added br e) = e # BitRing_window br"
    unfolding window_added [OF assms] by (rule take_all)
  with assms False show ?thesis
    by (simp add: BitRing_added_def BitRing_inv_def Let_def)
qed

lemma BitRing_added_inv:
  assumes "BitRing_inv br"
  shows "BitRing_inv (BitRing_added br e)"
proof -
  from assms obtain p W where pW: "br_writePos br = int p" "br_windowSize br = int W" "p < W"
    by (rule BitRing_inv_nat)
  then have "0 \<le> br_writePos (BitRing_added br e)" "br_writePos (BitRing_added br e) < int W"
    by (simp_all add: BitRing_added_def Let_def)
  with assms pW eventCount_added [OF assms, of e] show ?thesis
    by (simp add: BitRing_inv_def)
qed

section \<open>The threshold\<close>

lemma lastAll_eq:
  assumes "br_writePos br = int p" "br_windowSize br = int W" "p < W"
    "W \<le> 64 * length (br_words br)" "i + n \<le> W"
  shows "BitRing_lastAll br (int (Suc i)) n
       = Inr (\<forall>k\<in>{i..<i + n}. bit_of (br_words br) (back_pos W p k))"
  using assms(5)
proof (induction n arbitrary: i)
  case 0
  then show ?case by simp
next
  case (Suc n)
  have pos: "br_writePos br - int (Suc i) + br_windowSize br = int (p + W - 1 - i)"
    using assms Suc.prems by simp
  have rem: "go_rem (br_writePos br - int (Suc i) + br_windowSize br) (br_windowSize br)
      = Inr (int (back_pos W p i))"
    unfolding pos using assms by (simp add: back_pos_def)
  have less: "back_pos W p i < 64 * length (br_words br)"
    using assms back_pos_less [of W p i] by linarith
  have IH: "BitRing_lastAll br (int (Suc i) + 1) n
      = Inr (\<forall>k\<in>{Suc i..<Suc i + n}. bit_of (br_words br) (back_pos W p k))"
    using Suc.IH [of "Suc i"] Suc.prems by (simp add: add.commute)
  have range: "{i..<i + Suc n} = insert i {Suc i..<Suc i + n}" by auto
  show ?case
    unfolding BitRing_lastAll.simps rem run_bind_Inr bitAt_eq [OF less] IH range by simp
qed

definition all_of :: "bool list \<Rightarrow> bool" where
  "all_of bs \<longleftrightarrow> list_all (\<lambda>b. b) bs"

lemma take_window:
  assumes "br_writePos br = int p" "br_windowSize br = int W"
    and "n \<le> nat (BitRing_currWindowSize br)"
  shows "all_of (take n (BitRing_window br))
      \<longleftrightarrow> (\<forall>k\<in>{0..<n}. bit_of (br_words br) (back_pos W p k))"
  using assms by (simp add: all_of_def BitRing_window_def ring_window_def take_map list_all_iff)

text \<open>What the code answers, on the abstract view: the \<open>c\<close> last events all happened, or the
  rounded event rate is above the threshold \<open>r\<close>.\<close>

definition threshold_spec :: "(real \<Rightarrow> real) \<Rightarrow> nat \<Rightarrow> real \<Rightarrow> bool list \<Rightarrow> bool" where
  "threshold_spec rnd c r window \<longleftrightarrow>
     window \<noteq> [] \<and>
     (c \<le> length window \<and> all_of (take c window) \<or>
      rnd (rnd (real (count_list window True)) / rnd (real (length window))) > r)"

lemma ThresholdTriggering_eq:
  assumes inv: "BitRing_inv br"
  shows "BitRing_ThresholdTriggering rnd br
       = Inr (threshold_spec rnd (nat (br_consecutiveThreshold br)) (br_eventRateThreshold br)
                (BitRing_window br))"
proof -
  from inv obtain p W where pW: "br_writePos br = int p" "br_windowSize br = int W" "p < W"
    "W \<le> 64 * length (br_words br)" by (rule BitRing_inv_nat)
  obtain c where c: "br_consecutiveThreshold br = int c" "c \<le> W" "0 < c"
    using inv pW by (metis BitRing_inv_def int_nat_eq nat_int zero_less_nat_eq less_imp_le
        of_nat_le_iff)
  obtain s where s: "BitRing_currWindowSize br = int s"
    using pW by (metis BitRing_currWindowSize_def)
  have len: "length (BitRing_window br) = s" using s by simp
  have cnt: "br_eventCount br = int (count_list (BitRing_window br) True)"
    using inv by (simp add: BitRing_inv_def)
  have all: "c \<le> s \<Longrightarrow> BitRing_lastAll br 1 c = Inr (all_of (take c (BitRing_window br)))"
    using lastAll_eq [OF pW, of 0 c] take_window [OF pW(1,2), of c] c s by simp
  have emp: "(BitRing_window br = []) = (s = 0)" using len by (metis length_0_conv)
  show ?thesis
    by (auto simp: BitRing_ThresholdTriggering_def threshold_spec_def s c cnt emp len all Let_def)
qed

section \<open>Whole runs\<close>

text \<open>The window size and the consecutive threshold the constructor settles on.\<close>

definition norm_windowSize :: "int \<Rightarrow> nat" where
  "norm_windowSize w = nat (if w \<le> 0 then defaultWindowSize else w)"

definition norm_consecutive :: "int \<Rightarrow> int \<Rightarrow> nat" where
  "norm_consecutive w c =
     min (nat (if c \<le> 0 then defaultMinConsecutive else c)) (norm_windowSize w)"

lemma NewBitRing_fields:
  "br_windowSize (NewBitRing w c r) = int (norm_windowSize w)"
  "br_consecutiveThreshold (NewBitRing w c r) = int (norm_consecutive w c)"
  "br_eventRateThreshold (NewBitRing w c r) = min r 1"
  "BitRing_window (NewBitRing w c r) = []"
  by (auto simp: NewBitRing_def Let_def norm_windowSize_def norm_consecutive_def min_def
      defaultWindowSize_def defaultMinConsecutive_def BitRing_window_def BitRing_currWindowSize_def)

lemma NewBitRing_inv: "BitRing_inv (NewBitRing w c r)"
proof -
  have "br_windowSize (NewBitRing w c r) \<le> 64 * int (length (br_words (NewBitRing w c r)))"
  proof -
    have "w \<le> 64 * ((w + 63) div 64)" by linarith
    then show ?thesis
      by (auto simp: NewBitRing_def Let_def bitsMask_def bitsPerWord_def defaultWindowSize_def)
  qed
  moreover have "0 < norm_consecutive w c" "norm_consecutive w c \<le> norm_windowSize w"
    "0 < norm_windowSize w"
    by (auto simp: norm_consecutive_def norm_windowSize_def defaultWindowSize_def
        defaultMinConsecutive_def)
  moreover have "br_writePos (NewBitRing w c r) = 0" "br_eventCount (NewBitRing w c r) = 0"
    by (simp_all add: NewBitRing_def Let_def)
  ultimately show ?thesis
    unfolding BitRing_inv_def NewBitRing_fields by simp
qed

lemma addAll_window:
  assumes "BitRing_inv br"
  shows "\<exists>br'. run_all BitRing_Add br es = Inr br' \<and> BitRing_inv br' \<and>
     BitRing_window br' = take (nat (br_windowSize br)) (rev es @ BitRing_window br) \<and>
     br_windowSize br' = br_windowSize br \<and>
     br_consecutiveThreshold br' = br_consecutiveThreshold br \<and>
     br_eventRateThreshold br' = br_eventRateThreshold br"
  using assms
proof (induction es arbitrary: br)
  case Nil
  then have "length (BitRing_window br) \<le> nat (br_windowSize br)"
    by (auto simp: BitRing_currWindowSize_def BitRing_inv_def)
  then show ?case using Nil by simp
next
  case (Cons e es)
  have inv: "BitRing_inv (BitRing_added br e)" using Cons.prems by (rule BitRing_added_inv)
  show ?case
    using Cons.IH [OF inv] unfolding window_added [OF Cons.prems] take_rev_step
    by (simp add: Add_eq [OF Cons.prems])
qed

section \<open>Properties\<close>

text \<open>C35. After any sequence of \<open>Add\<close> calls on a ring made by \<open>NewBitRing\<close> with any
  arguments, no call has panicked, the ring shows exactly the last \<open>windowSize\<close> events, most recent
  first, and the event counter is the number of those that happened.\<close>

theorem BitRing_history:
  "\<exists>br. run_all BitRing_Add (NewBitRing w c r) es = Inr br \<and>
     BitRing_window br = take (norm_windowSize w) (rev es) \<and>
     br_eventCount br = int (count_list (take (norm_windowSize w) (rev es)) True)"
proof -
  obtain br where br: "run_all BitRing_Add (NewBitRing w c r) es = Inr br" "BitRing_inv br"
    "BitRing_window br = take (norm_windowSize w) (rev es)"
    using addAll_window [OF NewBitRing_inv, of w c r es] by (auto simp: NewBitRing_fields)
  then show ?thesis by (auto simp: BitRing_inv_def)
qed

text \<open>What \<open>ThresholdTriggering\<close> answers after any events: it never panics, and it is true
  exactly when the ring holds at least the consecutive threshold of events and the last ones all
  happened, or the rounded rate of the events in the window is above the configured rate (capped
  at 1); an empty ring never triggers.\<close>

theorem BitRing_threshold:
  "run_bind (run_all BitRing_Add (NewBitRing w c r) es) (BitRing_ThresholdTriggering rnd)
   = Inr (threshold_spec rnd (norm_consecutive w c) (min r 1) (take (norm_windowSize w) (rev es)))"
proof -
  obtain br where br: "run_all BitRing_Add (NewBitRing w c r) es = Inr br" "BitRing_inv br"
    "BitRing_window br = take (norm_windowSize w) (rev es)"
    "br_consecutiveThreshold br = int (norm_consecutive w c)" "br_eventRateThreshold br = min r 1"
    using addAll_window [OF NewBitRing_inv, of w c r es] by (auto simp: NewBitRing_fields)
  then show ?thesis by (simp add: ThresholdTriggering_eq)
qed

end
