(* ===== verification/RingBuffer.thy ===== *)
theory RingBuffer
  imports Prelude
begin

text \<open>
  \<open>internal/pkg/ringbuffer/ringbuffer.go\<close> and its twin \<open>internal/pkg/buffer/ring_buffer.go\<close>: a
  ring of the last durations with their sum and average. Each package has its own record and
  operations (\<open>RingBuffer_*\<close> and \<open>Buffer_*\<close>). The locale \<open>duration_ring\<close> is the interface
  their clients rely on: the window of the last \<open>size\<close> durations, most recent first, and how each
  operation acts on it. Both packages interpret it, so that the averages they report are those of
  the window.
\<close>

section \<open>The interface\<close>

text \<open>\<open>sum / time.Duration(count)\<close> over a window: the sum wraps at 64 bits.\<close>

definition window_avg :: "Duration list \<Rightarrow> Duration" where
  "window_avg ds =
     (if ds = [] then 0
      else word_of_int (sint (sum_list ds) sdiv sint (word_of_int (int (length ds)) :: Duration)))"

locale duration_ring =
  fixes add :: "'r \<Rightarrow> Duration \<Rightarrow> 'r run"
    and avg :: "'r \<Rightarrow> Duration run"
    and reset :: "'r \<Rightarrow> 'r run"
    and size_of :: "'r \<Rightarrow> int"
    and count_of :: "'r \<Rightarrow> int"
    and window :: "'r \<Rightarrow> Duration list"
    and inv :: "'r \<Rightarrow> bool"
  assumes size_pos: "inv r \<Longrightarrow> 0 < size_of r"
    and window_le: "inv r \<Longrightarrow> length (window r) \<le> nat (size_of r)"
    and count_window: "inv r \<Longrightarrow> count_of r = int (length (window r))"
    and avg_window: "inv r \<Longrightarrow> avg r = Inr (window_avg (window r))"
    and add_window: "inv r \<Longrightarrow> \<exists>r'. add r d = Inr r' \<and> inv r' \<and> size_of r' = size_of r \<and>
          window r' = take (nat (size_of r)) (d # window r)"
    and reset_window: "inv r \<Longrightarrow> \<exists>r'. reset r = Inr r' \<and> inv r' \<and> size_of r' = size_of r \<and>
          window r' = []"
begin

lemma add_all_window:
  "inv r \<Longrightarrow> \<exists>r'. run_all add r ds = Inr r' \<and> inv r' \<and> size_of r' = size_of r \<and>
     window r' = take (nat (size_of r)) (rev ds @ window r)"
proof (induction ds arbitrary: r)
  case Nil
  then show ?case using window_le [OF Nil] by simp
next
  case (Cons d ds)
  obtain r1 where r1: "add r d = Inr r1" "inv r1" "size_of r1 = size_of r"
    "window r1 = take (nat (size_of r)) (d # window r)"
    using add_window [OF Cons.prems] by blast
  from Cons.IH [OF r1(2)] show ?case
    unfolding r1(3,4) take_rev_step by (simp add: r1(1))
qed

lemma add_all_observed:
  assumes "inv r" "window r = []"
  shows "\<exists>r'. run_all add r ds = Inr r' \<and>
     count_of r' = int (min (length ds) (nat (size_of r))) \<and>
     avg r' = Inr (window_avg (take (nat (size_of r)) (rev ds)))"
  using add_all_window [OF assms(1), of ds] assms(2)
  by (auto simp: avg_window count_window)

end

section \<open>Package ringbuffer\<close>

datatype ringbuffer_error = ErrInvalidBufferSize

record RingBuffer =
  rb_buffer :: "Duration list"
  rb_size :: int
  rb_count :: int
  rb_writePos :: int
  rb_sum :: Duration

definition RingBuffer_Add :: "RingBuffer \<Rightarrow> Duration \<Rightarrow> RingBuffer run" where
  "RingBuffer_Add rb d =
     run_bind
       (if rb_count rb = rb_size rb
        then run_map (\<lambda>old. rb\<lparr>rb_sum := rb_sum rb - old\<rparr>) (index_at (rb_buffer rb) (rb_writePos rb))
        else Inr (rb\<lparr>rb_count := rb_count rb + 1\<rparr>))
       (\<lambda>rb. run_bind (update_at (rb_buffer rb) (rb_writePos rb) d)
       (\<lambda>buf. let rb = rb\<lparr>rb_buffer := buf, rb_sum := rb_sum rb + d\<rparr> in
         run_map (\<lambda>pos. rb\<lparr>rb_writePos := pos\<rparr>) (go_rem (rb_writePos rb + 1) (rb_size rb))))"

definition RingBuffer_Avg :: "RingBuffer \<Rightarrow> Duration run" where
  "RingBuffer_Avg rb =
     (if rb_count rb = 0 then Inr 0 else duration_div (rb_sum rb) (word_of_int (rb_count rb)))"

text \<open>The loop of \<open>Reset\<close>: \<open>i\<close> is the loop variable, the last argument the iterations left.\<close>

fun clear_from :: "Duration list \<Rightarrow> int \<Rightarrow> nat \<Rightarrow> Duration list run" where
  "clear_from buf i 0 = Inr buf"
| "clear_from buf i (Suc n) = run_bind (update_at buf i 0) (\<lambda>buf'. clear_from buf' (i + 1) n)"

definition RingBuffer_Reset :: "RingBuffer \<Rightarrow> RingBuffer run" where
  "RingBuffer_Reset rb =
     run_map (\<lambda>buf. rb\<lparr>rb_buffer := buf, rb_sum := 0, rb_count := 0, rb_writePos := 0\<rparr>)
       (clear_from (rb_buffer rb) 0 (nat (rb_size rb)))"

definition RingBuffer_Size :: "RingBuffer \<Rightarrow> int" where
  "RingBuffer_Size rb = rb_size rb"

definition RingBuffer_Count :: "RingBuffer \<Rightarrow> int" where
  "RingBuffer_Count rb = rb_count rb"

text \<open>\<open>NewTimeDurationRingBuffer(size int)\<close>; Go's \<open>int\<close> argument has 64 bits.\<close>

definition NewRingBuffer :: "i64 \<Rightarrow> ringbuffer_error + RingBuffer" where
  "NewRingBuffer sz =
     (if sint sz \<le> 0 then Inl ErrInvalidBufferSize
      else Inr \<lparr>rb_buffer = replicate (nat (sint sz)) 0, rb_size = sint sz, rb_count = 0,
                rb_writePos = 0, rb_sum = 0\<rparr>)"

section \<open>Package buffer\<close>

record Buffer =
  tb_size :: int
  tb_count :: int
  tb_writePos :: int
  tb_buffer :: "Duration list"
  tb_sum :: Duration

definition Buffer_Add :: "Buffer \<Rightarrow> Duration \<Rightarrow> Buffer run" where
  "Buffer_Add b d =
     run_bind
       (if tb_count b = tb_size b
        then run_map (\<lambda>old. b\<lparr>tb_sum := tb_sum b - old\<rparr>) (index_at (tb_buffer b) (tb_writePos b))
        else Inr (b\<lparr>tb_count := tb_count b + 1\<rparr>))
       (\<lambda>b. run_bind (update_at (tb_buffer b) (tb_writePos b) d)
       (\<lambda>buf. let b = b\<lparr>tb_buffer := buf, tb_sum := tb_sum b + d\<rparr> in
         run_map (\<lambda>pos. b\<lparr>tb_writePos := pos\<rparr>) (go_rem (tb_writePos b + 1) (tb_size b))))"

definition Buffer_Avg :: "Buffer \<Rightarrow> Duration run" where
  "Buffer_Avg b =
     (if tb_count b = 0 then Inr 0 else duration_div (tb_sum b) (word_of_int (tb_count b)))"

definition Buffer_Reset :: "Buffer \<Rightarrow> Buffer run" where
  "Buffer_Reset b =
     run_map (\<lambda>buf. b\<lparr>tb_buffer := buf, tb_sum := 0, tb_count := 0, tb_writePos := 0\<rparr>)
       (clear_from (tb_buffer b) 0 (nat (tb_size b)))"

definition Buffer_Size :: "Buffer \<Rightarrow> int" where
  "Buffer_Size b = tb_size b"

definition Buffer_Count :: "Buffer \<Rightarrow> int" where
  "Buffer_Count b = tb_count b"

definition NewBuffer :: "i64 \<Rightarrow> Buffer run" where
  "NewBuffer sz =
     (if sint sz \<le> 0 then Inl (PanicMessage ''[jotify] buffer size must be greater than zero'')
      else Inr \<lparr>tb_size = sint sz, tb_count = 0, tb_writePos = 0,
                tb_buffer = replicate (nat (sint sz)) 0, tb_sum = 0\<rparr>)"

section \<open>The packages implement the interface\<close>

text \<open>The cells a ring of \<open>n\<close> durations occupies: while it is not full the next write position
  is the number of durations, and the sum is the sum of the window.\<close>

definition ring_state_ok :: "Duration list \<Rightarrow> int \<Rightarrow> int \<Rightarrow> int \<Rightarrow> Duration \<Rightarrow> bool" where
  "ring_state_ok buf sz n p s \<longleftrightarrow>
     0 < sz \<and> sz < 2 ^ 63 \<and> int (length buf) = sz \<and> 0 \<le> n \<and> n \<le> sz \<and> 0 \<le> p \<and> p < sz \<and>
     s = sum_list (ring_window ((!) buf) (nat sz) (nat p) (nat n))"

lemma ring_state_nat:
  assumes "ring_state_ok buf sz n p s"
  obtains N P W where "n = int N" "p = int P" "sz = int W" "P < W" "N \<le> W" "length buf = W"
    "int W < 2 ^ 63" "s = sum_list (ring_window ((!) buf) W P N)"
proof
  show "n = int (nat n)" "p = int (nat p)" "sz = int (nat sz)" "nat p < nat sz" "nat n \<le> nat sz"
    "length buf = nat sz" "int (nat sz) < 2 ^ 63"
    "s = sum_list (ring_window ((!) buf) (nat sz) (nat p) (nat n))"
    using assms by (auto simp: ring_state_ok_def)
qed

lemma nth_upd_fun: "P < length buf \<Longrightarrow> (!) (buf[P := d]) = ((!) buf)(P := d)"
  by (intro ext) (auto simp: nth_list_update)

lemma sum_list_take_full:
  fixes d :: "'a::ab_group_add"
  assumes "xs \<noteq> []"
  shows "sum_list (take (length xs) (d # xs)) = sum_list xs - last xs + d"
proof -
  from assms obtain ys y where "xs = ys @ [y]" by (cases xs rule: rev_cases) auto
  then show ?thesis by simp
qed

lemma ring_sum_write:
  fixes buf :: "Duration list"
  assumes "P < W" "N \<le> W" "length buf = W"
  shows "sum_list (ring_window ((!) (buf[P := d])) W (Suc P mod W) (min W (Suc N)))
       = sum_list (ring_window ((!) buf) W P N) - (if N = W then buf ! P else 0) + d"
proof (cases "N = W")
  case True
  let ?ws = "ring_window ((!) buf) W P W"
  have ne: "?ws \<noteq> []" using assms(1) by (metis length_ring_window list.size(3) not_less_zero)
  have "sum_list (take (length ?ws) (d # ?ws)) = sum_list ?ws - buf ! P + d"
    using sum_list_take_full [OF ne, of d] ring_window_last [OF assms(1)] by simp
  then show ?thesis
    using ring_window_write [OF assms(1,2), of "(!) buf" d] assms True by (simp add: nth_upd_fun)
next
  case False
  then have "Suc N \<le> W" using assms(2) by simp
  then have "take W (d # ring_window ((!) buf) W P N) = d # ring_window ((!) buf) W P N"
    by (intro take_all) simp
  then show ?thesis
    using ring_window_write [OF assms(1,2), of "(!) buf" d] assms False by (simp add: nth_upd_fun)
qed

lemma avg_of_ring:
  assumes "int N < 2 ^ 63" "length ds = N"
  shows "(if int N = 0 then Inr 0 else duration_div (sum_list ds) (word_of_int (int N)))
       = (Inr (window_avg ds) :: Duration run)"
proof (cases "N = 0")
  case True
  with assms show ?thesis by (simp add: window_avg_def)
next
  case False
  have "sint (word_of_int (int N) :: Duration) = int N"
    using assms by (intro sint_word_of_int_64) simp_all
  then have "(word_of_int (int N) :: Duration) \<noteq> 0" using False by (metis of_nat_eq_0_iff sint_0)
  with False assms show ?thesis by (auto simp: duration_div_def window_avg_def)
qed

lemma clear_from_all:
  "i + n \<le> length buf \<Longrightarrow>
   clear_from buf (int i) n = Inr (take i buf @ replicate n 0 @ drop (i + n) buf)"
proof (induction n arbitrary: i buf)
  case 0
  then show ?case by simp
next
  case (Suc n)
  have "clear_from buf (int i) (Suc n) = clear_from (buf[i := 0]) (int (Suc i)) n"
    using Suc.prems by (simp add: add.commute)
  also have "\<dots> = Inr (take (Suc i) (buf[i := 0]) @ replicate n 0 @ drop (Suc i + n) (buf[i := 0]))"
    using Suc.prems by (intro Suc.IH) simp
  also have "take (Suc i) (buf[i := 0]) = take i buf @ [0]"
    using Suc.prems by (simp add: take_Suc_conv_app_nth)
  finally show ?case using Suc.prems by (simp add: drop_update_cancel)
qed

lemma ring_state_write:
  assumes "ring_state_ok buf (int W) (int N) (int P) s" "P < W" "N \<le> W" "length buf = W"
  shows "ring_state_ok (buf[P := d]) (int W) (int (min W (Suc N))) (int (Suc P mod W))
           (s - (if N = W then buf ! P else 0) + d)"
  using assms ring_sum_write [OF assms(2-4), of d] by (auto simp: ring_state_ok_def)

lemma ring_state_clear:
  "0 < W \<Longrightarrow> int W < 2 ^ 63 \<Longrightarrow> ring_state_ok (replicate W 0) (int W) 0 0 0"
  by (simp add: ring_state_ok_def)

definition RingBuffer_inv :: "RingBuffer \<Rightarrow> bool" where
  "RingBuffer_inv rb \<longleftrightarrow>
     ring_state_ok (rb_buffer rb) (rb_size rb) (rb_count rb) (rb_writePos rb) (rb_sum rb)"

definition RingBuffer_window :: "RingBuffer \<Rightarrow> Duration list" where
  "RingBuffer_window rb =
     ring_window ((!) (rb_buffer rb)) (nat (rb_size rb)) (nat (rb_writePos rb)) (nat (rb_count rb))"

lemma RingBuffer_Add_eq:
  assumes "rb_count rb = int N" "rb_writePos rb = int P" "rb_size rb = int W" "P < W"
    "N \<le> W" "length (rb_buffer rb) = W"
  shows "RingBuffer_Add rb d = Inr (rb\<lparr>rb_buffer := (rb_buffer rb)[P := d],
     rb_count := int (min W (Suc N)), rb_writePos := int (Suc P mod W),
     rb_sum := rb_sum rb - (if N = W then rb_buffer rb ! P else 0) + d\<rparr>)"
proof -
  have "go_rem (int P + 1) (int W) = Inr (int (Suc P mod W))"
    using go_rem_nat [of W "Suc P"] assms by (simp add: add.commute)
  with assms show ?thesis
    by (cases rb) (auto simp: RingBuffer_Add_def Let_def min_def not_le)
qed

lemma RingBuffer_add_window:
  assumes "RingBuffer_inv rb"
  shows "\<exists>rb'. RingBuffer_Add rb d = Inr rb' \<and> RingBuffer_inv rb' \<and>
     RingBuffer_Size rb' = RingBuffer_Size rb \<and>
     RingBuffer_window rb' = take (nat (RingBuffer_Size rb)) (d # RingBuffer_window rb)"
proof -
  from assms obtain N P W where eq: "rb_count rb = int N" "rb_writePos rb = int P"
    "rb_size rb = int W" "P < W" "N \<le> W" "length (rb_buffer rb) = W"
    unfolding RingBuffer_inv_def by (rule ring_state_nat)
  have ok: "ring_state_ok (rb_buffer rb) (int W) (int N) (int P) (rb_sum rb)"
    using assms eq by (simp add: RingBuffer_inv_def)
  show ?thesis
    using ring_state_write [OF ok eq(4-6), of d]
      ring_window_write [OF eq(4,5), of "(!) (rb_buffer rb)" d] eq
    by (simp add: RingBuffer_Add_eq [OF eq] RingBuffer_inv_def RingBuffer_window_def
        RingBuffer_Size_def nth_upd_fun)
qed

lemma RingBuffer_reset_window:
  assumes "RingBuffer_inv rb"
  shows "\<exists>rb'. RingBuffer_Reset rb = Inr rb' \<and> RingBuffer_inv rb' \<and>
     RingBuffer_Size rb' = RingBuffer_Size rb \<and> RingBuffer_window rb' = []"
proof -
  from assms obtain N P W where eq: "rb_count rb = int N" "rb_writePos rb = int P"
    "rb_size rb = int W" "P < W" "N \<le> W" "length (rb_buffer rb) = W" "int W < 2 ^ 63"
    unfolding RingBuffer_inv_def by (rule ring_state_nat)
  have "clear_from (rb_buffer rb) 0 W = Inr (replicate W 0)"
    using clear_from_all [of 0 W "rb_buffer rb"] eq by simp
  then show ?thesis
    using eq ring_state_clear [of W]
    by (simp add: RingBuffer_Reset_def RingBuffer_inv_def RingBuffer_window_def RingBuffer_Size_def)
qed

lemma RingBuffer_avg_window:
  assumes "RingBuffer_inv rb"
  shows "RingBuffer_Avg rb = Inr (window_avg (RingBuffer_window rb))"
proof -
  from assms obtain N P W where eq: "rb_count rb = int N" "rb_writePos rb = int P"
    "rb_size rb = int W" "P < W" "N \<le> W" "length (rb_buffer rb) = W" "int W < 2 ^ 63"
    "rb_sum rb = sum_list (ring_window ((!) (rb_buffer rb)) W P N)"
    unfolding RingBuffer_inv_def by (rule ring_state_nat)
  show ?thesis
    unfolding RingBuffer_Avg_def RingBuffer_window_def eq(1-3,8) nat_int
    by (rule avg_of_ring) (use eq in simp_all)
qed

interpretation rb: duration_ring RingBuffer_Add RingBuffer_Avg RingBuffer_Reset RingBuffer_Size
  RingBuffer_Count RingBuffer_window RingBuffer_inv
  by unfold_locales
    (auto simp: RingBuffer_avg_window RingBuffer_add_window RingBuffer_reset_window,
     auto simp: RingBuffer_inv_def RingBuffer_window_def RingBuffer_Size_def RingBuffer_Count_def
       ring_state_ok_def)

definition Buffer_inv :: "Buffer \<Rightarrow> bool" where
  "Buffer_inv b \<longleftrightarrow> ring_state_ok (tb_buffer b) (tb_size b) (tb_count b) (tb_writePos b) (tb_sum b)"

definition Buffer_window :: "Buffer \<Rightarrow> Duration list" where
  "Buffer_window b =
     ring_window ((!) (tb_buffer b)) (nat (tb_size b)) (nat (tb_writePos b)) (nat (tb_count b))"

lemma Buffer_Add_eq:
  assumes "tb_count b = int N" "tb_writePos b = int P" "tb_size b = int W" "P < W"
    "N \<le> W" "length (tb_buffer b) = W"
  shows "Buffer_Add b d = Inr (b\<lparr>tb_buffer := (tb_buffer b)[P := d],
     tb_count := int (min W (Suc N)), tb_writePos := int (Suc P mod W),
     tb_sum := tb_sum b - (if N = W then tb_buffer b ! P else 0) + d\<rparr>)"
proof -
  have "go_rem (int P + 1) (int W) = Inr (int (Suc P mod W))"
    using go_rem_nat [of W "Suc P"] assms by (simp add: add.commute)
  with assms show ?thesis
    by (cases b) (auto simp: Buffer_Add_def Let_def min_def not_le)
qed

lemma Buffer_add_window:
  assumes "Buffer_inv b"
  shows "\<exists>b'. Buffer_Add b d = Inr b' \<and> Buffer_inv b' \<and> Buffer_Size b' = Buffer_Size b \<and>
     Buffer_window b' = take (nat (Buffer_Size b)) (d # Buffer_window b)"
proof -
  from assms obtain N P W where eq: "tb_count b = int N" "tb_writePos b = int P"
    "tb_size b = int W" "P < W" "N \<le> W" "length (tb_buffer b) = W"
    unfolding Buffer_inv_def by (rule ring_state_nat)
  have ok: "ring_state_ok (tb_buffer b) (int W) (int N) (int P) (tb_sum b)"
    using assms eq by (simp add: Buffer_inv_def)
  show ?thesis
    using ring_state_write [OF ok eq(4-6), of d]
      ring_window_write [OF eq(4,5), of "(!) (tb_buffer b)" d] eq
    by (simp add: Buffer_Add_eq [OF eq] Buffer_inv_def Buffer_window_def Buffer_Size_def nth_upd_fun)
qed

lemma Buffer_reset_window:
  assumes "Buffer_inv b"
  shows "\<exists>b'. Buffer_Reset b = Inr b' \<and> Buffer_inv b' \<and> Buffer_Size b' = Buffer_Size b \<and>
     Buffer_window b' = []"
proof -
  from assms obtain N P W where eq: "tb_count b = int N" "tb_writePos b = int P"
    "tb_size b = int W" "P < W" "N \<le> W" "length (tb_buffer b) = W" "int W < 2 ^ 63"
    unfolding Buffer_inv_def by (rule ring_state_nat)
  have "clear_from (tb_buffer b) 0 W = Inr (replicate W 0)"
    using clear_from_all [of 0 W "tb_buffer b"] eq by simp
  then show ?thesis
    using eq ring_state_clear [of W]
    by (simp add: Buffer_Reset_def Buffer_inv_def Buffer_window_def Buffer_Size_def)
qed

lemma Buffer_avg_window:
  assumes "Buffer_inv b"
  shows "Buffer_Avg b = Inr (window_avg (Buffer_window b))"
proof -
  from assms obtain N P W where eq: "tb_count b = int N" "tb_writePos b = int P"
    "tb_size b = int W" "P < W" "N \<le> W" "length (tb_buffer b) = W" "int W < 2 ^ 63"
    "tb_sum b = sum_list (ring_window ((!) (tb_buffer b)) W P N)"
    unfolding Buffer_inv_def by (rule ring_state_nat)
  show ?thesis
    unfolding Buffer_Avg_def Buffer_window_def eq(1-3,8) nat_int
    by (rule avg_of_ring) (use eq in simp_all)
qed

interpretation tb: duration_ring Buffer_Add Buffer_Avg Buffer_Reset Buffer_Size
  Buffer_Count Buffer_window Buffer_inv
  by unfold_locales
    (auto simp: Buffer_avg_window Buffer_add_window Buffer_reset_window,
     auto simp: Buffer_inv_def Buffer_window_def Buffer_Size_def Buffer_Count_def ring_state_ok_def)

section \<open>Properties\<close>

lemma NewRingBuffer_inv: "NewRingBuffer sz = Inr rb \<Longrightarrow> RingBuffer_inv rb \<and> RingBuffer_window rb = []
    \<and> RingBuffer_Size rb = sint sz \<and> 0 < sint sz"
  using sint_lt [of sz]
  by (auto simp: NewRingBuffer_def RingBuffer_inv_def RingBuffer_window_def RingBuffer_Size_def
      ring_state_ok_def split: if_splits)

lemma NewBuffer_inv: "NewBuffer sz = Inr b \<Longrightarrow> Buffer_inv b \<and> Buffer_window b = []
    \<and> Buffer_Size b = sint sz \<and> 0 < sint sz"
  using sint_lt [of sz]
  by (auto simp: NewBuffer_def Buffer_inv_def Buffer_window_def Buffer_Size_def
      ring_state_ok_def split: if_splits)

text \<open>For every size argument and every sequence of durations: the constructor refuses exactly
  the sizes that are not positive, and otherwise no \<open>Add\<close> panics, \<open>Count\<close> is the number of
  retained durations and \<open>Avg\<close> is the truncated average of the last \<open>size\<close> durations.\<close>

theorem RingBuffer_history:
  "case NewRingBuffer sz of
     Inl e \<Rightarrow> sint sz \<le> 0
   | Inr rb \<Rightarrow> \<exists>rb'. 0 < sint sz \<and> run_all RingBuffer_Add rb ds = Inr rb' \<and>
       RingBuffer_Count rb' = int (min (length ds) (nat (sint sz))) \<and>
       RingBuffer_Avg rb' = Inr (window_avg (take (nat (sint sz)) (rev ds)))"
proof (cases "NewRingBuffer sz")
  case (Inl e)
  then show ?thesis by (auto simp: NewRingBuffer_def split: if_splits)
next
  case (Inr r)
  from NewRingBuffer_inv [OF Inr] rb.add_all_observed [of r ds] show ?thesis by (auto simp: Inr)
qed

text \<open>The two packages compute the same averages: on every size and every sequence of durations
  the ring of package \<open>buffer\<close> gives what the ring of package \<open>ringbuffer\<close> gives, and where the one
  returns an error from its constructor the other panics.\<close>

theorem Buffer_equivalent:
  "run_bind (NewBuffer sz) (\<lambda>b. run_bind (run_all Buffer_Add b ds) Buffer_Avg)
   = (case NewRingBuffer sz of
        Inl e \<Rightarrow> Inl (PanicMessage ''[jotify] buffer size must be greater than zero'')
      | Inr rb \<Rightarrow> run_bind (run_all RingBuffer_Add rb ds) RingBuffer_Avg)"
proof (cases "0 < sint sz")
  case True
  then obtain b r where b: "NewBuffer sz = Inr b" and r: "NewRingBuffer sz = Inr r"
    by (auto simp: NewBuffer_def NewRingBuffer_def)
  from NewBuffer_inv [OF b] tb.add_all_observed [of b ds]
    NewRingBuffer_inv [OF r] rb.add_all_observed [of r ds]
  show ?thesis by (auto simp: b r)
next
  case False
  then show ?thesis by (simp add: NewBuffer_def NewRingBuffer_def)
qed

text \<open>The sum of a window does not wrap when the real sum fits.\<close>

lemma sum_list_word: "sum_list ds = (word_of_int (sum_list (map sint ds)) :: Duration)"
  by (induction ds) (simp_all flip: wi_hom_add)

lemma sum_list_between:
  fixes f :: "'a \<Rightarrow> int"
  assumes "\<forall>d\<in>set ds. lo \<le> f d \<and> f d \<le> hi"
  shows "lo * int (length ds) \<le> sum_list (map f ds) \<and> sum_list (map f ds) \<le> hi * int (length ds)"
  using assms by (induction ds) (auto simp: algebra_simps)

lemma window_avg_between:
  assumes "ds \<noteq> []" "\<forall>d\<in>set ds. lo \<le> sint d \<and> sint d \<le> hi" "0 \<le> lo"
    and "hi * int (length ds) < 2 ^ 63" "int (length ds) < 2 ^ 63"
  shows "lo \<le> sint (window_avg ds) \<and> sint (window_avg ds) \<le> hi"
proof -
  let ?S = "sum_list (map sint ds)" and ?n = "int (length ds)"
  have n: "0 < ?n" using assms(1) by simp
  have S: "lo * ?n \<le> ?S" "?S \<le> hi * ?n" using sum_list_between [OF assms(2)] by auto
  have "0 \<le> lo * ?n" using assms(3) by simp
  then have S0: "0 \<le> ?S" "?S < 2 ^ 63" using S assms(4) by linarith+
  have "sint (sum_list ds) = ?S"
    unfolding sum_list_word by (rule sint_word_of_int_64) (use S0 in simp_all)
  moreover have "sint (word_of_int ?n :: Duration) = ?n"
    using assms(5) by (intro sint_word_of_int_64) simp_all
  moreover have "?S sdiv ?n = ?S div ?n"
    using S0 n by (simp add: signed_divide_int_def sgn_if)
  ultimately have avg: "window_avg ds = word_of_int (?S div ?n)"
    using assms(1) by (simp add: window_avg_def)
  have "lo * ?n div ?n \<le> ?S div ?n" "?S div ?n \<le> hi * ?n div ?n"
    using S n by (simp_all only: zdiv_mono1)
  then have d: "lo \<le> ?S div ?n" "?S div ?n \<le> hi" using n by simp_all
  have "?S div ?n \<le> ?S div 1" using S0 n by (intro zdiv_mono2) linarith+
  then have "?S div ?n < 2 ^ 63" using S0 by simp
  then have "sint (window_avg ds) = ?S div ?n"
    unfolding avg using d assms(3) by (intro sint_word_of_int_64) simp_all
  with d show ?thesis by simp
qed

text \<open>When the retained durations lie between \<open>lo\<close> and \<open>hi\<close>, none is negative and their sum fits
  in 64 bits, the average lies between \<open>lo\<close> and \<open>hi\<close> as well: no wrap-around shows.\<close>

theorem RingBuffer_avg_between:
  assumes "NewRingBuffer sz = Inr rb" "ds \<noteq> []" "0 \<le> lo"
    and "\<forall>d\<in>set ds. lo \<le> sint d \<and> sint d \<le> hi" "hi * sint sz < 2 ^ 63"
  shows "\<exists>a. run_bind (run_all RingBuffer_Add rb ds) RingBuffer_Avg = Inr a \<and>
     lo \<le> sint a \<and> sint a \<le> hi"
proof -
  let ?ws = "take (nat (sint sz)) (rev ds)"
  note new = NewRingBuffer_inv [OF assms(1)]
  have hi: "0 \<le> hi" using assms(2-4) by (cases ds) auto
  have "length ?ws \<le> nat (sint sz)" by simp
  then have len: "int (length ?ws) \<le> sint sz"
    using new by (metis le_nat_iff less_imp_le)
  have "hi * int (length ?ws) \<le> hi * sint sz" using hi len by (rule mult_left_mono [rotated])
  moreover have "int (length ?ws) < 2 ^ 63" using len sint_lt [of sz] by simp
  moreover have "?ws \<noteq> []" using assms(2) new by simp
  moreover have "\<forall>d\<in>set ?ws. lo \<le> sint d \<and> sint d \<le> hi"
    using assms(4) by (auto dest: in_set_takeD)
  ultimately have "lo \<le> sint (window_avg ?ws) \<and> sint (window_avg ?ws) \<le> hi"
    using assms(3,5) by (intro window_avg_between) auto
  with rb.add_all_observed [of rb ds] new show ?thesis by auto
qed

lemma RingBuffer_avg_between_witness:
  "\<exists>rb a. NewRingBuffer 2 = Inr rb \<and>
     run_bind (run_all RingBuffer_Add rb [10, 20, 40]) RingBuffer_Avg = Inr a \<and>
     10 \<le> sint a \<and> sint a \<le> 40"
proof -
  obtain rb where rb: "NewRingBuffer 2 = Inr rb" by (simp add: NewRingBuffer_def)
  show ?thesis
    using RingBuffer_avg_between [OF rb, of "[10, 20, 40]" 10 40] by (simp add: rb)
qed

end
