(* ===== verification/Adjuster.thy ===== *)
theory Adjuster
  imports Prelude RingBuffer
begin

text \<open>
  \<open>internal/pkg/batch\<close>: the batch-size adjusters. \<open>FixedAdjuster\<close> is \<open>fixed/fixed_step_adjuster.go\<close>
  (compares the response time with two thresholds), \<open>SlideAdjuster\<close> is
  \<open>slidewindow/slide_window_adjuster.go\<close> (compares it with the average of the ring buffer). A call
  takes the two clock readings it makes: \<open>since\<close> for \<open>time.Since\<close> and \<open>now\<close> for \<open>time.Now\<close>; the
  \<open>error\<close> result of \<open>Adjust\<close> is always nil and is left out. The locale \<open>size_adjuster\<close> is the
  contract of the interface \<open>batch.Adjuster\<close>, and both adjusters interpret it: a call grows, shrinks
  or keeps the size, and when neither \<open>maxSize + adjustStep\<close> nor \<open>minSize + 1 - adjustStep\<close>
  wraps around, the size stays between \<open>minSize\<close> and \<open>maxSize\<close>.
\<close>

section \<open>The contract of batch.Adjuster\<close>

definition size_grown :: "u64 \<Rightarrow> u64 \<Rightarrow> u64 \<Rightarrow> u64" where
  "size_grown hi step c = (if c < hi then min (c + step) hi else c)"

definition size_shrunk :: "u64 \<Rightarrow> u64 \<Rightarrow> u64 \<Rightarrow> u64" where
  "size_shrunk lo step c = (if c > lo then max (c - step) lo else c)"

text \<open>One call of \<open>Adjust\<close>: the clock readings and the response time.\<close>

record adjust_call =
  call_since :: Time
  call_now :: Time
  call_resp :: Duration

definition step_fits :: "u64 \<Rightarrow> u64 \<Rightarrow> u64 \<Rightarrow> bool" where
  "step_fits lo hi step \<longleftrightarrow>
     lo \<le> hi \<and> unat step \<le> Suc (unat lo) \<and> unat hi + unat step < 2 ^ 64"

lemma size_grown_between:
  assumes "step_fits lo hi step" "lo \<le> c" "c \<le> hi"
  shows "c \<le> size_grown hi step c \<and> size_grown hi step c \<le> hi"
proof -
  have "unat c + unat step < 2 ^ LENGTH(64)"
    using assms by (simp add: step_fits_def word_le_nat_alt)
  then have "unat (c + step) = unat c + unat step" by (rule unat_add_no_overflow)
  then have "c \<le> c + step" by (simp add: word_le_nat_alt)
  with assms(3) show ?thesis by (auto simp: size_grown_def min_def)
qed

lemma size_shrunk_between:
  assumes "step_fits lo hi step" "lo \<le> c" "c \<le> hi"
  shows "lo \<le> size_shrunk lo step c \<and> size_shrunk lo step c \<le> c"
proof (cases "c > lo")
  case True
  then have "step \<le> c" using assms by (simp add: step_fits_def word_le_nat_alt word_less_nat_alt)
  then have "c - step \<le> c" by (simp add: word_le_nat_alt unat_diff_word)
  with True assms(2) show ?thesis by (auto simp: size_shrunk_def max_def)
next
  case False
  with assms show ?thesis by (simp add: size_shrunk_def)
qed

locale size_adjuster =
  fixes adjust :: "'a \<Rightarrow> Time \<Rightarrow> Time \<Rightarrow> Duration \<Rightarrow> ('a \<times> u64) run"
    and curr :: "'a \<Rightarrow> u64"
    and lo :: "'a \<Rightarrow> u64"
    and hi :: "'a \<Rightarrow> u64"
    and step :: "'a \<Rightarrow> u64"
    and ok :: "'a \<Rightarrow> bool"
  assumes adjust_step: "ok a \<Longrightarrow> \<exists>a'. adjust a since now resp = Inr (a', curr a') \<and> ok a' \<and>
      lo a' = lo a \<and> hi a' = hi a \<and> step a' = step a \<and>
      curr a' \<in> {curr a, size_grown (hi a) (step a) (curr a), size_shrunk (lo a) (step a) (curr a)}"
begin

lemma adjust_between:
  assumes "ok a" "step_fits (lo a) (hi a) (step a)" "lo a \<le> curr a" "curr a \<le> hi a"
  shows "\<exists>a'. adjust a since now resp = Inr (a', curr a') \<and> ok a' \<and> lo a' = lo a \<and> hi a' = hi a \<and>
     step a' = step a \<and> lo a \<le> curr a' \<and> curr a' \<le> hi a"
proof -
  obtain a' where a': "adjust a since now resp = Inr (a', curr a')" "ok a'" "lo a' = lo a"
    "hi a' = hi a" "step a' = step a" "curr a' \<in>
      {curr a, size_grown (hi a) (step a) (curr a), size_shrunk (lo a) (step a) (curr a)}"
    using adjust_step [OF assms(1), of since now resp] by blast
  have "lo a \<le> curr a'" "curr a' \<le> hi a"
    using a'(6) size_grown_between [OF assms(2-4)] size_shrunk_between [OF assms(2-4)] assms(3,4)
    by auto
  with a' show ?thesis by blast
qed

text \<open>A run of calls keeps the size within its bounds.\<close>

lemma run_between:
  assumes "ok a" "step_fits (lo a) (hi a) (step a)" "lo a \<le> curr a" "curr a \<le> hi a"
  shows "\<exists>a'. run_all (\<lambda>a c. run_map fst (adjust a (call_since c) (call_now c) (call_resp c))) a cs
       = Inr a' \<and> ok a' \<and> lo a \<le> curr a' \<and> curr a' \<le> hi a"
  using assms
proof (induction cs arbitrary: a)
  case Nil
  then show ?case by simp
next
  case (Cons c cs)
  obtain a1 where a1: "adjust a (call_since c) (call_now c) (call_resp c) = Inr (a1, curr a1)"
    "ok a1" "lo a1 = lo a" "hi a1 = hi a" "step a1 = step a" "lo a \<le> curr a1" "curr a1 \<le> hi a"
    using adjust_between [OF Cons.prems] by blast
  show ?case
    using Cons.IH [of a1] Cons.prems(2) a1 by simp
qed

end

section \<open>The fixed-step adjuster\<close>

record FixedAdjuster =
  fa_currSize :: u64
  fa_minSize :: u64
  fa_maxSize :: u64
  fa_adjustStep :: u64
  fa_lastAdjustTime :: Time
  fa_minAdjustInterval :: Duration
  fa_fastThreshold :: Duration
  fa_slowThreshold :: Duration

definition FixedAdjuster_Adjust ::
    "FixedAdjuster \<Rightarrow> Time \<Rightarrow> Time \<Rightarrow> Duration \<Rightarrow> FixedAdjuster \<times> u64" where
  "FixedAdjuster_Adjust a since now respTime =
     (if \<not> Time_IsZero (fa_lastAdjustTime a) \<and>
         Time_Sub since (fa_lastAdjustTime a) <s fa_minAdjustInterval a
      then (a, fa_currSize a)
      else if respTime <s fa_fastThreshold a then
        (let a = (if fa_currSize a < fa_maxSize a
                  then a\<lparr>fa_currSize := min (fa_currSize a + fa_adjustStep a) (fa_maxSize a),
                         fa_lastAdjustTime := now\<rparr>
                  else a)
         in (a, fa_currSize a))
      else
        (let a = (if fa_slowThreshold a <s respTime then
                    (if fa_currSize a > fa_minSize a
                     then a\<lparr>fa_currSize := max (fa_currSize a - fa_adjustStep a) (fa_minSize a),
                            fa_lastAdjustTime := now\<rparr>
                     else a)
                  else a)
         in (a, fa_currSize a)))"

definition NewFixedAdjuster ::
    "u64 \<Rightarrow> u64 \<Rightarrow> u64 \<Rightarrow> u64 \<Rightarrow> Duration \<Rightarrow> Duration \<Rightarrow> Duration \<Rightarrow> FixedAdjuster" where
  "NewFixedAdjuster initSize minSize maxSize adjustStep minAdjustInterval fastThreshold
     slowThreshold =
     (let initSize = (if initSize < minSize then minSize else initSize);
          initSize = (if initSize > maxSize then maxSize else initSize)
      in \<lparr>fa_currSize = initSize, fa_minSize = minSize, fa_maxSize = maxSize,
          fa_adjustStep = adjustStep, fa_lastAdjustTime = 0,
          fa_minAdjustInterval = minAdjustInterval, fa_fastThreshold = fastThreshold,
          fa_slowThreshold = slowThreshold\<rparr>)"

interpretation fixed_adj: size_adjuster "\<lambda>a since now resp. Inr (FixedAdjuster_Adjust a since now resp)"
  fa_currSize fa_minSize fa_maxSize fa_adjustStep "\<lambda>_. True"
  by unfold_locales
    (auto simp: FixedAdjuster_Adjust_def Let_def size_grown_def size_shrunk_def)

section \<open>The sliding-window adjuster\<close>

record SlideAdjuster =
  sa_currSize :: u64
  sa_minSize :: u64
  sa_maxSize :: u64
  sa_adjustStep :: u64
  sa_lastAdjustTime :: Time
  sa_buffer :: RingBuffer
  sa_minAdjustInterval :: Duration

definition SlideAdjuster_Adjust ::
    "SlideAdjuster \<Rightarrow> Time \<Rightarrow> Time \<Rightarrow> Duration \<Rightarrow> (SlideAdjuster \<times> u64) run" where
  "SlideAdjuster_Adjust a since now respTime =
     run_bind (RingBuffer_Add (sa_buffer a) respTime) (\<lambda>buf.
     let a = a\<lparr>sa_buffer := buf\<rparr> in
     if RingBuffer_Count (sa_buffer a) < RingBuffer_Size (sa_buffer a) then Inr (a, sa_currSize a)
     else if \<not> Time_IsZero (sa_lastAdjustTime a) \<and>
         Time_Sub since (sa_lastAdjustTime a) <s sa_minAdjustInterval a
     then Inr (a, sa_currSize a)
     else run_bind (RingBuffer_Avg (sa_buffer a)) (\<lambda>avg.
       if respTime <s avg then
         (let a = (if sa_currSize a < sa_maxSize a
                   then a\<lparr>sa_currSize := min (sa_currSize a + sa_adjustStep a) (sa_maxSize a),
                          sa_lastAdjustTime := now\<rparr>
                   else a)
          in Inr (a, sa_currSize a))
       else
         (let a = (if avg <s respTime then
                     (if sa_currSize a > sa_minSize a
                      then a\<lparr>sa_currSize := max (sa_currSize a - sa_adjustStep a) (sa_minSize a),
                             sa_lastAdjustTime := now\<rparr>
                      else a)
                   else a)
          in Inr (a, sa_currSize a))))"

definition NewSlideAdjuster ::
    "i64 \<Rightarrow> u64 \<Rightarrow> u64 \<Rightarrow> u64 \<Rightarrow> u64 \<Rightarrow> Duration \<Rightarrow> ringbuffer_error + SlideAdjuster" where
  "NewSlideAdjuster bufferSize initSize minSize maxSize adjustStep minAdjustInterval =
     (let initSize = (if initSize < minSize then minSize else initSize);
          initSize = (if initSize > maxSize then maxSize else initSize)
      in case NewRingBuffer bufferSize of
           Inl err \<Rightarrow> Inl err
         | Inr buffer \<Rightarrow>
             Inr \<lparr>sa_currSize = initSize, sa_minSize = minSize, sa_maxSize = maxSize,
                  sa_adjustStep = adjustStep, sa_lastAdjustTime = 0, sa_buffer = buffer,
                  sa_minAdjustInterval = minAdjustInterval\<rparr>)"

text \<open>What a call does, on the window of the ring: nothing before the window is full or while the
  last change is too recent, else it compares the response time with the new average.\<close>

definition slide_spec :: "SlideAdjuster \<Rightarrow> Duration list \<Rightarrow> Time \<Rightarrow> Duration \<Rightarrow> u64" where
  "slide_spec a window since resp =
     (if length window < nat (RingBuffer_Size (sa_buffer a)) \<or>
         (sa_lastAdjustTime a \<noteq> 0 \<and> Time_Sub since (sa_lastAdjustTime a) <s sa_minAdjustInterval a)
      then sa_currSize a
      else if resp <s window_avg window then size_grown (sa_maxSize a) (sa_adjustStep a) (sa_currSize a)
      else if window_avg window <s resp then size_shrunk (sa_minSize a) (sa_adjustStep a) (sa_currSize a)
      else sa_currSize a)"

lemma SlideAdjuster_step:
  assumes "RingBuffer_inv (sa_buffer a)"
  shows "\<exists>a'. SlideAdjuster_Adjust a since now resp = Inr (a', sa_currSize a') \<and>
     RingBuffer_inv (sa_buffer a') \<and>
     RingBuffer_window (sa_buffer a')
       = take (nat (RingBuffer_Size (sa_buffer a))) (resp # RingBuffer_window (sa_buffer a)) \<and>
     RingBuffer_Size (sa_buffer a') = RingBuffer_Size (sa_buffer a) \<and>
     sa_minSize a' = sa_minSize a \<and> sa_maxSize a' = sa_maxSize a \<and>
     sa_adjustStep a' = sa_adjustStep a \<and> sa_minAdjustInterval a' = sa_minAdjustInterval a \<and>
     sa_currSize a' = slide_spec a (RingBuffer_window (sa_buffer a')) since resp \<and>
     sa_lastAdjustTime a' \<in> {sa_lastAdjustTime a, now}"
proof -
  obtain buf where buf: "RingBuffer_Add (sa_buffer a) resp = Inr buf" "RingBuffer_inv buf"
    "RingBuffer_Size buf = RingBuffer_Size (sa_buffer a)" "RingBuffer_window buf
       = take (nat (RingBuffer_Size (sa_buffer a))) (resp # RingBuffer_window (sa_buffer a))"
    using rb.add_window [OF assms] by blast
  note count = rb.count_window [OF buf(2)] and avg = rb.avg_window [OF buf(2)]
  have lt: "RingBuffer_Count buf < RingBuffer_Size buf \<longleftrightarrow>
      length (RingBuffer_window buf) < nat (RingBuffer_Size (sa_buffer a))"
    using rb.size_pos [OF buf(2)] buf(3) count by auto
  show ?thesis
    unfolding SlideAdjuster_Adjust_def buf(1) run_bind_Inr Let_def slide_spec_def
    using buf(2,3) buf(4) [symmetric] avg lt
    by (auto simp: Time_IsZero_def size_grown_def size_shrunk_def)
qed

interpretation slide_adj: size_adjuster SlideAdjuster_Adjust
  sa_currSize sa_minSize sa_maxSize sa_adjustStep "\<lambda>a. RingBuffer_inv (sa_buffer a)"
proof unfold_locales
  fix a :: SlideAdjuster and since now resp
  assume "RingBuffer_inv (sa_buffer a)"
  from SlideAdjuster_step [OF this, of since now resp]
  show "\<exists>a'. SlideAdjuster_Adjust a since now resp = Inr (a', sa_currSize a') \<and>
      RingBuffer_inv (sa_buffer a') \<and> sa_minSize a' = sa_minSize a \<and> sa_maxSize a' = sa_maxSize a \<and>
      sa_adjustStep a' = sa_adjustStep a \<and>
      sa_currSize a' \<in> {sa_currSize a, size_grown (sa_maxSize a) (sa_adjustStep a) (sa_currSize a),
        size_shrunk (sa_minSize a) (sa_adjustStep a) (sa_currSize a)}"
    by (auto simp: slide_spec_def)
qed

section \<open>Properties\<close>

definition fixed_call :: "FixedAdjuster \<Rightarrow> adjust_call \<Rightarrow> FixedAdjuster run" where
  "fixed_call a c = Inr (fst (FixedAdjuster_Adjust a (call_since c) (call_now c) (call_resp c)))"

definition slide_call :: "SlideAdjuster \<Rightarrow> adjust_call \<Rightarrow> SlideAdjuster run" where
  "slide_call a c = run_map fst (SlideAdjuster_Adjust a (call_since c) (call_now c) (call_resp c))"

lemma NewFixedAdjuster_between:
  "lo \<le> hi \<Longrightarrow> lo \<le> fa_currSize (NewFixedAdjuster i lo hi st mi f s) \<and>
     fa_currSize (NewFixedAdjuster i lo hi st mi f s) \<le> hi"
  by (auto simp: NewFixedAdjuster_def Let_def)

lemma NewFixedAdjuster_fields [simp]:
  "fa_minSize (NewFixedAdjuster i lo hi st mi f s) = lo"
  "fa_maxSize (NewFixedAdjuster i lo hi st mi f s) = hi"
  "fa_adjustStep (NewFixedAdjuster i lo hi st mi f s) = st"
  by (simp_all add: NewFixedAdjuster_def Let_def)

text \<open>The fixed-step adjuster keeps the batch size between its bounds, over every sequence of
  calls and clock readings, when the bounds are ordered and the step neither overflows above
  \<open>maxSize\<close> nor exceeds \<open>minSize + 1\<close>.\<close>

theorem FixedAdjuster_between:
  assumes "step_fits lo hi st"
  shows "\<exists>a. run_all fixed_call (NewFixedAdjuster i lo hi st mi f s) cs = Inr a \<and>
     lo \<le> fa_currSize a \<and> fa_currSize a \<le> hi"
proof -
  have calls: "(\<lambda>a c. run_map fst (Inr (FixedAdjuster_Adjust a (call_since c) (call_now c) (call_resp c))))
      = fixed_call" by (simp add: fun_eq_iff fixed_call_def)
  have "lo \<le> hi" using assms by (simp add: step_fits_def)
  with assms fixed_adj.run_between [of "NewFixedAdjuster i lo hi st mi f s" cs, unfolded calls]
    NewFixedAdjuster_between [of lo hi i st mi f s]
  show ?thesis by auto
qed

lemma FixedAdjuster_between_witness:
  "step_fits 5 100 6 \<and>
   (\<exists>a. run_all fixed_call (NewFixedAdjuster 10 5 100 6 0 50 80)
      [\<lparr>call_since = 1, call_now = 2, call_resp = 90\<rparr>,
       \<lparr>call_since = 3, call_now = 4, call_resp = 90\<rparr>] = Inr a \<and>
     5 \<le> fa_currSize a \<and> fa_currSize a \<le> 100)"
proof -
  have fits: "step_fits 5 100 6" by (simp add: step_fits_def)
  show ?thesis using fits FixedAdjuster_between [OF fits] by blast
qed

text \<open>The sliding-window adjuster keeps the batch size between its bounds over every sequence of
  calls, under the same condition on the step; no call panics.\<close>

theorem SlideAdjuster_between:
  assumes "NewSlideAdjuster bs i lo hi st mi = Inr a" and "step_fits lo hi st"
  shows "\<exists>a'. run_all slide_call a cs = Inr a' \<and> lo \<le> sa_currSize a' \<and> sa_currSize a' \<le> hi"
proof -
  have calls: "(\<lambda>a c. run_map fst (SlideAdjuster_Adjust a (call_since c) (call_now c) (call_resp c)))
      = slide_call" by (simp add: fun_eq_iff slide_call_def)
  have "lo \<le> hi" using assms by (simp add: step_fits_def)
  with assms(1) have "RingBuffer_inv (sa_buffer a)" "sa_minSize a = lo" "sa_maxSize a = hi"
    "sa_adjustStep a = st" "lo \<le> sa_currSize a" "sa_currSize a \<le> hi"
    by (auto simp: NewSlideAdjuster_def Let_def NewRingBuffer_inv split: sum.splits if_splits)
  with assms(2) slide_adj.run_between [of a cs, unfolded calls] show ?thesis by auto
qed

lemma SlideAdjuster_between_witness:
  "\<exists>a. NewSlideAdjuster 2 10 5 100 6 0 = Inr a \<and>
     (\<exists>a'. run_all slide_call a
       [\<lparr>call_since = 1, call_now = 2, call_resp = 90\<rparr>,
        \<lparr>call_since = 3, call_now = 4, call_resp = 80\<rparr>] = Inr a' \<and>
       5 \<le> sa_currSize a' \<and> sa_currSize a' \<le> 100)"
proof -
  obtain a where a: "NewSlideAdjuster 2 10 5 100 6 0 = Inr a"
    by (simp add: NewSlideAdjuster_def NewRingBuffer_def)
  have fits: "step_fits 5 100 6" by (simp add: step_fits_def)
  show ?thesis using a SlideAdjuster_between [OF a fits] by blast
qed

text \<open>Without that condition the size leaves its bounds: from \<open>minSize + 1\<close> one slow response
  with a larger step wraps below zero and the batch size jumps above \<open>maxSize\<close>.\<close>

theorem FixedAdjuster_underflow:
  assumes "unat lo + 1 < unat st" "unat lo + 1 \<le> unat hi" "unat hi + unat st \<le> 2 ^ 64 + unat lo"
    and "s <s resp" "\<not> resp <s f"
  shows "hi < snd (FixedAdjuster_Adjust (NewFixedAdjuster (lo + 1) lo hi st mi f s) since now resp)"
proof -
  have lo1: "unat (lo + 1) = unat lo + 1"
    using assms(2) unat_less_64 [of hi] by (subst unat_add_no_overflow) auto
  then have c: "lo < lo + 1" "lo + 1 \<le> hi" "lo + 1 < st"
    using assms by (simp_all add: word_less_nat_alt word_le_nat_alt)
  have "unat (lo + 1 - st) = 2 ^ 64 + (unat lo + 1) - unat st"
    using unat_sub_wraps [OF c(3)] lo1 by simp
  then have "unat hi < unat (lo + 1 - st)" using assms unat_less_64 [of st] by simp
  then have "hi < lo + 1 - st" by (simp add: word_less_nat_alt)
  moreover have "snd (FixedAdjuster_Adjust (NewFixedAdjuster (lo + 1) lo hi st mi f s) since now resp)
      = max (lo + 1 - st) lo"
    using c assms(4,5)
    by (auto simp: FixedAdjuster_Adjust_def NewFixedAdjuster_def Let_def Time_IsZero_def)
  ultimately show ?thesis by (simp add: less_max_iff_disj)
qed

lemma FixedAdjuster_underflow_witness:
  "100 < snd (FixedAdjuster_Adjust (NewFixedAdjuster (5 + 1) 5 100 10 0 50 80) 1 2 90)"
  by (rule FixedAdjuster_underflow) (simp_all add: word_sless_alt)

text \<open>What the sliding-window adjuster answers after any history of calls: it compares the
  response time with the average of the last \<open>bufferSize\<close> response times, the new one included,
  and only once that many have been seen and the last change is old enough.\<close>

theorem SlideAdjuster_history:
  assumes "NewSlideAdjuster bs i lo hi st mi = Inr a"
  shows "\<exists>a1 a2. run_all slide_call a cs = Inr a1 \<and>
     SlideAdjuster_Adjust a1 since now resp = Inr (a2, sa_currSize a2) \<and>
     sa_currSize a2
       = slide_spec a1 (take (nat (sint bs)) (resp # rev (map call_resp cs))) since resp"
proof -
  have run: "\<exists>a'. run_all slide_call a cs = Inr a' \<and> RingBuffer_inv (sa_buffer a') \<and>
      RingBuffer_Size (sa_buffer a') = RingBuffer_Size (sa_buffer a) \<and>
      RingBuffer_window (sa_buffer a') = take (nat (RingBuffer_Size (sa_buffer a)))
        (rev (map call_resp cs) @ RingBuffer_window (sa_buffer a))"
    if "RingBuffer_inv (sa_buffer a)" for a
    using that
  proof (induction cs arbitrary: a)
    case Nil
    then show ?case using rb.window_le [OF Nil] by simp
  next
    case (Cons c cs)
    obtain a1 where a1: "SlideAdjuster_Adjust a (call_since c) (call_now c) (call_resp c)
        = Inr (a1, sa_currSize a1)" "RingBuffer_inv (sa_buffer a1)"
      "RingBuffer_window (sa_buffer a1) = take (nat (RingBuffer_Size (sa_buffer a)))
         (call_resp c # RingBuffer_window (sa_buffer a))"
      "RingBuffer_Size (sa_buffer a1) = RingBuffer_Size (sa_buffer a)"
      using SlideAdjuster_step [OF Cons.prems] by blast
    have step: "slide_call a c = Inr a1" by (simp add: slide_call_def a1(1))
    show ?case
      using Cons.IH [OF a1(2)] unfolding a1(3,4) list.map take_rev_step by (simp add: step)
  qed
  have a: "RingBuffer_inv (sa_buffer a)" "RingBuffer_window (sa_buffer a) = []"
    "RingBuffer_Size (sa_buffer a) = sint bs"
    using assms NewRingBuffer_inv [of bs "sa_buffer a"]
    by (auto simp: NewSlideAdjuster_def Let_def split: sum.splits if_splits)
  obtain a1 where a1: "run_all slide_call a cs = Inr a1" "RingBuffer_inv (sa_buffer a1)"
    "RingBuffer_Size (sa_buffer a1) = sint bs"
    "RingBuffer_window (sa_buffer a1) = take (nat (sint bs)) (rev (map call_resp cs))"
    using run [OF a(1)] a by auto
  obtain a2 where a2: "SlideAdjuster_Adjust a1 since now resp = Inr (a2, sa_currSize a2)"
    "RingBuffer_window (sa_buffer a2)
       = take (nat (sint bs)) (resp # take (nat (sint bs)) (rev (map call_resp cs)))"
    "sa_currSize a2 = slide_spec a1 (RingBuffer_window (sa_buffer a2)) since resp"
    using SlideAdjuster_step [OF a1(2), of since now resp] a1(3,4) by auto
  have "take W (x # take W xs) = take W (x # xs)" for W and x :: Duration and xs
    using take_rev_step [of W "[]" x xs] by (cases W) (simp_all add: min_def)
  with a1 a2 show ?thesis by auto
qed

lemma SlideAdjuster_history_witness:
  "\<exists>a a1 a2. NewSlideAdjuster 1 10 5 100 6 0 = Inr a \<and>
     run_all slide_call a [\<lparr>call_since = 1, call_now = 2, call_resp = 90\<rparr>] = Inr a1 \<and>
     SlideAdjuster_Adjust a1 3 4 70 = Inr (a2, sa_currSize a2) \<and>
     sa_currSize a2 = slide_spec a1 (take (nat (sint (1::i64)))
       (70 # rev (map call_resp [\<lparr>call_since = 1, call_now = 2, call_resp = 90\<rparr>]))) 3 70"
proof -
  obtain a where a: "NewSlideAdjuster 1 10 5 100 6 0 = Inr a"
    by (simp add: NewSlideAdjuster_def NewRingBuffer_def)
  show ?thesis using a SlideAdjuster_history [OF a] by blast
qed

end
