(* ===== verification/Snowflake.thy ===== *)
theory Snowflake
  imports Prelude
begin

text \<open>
  \<open>internal/pkg/snowflake/id_generator.go\<close>: 64-bit ids made of a 41-bit timestamp, the low 10
  bits of the hash of the business key and a 12-bit sequence. The hash \<open>xxhash.Sum64String\<close> is a
  library function, the parameter \<open>xxh\<close>; the clock reading of a call is its argument \<open>now\<close>. The
  lemmas read the three fields back from an id and say when two ids are equal.
\<close>

section \<open>The generator\<close>

definition timestampBits :: nat where "timestampBits = 41"
definition hashBits :: nat where "hashBits = 10"
definition sequenceBits :: nat where "sequenceBits = 12"
definition hashShift :: nat where "hashShift = sequenceBits"
definition timestampShift :: nat where "timestampShift = hashShift + hashBits"
definition sequenceMask :: u64 where "sequenceMask = push_bit sequenceBits 1 - 1"
definition hashMask :: u64 where "hashMask = push_bit hashBits 1 - 1"
definition timestampMask :: u64 where "timestampMask = push_bit timestampBits 1 - 1"
definition epochMillis :: u64 where "epochMillis = 1735689600000"
definition number1000 :: u64 where "number1000 = 1000"
definition number1000000 :: u64 where "number1000000 = 1000000"

record Generator =
  gen_sequence :: u64
  gen_lastTime :: u64
  gen_epoch :: Time

definition NewGenerator :: Generator where
  "NewGenerator =
     \<lparr>gen_sequence = 0, gen_lastTime = 0,
      gen_epoch = Time_Unix (epochMillis div number1000)
                    ((epochMillis mod number1000) * number1000000)\<rparr>"

definition HashKey :: "u64 \<Rightarrow> string \<Rightarrow> string" where
  "HashKey bizId bizKey = FormatUint bizId @ '':'' @ bizKey"

definition NextId ::
    "(string \<Rightarrow> u64) \<Rightarrow> Generator \<Rightarrow> Time \<Rightarrow> u64 \<Rightarrow> string \<Rightarrow> Generator \<times> u64" where
  "NextId xxh g now bizId bizKey =
     (let timestamp = Time_UnixMilli now - epochMillis;
          hashVal = xxh (HashKey bizId bizKey);
          g' = g\<lparr>gen_sequence := gen_sequence g + 1\<rparr>;
          seq = gen_sequence g' - 1
      in (g', push_bit timestampShift (timestamp AND timestampMask)
              OR push_bit hashShift (hashVal AND hashMask)
              OR (seq AND sequenceMask)))"

definition ExtractTimestamp :: "u64 \<Rightarrow> Time" where
  "ExtractTimestamp iden =
     (let timestamp = drop_bit timestampShift iden AND timestampMask
      in Time_Unix 0 ((timestamp + epochMillis) * Millisecond))"

definition ExtractHash :: "u64 \<Rightarrow> u64" where
  "ExtractHash iden = drop_bit hashShift iden AND hashMask"

definition ExtractSequence :: "u64 \<Rightarrow> u64" where
  "ExtractSequence iden = iden AND sequenceMask"

section \<open>Fields of an id\<close>

lemma masks: "sequenceMask = mask 12" "hashMask = mask 10" "timestampMask = mask 41"
  "hashShift = 12" "timestampShift = 22"
  by (simp_all add: sequenceMask_def hashMask_def timestampMask_def mask_eq_exp_minus_1
      sequenceBits_def hashBits_def timestampBits_def hashShift_def timestampShift_def)

definition make_id :: "u64 \<Rightarrow> u64 \<Rightarrow> u64 \<Rightarrow> u64" where
  "make_id ts h seq =
     push_bit 22 (take_bit 41 ts) OR push_bit 12 (take_bit 10 h) OR take_bit 12 seq"

lemma NextId_eq:
  "NextId xxh g now b k = (g\<lparr>gen_sequence := gen_sequence g + 1\<rparr>,
     make_id (Time_UnixMilli now - epochMillis) (xxh (HashKey b k)) (gen_sequence g))"
  by (simp add: NextId_def make_id_def masks take_bit_eq_mask Let_def)

lemma make_id_sequence: "take_bit 12 (make_id ts h seq) = take_bit 12 seq"
  by (rule bit_word_eqI) (auto simp: make_id_def bit_simps)

lemma make_id_hash: "take_bit 10 (drop_bit 12 (make_id ts h seq)) = take_bit 10 h"
  by (rule bit_word_eqI) (auto simp: make_id_def bit_simps)

lemma make_id_timestamp: "take_bit 41 (drop_bit 22 (make_id ts h seq)) = take_bit 41 ts"
  by (rule bit_word_eqI) (auto simp: make_id_def bit_simps)

lemma Extract_make_id:
  "ExtractHash (make_id ts h seq) = take_bit 10 h"
  "ExtractSequence (make_id ts h seq) = take_bit 12 seq"
  by (simp_all add: ExtractHash_def ExtractSequence_def masks make_id_hash make_id_sequence
      flip: take_bit_eq_mask)

lemma make_id_eq_iff:
  "make_id ts h s = make_id ts' h' s' \<longleftrightarrow>
     take_bit 41 ts = take_bit 41 ts' \<and> take_bit 10 h = take_bit 10 h' \<and>
     take_bit 12 s = take_bit 12 s'"
  by (metis make_id_def make_id_hash make_id_sequence make_id_timestamp)

text \<open>The clock readings an id can hold: from the epoch on, for \<open>2 ^ 41\<close> milliseconds.\<close>

definition in_id_range :: "Time \<Rightarrow> bool" where
  "in_id_range now \<longleftrightarrow>
     1735689600000 \<le> (now - unix_epoch) div 1000000 \<and>
     (now - unix_epoch) div 1000000 < 1735689600000 + 2 ^ 41"

lemma timestamp_value:
  assumes "in_id_range now"
  shows "take_bit 41 (Time_UnixMilli now - epochMillis) = Time_UnixMilli now - epochMillis"
    and "uint (Time_UnixMilli now - epochMillis)
       = (now - unix_epoch) div 1000000 - 1735689600000"
proof -
  let ?m = "(now - unix_epoch) div 1000000"
  have m: "Time_UnixMilli now - epochMillis = word_of_int (?m - 1735689600000)"
    by (simp add: Time_UnixMilli_def epochMillis_def flip: wi_hom_sub)
  show u: "uint (Time_UnixMilli now - epochMillis) = ?m - 1735689600000"
    unfolding m using assms
    by (subst uint_word_of_int) (simp add: in_id_range_def)
  show "take_bit 41 (Time_UnixMilli now - epochMillis) = Time_UnixMilli now - epochMillis"
    using assms u
    by (simp add: word_uint_eq_iff unsigned_take_bit_eq take_bit_int_eq_self_iff in_id_range_def)
qed

lemma ExtractTimestamp_make_id:
  assumes "in_id_range now"
  shows "ExtractTimestamp (make_id (Time_UnixMilli now - epochMillis) h s)
       = unix_epoch + ((now - unix_epoch) div 1000000) * 1000000"
proof -
  let ?m = "(now - unix_epoch) div 1000000"
  have "drop_bit timestampShift (make_id (Time_UnixMilli now - epochMillis) h s) AND timestampMask
      = Time_UnixMilli now - epochMillis"
    using timestamp_value(1) [OF assms]
    by (simp add: masks make_id_timestamp flip: take_bit_eq_mask)
  moreover have "(Time_UnixMilli now - epochMillis + epochMillis) * Millisecond
      = word_of_int (?m * 1000000)"
    by (simp add: Time_UnixMilli_def Millisecond_def flip: wi_hom_mult)
  moreover have "sint (word_of_int (?m * 1000000) :: i64) = ?m * 1000000"
    using assms by (intro sint_word_of_int_64) (simp_all add: in_id_range_def)
  ultimately show ?thesis
    by (simp add: ExtractTimestamp_def Time_Unix_def Let_def)
qed

section \<open>Runs of the generator\<close>

text \<open>The ids of a sequence of calls; a call is a clock reading and a business id and key.\<close>

fun gen_ids :: "(string \<Rightarrow> u64) \<Rightarrow> Generator \<Rightarrow> (Time \<times> u64 \<times> string) list \<Rightarrow> u64 list" where
  "gen_ids xxh g [] = []"
| "gen_ids xxh g ((now, b, k) # cs) =
     (case NextId xxh g now b k of (g', iden) \<Rightarrow> iden # gen_ids xxh g' cs)"

lemma length_gen_ids [simp]: "length (gen_ids xxh g cs) = length cs"
  by (induction cs arbitrary: g) (auto simp: NextId_eq)

lemma gen_ids_sequence:
  "i < length cs \<Longrightarrow>
   ExtractSequence (gen_ids xxh g cs ! i) = take_bit 12 (gen_sequence g + word_of_nat i)"
proof (induction cs arbitrary: g i)
  case Nil
  then show ?case by simp
next
  case (Cons c cs)
  then show ?case
    by (cases c; cases i) (auto simp: NextId_eq Extract_make_id ac_simps)
qed

lemma take_bit_12_inj:
  assumes "take_bit 12 (s + word_of_nat i) = take_bit 12 (s + word_of_nat j :: u64)"
    and "i < 4096" "j < 4096"
  shows "i = j"
proof -
  have low: "uint (take_bit 12 (s + word_of_nat n)) = (uint s + int n) mod 2 ^ 12" for n
  proof -
    have "uint (s + word_of_nat n) = (uint s + int n) mod 2 ^ 64"
      by (simp add: uint_word_ariths unsigned_of_nat take_bit_eq_mod zmod_int mod_simps)
    then show ?thesis
      by (simp only: unsigned_take_bit_eq) (simp add: take_bit_eq_mod mod_mod_cancel)
  qed
  from assms(1) have "(uint s + int i) mod 2 ^ 12 = (uint s + int j) mod 2 ^ 12"
    unfolding low [symmetric] by simp
  then have "(uint s + int i - uint s) mod 2 ^ 12 = (uint s + int j - uint s) mod 2 ^ 12"
    by (rule mod_diff_cong) simp
  with assms(2,3) show ?thesis by simp
qed

lemma HashKey_inj: "HashKey b k = HashKey b' k' \<longleftrightarrow> b = b' \<and> k = k'"
proof
  have colon: "CHR '':'' \<notin> set (FormatUint v)" for v
    by (rule FormatUint_not_in) simp
  assume "HashKey b k = HashKey b' k'"
  then have "FormatUint b @ CHR '':'' # k = FormatUint b' @ CHR '':'' # k'"
    by (simp add: HashKey_def)
  from split_at_separator [OF this colon colon] show "b = b' \<and> k = k'"
    by (auto dest: FormatUint_inj)
qed simp

section \<open>Properties\<close>

text \<open>The three fields of a generated id can be read back: the low 10 bits of the hash of the
  business key, the low 12 bits of the sequence number, and, for clock readings in the range of the
  id, the call's time in milliseconds; and the generator has moved to the next sequence number.\<close>

theorem NextId_fields:
  assumes "in_id_range now" and "NextId xxh g now b k = (g', iden)"
  shows "ExtractHash iden = xxh (HashKey b k) AND 1023 \<and>
     ExtractSequence iden = gen_sequence g AND 4095 \<and>
     ExtractTimestamp iden = unix_epoch + ((now - unix_epoch) div 1000000) * 1000000 \<and>
     gen_sequence g' = gen_sequence g + 1"
proof -
  have m: "(1023::u64) = mask 10" "(4095::u64) = mask 12" by (simp_all add: mask_eq_exp_minus_1)
  from assms(2) show ?thesis
    unfolding m by (auto simp: NextId_eq Extract_make_id ExtractTimestamp_make_id [OF assms(1)]
        take_bit_eq_mask)
qed

lemma NextId_fields_witness:
  "ExtractHash (snd (NextId (\<lambda>_. 5000) NewGenerator (unix_epoch + 1735689600123456789) 7 ''k''))
     = 5000 AND 1023 \<and>
   ExtractTimestamp (snd (NextId (\<lambda>_. 5000) NewGenerator (unix_epoch + 1735689600123456789) 7 ''k''))
     = unix_epoch + 1735689600123000000"
proof -
  have now: "in_id_range (unix_epoch + 1735689600123456789)" by (simp add: in_id_range_def)
  show ?thesis
    using NextId_fields [OF now prod.collapse [symmetric], of "\<lambda>_. 5000" NewGenerator 7 "''k''"]
    by simp
qed

text \<open>C36. Any 4096 consecutive ids of one generator are pairwise different, whatever the clock
  readings and the business keys of the calls.\<close>

theorem NextId_distinct:
  assumes "length cs \<le> 4096"
  shows "distinct (gen_ids xxh g cs)"
  unfolding distinct_conv_nth
proof (intro allI impI notI)
  fix i j assume ij: "i < length (gen_ids xxh g cs)" "j < length (gen_ids xxh g cs)" "i \<noteq> j"
    and eq: "gen_ids xxh g cs ! i = gen_ids xxh g cs ! j"
  then have "take_bit 12 (gen_sequence g + word_of_nat i)
      = take_bit 12 (gen_sequence g + word_of_nat j :: u64)"
    using gen_ids_sequence [of i cs xxh g] gen_ids_sequence [of j cs xxh g] by simp
  then have "i = j" by (rule take_bit_12_inj) (use ij assms in simp_all)
  with ij show False by simp
qed

lemma NextId_distinct_witness:
  "distinct (gen_ids (\<lambda>_. 0) NewGenerator [(0, 1, ''a''), (0, 1, ''a''), (5, 2, ''b'')])"
  by (rule NextId_distinct) simp

text \<open>C12. Two ids of one key collide exactly when they agree on the millisecond modulo \<open>2 ^ 41\<close>
  and on the sequence number modulo 4096; \<open>HashKey\<close>, the text that is hashed, is injective in the
  business id and key.\<close>

theorem NextId_collision:
  "(snd (NextId xxh g now b k) = snd (NextId xxh h now' b k) \<longleftrightarrow>
     take_bit 41 (Time_UnixMilli now - epochMillis) = take_bit 41 (Time_UnixMilli now' - epochMillis) \<and>
     take_bit 12 (gen_sequence g) = take_bit 12 (gen_sequence h)) \<and>
   (HashKey b k = HashKey b' k' \<longleftrightarrow> b = b' \<and> k = k')"
  by (simp add: NextId_eq make_id_eq_iff HashKey_inj)

end
