(* ===== verification/Ctx.thy ===== *)
theory Ctx
  imports Prelude
begin

text \<open>
  The \<open>context.Context\<close> values of the program: a context maps the private key types of
  \<open>internal/pkg/client/types.go\<close>, \<open>internal/pkg/sharding/types.go\<close>, \<open>internal/pkg/isolation/gorm.go\<close>
  and \<open>internal/pkg/degradation/context.go\<close> to values of dynamic type. \<open>context.WithValue\<close> is the
  update of the map; a comma-ok type assertion on a missing or differently typed value gives the
  zero value and false.
\<close>

record Dst =
  dst_DBSuffix :: u64
  dst_TableSuffix :: u64
  dst_DB :: string
  dst_Table :: string

datatype any =
    AnyString string
  | AnyUint8 u8
  | AnyUint32 u32
  | AnyUint64 u64
  | AnyInt int
  | AnyBool bool
  | AnyDst Dst

datatype ctx_key =
    contextKeyGroup
  | contextKeyReqType
  | contextKeyBizId
  | contextKeyBizKey
  | dstContextKey
  | CoreBizContextKey
  | degradeContext

type_synonym Context = "ctx_key \<Rightarrow> any option"

definition Background :: Context where
  "Background = (\<lambda>_. None)"

definition WithValue :: "Context \<Rightarrow> ctx_key \<Rightarrow> any \<Rightarrow> Context" where
  "WithValue ctx k v = ctx(k := Some v)"

section \<open>Type assertions\<close>

definition as_string :: "any option \<Rightarrow> string \<times> bool" where
  "as_string v = (case v of Some (AnyString s) \<Rightarrow> (s, True) | _ \<Rightarrow> ([], False))"

definition as_uint8 :: "any option \<Rightarrow> u8 \<times> bool" where
  "as_uint8 v = (case v of Some (AnyUint8 n) \<Rightarrow> (n, True) | _ \<Rightarrow> (0, False))"

definition as_uint32 :: "any option \<Rightarrow> u32 \<times> bool" where
  "as_uint32 v = (case v of Some (AnyUint32 n) \<Rightarrow> (n, True) | _ \<Rightarrow> (0, False))"

definition as_uint64 :: "any option \<Rightarrow> u64 \<times> bool" where
  "as_uint64 v = (case v of Some (AnyUint64 n) \<Rightarrow> (n, True) | _ \<Rightarrow> (0, False))"

definition zero_dst :: Dst where
  "zero_dst = \<lparr>dst_DBSuffix = 0, dst_TableSuffix = 0, dst_DB = [], dst_Table = []\<rparr>"

definition as_dst :: "any option \<Rightarrow> Dst \<times> bool" where
  "as_dst v = (case v of Some (AnyDst d) \<Rightarrow> (d, True) | _ \<Rightarrow> (zero_dst, False))"

lemmas assertion_defs = as_string_def as_uint8_def as_uint32_def as_uint64_def as_dst_def

section \<open>Package client\<close>

definition WithGroup :: "Context \<Rightarrow> string \<Rightarrow> Context" where
  "WithGroup ctx g = WithValue ctx contextKeyGroup (AnyString g)"

definition GroupFromContext :: "Context \<Rightarrow> string \<times> bool" where
  "GroupFromContext ctx = as_string (ctx contextKeyGroup)"

definition WithReqType :: "Context \<Rightarrow> u8 \<Rightarrow> Context" where
  "WithReqType ctx reqType = WithValue ctx contextKeyReqType (AnyUint8 reqType)"

definition ReqTypeFromContext :: "Context \<Rightarrow> u8 \<times> bool" where
  "ReqTypeFromContext ctx = as_uint8 (ctx contextKeyReqType)"

definition WithBizId :: "Context \<Rightarrow> u64 \<Rightarrow> Context" where
  "WithBizId ctx bizId = WithValue ctx contextKeyBizId (AnyUint64 bizId)"

definition BizIdFromContext :: "Context \<Rightarrow> u64 \<times> bool" where
  "BizIdFromContext ctx = as_uint64 (ctx contextKeyBizId)"

definition WithBizKey :: "Context \<Rightarrow> string \<Rightarrow> Context" where
  "WithBizKey ctx bizKey = WithValue ctx contextKeyBizKey (AnyString bizKey)"

definition BizKeyFromContext :: "Context \<Rightarrow> string \<times> bool" where
  "BizKeyFromContext ctx = as_string (ctx contextKeyBizKey)"

section \<open>Packages sharding, isolation and degradation\<close>

definition ContextWitDst :: "Context \<Rightarrow> Dst \<Rightarrow> Context" where
  "ContextWitDst ctx dst = WithValue ctx dstContextKey (AnyDst dst)"

definition DstFromContext :: "Context \<Rightarrow> Dst \<times> bool" where
  "DstFromContext ctx = as_dst (ctx dstContextKey)"

definition WithCore :: "Context \<Rightarrow> Context" where
  "WithCore ctx = WithValue ctx CoreBizContextKey (AnyBool True)"

definition IsCore :: "Context \<Rightarrow> bool" where
  "IsCore ctx \<longleftrightarrow> ctx CoreBizContextKey \<noteq> None"

text \<open>The connection pool the isolating database selects for a context.\<close>

record 'pool IsolationDB =
  iso_coreDB :: 'pool
  iso_nonCoreDB :: 'pool

definition selectDB :: "'pool IsolationDB \<Rightarrow> Context \<Rightarrow> 'pool" where
  "selectDB db ctx = (if IsCore ctx then iso_coreDB db else iso_nonCoreDB db)"

definition NewDB :: "'pool \<Rightarrow> 'pool \<Rightarrow> 'pool IsolationDB" where
  "NewDB coreDB nonCoreDB = \<lparr>iso_coreDB = coreDB, iso_nonCoreDB = nonCoreDB\<rparr>"

text \<open>The four statements of a connection pool; each method is the first argument.\<close>

definition DB_PrepareContext :: "('pool \<Rightarrow> Context \<Rightarrow> string \<Rightarrow> 'r) \<Rightarrow> 'pool IsolationDB \<Rightarrow> Context \<Rightarrow> string \<Rightarrow> 'r" where
  "DB_PrepareContext PrepareContext db ctx query = PrepareContext (selectDB db ctx) ctx query"

definition DB_ExecContext ::
    "('pool \<Rightarrow> Context \<Rightarrow> string \<Rightarrow> 'arg list \<Rightarrow> 'r) \<Rightarrow> 'pool IsolationDB \<Rightarrow> Context \<Rightarrow> string \<Rightarrow> 'arg list \<Rightarrow> 'r" where
  "DB_ExecContext ExecContext db ctx query args = ExecContext (selectDB db ctx) ctx query args"

definition DB_QueryContext ::
    "('pool \<Rightarrow> Context \<Rightarrow> string \<Rightarrow> 'arg list \<Rightarrow> 'r) \<Rightarrow> 'pool IsolationDB \<Rightarrow> Context \<Rightarrow> string \<Rightarrow> 'arg list \<Rightarrow> 'r" where
  "DB_QueryContext QueryContext db ctx query args = QueryContext (selectDB db ctx) ctx query args"

definition DB_QueryRowContext ::
    "('pool \<Rightarrow> Context \<Rightarrow> string \<Rightarrow> 'arg list \<Rightarrow> 'r) \<Rightarrow> 'pool IsolationDB \<Rightarrow> Context \<Rightarrow> string \<Rightarrow> 'arg list \<Rightarrow> 'r" where
  "DB_QueryRowContext QueryRowContext db ctx query args = QueryRowContext (selectDB db ctx) ctx query args"

definition WithDegrade :: "Context \<Rightarrow> Context" where
  "WithDegrade ctx = WithValue ctx degradeContext (AnyBool True)"

definition ShouldDegrade :: "Context \<Rightarrow> bool" where
  "ShouldDegrade ctx \<longleftrightarrow> ctx degradeContext = Some (AnyBool True)"

lemmas context_defs = WithValue_def WithGroup_def GroupFromContext_def WithReqType_def
  ReqTypeFromContext_def WithBizId_def BizIdFromContext_def WithBizKey_def BizKeyFromContext_def
  ContextWitDst_def DstFromContext_def WithCore_def IsCore_def WithDegrade_def ShouldDegrade_def
  assertion_defs

end
