(* ===== verification/Sharding.thy ===== *)
theory Sharding
  imports Prelude Snowflake Ctx
begin

text \<open>
  \<open>internal/pkg/sharding/hash_sharding.go\<close>: the database and table a notification lives in, computed
  from the business key (\<open>Shard\<close>) or from the 10 hash bits of its id (\<open>ShardWithId\<close>), the list of all
  destinations (\<open>BroadCast\<close>), and the two strategies \<open>internal/ioc/db.go\<close> configures. The locale
  \<open>shard_strategy\<close> is the interface \<open>sharding.Strategy\<close>: what its clients need is that the
  destination computed from an id is the one computed from the key the id was made for.
\<close>

section \<open>The hash strategy\<close>

record HashStrategy =
  hs_dbPrefix :: string
  hs_tablePrefix :: string
  hs_dbSharding :: u64
  hs_tableSharding :: u64

text \<open>\<open>fmt.Sprintf("%s_%d", prefix, suffix)\<close>\<close>

definition suffixed :: "string \<Rightarrow> u64 \<Rightarrow> string" where
  "suffixed prefix n = prefix @ ''_'' @ FormatUint n"

definition HashStrategy_Shard :: "(string \<Rightarrow> u64) \<Rightarrow> HashStrategy \<Rightarrow> u64 \<Rightarrow> string \<Rightarrow> Dst run" where
  "HashStrategy_Shard xxh h bizId bizKey =
     (let hashVal = xxh (HashKey bizId bizKey) in
      run_bind (word_rem hashVal (hs_dbSharding h)) (\<lambda>dbSuffix.
      run_bind (word_div hashVal (hs_dbSharding h)) (\<lambda>q.
      run_bind (word_rem q (hs_tableSharding h)) (\<lambda>tableSuffix.
      Inr \<lparr>dst_DBSuffix = dbSuffix, dst_TableSuffix = tableSuffix,
           dst_DB = suffixed (hs_dbPrefix h) dbSuffix,
           dst_Table = suffixed (hs_tablePrefix h) tableSuffix\<rparr>))))"

definition HashStrategy_ShardWithId :: "HashStrategy \<Rightarrow> u64 \<Rightarrow> Dst run" where
  "HashStrategy_ShardWithId h iden =
     (let hashVal = ExtractHash iden in
      run_bind (word_rem hashVal (hs_dbSharding h)) (\<lambda>dbSuffix.
      run_bind (word_div hashVal (hs_dbSharding h)) (\<lambda>q.
      run_bind (word_rem q (hs_tableSharding h)) (\<lambda>tableSuffix.
      Inr \<lparr>dst_DBSuffix = dbSuffix, dst_TableSuffix = tableSuffix,
           dst_DB = suffixed (hs_dbPrefix h) dbSuffix,
           dst_Table = suffixed (hs_tablePrefix h) tableSuffix\<rparr>))))"

definition HashStrategy_BroadCast :: "HashStrategy \<Rightarrow> Dst list" where
  "HashStrategy_BroadCast h =
     concat (map (\<lambda>i. map (\<lambda>j.
        \<lparr>dst_DBSuffix = word_of_nat i, dst_TableSuffix = word_of_nat j,
         dst_DB = suffixed (hs_dbPrefix h) (word_of_nat i),
         dst_Table = suffixed (hs_tablePrefix h) (word_of_nat j)\<rparr>)
       [0..<unat (hs_tableSharding h)]) [0..<unat (hs_dbSharding h)])"

definition HashStrategy_TablePrefix :: "HashStrategy \<Rightarrow> string" where
  "HashStrategy_TablePrefix h = hs_tablePrefix h"

text \<open>\<open>strings.Split(s, sep)\<close> for a separator of one character.\<close>

fun split_on :: "char \<Rightarrow> string \<Rightarrow> string list" where
  "split_on c [] = [[]]"
| "split_on c (x # xs) =
     (if x = c then [] # split_on c xs
      else (case split_on c xs of [] \<Rightarrow> [[x]] | y # ys \<Rightarrow> (x # y) # ys))"

definition HashStrategy_ExtractSuffixAndFormat :: "HashStrategy \<Rightarrow> string \<Rightarrow> string run" where
  "HashStrategy_ExtractSuffixAndFormat h tableName =
     (let splits = split_on (CHR ''_'') tableName in
      run_map (\<lambda>suffix. hs_tablePrefix h @ ''_'' @ suffix)
        (index_at splits (int (length splits) - 1)))"

definition NewHashStrategy :: "string \<Rightarrow> string \<Rightarrow> u64 \<Rightarrow> u64 \<Rightarrow> HashStrategy" where
  "NewHashStrategy dbPrefix tablePrefix dbSharding tableSharding =
     \<lparr>hs_dbPrefix = dbPrefix, hs_tablePrefix = tablePrefix, hs_dbSharding = dbSharding,
      hs_tableSharding = tableSharding\<rparr>"

definition InitNotifShardingStrategy :: HashStrategy where
  "InitNotifShardingStrategy = NewHashStrategy ''jotify'' ''notification'' 2 4"

definition InitCbLogShardingStrategy :: HashStrategy where
  "InitCbLogShardingStrategy = NewHashStrategy ''jotify'' ''callback_log'' 2 4"

section \<open>Destinations\<close>

text \<open>The destination of a hash value, in \<open>nat\<close>.\<close>

definition dst_of :: "HashStrategy \<Rightarrow> nat \<Rightarrow> Dst" where
  "dst_of h v =
     (let i = word_of_nat (v mod unat (hs_dbSharding h));
          j = word_of_nat ((v div unat (hs_dbSharding h)) mod unat (hs_tableSharding h))
      in \<lparr>dst_DBSuffix = i, dst_TableSuffix = j, dst_DB = suffixed (hs_dbPrefix h) i,
          dst_Table = suffixed (hs_tablePrefix h) j\<rparr>)"

lemma word_mod_nat: "(a::u64) mod b = word_of_nat (unat a mod unat b)"
  by (simp flip: unat_mod_distrib)

lemma Shard_eq:
  assumes "hs_dbSharding h \<noteq> 0" "hs_tableSharding h \<noteq> 0"
  shows "HashStrategy_Shard xxh h b k = Inr (dst_of h (unat (xxh (HashKey b k))))"
  using assms
  by (simp add: HashStrategy_Shard_def dst_of_def Let_def word_mod_nat unat_div_distrib)

lemma ShardWithId_eq:
  assumes "hs_dbSharding h \<noteq> 0" "hs_tableSharding h \<noteq> 0"
  shows "HashStrategy_ShardWithId h iden = Inr (dst_of h (unat (ExtractHash iden)))"
  using assms
  by (simp add: HashStrategy_ShardWithId_def dst_of_def Let_def word_mod_nat unat_div_distrib)

text \<open>The 10 hash bits decide the destination when the number of tables over all databases
  divides 1024.\<close>

lemma mod_div_mod_dvd:
  fixes v d t m :: nat
  assumes "d * t dvd m"
  shows "(v mod m) mod d = v mod d" "((v mod m) div d) mod t = (v div d) mod t"
proof -
  from assms show "(v mod m) mod d = v mod d" by (meson dvd_mult_left mod_mod_cancel)
  from assms obtain q where "m = d * t * q" by (rule dvdE)
  then have m: "m = d * (t * q)" by (simp add: mult.assoc)
  show "((v mod m) div d) mod t = (v div d) mod t"
  proof (cases "d = 0")
    case False
    then have "(v mod m) div d = (v div d) mod (t * q)"
      unfolding m mod_mult2_eq [of v d] by simp
    then show ?thesis by (simp add: mod_mod_cancel)
  qed simp
qed

lemma ExtractHash_NextId: "unat (ExtractHash (snd (NextId xxh g now b k)))
    = unat (xxh (HashKey b k)) mod 1024"
  by (simp add: NextId_eq Extract_make_id) (simp add: take_bit_eq_mod unat_mod_distrib)

lemma dst_of_mod:
  "unat (hs_dbSharding h) * unat (hs_tableSharding h) dvd 1024 \<Longrightarrow> dst_of h (v mod 1024) = dst_of h v"
  by (simp add: dst_of_def mod_div_mod_dvd Let_def)

lemma dvd_nonzero:
  "unat (d::u64) * unat (t::u64) dvd 1024 \<Longrightarrow> d \<noteq> 0 \<and> t \<noteq> 0"
  by auto

section \<open>The interface sharding.Strategy\<close>

text \<open>\<open>id_of b k i\<close>: the id \<open>i\<close> was made for the business id \<open>b\<close> and key \<open>k\<close>.\<close>

locale shard_strategy =
  fixes shard :: "u64 \<Rightarrow> string \<Rightarrow> Dst run"
    and shard_id :: "u64 \<Rightarrow> Dst run"
    and broadcast :: "Dst list"
    and id_of :: "u64 \<Rightarrow> string \<Rightarrow> u64 \<Rightarrow> bool"
  assumes shard_id_shard: "id_of b k i \<Longrightarrow> shard_id i = shard b k"
    and shard_in_broadcast: "\<exists>d\<in>set broadcast. shard b k = Inr d"
begin

lemma id_destination:
  assumes "id_of b k i"
  obtains d where "shard b k = Inr d" "shard_id i = Inr d" "d \<in> set broadcast"
  using shard_in_broadcast [of b k] shard_id_shard [OF assms] by auto

end

text \<open>Notifications and callback logs use two strategies that name the same database.\<close>

locale colocated_shards =
  n: shard_strategy nshard nshard_id nbroadcast id_of +
  c: shard_strategy cshard cshard_id cbroadcast id_of
  for nshard nshard_id nbroadcast cshard cshard_id cbroadcast id_of +
  assumes same_db: "nshard b k = Inr d \<Longrightarrow> cshard b k = Inr e \<Longrightarrow> dst_DB d = dst_DB e"
begin

lemma id_same_db:
  assumes "id_of b k i"
  shows "\<exists>d e. nshard b k = Inr d \<and> nshard_id i = Inr d \<and> cshard b k = Inr e \<and>
     cshard_id i = Inr e \<and> dst_DB d = dst_DB e"
proof -
  obtain d where d: "nshard b k = Inr d" "nshard_id i = Inr d"
    using assms by (rule n.id_destination)
  obtain e where e: "cshard b k = Inr e" "cshard_id i = Inr e"
    using assms by (rule c.id_destination)
  from d e same_db [OF d(1) e(1)] show ?thesis by blast
qed

end

definition generated_id :: "(string \<Rightarrow> u64) \<Rightarrow> u64 \<Rightarrow> string \<Rightarrow> u64 \<Rightarrow> bool" where
  "generated_id xxh b k iden \<longleftrightarrow> (\<exists>g now. iden = snd (NextId xxh g now b k))"

lemma ShardWithId_generated:
  assumes "unat (hs_dbSharding h) * unat (hs_tableSharding h) dvd 1024" "generated_id xxh b k iden"
  shows "HashStrategy_ShardWithId h iden = HashStrategy_Shard xxh h b k"
  using assms dvd_nonzero [OF assms(1)]
  by (auto simp: generated_id_def Shard_eq ShardWithId_eq ExtractHash_NextId dst_of_mod)

lemma word_of_nat_mod_in:
  "(d::u64) \<noteq> 0 \<Longrightarrow> v mod unat d \<in> set [0..<unat d]"
  by (simp add: unat_gt_0)

lemma dst_of_in_BroadCast:
  assumes "hs_dbSharding h \<noteq> 0" "hs_tableSharding h \<noteq> 0"
  shows "dst_of h v \<in> set (HashStrategy_BroadCast h)"
  using word_of_nat_mod_in [OF assms(1), of v]
    word_of_nat_mod_in [OF assms(2), of "v div unat (hs_dbSharding h)"]
  by (force simp: HashStrategy_BroadCast_def dst_of_def Let_def)

lemma init_strategies:
  "unat (hs_dbSharding InitNotifShardingStrategy) * unat (hs_tableSharding InitNotifShardingStrategy)
     dvd 1024"
  "unat (hs_dbSharding InitCbLogShardingStrategy) * unat (hs_tableSharding InitCbLogShardingStrategy)
     dvd 1024"
  by (simp_all add: InitNotifShardingStrategy_def InitCbLogShardingStrategy_def NewHashStrategy_def)

interpretation init_shards: colocated_shards
  "HashStrategy_Shard xxh InitNotifShardingStrategy"
  "HashStrategy_ShardWithId InitNotifShardingStrategy"
  "HashStrategy_BroadCast InitNotifShardingStrategy"
  "HashStrategy_Shard xxh InitCbLogShardingStrategy"
  "HashStrategy_ShardWithId InitCbLogShardingStrategy"
  "HashStrategy_BroadCast InitCbLogShardingStrategy"
  "generated_id xxh" for xxh
proof unfold_locales
  fix b k i
  assume "generated_id xxh b k i"
  then show "HashStrategy_ShardWithId InitNotifShardingStrategy i
      = HashStrategy_Shard xxh InitNotifShardingStrategy b k"
    and "HashStrategy_ShardWithId InitCbLogShardingStrategy i
      = HashStrategy_Shard xxh InitCbLogShardingStrategy b k"
    using init_strategies by (simp_all add: ShardWithId_generated)
next
  fix b k
  show "\<exists>d\<in>set (HashStrategy_BroadCast InitNotifShardingStrategy).
      HashStrategy_Shard xxh InitNotifShardingStrategy b k = Inr d"
    and "\<exists>d\<in>set (HashStrategy_BroadCast InitCbLogShardingStrategy).
      HashStrategy_Shard xxh InitCbLogShardingStrategy b k = Inr d"
    using dvd_nonzero [OF init_strategies(1)] dvd_nonzero [OF init_strategies(2)]
    by (auto simp: Shard_eq intro: dst_of_in_BroadCast)
next
  fix b k d e
  assume "HashStrategy_Shard xxh InitNotifShardingStrategy b k = Inr d"
    and "HashStrategy_Shard xxh InitCbLogShardingStrategy b k = Inr e"
  with dvd_nonzero [OF init_strategies(1)] dvd_nonzero [OF init_strategies(2)]
  show "dst_DB d = dst_DB e"
    by (auto simp: Shard_eq dst_of_def Let_def InitNotifShardingStrategy_def
        InitCbLogShardingStrategy_def NewHashStrategy_def)
qed

section \<open>Properties\<close>

text \<open>C30. When the number of tables over all databases divides 1024, the destination computed from
  a generated id is the destination computed from the business key the id was made for, for every
  hash function, generator state and clock reading.\<close>

theorem ShardWithId_NextId:
  assumes "unat (hs_dbSharding h) * unat (hs_tableSharding h) dvd 1024"
  shows "HashStrategy_ShardWithId h (snd (NextId xxh g now b k)) = HashStrategy_Shard xxh h b k"
  using assms by (rule ShardWithId_generated) (auto simp: generated_id_def)

lemma ShardWithId_NextId_witness:
  "HashStrategy_ShardWithId (NewHashStrategy ''db'' ''t'' 4 8) (snd (NextId (\<lambda>_. 99) NewGenerator 5 7 ''k''))
   = HashStrategy_Shard (\<lambda>_. 99) (NewHashStrategy ''db'' ''t'' 4 8) 7 ''k''"
  by (rule ShardWithId_NextId) (simp add: NewHashStrategy_def)

text \<open>For a number of databases that does not divide 1024 the two computations disagree: there
  is a hash value for which the id leads to another database than the key, so a row created under
  its key is not found under its id.\<close>

theorem ShardWithId_mismatch:
  assumes "hs_dbSharding h \<noteq> 0" "hs_tableSharding h \<noteq> 0" "\<not> unat (hs_dbSharding h) dvd 1024"
  shows "\<exists>xxh d e. HashStrategy_Shard xxh h b k = Inr d \<and>
     HashStrategy_ShardWithId h (snd (NextId xxh g now b k)) = Inr e \<and>
     dst_DBSuffix d \<noteq> dst_DBSuffix e \<and> dst_DB d \<noteq> dst_DB e"
proof -
  let ?D = "unat (hs_dbSharding h)"
  have ne: "word_of_nat (1024 mod ?D) \<noteq> (0::u64)"
  proof
    assume "word_of_nat (1024 mod ?D) = (0::u64)"
    then have "2 ^ 64 dvd 1024 mod ?D" by (simp add: word_of_nat_eq_0_iff)
    moreover have "1024 mod ?D < 2 ^ 64" by (rule le_less_trans [of _ 1024]) simp_all
    ultimately have "1024 mod ?D = 0" by (auto dest: nat_dvd_not_less)
    with assms(3) show False by (simp add: dvd_eq_mod_eq_0)
  qed
  have "HashStrategy_Shard (\<lambda>_. 1024) h b k = Inr (dst_of h 1024)"
    and "HashStrategy_ShardWithId h (snd (NextId (\<lambda>_. 1024) g now b k)) = Inr (dst_of h 0)"
    using assms by (simp_all add: Shard_eq ShardWithId_eq ExtractHash_NextId)
  moreover have "dst_DBSuffix (dst_of h 1024) \<noteq> dst_DBSuffix (dst_of h 0)"
    "dst_DB (dst_of h 1024) \<noteq> dst_DB (dst_of h 0)"
    using ne by (auto simp: dst_of_def Let_def suffixed_def dest: FormatUint_inj)
  ultimately show ?thesis by blast
qed

lemma ShardWithId_mismatch_witness:
  "\<exists>xxh d e. HashStrategy_Shard xxh (NewHashStrategy ''db'' ''t'' 3 4) 7 ''k'' = Inr d \<and>
     HashStrategy_ShardWithId (NewHashStrategy ''db'' ''t'' 3 4)
       (snd (NextId xxh NewGenerator 5 7 ''k'')) = Inr e \<and>
     dst_DBSuffix d \<noteq> dst_DBSuffix e \<and> dst_DB d \<noteq> dst_DB e"
  by (rule ShardWithId_mismatch) (simp_all add: NewHashStrategy_def)

lemma word_of_nat_inj_on:
  "inj_on (word_of_nat :: nat \<Rightarrow> u64) {0..<unat (n::u64)}"
proof (rule inj_onI)
  fix i j assume "i \<in> {0..<unat n}" "j \<in> {0..<unat n}" and eq: "word_of_nat i = (word_of_nat j :: u64)"
  then have "i < 2 ^ 64" "j < 2 ^ 64" using unat_less_64 [of n] by simp_all
  then show "i = j"
    using arg_cong [OF eq, of unat] by (simp add: unsigned_of_nat take_bit_nat_eq_self)
qed

text \<open>\<open>BroadCast\<close> lists every destination once: the list has one entry per database and table,
  no entry twice, and contains what \<open>Shard\<close> and \<open>ShardWithId\<close> compute for any input.\<close>

theorem BroadCast_complete:
  assumes "hs_dbSharding h \<noteq> 0" "hs_tableSharding h \<noteq> 0"
  shows "length (HashStrategy_BroadCast h) = unat (hs_dbSharding h) * unat (hs_tableSharding h) \<and>
     distinct (map (\<lambda>d. (dst_DBSuffix d, dst_TableSuffix d)) (HashStrategy_BroadCast h)) \<and>
     (\<forall>xxh b k. \<exists>d\<in>set (HashStrategy_BroadCast h). HashStrategy_Shard xxh h b k = Inr d) \<and>
     (\<forall>iden. \<exists>d\<in>set (HashStrategy_BroadCast h). HashStrategy_ShardWithId h iden = Inr d)"
proof -
  have pairs: "map (\<lambda>d. (dst_DBSuffix d, dst_TableSuffix d)) (HashStrategy_BroadCast h)
      = List.product (map word_of_nat [0..<unat (hs_dbSharding h)])
          (map word_of_nat [0..<unat (hs_tableSharding h)])"
    by (simp add: HashStrategy_BroadCast_def map_concat product_concat_map comp_def)
  have "distinct (map (\<lambda>d. (dst_DBSuffix d, dst_TableSuffix d)) (HashStrategy_BroadCast h))"
    unfolding pairs by (intro distinct_product) (simp_all add: distinct_map word_of_nat_inj_on)
  moreover have "length (HashStrategy_BroadCast h)
      = unat (hs_dbSharding h) * unat (hs_tableSharding h)"
    using arg_cong [OF pairs, of length] by simp
  ultimately show ?thesis
    using assms by (simp add: Shard_eq ShardWithId_eq dst_of_in_BroadCast)
qed

lemma BroadCast_complete_witness:
  "length (HashStrategy_BroadCast InitNotifShardingStrategy) = 8 \<and>
   (\<forall>iden. \<exists>d\<in>set (HashStrategy_BroadCast InitNotifShardingStrategy).
      HashStrategy_ShardWithId InitNotifShardingStrategy iden = Inr d)"
  using BroadCast_complete [of InitNotifShardingStrategy]
  by (simp add: InitNotifShardingStrategy_def NewHashStrategy_def)

text \<open>With the strategies the program configures, the notification and its callback log of a
  generated id are in the same database, and each is found there under the id and under the key.\<close>

theorem init_strategies_colocated:
  "\<exists>d e. HashStrategy_Shard xxh InitNotifShardingStrategy b k = Inr d \<and>
     HashStrategy_ShardWithId InitNotifShardingStrategy (snd (NextId xxh g now b k)) = Inr d \<and>
     HashStrategy_Shard xxh InitCbLogShardingStrategy b k = Inr e \<and>
     HashStrategy_ShardWithId InitCbLogShardingStrategy (snd (NextId xxh g now b k)) = Inr e \<and>
     dst_DB d = dst_DB e"
  using init_shards.id_same_db [of xxh b k "snd (NextId xxh g now b k)"]
  by (auto simp: generated_id_def)

text \<open>C17. \<open>ExtractSuffixAndFormat\<close> never panics and renames a table of any strategy to the table with
  the same number under its own prefix.\<close>

lemma split_on_nonempty: "split_on c s \<noteq> []"
  by (induction s) (auto split: list.splits)

lemma split_on_last:
  assumes "c \<notin> set ys"
  shows "last (split_on c (xs @ c # ys)) = ys"
proof -
  have ys: "split_on c ys = [ys]" using assms by (induction ys) auto
  have "\<exists>zs. zs \<noteq> [] \<and> split_on c (xs @ c # ys) = zs @ [ys]"
  proof (induction xs)
    case Nil
    then show ?case using ys by auto
  next
    case (Cons x xs)
    then obtain z zs where "split_on c (xs @ c # ys) = (z # zs) @ [ys]"
      by (metis neq_Nil_conv)
    then show ?case by (cases "x = c") auto
  qed
  then show ?thesis by auto
qed

theorem ExtractSuffixAndFormat_suffixed:
  "HashStrategy_ExtractSuffixAndFormat h (suffixed p n) = Inr (suffixed (hs_tablePrefix h) n)"
proof -
  have us: "CHR ''_'' \<notin> set (FormatUint n)" by (rule FormatUint_not_in) simp
  let ?s = "split_on (CHR ''_'') (suffixed p n)"
  have "index_at ?s (int (length ?s) - 1) = Inr (last ?s)"
    using split_on_nonempty [of "CHR ''_''" "suffixed p n"]
    by (cases ?s) (auto simp: index_at_def last_conv_nth)
  moreover have "last ?s = FormatUint n"
    using split_on_last [OF us, of p] by (simp add: suffixed_def)
  ultimately show ?thesis
    by (simp add: HashStrategy_ExtractSuffixAndFormat_def Let_def suffixed_def)
qed

end
