(* ===== verification/Errs.thy ===== *)
theory Errs
  imports Prelude
begin

text \<open>
  Error values. The sentinels are those of \<open>internal/errs/error.go\<close> and of the packages that declare
  their own; \<open>Wrapped e text\<close> is \<open>fmt.Errorf("%w ...", e)\<close>, \<open>Joined\<close> is \<open>errors.Join\<close> and \<open>New\<close> an error
  of a text; \<open>External\<close> numbers the errors of libraries and services. \<open>errors_Is\<close> follows the chain the
  way \<open>errors.Is\<close> does. A Go result pair \<open>(v, err)\<close> of which only one part counts is \<open>err + v\<close>, a
  single \<open>error\<close> result is an option (None for nil).
\<close>

datatype go_error =
    ErrInvalidParam
  | ErrInvalidChannel
  | ErrInvalidSendStrategy
  | ErrBizIdNotFound
  | ErrBizConfNotFound
  | ErrChannelTplNotFound
  | ErrChannelTplVersionNotFound
  | ErrNotificationNotFound
  | ErrFailedSendNotification
  | ErrNotApprovedTplVersion
  | ErrNotAvailableProvider
  | ErrInsufficientQuota
  | ErrFailedToCreateCallbackLog
  | ErrFailedToSendNotification
  | ErrDuplicateNotificationId
  | ErrAcquireExceedLimit
  | ErrEventThresholdExceeded
  | ErrBizConfCacheKeyNotFound
  | ErrWrongTypeOfBizConfCache
  | ErrRecordNotFound
  | ErrDuplicatedKey
  | ErrMissingWhereClause
  | RedisNil
  | ErrNoSubConnAvailable
  | DeadlineExceeded
  | ContextCanceled
  | ErrorNew string
  | Wrapped go_error string
  | WrappedBoth go_error go_error
  | External nat

fun errors_Is :: "go_error \<Rightarrow> go_error \<Rightarrow> bool" where
  "errors_Is (Wrapped e s) t \<longleftrightarrow> Wrapped e s = t \<or> errors_Is e t"
| "errors_Is (WrappedBoth e e') t \<longleftrightarrow> WrappedBoth e e' = t \<or> errors_Is e t \<or> errors_Is e' t"
| "errors_Is e t \<longleftrightarrow> e = t"

lemma errors_Is_refl [simp]: "errors_Is e e"
  by (cases e) auto

text \<open>\<open>fmt.Errorf("%w: text", err)\<close> for an \<open>err\<close> that may be nil: it always gives an error.\<close>

definition wrapf :: "go_error option \<Rightarrow> string \<Rightarrow> go_error" where
  "wrapf err text' = (case err of None \<Rightarrow> ErrorNew text' | Some e \<Rightarrow> Wrapped e text')"

definition option_Is :: "go_error option \<Rightarrow> go_error \<Rightarrow> bool" where
  "option_Is err t \<longleftrightarrow> (case err of None \<Rightarrow> False | Some e \<Rightarrow> errors_Is e t)"

text \<open>The checks of a \<open>Validate\<close> method: the first check that fails gives the error.\<close>

fun first_failing :: "(bool \<times> go_error) list \<Rightarrow> go_error option" where
  "first_failing [] = None"
| "first_failing ((bad, e) # cs) = (if bad then Some e else first_failing cs)"

lemma first_failing_None: "first_failing cs = None \<longleftrightarrow> (\<forall>(bad, e) \<in> set cs. \<not> bad)"
  by (induction cs rule: first_failing.induct) auto

lemma first_failing_Some:
  "first_failing cs = Some e \<Longrightarrow> \<exists>bad. (bad, e) \<in> set cs \<and> bad"
  by (induction cs rule: first_failing.induct) (auto split: if_splits)

end
