(* ===== verification/Effect.thy ===== *)
theory Effect
  imports Errs
begin

text \<open>
  Code that works on the state \<open>'w\<close> of the world it runs in (the databases, the cache, the remote
  services) and may panic: a function from the state before to the outcome and the state after. A
  Go interface is a record of such functions; what stands behind it changes \<open>'w\<close> and is not visible
  otherwise. \<open>io_call\<close> is a call of a library or service, which does not panic; \<open>io_get\<close> reads the
  state; \<open>io_each\<close> runs a loop body over a list and collects the results.
\<close>

type_synonym ('w, 'a) io = "'w \<Rightarrow> 'a run \<times> 'w"

definition io_return :: "'a \<Rightarrow> ('w, 'a) io" where
  "io_return x = (\<lambda>w. (Inr x, w))"

definition io_panic :: "panic \<Rightarrow> ('w, 'a) io" where
  "io_panic p = (\<lambda>w. (Inl p, w))"

definition io_bind :: "('w, 'a) io \<Rightarrow> ('a \<Rightarrow> ('w, 'b) io) \<Rightarrow> ('w, 'b) io" where
  "io_bind c f = (\<lambda>w. case c w of (Inl p, w') \<Rightarrow> (Inl p, w') | (Inr x, w') \<Rightarrow> f x w')"

definition io_run :: "'a run \<Rightarrow> ('w, 'a) io" where
  "io_run r = (\<lambda>w. (r, w))"

definition io_call :: "('w \<Rightarrow> 'a \<times> 'w) \<Rightarrow> ('w, 'a) io" where
  "io_call f = (\<lambda>w. case f w of (x, w') \<Rightarrow> (Inr x, w'))"

definition io_get :: "('w \<Rightarrow> 'a) \<Rightarrow> ('w, 'a) io" where
  "io_get f = (\<lambda>w. (Inr (f w), w))"

fun io_each :: "('a \<Rightarrow> ('w, 'b) io) \<Rightarrow> 'a list \<Rightarrow> ('w, 'b list) io" where
  "io_each f [] = io_return []"
| "io_each f (x # xs) =
     io_bind (f x) (\<lambda>y. io_bind (io_each f xs) (\<lambda>ys. io_return (y # ys)))"

lemma io_return_apply [simp]: "io_return x w = (Inr x, w)"
  by (simp add: io_return_def)

lemma io_panic_apply [simp]: "io_panic p w = (Inl p, w)"
  by (simp add: io_panic_def)

lemma io_run_apply [simp]: "io_run r w = (r, w)"
  by (simp add: io_run_def)

lemma io_call_apply [simp]: "io_call f w = (Inr (fst (f w)), snd (f w))"
  by (simp add: io_call_def split: prod.splits)

lemma io_get_apply [simp]: "io_get f w = (Inr (f w), w)"
  by (simp add: io_get_def)

lemma io_bind_Inr [simp]: "c w = (Inr x, w') \<Longrightarrow> io_bind c f w = f x w'"
  by (simp add: io_bind_def)

lemma io_bind_Inl [simp]: "c w = (Inl p, w') \<Longrightarrow> io_bind c f w = (Inl p, w')"
  by (simp add: io_bind_def)

lemma io_bind_return [simp]: "io_bind (io_return x) f = f x"
  by (rule ext) simp

lemma io_bind_panic [simp]: "io_bind (io_panic p) f = io_panic p"
  by (rule ext) (simp add: io_bind_def)

lemma io_bind_run [simp]: "io_bind (io_run (Inr x)) f = f x"
  by (rule ext) simp

lemma io_bind_eq_Inr:
  "io_bind c f w = (Inr y, w') \<longleftrightarrow> (\<exists>x w1. c w = (Inr x, w1) \<and> f x w1 = (Inr y, w'))"
  by (cases "c w"; cases "fst (c w)") (auto simp: io_bind_def)

lemma io_bind_assoc: "io_bind (io_bind c f) g = io_bind c (\<lambda>x. io_bind (f x) g)"
  by (rule ext) (auto simp: io_bind_def split: prod.splits sum.splits)

lemma io_bind_call [simp]: "io_bind (io_call f) g w = g (fst (f w)) (snd (f w))"
  by (simp add: io_bind_def)

lemma io_bind_get [simp]: "io_bind (io_get f) g w = g (f w) w"
  by (simp add: io_bind_def)

text \<open>A computation that never panics, from any state.\<close>

definition no_panic :: "('w, 'a) io \<Rightarrow> bool" where
  "no_panic c \<longleftrightarrow> (\<forall>w. \<exists>x w'. c w = (Inr x, w'))"

lemma no_panic_return [simp]: "no_panic (io_return x)"
  by (simp add: no_panic_def)

lemma no_panic_bind:
  assumes "no_panic c" "\<And>x. no_panic (f x)"
  shows "no_panic (io_bind c f)"
  unfolding no_panic_def
proof
  fix w
  obtain x w' where "c w = (Inr x, w')" using assms(1) unfolding no_panic_def by blast
  moreover obtain y w'' where "f x w' = (Inr y, w'')" using assms(2) unfolding no_panic_def by blast
  ultimately show "\<exists>y w'. io_bind c f w = (Inr y, w')" by simp
qed

lemma no_panic_each: "(\<And>x. no_panic (f x)) \<Longrightarrow> no_panic (io_each f xs)"
  by (induction xs) (auto intro!: no_panic_bind)

lemma no_panicE:
  assumes "no_panic c"
  obtains x w' where "c w = (Inr x, w')"
  using assms unfolding no_panic_def by blast

lemma io_each_length:
  "io_each f xs w = (Inr ys, w') \<Longrightarrow> length ys = length xs"
  by (induction xs arbitrary: ys w)
    (auto simp: io_bind_def split: prod.splits sum.splits)

end
