(* ===== verification/Retry.thy ===== *)
theory Retry
  imports Errs
begin

text \<open>
  \<open>internal/pkg/retry/retry.go\<close>: the retry policies and the choice of a strategy. The strategies
  themselves are those of a library (\<open>github.com/JrMarcco/easy-kit/retry\<close>) and are the fields of the
  parameter \<open>retry_lib\<close>: its two constructors, and \<open>NextWithRetried\<close>, the delay before the next attempt
  and whether there is one. A missing policy of the named type is a nil dereference.
\<close>

record ExponentialBackoffConfig =
  eb_InitInterval :: Duration
  eb_MaxInterval :: Duration
  eb_MaxTimes :: i32

record FixedIntervalConfig =
  fi_Interval :: Duration
  fi_MaxTimes :: i32

record RetryConfig =
  rc_Type :: string
  rc_FixedInterval :: "FixedIntervalConfig option"
  rc_ExponentialBackoff :: "ExponentialBackoffConfig option"

record 'st retry_lib =
  lib_NewFixedInterval :: "Duration \<Rightarrow> i32 \<Rightarrow> go_error + 'st"
  lib_NewExponentialBackoff :: "Duration \<Rightarrow> Duration \<Rightarrow> i32 \<Rightarrow> go_error + 'st"
  lib_NextWithRetried :: "'st \<Rightarrow> i32 \<Rightarrow> Duration \<times> bool"

definition NewRetryStrategy :: "'st retry_lib \<Rightarrow> RetryConfig \<Rightarrow> (go_error + 'st) run" where
  "NewRetryStrategy lib cfg =
     (if rc_Type cfg = ''fixed_interval'' then
        (case rc_FixedInterval cfg of
           None \<Rightarrow> Inl NilDereference
         | Some f \<Rightarrow> Inr (lib_NewFixedInterval lib (fi_Interval f) (fi_MaxTimes f)))
      else if rc_Type cfg = ''exponential_backoff'' then
        (case rc_ExponentialBackoff cfg of
           None \<Rightarrow> Inl NilDereference
         | Some b \<Rightarrow> Inr (lib_NewExponentialBackoff lib (eb_InitInterval b) (eb_MaxInterval b)
                            (eb_MaxTimes b)))
      else Inr (Inl (ErrorNew (''unknown retry strategy type: '' @ rc_Type cfg))))"

text \<open>The policies that can be used: of a known type, with that type's parameters present.\<close>

definition policy_complete :: "RetryConfig \<Rightarrow> bool" where
  "policy_complete cfg \<longleftrightarrow>
     (rc_Type cfg = ''fixed_interval'' \<longrightarrow> rc_FixedInterval cfg \<noteq> None) \<and>
     (rc_Type cfg = ''exponential_backoff'' \<longrightarrow> rc_ExponentialBackoff cfg \<noteq> None)"

lemma NewRetryStrategy_panics_iff:
  "NewRetryStrategy lib cfg = Inl p \<longleftrightarrow> p = NilDereference \<and> \<not> policy_complete cfg"
  by (auto simp: NewRetryStrategy_def policy_complete_def split: option.splits)

lemma NewRetryStrategy_returns: "policy_complete cfg \<Longrightarrow> \<exists>r. NewRetryStrategy lib cfg = Inr r"
  by (auto simp: NewRetryStrategy_def policy_complete_def split: option.splits)

end
