(* ===== verification/Domain.thy ===== *)
theory Domain
  imports Errs Retry
begin

text \<open>
  \<open>internal/domain\<close>: the notification with its channel, template, status and send strategy
  (\<open>notification.go\<close>, \<open>notification_send.go\<close>, \<open>provider.go\<close>), its checks and its time window, the
  transactional notification (\<open>notification_tx.go\<close>), the business configuration (\<open>conf.go\<close>), the
  callback log (\<open>callback_log.go\<close>), and the conversion of an API request. Go's string enums are strings
  with the declared constants; a map is the list of its entries in iteration order; a call of
  \<open>time.Now()\<close> is the argument \<open>now\<close>; the JSON encoding of \<open>encoding/json\<close> is the parameter
  \<open>json_codec\<close>.
\<close>

section \<open>Channels and statuses\<close>

type_synonym Channel = string

definition Channel_String :: "Channel \<Rightarrow> string" where
  "Channel_String c = c"

definition ChannelEmail :: Channel where "ChannelEmail = ''email''"
definition ChannelSMS :: Channel where "ChannelSMS = ''sms''"
definition ChannelApp :: Channel where "ChannelApp = ''app''"

definition Channel_Validate :: "Channel \<Rightarrow> bool" where
  "Channel_Validate c \<longleftrightarrow> c = ChannelEmail \<or> c = ChannelSMS \<or> c = ChannelApp"

definition Channel_IsSMS :: "Channel \<Rightarrow> bool" where
  "Channel_IsSMS c \<longleftrightarrow> c = ChannelSMS"

definition Channel_IsEmail :: "Channel \<Rightarrow> bool" where
  "Channel_IsEmail c \<longleftrightarrow> c = ChannelEmail"

definition Channel_IsApp :: "Channel \<Rightarrow> bool" where
  "Channel_IsApp c \<longleftrightarrow> c = ChannelApp"

type_synonym SendStatus = string

definition SendStatus_String :: "SendStatus \<Rightarrow> string" where
  "SendStatus_String s = s"

definition SendStatusPrepare :: SendStatus where "SendStatusPrepare = ''prepare''"
definition SendStatusCancel :: SendStatus where "SendStatusCancel = ''cancel''"
definition SendStatusPending :: SendStatus where "SendStatusPending = ''pending''"
definition SendStatusSending :: SendStatus where "SendStatusSending = ''sending''"
definition SendStatusSuccess :: SendStatus where "SendStatusSuccess = ''success''"
definition SendStatusFailure :: SendStatus where "SendStatusFailure = ''failure''"

lemmas SendStatus_defs = SendStatusPrepare_def SendStatusCancel_def SendStatusPending_def
  SendStatusSending_def SendStatusSuccess_def SendStatusFailure_def

type_synonym SendStrategy = string

definition SendStrategy_String :: "SendStrategy \<Rightarrow> string" where
  "SendStrategy_String s = s"

definition SendStrategyImmediate :: SendStrategy where "SendStrategyImmediate = ''immediate''"
definition SendStrategyDelayed :: SendStrategy where "SendStrategyDelayed = ''delayed''"
definition SendStrategyScheduled :: SendStrategy where "SendStrategyScheduled = ''scheduled''"
definition SendStrategyTimeWindow :: SendStrategy where "SendStrategyTimeWindow = ''time_window''"
definition SendStrategyDeadline :: SendStrategy where "SendStrategyDeadline = ''deadline''"

lemmas SendStrategy_defs = SendStrategyImmediate_def SendStrategyDelayed_def
  SendStrategyScheduled_def SendStrategyTimeWindow_def SendStrategyDeadline_def

section \<open>The send strategy configuration\<close>

record SendStrategyConf =
  ss_Type :: SendStrategy
  ss_Delay :: Duration
  ss_ScheduleAt :: Time
  ss_Start :: Time
  ss_End :: Time
  ss_Deadline :: Time

definition zero_StrategyConf :: SendStrategyConf where
  "zero_StrategyConf = \<lparr>ss_Type = [], ss_Delay = 0, ss_ScheduleAt = 0, ss_Start = 0, ss_End = 0,
     ss_Deadline = 0\<rparr>"

definition SendStrategyConf_Validate :: "SendStrategyConf \<Rightarrow> Time \<Rightarrow> go_error option" where
  "SendStrategyConf_Validate c now =
     (if ss_Type c = SendStrategyImmediate then None
      else if ss_Type c = SendStrategyDelayed then
        (if ss_Delay c \<le>s 0
         then Some (Wrapped ErrInvalidParam ''delay time should be greater than 0'') else None)
      else if ss_Type c = SendStrategyScheduled then
        (if Time_IsZero (ss_ScheduleAt c) \<or> ss_ScheduleAt c < now
         then Some (Wrapped ErrInvalidParam ''schedule_at should not be zero or before now'') else None)
      else if ss_Type c = SendStrategyTimeWindow then
        (if Time_IsZero (ss_Start c) \<or> ss_Start c > ss_End c
         then Some (Wrapped ErrInvalidParam
           ''start and end time should not be zero and start should be before end'') else None)
      else if ss_Type c = SendStrategyDeadline then
        (if Time_IsZero (ss_Deadline c) \<or> ss_Deadline c < now
         then Some (Wrapped ErrInvalidParam ''deadline should not be zero or before now'') else None)
      else Some (Wrapped ErrInvalidParam ''unknown strategy''))"

definition SendStrategyConf_CalcTimeWindow :: "SendStrategyConf \<Rightarrow> Time \<Rightarrow> Time \<times> Time" where
  "SendStrategyConf_CalcTimeWindow c now =
     (if ss_Type c = SendStrategyImmediate then (now, Time_Add now (30 * Minute))
      else if ss_Type c = SendStrategyDelayed then (now, Time_Add now (ss_Delay c))
      else if ss_Type c = SendStrategyDeadline then (now, ss_Deadline c)
      else if ss_Type c = SendStrategyTimeWindow then (ss_Start c, ss_End c)
      else if ss_Type c = SendStrategyScheduled then
        (Time_Add (ss_Start c) (- (3 * Second)), ss_Deadline c)
      else (now, now))"

section \<open>Notifications\<close>

record Template =
  tpl_Id :: u64
  tpl_VersionId :: u64
  tpl_Params :: "(string \<times> string) list"

record Notification =
  n_Id :: u64
  n_BizId :: u64
  n_BizKey :: string
  n_Receivers :: "string list"
  n_Channel :: Channel
  n_Template :: Template
  n_Status :: SendStatus
  n_ScheduledStart :: Time
  n_ScheduledEnd :: Time
  n_Version :: i32
  n_StrategyConfig :: SendStrategyConf

definition zero_Notification :: Notification where
  "zero_Notification =
     \<lparr>n_Id = 0, n_BizId = 0, n_BizKey = [], n_Receivers = [], n_Channel = [],
      n_Template = \<lparr>tpl_Id = 0, tpl_VersionId = 0, tpl_Params = []\<rparr>, n_Status = [],
      n_ScheduledStart = 0, n_ScheduledEnd = 0, n_Version = 0,
      n_StrategyConfig = zero_StrategyConf\<rparr>"

definition Notification_Validate :: "Notification \<Rightarrow> Time \<Rightarrow> go_error option" where
  "Notification_Validate n now =
     (case first_failing
        [(n_BizId n \<le> 0, Wrapped ErrInvalidParam ''biz id should not be negative or zero''),
         (n_BizKey n = [], Wrapped ErrInvalidParam ''biz key should not be empty''),
         (length (n_Receivers n) = 0, Wrapped ErrInvalidParam ''receivers should not be empty''),
         (\<not> Channel_Validate (n_Channel n), Wrapped ErrInvalidParam ''invalid channel''),
         (tpl_Id (n_Template n) \<le> 0,
            Wrapped ErrInvalidParam ''template id should not be negative or zero''),
         (tpl_VersionId (n_Template n) \<le> 0,
            Wrapped ErrInvalidParam ''template version id should not be negative or zero''),
         (length (tpl_Params (n_Template n)) = 0,
            Wrapped ErrInvalidParam ''template params should not be empty'')] of
        Some err \<Rightarrow> Some err
      | None \<Rightarrow> SendStrategyConf_Validate (n_StrategyConfig n) now)"

text \<open>The text of \<open>ValidatedBizId\<close> formats the id; only its sentinel is kept.\<close>

definition Notification_ValidatedBizId :: "Notification \<Rightarrow> go_error option" where
  "Notification_ValidatedBizId n =
     (if n_BizId n \<le> 0 then Some (Wrapped ErrInvalidParam ''BizId'') else None)"

definition Notification_SetSendTime :: "Notification \<Rightarrow> Time \<Rightarrow> Notification" where
  "Notification_SetSendTime n now =
     (case SendStrategyConf_CalcTimeWindow (n_StrategyConfig n) now of
        (start, fin) \<Rightarrow> n\<lparr>n_ScheduledStart := start, n_ScheduledEnd := fin\<rparr>)"

definition Notification_IsImmediate :: "Notification \<Rightarrow> bool" where
  "Notification_IsImmediate n \<longleftrightarrow> ss_Type (n_StrategyConfig n) = SendStrategyImmediate"

definition Notification_ReplaceAsyncImmediate :: "Notification \<Rightarrow> Time \<Rightarrow> Notification" where
  "Notification_ReplaceAsyncImmediate n now =
     (if Notification_IsImmediate n
      then n\<lparr>n_StrategyConfig := (n_StrategyConfig n)
               \<lparr>ss_Deadline := Time_Add now Minute, ss_Type := SendStrategyDeadline\<rparr>\<rparr>
      else n)"

record json_codec =
  js_MarshalList :: "string list \<Rightarrow> go_error + string"
  js_UnmarshalList :: "string \<Rightarrow> go_error + string list"
  js_MarshalMap :: "(string \<times> string) list \<Rightarrow> go_error + string"
  js_UnmarshalMap :: "string \<Rightarrow> go_error + (string \<times> string) list"

definition Notification_marshal :: "('a \<Rightarrow> go_error + string) \<Rightarrow> 'a \<Rightarrow> go_error + string" where
  "Notification_marshal Marshal val =
     (case Marshal val of Inl err \<Rightarrow> Inl err | Inr jsonBytes \<Rightarrow> Inr jsonBytes)"

lemma Notification_marshal_eq [simp]: "Notification_marshal Marshal val = Marshal val"
  by (simp add: Notification_marshal_def split: sum.splits)

definition Notification_MarshalReceivers :: "json_codec \<Rightarrow> Notification \<Rightarrow> go_error + string" where
  "Notification_MarshalReceivers js n = Notification_marshal (js_MarshalList js) (n_Receivers n)"

definition Notification_MarshalTemplateParams :: "json_codec \<Rightarrow> Notification \<Rightarrow> go_error + string" where
  "Notification_MarshalTemplateParams js n = Notification_marshal (js_MarshalMap js) (tpl_Params (n_Template n))"

record SendResult =
  sr_NotificationId :: u64
  sr_Status :: SendStatus

type_synonym SendResp = SendResult
type_synonym BatchSendResp = "SendResult list"
type_synonym BatchAsyncSendResp = "u64 list"

definition zero_SendResult :: SendResult where
  "zero_SendResult = \<lparr>sr_NotificationId = 0, sr_Status = []\<rparr>"

section \<open>Business configuration and callback log\<close>

record ChannelItem =
  ci_Channel :: string
  ci_Priority :: i32
  ci_Enabled :: bool

record ChannelConf =
  cc_Channels :: "ChannelItem list"
  cc_RetryPolicy :: "RetryConfig option"

record TxNotifConf =
  tc_ServiceName :: string
  tc_InitialDelay :: i32
  tc_RetryPolicy :: "RetryConfig option"

record CallbackConf =
  cb_ServiceName :: string
  cb_RetryPolicy :: "RetryConfig option"

record PeriodQuotaConf =
  pq_SMS :: i32
  pq_Email :: i32

record QuotaConf =
  qc_Daily :: "PeriodQuotaConf option"
  qc_Monthly :: "PeriodQuotaConf option"

record BizConf =
  bc_Id :: u64
  bc_OwnerId :: u64
  bc_OwnerType :: string
  bc_ChannelConf :: "ChannelConf option"
  bc_TxNotifConf :: "TxNotifConf option"
  bc_RateLimit :: i32
  bc_QuotaConf :: "QuotaConf option"
  bc_CallbackConf :: "CallbackConf option"
  bc_CreateAt :: i64
  bc_UpdateAt :: i64

definition zero_BizConf :: BizConf where
  "zero_BizConf = \<lparr>bc_Id = 0, bc_OwnerId = 0, bc_OwnerType = [], bc_ChannelConf = None,
     bc_TxNotifConf = None, bc_RateLimit = 0, bc_QuotaConf = None, bc_CallbackConf = None,
     bc_CreateAt = 0, bc_UpdateAt = 0\<rparr>"

text \<open>\<open>domain/quota.go\<close>: the quota of a business and channel.\<close>

record Quota =
  qt_BizId :: u64
  qt_Quota :: i32
  qt_Channel :: Channel

type_synonym CallbackLogStatus = string

definition CallbackStatusInit :: CallbackLogStatus where "CallbackStatusInit = ''init''"
definition CallbackStatusPending :: CallbackLogStatus where "CallbackStatusPending = ''pending''"
definition CallbackStatusSuccess :: CallbackLogStatus where "CallbackStatusSuccess = ''success''"
definition CallbackStatusFailure :: CallbackLogStatus where "CallbackStatusFailure = ''failure''"

definition CallbackLogStatus_String :: "CallbackLogStatus \<Rightarrow> string" where
  "CallbackLogStatus_String s = s"

lemmas CallbackStatus_defs = CallbackStatusInit_def CallbackStatusPending_def
  CallbackStatusSuccess_def CallbackStatusFailure_def

record CallbackLog =
  cl_Notification :: Notification
  cl_RetriedTimes :: i32
  cl_NextRetryAt :: i64
  cl_Status :: CallbackLogStatus

section \<open>Transactional notifications\<close>

type_synonym TxNotifStatus = string

definition TxNotifStatus_String :: "TxNotifStatus \<Rightarrow> string" where
  "TxNotifStatus_String tns = tns"

definition TxnStatusPrepare :: TxNotifStatus where "TxnStatusPrepare = ''prepare''"
definition TxnStatusCommit :: TxNotifStatus where "TxnStatusCommit = ''commit''"
definition TxnStatusCancel :: TxNotifStatus where "TxnStatusCancel = ''cancel''"
definition TxnStatusFailed :: TxNotifStatus where "TxnStatusFailed = ''failed''"

record TxNotification =
  tn_TxId :: u64
  tn_BizId :: u64
  tn_BizKey :: string
  tn_Notification :: Notification
  tn_Status :: TxNotifStatus
  tn_CheckedBackCnt :: i32
  tn_NextCheckBackAt :: i64
  tn_CreateAt :: i64
  tn_UpdateAt :: i64

definition TxNotification_SetSendTime :: "TxNotification \<Rightarrow> Time \<Rightarrow> TxNotification" where
  "TxNotification_SetSendTime tn now =
     tn\<lparr>tn_Notification := Notification_SetSendTime (tn_Notification tn) now\<rparr>"

definition TxNotification_nextCheck ::
    "'st retry_lib \<Rightarrow> TxNotification \<Rightarrow> TxNotifConf option \<Rightarrow> (Duration \<times> bool) run" where
  "TxNotification_nextCheck lib tn txNotifConfig =
     (case txNotifConfig of
        None \<Rightarrow> Inr (0, False)
      | Some conf \<Rightarrow>
          (case tc_RetryPolicy conf of
             None \<Rightarrow> Inr (0, False)
           | Some policy \<Rightarrow>
               run_bind (NewRetryStrategy lib policy) (\<lambda>r.
               case r of
                 Inl err \<Rightarrow> Inr (0, False)
               | Inr strategy \<Rightarrow> Inr (lib_NextWithRetried lib strategy (tn_CheckedBackCnt tn)))))"

definition TxNotification_SetNextCheckAtAndStatus ::
    "'st retry_lib \<Rightarrow> TxNotification \<Rightarrow> TxNotifConf option \<Rightarrow> Time \<Rightarrow> TxNotification run" where
  "TxNotification_SetNextCheckAtAndStatus lib tn txNotifConfig now =
     run_bind (TxNotification_nextCheck lib tn txNotifConfig) (\<lambda>(next, ok).
     if ok then Inr (tn\<lparr>tn_NextCheckBackAt := Time_UnixMilli (Time_Add now next)\<rparr>)
     else Inr (tn\<lparr>tn_NextCheckBackAt := 0, tn_Status := TxnStatusFailed\<rparr>))"

section \<open>Providers\<close>

type_synonym ProviderStatus = string

definition ProviderStatus_String :: "ProviderStatus \<Rightarrow> string" where
  "ProviderStatus_String s = s"

definition ProviderStatusActive :: ProviderStatus where "ProviderStatusActive = ''active''"
definition ProviderStatusInactive :: ProviderStatus where "ProviderStatusInactive = ''inactive''"

record Provider =
  p_Id :: u64
  p_Name :: string
  p_Channel :: Channel
  p_Endpoint :: string
  p_RegionId :: string
  p_AppId :: string
  p_ApiKey :: string
  p_ApiSecret :: string
  p_Weight :: i32
  p_QpsLimit :: i32
  p_DailyLimit :: i32
  p_CallbackUrl :: string
  p_Status :: ProviderStatus

definition Provider_Validate :: "Provider \<Rightarrow> go_error option" where
  "Provider_Validate p = first_failing
     [(\<not> Channel_Validate (p_Channel p), Wrapped ErrInvalidParam ''invalid channel''),
      (p_Name p = [], Wrapped ErrInvalidParam ''provider name should not be empty''),
      (p_Endpoint p = [], Wrapped ErrInvalidParam ''api endpoint should not be empty''),
      (p_ApiKey p = [], Wrapped ErrInvalidParam ''api key should not be empty''),
      (p_ApiSecret p = [], Wrapped ErrInvalidParam ''api secret should not be empty''),
      (p_Weight p \<le>s 0, Wrapped ErrInvalidParam ''weight should not be greater than 0''),
      (p_QpsLimit p \<le>s 0, Wrapped ErrInvalidParam ''qps limit should not be greater than 0''),
      (p_DailyLimit p \<le>s 0, Wrapped ErrInvalidParam ''daily limit should not be greater than 0'')]"

section \<open>Properties\<close>

lemma Time_Add_durations:
  "Time_Add t (30 * Minute) = t + 1800000000000" "Time_Add t Minute = t + 60000000000"
  by (simp_all add: Time_Add_def Minute_def)

lemma Notification_Validate_strategy:
  "Notification_Validate n now = None \<Longrightarrow> SendStrategyConf_Validate (n_StrategyConfig n) now = None"
  by (simp add: Notification_Validate_def split: option.splits)

lemma Notification_Validate_with_strategy:
  assumes "Notification_Validate n now = None" "SendStrategyConf_Validate conf now = None"
  shows "Notification_Validate (n\<lparr>n_StrategyConfig := conf\<rparr>) now = None"
  using assms by (simp add: Notification_Validate_def split: option.splits if_splits)

text \<open>The texts of the enumerated types name their values.\<close>

lemma String_names:
  "SendStatus_String SendStatusPending = ''pending''" "SendStrategy_String SendStrategyImmediate = ''immediate''"
  "Channel_String ChannelSMS = ''sms''" "ProviderStatus_String ProviderStatusActive = ''active''"
  by (simp_all add: SendStatus_String_def SendStatusPending_def SendStrategy_String_def SendStrategyImmediate_def
      Channel_String_def ChannelSMS_def ProviderStatus_String_def ProviderStatusActive_def)

text \<open>The window of a validated strategy is well formed: for every strategy but the scheduled one,
  a configuration accepted at one moment and turned into a window at a later one (for a deadline, not
  after it) gives a window that starts no later than it ends, and starts at the moment it is computed
  unless the strategy is a time window.\<close>

theorem valid_strategy_window:
  assumes "SendStrategyConf_Validate c now = None" "ss_Type c \<noteq> SendStrategyScheduled"
    and "ss_Type c = SendStrategyDeadline \<Longrightarrow> t \<le> ss_Deadline c"
  shows "fst (SendStrategyConf_CalcTimeWindow c t) \<le> snd (SendStrategyConf_CalcTimeWindow c t) \<and>
     (ss_Type c \<noteq> SendStrategyTimeWindow \<longrightarrow> fst (SendStrategyConf_CalcTimeWindow c t) = t)"
  using assms
  by (auto simp: SendStrategyConf_Validate_def SendStrategyConf_CalcTimeWindow_def Minute_def
      Time_Add_def word_sle_eq split: if_splits)

lemma valid_strategy_window_witness:
  "let c = zero_StrategyConf\<lparr>ss_Type := SendStrategyDelayed, ss_Delay := 5\<rparr>
   in fst (SendStrategyConf_CalcTimeWindow c 9) \<le> snd (SendStrategyConf_CalcTimeWindow c 9)"
  using valid_strategy_window
    [of "zero_StrategyConf\<lparr>ss_Type := SendStrategyDelayed, ss_Delay := 5\<rparr>" 7 9]
  by (simp add: SendStrategyConf_Validate_def SendStrategy_defs zero_StrategyConf_def word_sle_eq)

text \<open>\<open>ReplaceAsyncImmediate\<close> keeps a valid notification valid, leaves none immediate, gives an
  immediate one the minute from the call on as its window, and does not touch any other.\<close>

theorem ReplaceAsyncImmediate_valid:
  assumes "Notification_Validate n now = None" "0 \<le> now"
  shows "Notification_Validate (Notification_ReplaceAsyncImmediate n now) now = None \<and>
     \<not> Notification_IsImmediate (Notification_ReplaceAsyncImmediate n now) \<and>
     (if Notification_IsImmediate n
      then (\<forall>t. SendStrategyConf_CalcTimeWindow
               (n_StrategyConfig (Notification_ReplaceAsyncImmediate n now)) t
               = (t, now + 60000000000)) \<and>
           Notification_ReplaceAsyncImmediate n now\<lparr>n_StrategyConfig := n_StrategyConfig n\<rparr> = n
      else Notification_ReplaceAsyncImmediate n now = n)"
proof (cases "Notification_IsImmediate n")
  case True
  let ?conf = "(n_StrategyConfig n)\<lparr>ss_Deadline := Time_Add now Minute, ss_Type := SendStrategyDeadline\<rparr>"
  have "SendStrategyConf_Validate ?conf now = None"
    using assms(2)
    by (simp add: SendStrategyConf_Validate_def SendStrategy_defs Time_Add_durations Time_IsZero_def)
  then have "Notification_Validate (n\<lparr>n_StrategyConfig := ?conf\<rparr>) now = None"
    by (rule Notification_Validate_with_strategy [OF assms(1)])
  with True show ?thesis
    by (simp add: Notification_ReplaceAsyncImmediate_def Notification_IsImmediate_def
        SendStrategyConf_CalcTimeWindow_def SendStrategy_defs Time_Add_durations)
next
  case False
  with assms show ?thesis by (simp add: Notification_ReplaceAsyncImmediate_def)
qed

definition sample_notification :: Notification where
  "sample_notification = zero_Notification
     \<lparr>n_Id := 77, n_BizId := 3, n_BizKey := ''k'', n_Receivers := [''r''], n_Channel := ChannelSMS,
      n_Template := \<lparr>tpl_Id = 1, tpl_VersionId = 2, tpl_Params = [(''code'', ''1'')]\<rparr>,
      n_Status := SendStatusPending,
      n_StrategyConfig := zero_StrategyConf\<lparr>ss_Type := SendStrategyImmediate\<rparr>\<rparr>"

lemma sample_notification_valid: "Notification_Validate sample_notification now = None"
  by (simp add: sample_notification_def zero_Notification_def Notification_Validate_def
      SendStrategyConf_Validate_def zero_StrategyConf_def Channel_Validate_def)

lemma sample_notification_immediate: "Notification_IsImmediate sample_notification"
  by (simp add: sample_notification_def Notification_IsImmediate_def zero_StrategyConf_def)

lemma ReplaceAsyncImmediate_valid_witness:
  "Notification_Validate (Notification_ReplaceAsyncImmediate sample_notification 9) 9 = None \<and>
   \<not> Notification_IsImmediate (Notification_ReplaceAsyncImmediate sample_notification 9)"
  using ReplaceAsyncImmediate_valid [of sample_notification 9]
  by (simp add: sample_notification_valid)

text \<open>What \<open>SetNextCheckAtAndStatus\<close> does on every branch: it panics exactly when a policy names a
  type whose parameters are missing; without a policy, with a policy the library refuses, or when
  the library allows no further attempt, the transaction fails and is not checked again; otherwise
  the next check is the library's delay after now, and the status is kept.\<close>

lemma SetNextCheckAtAndStatus_eq:
  "TxNotification_SetNextCheckAtAndStatus lib tn tc now =
     (let failed = Inr (tn\<lparr>tn_NextCheckBackAt := 0, tn_Status := TxnStatusFailed\<rparr>) in
      case Option.bind tc tc_RetryPolicy of
        None \<Rightarrow> failed
      | Some policy \<Rightarrow>
          if \<not> policy_complete policy then Inl NilDereference
          else case NewRetryStrategy lib policy of
                 Inr (Inr st) \<Rightarrow>
                   let next = lib_NextWithRetried lib st (tn_CheckedBackCnt tn) in
                   if snd next
                   then Inr (tn\<lparr>tn_NextCheckBackAt := Time_UnixMilli (now + sint (fst next))\<rparr>)
                   else failed
               | _ \<Rightarrow> failed)"
proof (cases "Option.bind tc tc_RetryPolicy")
  case None
  then show ?thesis
    by (auto simp: TxNotification_SetNextCheckAtAndStatus_def TxNotification_nextCheck_def Let_def
        split: option.splits)
next
  case (Some policy)
  then obtain conf where c: "tc = Some conf" "tc_RetryPolicy conf = Some policy"
    by (cases tc) auto
  show ?thesis
  proof (cases "NewRetryStrategy lib policy")
    case (Inl p)
    then have "p = NilDereference" "\<not> policy_complete policy"
      by (simp_all add: NewRetryStrategy_panics_iff)
    with Inl c show ?thesis
      by (simp add: TxNotification_SetNextCheckAtAndStatus_def TxNotification_nextCheck_def Let_def)
  next
    case (Inr r)
    then have "policy_complete policy"
      using NewRetryStrategy_panics_iff by (metis Inl_Inr_False)
    with Inr c show ?thesis
      by (auto simp: TxNotification_SetNextCheckAtAndStatus_def TxNotification_nextCheck_def Let_def
          Time_Add_def split: sum.splits prod.splits)
  qed
qed

end
