(* ===== verification/Api.thy ===== *)
theory Api
  imports Domain
begin

text \<open>
  \<open>NotificationFromApi\<close> of \<open>internal/domain/notification.go\<close>: a request of the generated API package
  becomes a notification. The request types hold the fields the code reads; a pointer is an option; a
  protobuf timestamp is a value of type \<open>'ts\<close> and its \<open>AsTime\<close> the parameter \<open>asTime\<close>.
  \<open>ParseUint\<close> is \<open>strconv.ParseUint(s, 10, 64)\<close>.
\<close>

section \<open>Parsing decimal numbers\<close>

definition digit_val :: "char \<Rightarrow> nat option" where
  "digit_val c = (let k = of_char c :: nat in if 48 \<le> k \<and> k \<le> 57 then Some (k - 48) else None)"

fun parse_digits :: "nat \<Rightarrow> string \<Rightarrow> nat option" where
  "parse_digits acc [] = Some acc"
| "parse_digits acc (c # cs) =
     (case digit_val c of None \<Rightarrow> None | Some d \<Rightarrow> parse_digits (10 * acc + d) cs)"

definition ParseUint :: "string \<Rightarrow> go_error + u64" where
  "ParseUint s =
     (if s = [] then Inl (ErrorNew ''invalid syntax'')
      else case parse_digits 0 s of
             None \<Rightarrow> Inl (ErrorNew ''invalid syntax'')
           | Some v \<Rightarrow> if v < 2 ^ 64 then Inr (word_of_nat v)
                       else Inl (ErrorNew ''value out of range''))"

lemma digit_val_digit_char: "d < 10 \<Longrightarrow> digit_val (digit_char d) = Some d"
  by (simp add: digit_val_def digit_char_code Let_def)

lemma parse_digits_append:
  "parse_digits acc (xs @ ys)
     = (case parse_digits acc xs of None \<Rightarrow> None | Some v \<Rightarrow> parse_digits v ys)"
  by (induction xs arbitrary: acc) (auto split: option.splits)

lemma parse_format_nat: "parse_digits 0 (format_nat v) = Some v"
proof (induction v rule: format_nat.induct)
  case (1 v)
  show ?case
  proof (cases "v < 10")
    case True
    then show ?thesis by (simp add: format_nat.simps [of v] digit_val_digit_char)
  next
    case False
    with 1 show ?thesis
      by (simp add: format_nat.simps [of v] parse_digits_append digit_val_digit_char)
  qed
qed

lemma ParseUint_FormatUint: "ParseUint (FormatUint w) = Inr w"
  using unat_less_64 [of w] by (simp add: ParseUint_def FormatUint_def parse_format_nat format_nat_nonempty)

section \<open>Requests\<close>

datatype api_Channel = Channel_SMS | Channel_EMAIL | Channel_IN_APP | Channel_Other int

text \<open>The cases of the oneof; a nil message inside a case is None, and so is a nil timestamp.\<close>

datatype 'ts api_StrategyType =
    Api_Immediate
  | Api_Delayed "i64 option"
  | Api_Scheduled "'ts option option"
  | Api_TimeWindow "(i64 \<times> i64) option"
  | Api_Deadline "'ts option option"
  | Api_NoType

record 'ts api_Notification =
  an_BizKey :: string
  an_Receivers :: "string list"
  an_Channel :: api_Channel
  an_TplId :: string
  an_TplParams :: "(string \<times> string) list"
  an_Strategy :: "'ts api_StrategyType option"

definition getDomainChannel :: "'ts api_Notification \<Rightarrow> go_error + Channel" where
  "getDomainChannel n =
     (case an_Channel n of
        Channel_SMS \<Rightarrow> Inr ChannelSMS
      | Channel_EMAIL \<Rightarrow> Inr ChannelEmail
      | Channel_IN_APP \<Rightarrow> Inr ChannelApp
      | Channel_Other _ \<Rightarrow> Inl (Wrapped ErrInvalidChannel []))"

text \<open>The local variables of the function that the switch assigns.\<close>

record strategy_locals =
  l_strategy :: SendStrategy
  l_delaySeconds :: i64
  l_scheduleAt :: Time
  l_startTime :: i64
  l_endTime :: i64
  l_deadline :: Time

definition locals_init :: strategy_locals where
  "locals_init = \<lparr>l_strategy = [], l_delaySeconds = 0, l_scheduleAt = 0, l_startTime = 0,
     l_endTime = 0, l_deadline = 0\<rparr>"

definition strategy_switch ::
    "('ts option \<Rightarrow> Time) \<Rightarrow> 'ts api_StrategyType \<Rightarrow> go_error + strategy_locals" where
  "strategy_switch asTime st =
     (case st of
        Api_Immediate \<Rightarrow> Inr (locals_init\<lparr>l_strategy := SendStrategyImmediate\<rparr>)
      | Api_Delayed d \<Rightarrow>
          (case d of
             Some delaySeconds \<Rightarrow>
               if 0 <s delaySeconds
               then Inr (locals_init\<lparr>l_strategy := SendStrategyDelayed, l_delaySeconds := delaySeconds\<rparr>)
               else Inl (Wrapped ErrInvalidSendStrategy [])
           | None \<Rightarrow> Inl (Wrapped ErrInvalidSendStrategy []))
      | Api_Scheduled s \<Rightarrow>
          (case s of
             Some (Some t) \<Rightarrow>
               Inr (locals_init\<lparr>l_strategy := SendStrategyScheduled, l_scheduleAt := asTime (Some t)\<rparr>)
           | _ \<Rightarrow> Inl (Wrapped ErrInvalidSendStrategy []))
      | Api_TimeWindow w \<Rightarrow>
          (case w of
             Some (startMillis, endMillis) \<Rightarrow>
               Inr (locals_init\<lparr>l_strategy := SendStrategyTimeWindow, l_startTime := startMillis,
                                l_endTime := endMillis\<rparr>)
           | None \<Rightarrow> Inl (Wrapped ErrInvalidSendStrategy []))
      | Api_Deadline d \<Rightarrow>
          (case d of
             Some t \<Rightarrow> Inr (locals_init\<lparr>l_strategy := SendStrategyDeadline, l_deadline := asTime t\<rparr>)
           | None \<Rightarrow> Inl (Wrapped ErrInvalidSendStrategy []))
      | Api_NoType \<Rightarrow> Inl (Wrapped ErrInvalidSendStrategy []))"

definition getDomainStrategyConfig ::
    "('ts option \<Rightarrow> Time) \<Rightarrow> 'ts api_Notification \<Rightarrow> go_error + SendStrategyConf" where
  "getDomainStrategyConfig asTime n =
     (case (case an_Strategy n of None \<Rightarrow> Inr locals_init | Some st \<Rightarrow> strategy_switch asTime st) of
        Inl err \<Rightarrow> Inl err
      | Inr l \<Rightarrow>
          Inr \<lparr>ss_Type = l_strategy l, ss_Delay = l_delaySeconds l * Second,
               ss_ScheduleAt = l_scheduleAt l, ss_Start = Time_Unix (l_startTime l) 0,
               ss_End = Time_Unix (l_endTime l) 0, ss_Deadline = l_deadline l\<rparr>)"

definition NotificationFromApi ::
    "('ts option \<Rightarrow> Time) \<Rightarrow> 'ts api_Notification option \<Rightarrow> go_error + Notification" where
  "NotificationFromApi asTime n =
     (case n of
        None \<Rightarrow> Inl (Wrapped ErrInvalidParam ''notification is nil'')
      | Some n \<Rightarrow>
          (case ParseUint (an_TplId n) of
             Inl err \<Rightarrow> Inl (Wrapped ErrInvalidParam ''parse template id failed'')
           | Inr tplId \<Rightarrow>
               (case getDomainChannel n of
                  Inl err \<Rightarrow> Inl err
                | Inr channel \<Rightarrow>
                    (case getDomainStrategyConfig asTime n of
                       Inl err \<Rightarrow> Inl err
                     | Inr strategyConfig \<Rightarrow>
                         Inr (zero_Notification
                           \<lparr>n_BizKey := an_BizKey n, n_Receivers := an_Receivers n,
                            n_Channel := channel,
                            n_Template := \<lparr>tpl_Id = tplId, tpl_VersionId = 0,
                                            tpl_Params = an_TplParams n\<rparr>,
                            n_StrategyConfig := strategyConfig\<rparr>)))))"

section \<open>Properties\<close>

text \<open>What a well-formed request becomes: its key, receivers, channel, template number and
  parameters are carried over for every decimal template id, and the strategy is the request's.\<close>

theorem NotificationFromApi_fields:
  assumes "an_TplId a = FormatUint tid" and "getDomainChannel a = Inr ch"
    and "getDomainStrategyConfig asTime a = Inr conf"
  shows "\<exists>n. NotificationFromApi asTime (Some a) = Inr n \<and> n_BizKey n = an_BizKey a \<and>
     n_Receivers n = an_Receivers a \<and> n_Channel n = ch \<and> Channel_Validate ch \<and>
     tpl_Id (n_Template n) = tid \<and> tpl_Params (n_Template n) = an_TplParams a \<and>
     n_StrategyConfig n = conf"
proof -
  have "Channel_Validate ch"
    using assms(2) by (auto simp: getDomainChannel_def Channel_Validate_def split: api_Channel.splits)
  with assms show ?thesis by (simp add: NotificationFromApi_def ParseUint_FormatUint)
qed

definition sample_request :: "unit api_Notification" where
  "sample_request = \<lparr>an_BizKey = ''k'', an_Receivers = [''r''], an_Channel = Channel_SMS,
     an_TplId = FormatUint 42, an_TplParams = [(''code'', ''1'')],
     an_Strategy = Some (Api_TimeWindow (Some (1700000000000, 1700000060000)))\<rparr>"

lemma NotificationFromApi_fields_witness:
  "\<exists>n. NotificationFromApi (\<lambda>_. 0) (Some sample_request) = Inr n \<and> tpl_Id (n_Template n) = 42 \<and>
     n_Channel n = ChannelSMS"
  using NotificationFromApi_fields [of sample_request 42 ChannelSMS "\<lambda>_. 0"]
  by (auto simp: sample_request_def getDomainChannel_def getDomainStrategyConfig_def strategy_switch_def)

text \<open>No notification made from a request passes \<open>Validate\<close>, whichever id and business id the
  caller fills in: the template version is never set, so the check of the version fails.\<close>

theorem NotificationFromApi_never_valid:
  assumes "NotificationFromApi asTime a = Inr n"
  shows "\<exists>e. Notification_Validate (n\<lparr>n_Id := i, n_BizId := b\<rparr>) now = Some e \<and>
     errors_Is e ErrInvalidParam"
  using assms
  by (auto simp: NotificationFromApi_def Notification_Validate_def split: option.splits sum.splits)

lemma NotificationFromApi_never_valid_witness:
  "\<exists>n e. NotificationFromApi (\<lambda>_. 0) (Some sample_request) = Inr n \<and>
     Notification_Validate (n\<lparr>n_Id := 5, n_BizId := 6\<rparr>) 9 = Some e \<and> errors_Is e ErrInvalidParam"
proof -
  obtain n where n: "NotificationFromApi (\<lambda>_. 0) (Some sample_request) = Inr n"
    by (simp add: sample_request_def NotificationFromApi_def getDomainChannel_def
        getDomainStrategyConfig_def strategy_switch_def ParseUint_FormatUint)
  from NotificationFromApi_never_valid [OF n, where i = 5 and b = 6 and now = 9] n show ?thesis by blast
qed

text \<open>The millisecond bounds of a time window are read as seconds: the window a request gets is
  a thousand times as long as the one it asks for.\<close>

theorem time_window_scaled:
  assumes "an_Strategy a = Some (Api_TimeWindow (Some (s, e)))"
  shows "\<exists>conf. getDomainStrategyConfig asTime a = Inr conf \<and>
     ss_Type conf = SendStrategyTimeWindow \<and>
     ss_End conf - ss_Start conf = 1000 * (time_of_UnixMilli e - time_of_UnixMilli s) \<and>
     ss_Start conf - unix_epoch = 1000 * (time_of_UnixMilli s - unix_epoch)"
  using assms
  by (simp add: getDomainStrategyConfig_def strategy_switch_def locals_init_def Time_Unix_def
      time_of_UnixMilli_def algebra_simps)

lemma time_window_scaled_witness:
  "\<exists>conf. getDomainStrategyConfig (\<lambda>_. 0) sample_request = Inr conf \<and>
     ss_End conf - ss_Start conf = 60000 * 1000000000"
  using time_window_scaled [of sample_request 1700000000000 1700000060000 "\<lambda>_. 0"]
  by (auto simp: sample_request_def time_of_UnixMilli_def)

text \<open>A scheduled request gets a window that does not depend on its send time and that has ended
  before it begins, whatever the clock says when it is computed.\<close>

theorem scheduled_window_empty:
  assumes "an_Strategy a = Some (Api_Scheduled (Some (Some ts)))"
  shows "\<exists>conf start fin. getDomainStrategyConfig asTime a = Inr conf \<and>
     ss_ScheduleAt conf = asTime (Some ts) \<and>
     SendStrategyConf_CalcTimeWindow conf now = (start, fin) \<and>
     fin < start \<and> start = unix_epoch - 3000000000"
  using assms
  by (simp add: getDomainStrategyConfig_def strategy_switch_def locals_init_def Time_Unix_def
      SendStrategyConf_CalcTimeWindow_def SendStrategy_defs Time_Add_def Second_def unix_epoch_def)

lemma scheduled_window_empty_witness:
  "\<exists>conf. getDomainStrategyConfig (\<lambda>_. unix_epoch + 1800000000000000000)
       (sample_request\<lparr>an_Strategy := Some (Api_Scheduled (Some (Some ())))\<rparr>) = Inr conf \<and>
     fst (SendStrategyConf_CalcTimeWindow conf 5) > snd (SendStrategyConf_CalcTimeWindow conf 5)"
  using scheduled_window_empty
    [of "sample_request\<lparr>an_Strategy := Some (Api_Scheduled (Some (Some ())))\<rparr>" "()"
        "\<lambda>_. unix_epoch + 1800000000000000000" 5]
  by auto

end
