(* ===== verification/Channels.thy ===== *)
theory Channels
  imports Effect Domain
begin

text \<open>
  \<open>internal/service/channel\<close> and \<open>internal/service/provider/selector\<close>: a channel asks a selector for
  one provider after another until one of them sends the notification (\<open>channel/sms.go\<close>), the
  sequential selector hands out its providers once each (\<open>selector/sequential.go\<close>), and the dispatcher
  chooses the channel of a notification (\<open>channel/types.go\<close>). A provider is the effect of its \<open>Send\<close>;
  its result is the pair of the response and the error, a nil provider is None. The
  lemmas of the locale \<open>provider_selector\<close> hold for every selector that hands out a finite list.
\<close>

section \<open>Providers and selectors\<close>

type_synonym 'w provider = "Notification \<Rightarrow> ('w, SendResp \<times> go_error option) io"

record ('s, 'w) Selector =
  sel_Next :: "'s \<Rightarrow> Notification \<Rightarrow> ('w provider option \<times> go_error option \<times> 's) run"

type_synonym ('s, 'w) SelectorBuilder = "go_error + ('s \<times> ('s, 'w) Selector)"

record 'w SeqSelector =
  seq_index :: int
  seq_providers :: "'w provider list"

definition SeqSelector_Next ::
    "'w SeqSelector \<Rightarrow> Notification \<Rightarrow> ('w provider option \<times> go_error option \<times> 'w SeqSelector) run" where
  "SeqSelector_Next ss n =
     (if int (length (seq_providers ss)) = seq_index ss
      then Inr (None, Some (Wrapped ErrNotAvailableProvider []), ss)
      else run_bind (index_at (seq_providers ss) (seq_index ss)) (\<lambda>p.
        Inr (Some p, None, ss\<lparr>seq_index := seq_index ss + 1\<rparr>)))"

record 'w SeqSelectorBuilder =
  ssb_providers :: "'w provider list"

definition NewSeqSelectorBuilder :: "'w provider list \<Rightarrow> 'w SeqSelectorBuilder" where
  "NewSeqSelectorBuilder providers = \<lparr>ssb_providers = providers\<rparr>"

definition SeqSelectorBuilder_Build ::
    "'w SeqSelectorBuilder \<Rightarrow> ('w SeqSelector, 'w) SelectorBuilder" where
  "SeqSelectorBuilder_Build ssb =
     Inr (\<lparr>seq_index = 0, seq_providers = ssb_providers ssb\<rparr>, \<lparr>sel_Next = SeqSelector_Next\<rparr>)"

section \<open>Channels\<close>

text \<open>The loop of \<open>baseChannel.Send\<close>. The error it tests is the one of \<open>Build\<close>, which is nil in the
  loop, not the one of \<open>Next\<close>; a nil provider is a nil dereference. The loop need not end for an
  arbitrary selector; None is a loop that takes more than \<open>fuel\<close> turns.\<close>

fun baseChannel_loop ::
    "nat \<Rightarrow> ('s, 'w) Selector \<Rightarrow> go_error option \<Rightarrow> 's \<Rightarrow> Notification
      \<Rightarrow> ('w, (SendResp \<times> go_error option) option) io" where
  "baseChannel_loop 0 sel err s n = io_return None"
| "baseChannel_loop (Suc fuel) sel err s n =
     io_bind (io_run (sel_Next sel s n)) (\<lambda>(p, selectErr, s').
     if err \<noteq> None
     then io_return (Some (zero_SendResult, Some (WrappedBoth ErrFailedToSendNotification (the selectErr))))
     else case p of
       None \<Rightarrow> io_panic NilDereference
     | Some send \<Rightarrow>
         io_bind (send n) (\<lambda>(resp, sendErr).
         if sendErr \<noteq> None then baseChannel_loop fuel sel err s' n
         else io_return (Some (resp, None))))"

definition baseChannel_Send ::
    "nat \<Rightarrow> ('s, 'w) SelectorBuilder \<Rightarrow> Notification \<Rightarrow> ('w, (SendResp \<times> go_error option) option) io" where
  "baseChannel_Send fuel sb n =
     (case sb of
        Inl err \<Rightarrow> io_return (Some (zero_SendResult,
                     Some (WrappedBoth ErrFailedToSendNotification err)))
      | Inr (s, sel) \<Rightarrow> baseChannel_loop fuel sel None s n)"

text \<open>\<open>SmsChannel\<close> embeds \<open>baseChannel\<close> and adds nothing.\<close>

definition SmsChannel_Send ::
    "nat \<Rightarrow> 'w SeqSelectorBuilder \<Rightarrow> Notification \<Rightarrow> ('w, (SendResp \<times> go_error option) option) io" where
  "SmsChannel_Send fuel ssb = baseChannel_Send fuel (SeqSelectorBuilder_Build ssb)"

record 'w channel_Dispatcher =
  cd_channels :: "Channel \<Rightarrow> (Notification \<Rightarrow> ('w, SendResp \<times> go_error option) io) option"

definition channel_Dispatcher_Send ::
    "'w channel_Dispatcher \<Rightarrow> Notification \<Rightarrow> ('w, SendResp \<times> go_error option) io" where
  "channel_Dispatcher_Send d n =
     (case cd_channels d (n_Channel n) of
        Some send \<Rightarrow> send n
      | None \<Rightarrow> io_return (zero_SendResult, Some (Wrapped ErrInvalidChannel [])))"

definition channel_NewDispatcher ::
    "(Channel \<Rightarrow> (Notification \<Rightarrow> ('w, SendResp \<times> go_error option) io) option) \<Rightarrow> 'w channel_Dispatcher" where
  "channel_NewDispatcher channels = \<lparr>cd_channels = channels\<rparr>"

section \<open>What a channel does\<close>

text \<open>Trying providers in order: the first that sends without an error ends the search. None is the
  end of the list.\<close>

fun try_providers :: "'w provider list \<Rightarrow> Notification \<Rightarrow> ('w, SendResp option) io" where
  "try_providers [] n = io_return None"
| "try_providers (send # ps) n =
     io_bind (send n) (\<lambda>(resp, sendErr).
       if sendErr \<noteq> None then try_providers ps n else io_return (Some resp))"

text \<open>A selector that hands out the providers \<open>pending s\<close> in order, and then no provider.\<close>

locale provider_selector =
  fixes sel :: "('s, 'w) Selector"
    and pending :: "'s \<Rightarrow> 'w provider list"
    and ok :: "'s \<Rightarrow> bool"
  assumes next_provider: "ok s \<Longrightarrow> pending s = p # ps \<Longrightarrow>
      \<exists>s'. sel_Next sel s n = Inr (Some p, None, s') \<and> ok s' \<and> pending s' = ps"
    and next_exhausted: "ok s \<Longrightarrow> pending s = [] \<Longrightarrow> \<exists>e s'. sel_Next sel s n = Inr (None, Some e, s')"
begin

lemma loop_tries:
  assumes "ok s" "length (pending s) < fuel"
  shows "baseChannel_loop fuel sel None s n =
     io_bind (try_providers (pending s) n)
       (\<lambda>r. case r of None \<Rightarrow> io_panic NilDereference | Some resp \<Rightarrow> io_return (Some (resp, None)))"
  using assms
proof (induction "pending s" arbitrary: s fuel)
  case Nil
  then obtain f where f: "fuel = Suc f" by (cases fuel) auto
  from next_exhausted [OF Nil(2) Nil(1) [symmetric], of n] obtain e s' where
    "sel_Next sel s n = Inr (None, Some e, s')" by blast
  with Nil(1) f show ?case by (simp flip: Nil(1))
next
  case (Cons p ps)
  then obtain f where f: "fuel = Suc f" by (cases fuel) auto
  from next_provider [OF Cons(3) Cons(2) [symmetric], of n] obtain s' where
    s': "sel_Next sel s n = Inr (Some p, None, s')" "ok s'" "pending s' = ps" by blast
  have "length (pending s') < f" using Cons(4) f s'(3) by (simp flip: Cons(2))
  from Cons(1) [OF s'(3) [symmetric] s'(2) this] s' f show ?case
    by (auto simp: fun_eq_iff io_bind_def simp flip: Cons(2) split: prod.splits sum.splits)
qed

end

text \<open>The providers a sequential selector still has.\<close>

definition seq_pending :: "'w SeqSelector \<Rightarrow> 'w provider list" where
  "seq_pending ss = drop (nat (seq_index ss)) (seq_providers ss)"

definition seq_ok :: "'w SeqSelector \<Rightarrow> bool" where
  "seq_ok ss \<longleftrightarrow> 0 \<le> seq_index ss \<and> seq_index ss \<le> int (length (seq_providers ss))"

interpretation seq_sel: provider_selector "\<lparr>sel_Next = SeqSelector_Next\<rparr>" seq_pending seq_ok
proof unfold_locales
  fix s :: "'w SeqSelector" and p ps n
  assume ok: "seq_ok s" and pend: "seq_pending s = p # ps"
  then have lt: "nat (seq_index s) < length (seq_providers s)"
    by (metis drop_all linorder_not_less list.discI seq_pending_def)
  with ok pend have "seq_providers s ! nat (seq_index s) = p"
    and "drop (Suc (nat (seq_index s))) (seq_providers s) = ps"
    by (simp_all add: seq_pending_def Cons_nth_drop_Suc [symmetric])
  with ok lt show "\<exists>s'. sel_Next \<lparr>sel_Next = SeqSelector_Next\<rparr> s n = Inr (Some p, None, s') \<and> seq_ok s' \<and>
      seq_pending s' = ps"
    by (auto simp: SeqSelector_Next_def index_at_def seq_ok_def seq_pending_def nat_add_distrib)
next
  fix s :: "'w SeqSelector" and n
  assume "seq_ok s" "seq_pending s = []"
  then show "\<exists>e s'. sel_Next \<lparr>sel_Next = SeqSelector_Next\<rparr> s n = Inr (None, Some e, s')"
    by (auto simp: SeqSelector_Next_def seq_ok_def seq_pending_def)
qed

section \<open>Properties\<close>

text \<open>C39. Sending over the SMS channel tries its providers once each, in order, and returns the first
  response without an error; the loop ends after one turn more than there are providers. When every
  provider fails the code dereferences the nil provider of the exhausted selector and panics: the error
  of the selector is not the one it tests.\<close>

theorem SmsChannel_Send_tries:
  assumes "length ps < fuel"
  shows "SmsChannel_Send fuel (NewSeqSelectorBuilder ps) n w =
     (case try_providers ps n w of
        (Inl p, w') \<Rightarrow> (Inl p, w')
      | (Inr (Some resp), w') \<Rightarrow> (Inr (Some (resp, None)), w')
      | (Inr None, w') \<Rightarrow> (Inl NilDereference, w'))"
proof -
  let ?s = "\<lparr>seq_index = 0, seq_providers = ps\<rparr>"
  have "seq_ok ?s" "seq_pending ?s = ps" by (simp_all add: seq_ok_def seq_pending_def)
  with seq_sel.loop_tries [of ?s fuel n] assms show ?thesis
    by (simp add: SmsChannel_Send_def baseChannel_Send_def SeqSelectorBuilder_Build_def
        NewSeqSelectorBuilder_def io_bind_def split: prod.splits sum.splits option.splits)
qed

lemma SmsChannel_Send_tries_witness:
  "let p = (\<lambda>n w. (Inr (zero_SendResult, Some (External 1)), w + 1))
   in SmsChannel_Send 3 (NewSeqSelectorBuilder [p, p]) sample_notification (0::nat)
      = (Inl NilDereference, 2)"
  using SmsChannel_Send_tries
    [of "[\<lambda>n w. (Inr (zero_SendResult, Some (External 1)), w + 1),
         \<lambda>n w. (Inr (zero_SendResult, Some (External 1)), w + 1)]" 3 sample_notification "0::nat"]
  by (simp add: io_bind_def Let_def)

end
