(* ===== verification/Templates.thy ===== *)
theory Templates
  imports Effect Domain
begin

text \<open>
  Channel templates: the domain objects and their queries (\<open>internal/domain/template.go\<close>), the rows
  and the lookups of \<open>internal/repository/dao/template.go\<close> and \<open>dao/provider.go\<close>, and the repositories
  over them (\<open>repository/template.go\<close>, \<open>repository/provider.go\<close>). A lookup of the database library is a
  field of the parameter \<open>tpl_db\<close>: the row, or an error of which the code tests for
  \<open>gorm.ErrRecordNotFound\<close>.
\<close>

section \<open>Domain objects\<close>

type_synonym AuditStatus = string

definition AuditStatus_String :: "AuditStatus \<Rightarrow> string" where
  "AuditStatus_String a = a"

definition AuditStatusPending :: AuditStatus where "AuditStatusPending = ''pending''"
definition AuditStatusInPreview :: AuditStatus where "AuditStatusInPreview = ''in_preview''"
definition AuditStatusApproved :: AuditStatus where "AuditStatusApproved = ''approved''"
definition AuditStatusRejected :: AuditStatus where "AuditStatusRejected = ''rejected''"

definition AuditStatus_Validate :: "AuditStatus \<Rightarrow> bool" where
  "AuditStatus_Validate a \<longleftrightarrow>
     a \<in> {AuditStatusPending, AuditStatusInPreview, AuditStatusApproved, AuditStatusRejected}"

definition AuditStatus_IsPending :: "AuditStatus \<Rightarrow> bool" where
  "AuditStatus_IsPending a \<longleftrightarrow> a = AuditStatusPending"

definition AuditStatus_IsInPreview :: "AuditStatus \<Rightarrow> bool" where
  "AuditStatus_IsInPreview a \<longleftrightarrow> a = AuditStatusInPreview"

definition AuditStatus_IsApproved :: "AuditStatus \<Rightarrow> bool" where
  "AuditStatus_IsApproved a \<longleftrightarrow> a = AuditStatusApproved"

definition AuditStatus_IsRejected :: "AuditStatus \<Rightarrow> bool" where
  "AuditStatus_IsRejected a \<longleftrightarrow> a = AuditStatusRejected"

text \<open>The statuses are different: a valid one is exactly one of the four.\<close>

lemma AuditStatus_exclusive:
  "AuditStatus_Validate a \<longleftrightarrow>
     length (filter (\<lambda>p. p a) [AuditStatus_IsPending, AuditStatus_IsInPreview, AuditStatus_IsApproved, AuditStatus_IsRejected]) = 1"
  by (auto simp: AuditStatus_Validate_def AuditStatus_IsPending_def AuditStatus_IsInPreview_def AuditStatus_IsApproved_def
      AuditStatus_IsRejected_def AuditStatusPending_def AuditStatusInPreview_def AuditStatusApproved_def AuditStatusRejected_def)

definition OwnerTypePerson :: string where "OwnerTypePerson = ''person''"
definition OwnerTypeOrganization :: string where "OwnerTypeOrganization = ''organization''"

definition OwnerType_String :: "string \<Rightarrow> string" where
  "OwnerType_String ot = ot"

definition OwnerType_Validate :: "string \<Rightarrow> bool" where
  "OwnerType_Validate ot \<longleftrightarrow> ot = OwnerTypePerson \<or> ot = OwnerTypeOrganization"

definition BizTypePromotion :: string where "BizTypePromotion = ''Promotion''"
definition BizTypeNotification :: string where "BizTypeNotification = ''notification''"
definition BizTypeVerifyCode :: string where "BizTypeVerifyCode = ''verify_code''"

definition BizType_String :: "string \<Rightarrow> string" where
  "BizType_String b = b"

definition BizType_Validate :: "string \<Rightarrow> bool" where
  "BizType_Validate b \<longleftrightarrow> b = BizTypePromotion \<or> b = BizTypeNotification \<or> b = BizTypeVerifyCode"

text \<open>What is audited (\<open>domain/audit.go\<close>).\<close>

definition ResourceTypeTemplate :: string where "ResourceTypeTemplate = ''Template''"

definition ResourceType_IsTemplate :: "string \<Rightarrow> bool" where
  "ResourceType_IsTemplate r \<longleftrightarrow> r = ResourceTypeTemplate"

record Audit =
  au_ResourceId :: u64
  au_ResourceType :: string
  au_Content :: string

record AuditContent =
  aq_OwnerId :: u64
  aq_OwnerType :: string
  aq_Name :: string
  aq_Description :: string
  aq_Channel :: string
  aq_BizType :: string
  aq_Version :: string
  aq_Signature :: string
  aq_Content :: string
  aq_Remark :: string
  aq_ProviderNames :: "string list"

record ChannelTplProvider =
  tp_Id :: u64
  tp_TplId :: u64
  tp_TplVersionId :: u64
  tp_ProviderId :: u64
  tp_ProviderName :: string
  tp_ProviderChannel :: Channel
  tp_RequestId :: string
  tp_ProviderTplId :: string
  tp_AuditStatus :: AuditStatus
  tp_RejectReason :: string
  tp_LastReviewAt :: i64
  tp_CreateAt :: i64
  tp_UpdateAt :: i64

record ChannelTplVersion =
  tv_Id :: u64
  tv_ChannelTplId :: u64
  tv_Name :: string
  tv_Signature :: string
  tv_Content :: string
  tv_Remark :: string
  tv_AuditId :: u64
  tv_AuditorId :: u64
  tv_AuditAt :: i64
  tv_AuditStatus :: AuditStatus
  tv_RejectReason :: string
  tv_LastReviewAt :: i64
  tv_CreateAt :: i64
  tv_UpdateAt :: i64
  tv_Providers :: "ChannelTplProvider list"

record ChannelTpl =
  ct_Id :: u64
  ct_OwnerId :: u64
  ct_OwnerType :: string
  ct_Name :: string
  ct_Description :: string
  ct_Channel :: Channel
  ct_BizType :: string
  ct_ActivatedVersionId :: u64
  ct_CreateAt :: i64
  ct_UpdateAt :: i64
  ct_Versions :: "ChannelTplVersion list"

definition ChannelTpl_Validate :: "ChannelTpl \<Rightarrow> go_error option" where
  "ChannelTpl_Validate ct = first_failing
     [(\<not> OwnerType_Validate (ct_OwnerType ct), Wrapped ErrInvalidParam ''invalid owner type''),
      (\<not> Channel_Validate (ct_Channel ct), Wrapped ErrInvalidParam ''invalid channel''),
      (\<not> BizType_Validate (ct_BizType ct), Wrapped ErrInvalidParam ''invalid biz type''),
      (ct_OwnerId ct \<le> 0, Wrapped ErrInvalidParam ''owner id should not be negative or zero''),
      (ct_Name ct = [], Wrapped ErrInvalidParam ''template name should not be empty''),
      (ct_Description ct = [],
         Wrapped ErrInvalidParam ''template description should not be empty'')]"

definition ChannelTpl_Published :: "ChannelTpl \<Rightarrow> bool" where
  "ChannelTpl_Published ct \<longleftrightarrow> ct_ActivatedVersionId ct > 0"

definition ChannelTpl_ActivatedVersion :: "ChannelTpl \<Rightarrow> ChannelTplVersion option" where
  "ChannelTpl_ActivatedVersion ct =
     (if ct_ActivatedVersionId ct \<le> 0 then None
      else List.find (\<lambda>v. tv_Id v = ct_ActivatedVersionId ct) (ct_Versions ct))"

definition ChannelTpl_GetVersion :: "ChannelTpl \<Rightarrow> u64 \<Rightarrow> ChannelTplVersion option" where
  "ChannelTpl_GetVersion ct versionId = List.find (\<lambda>v. tv_Id v = versionId) (ct_Versions ct)"

definition ChannelTpl_GetProvidersByVersion :: "ChannelTpl \<Rightarrow> u64 \<Rightarrow> ChannelTplProvider list" where
  "ChannelTpl_GetProvidersByVersion ct versionId =
     (case ChannelTpl_GetVersion ct versionId of None \<Rightarrow> [] | Some version \<Rightarrow> tv_Providers version)"

definition ChannelTpl_GetProvider :: "ChannelTpl \<Rightarrow> u64 \<Rightarrow> u64 \<Rightarrow> ChannelTplProvider option" where
  "ChannelTpl_GetProvider ct versionId providerId =
     (case ChannelTpl_GetVersion ct versionId of
        None \<Rightarrow> None
      | Some version \<Rightarrow> List.find (\<lambda>p. tp_Id p = providerId) (tv_Providers version))"

definition ChannelTpl_HasApprovedVersion :: "ChannelTpl \<Rightarrow> bool" where
  "ChannelTpl_HasApprovedVersion ct \<longleftrightarrow>
     (\<exists>v \<in> set (ct_Versions ct). tv_AuditStatus v = AuditStatusApproved)"

section \<open>Rows and lookups\<close>

record TplRow =
  tr_Id :: u64
  tr_OwnerId :: u64
  tr_OwnerType :: string
  tr_Name :: string
  tr_Description :: string
  tr_Channel :: string
  tr_BizType :: string
  tr_ActivatedVersionId :: u64
  tr_CreatedAt :: i64
  tr_UpdatedAt :: i64

record VersionRow =
  vr_Id :: u64
  vr_ChannelTplId :: u64
  vr_Name :: string
  vr_Signature :: string
  vr_Content :: string
  vr_Remark :: string
  vr_AuditId :: u64
  vr_AuditorId :: u64
  vr_AuditAt :: i64
  vr_AuditStatus :: string
  vr_RejectReason :: string
  vr_LastReviewAt :: i64
  vr_CreatedAt :: i64
  vr_UpdatedAt :: i64

record TplProviderRow =
  pr_Id :: u64
  pr_TplId :: u64
  pr_TplVersionId :: u64
  pr_ProviderId :: u64
  pr_ProviderName :: string
  pr_ProviderChannel :: string
  pr_RequestId :: string
  pr_ProviderTplId :: string
  pr_AuditStatus :: string
  pr_RejectReason :: string
  pr_LastReviewAt :: i64
  pr_CreatedAt :: i64
  pr_UpdatedAt :: i64

text \<open>The row of a provider, and the tables of the rows.\<close>

record ProviderRow =
  pv_Id :: u64
  pv_Name :: string
  pv_Channel :: string
  pv_Endpoint :: string
  pv_RegionId :: string
  pv_AppId :: string
  pv_ApiKey :: string
  pv_ApiSecret :: string
  pv_Weight :: i32
  pv_QpsLimit :: i32
  pv_DailyLimit :: i32
  pv_CallbackUrl :: string
  pv_Status :: string
  pv_CreatedAt :: i64
  pv_UpdatedAt :: i64

definition ProviderRow_TableName :: "ProviderRow \<Rightarrow> string" where
  "ProviderRow_TableName p = ''provider''"

definition TplRow_TableName :: "TplRow \<Rightarrow> string" where
  "TplRow_TableName ct = ''channel_tpl''"

definition VersionRow_TableName :: "VersionRow \<Rightarrow> string" where
  "VersionRow_TableName c = ''channel_tpl_version''"

definition TplProviderRow_TableName :: "TplProviderRow \<Rightarrow> string" where
  "TplProviderRow_TableName c = ''channel_tpl_provider''"

lemma TableNames_distinct:
  "distinct [ProviderRow_TableName p, TplRow_TableName ct, VersionRow_TableName v, TplProviderRow_TableName c]"
  by (simp add: ProviderRow_TableName_def TplRow_TableName_def VersionRow_TableName_def TplProviderRow_TableName_def)

text \<open>The queries of gorm the DAOs make.\<close>

record 'w tpl_db =
  td_FirstTpl :: "u64 \<Rightarrow> ('w, go_error + TplRow) io"
  td_FirstVersion :: "u64 \<Rightarrow> ('w, go_error + VersionRow) io"
  td_FindVersions :: "u64 list \<Rightarrow> ('w, go_error + VersionRow list) io"
  td_FindProviders :: "string \<Rightarrow> u64 \<Rightarrow> u64 \<Rightarrow> string \<Rightarrow> ('w, go_error + TplProviderRow list) io"

definition ChannelTplDAO_GetById :: "'w tpl_db \<Rightarrow> u64 \<Rightarrow> ('w, go_error + TplRow) io" where
  "ChannelTplDAO_GetById db iden =
     io_bind (td_FirstTpl db iden) (\<lambda>r.
     case r of
       Inl err \<Rightarrow> io_return (Inl (if errors_Is err ErrRecordNotFound
                                 then Wrapped ErrChannelTplNotFound [] else err))
     | Inr tpl \<Rightarrow> io_return (Inr tpl))"

definition ChannelTplDAO_GetVersionsById :: "'w tpl_db \<Rightarrow> u64 \<Rightarrow> ('w, go_error + VersionRow) io" where
  "ChannelTplDAO_GetVersionsById db versionId =
     io_bind (td_FirstVersion db versionId) (\<lambda>r.
     case r of
       Inl err \<Rightarrow> io_return (Inl (if errors_Is err ErrRecordNotFound
                                 then Wrapped ErrChannelTplVersionNotFound [] else err))
     | Inr version \<Rightarrow> io_return (Inr version))"

definition ChannelTplDAO_GetVersionsByIds ::
    "'w tpl_db \<Rightarrow> u64 list \<Rightarrow> ('w, go_error + VersionRow list) io" where
  "ChannelTplDAO_GetVersionsByIds db versionIds =
     (if length versionIds = 0 then io_return (Inr []) else td_FindVersions db versionIds)"

definition ProviderDAO_GetByNameAndTplInfo ::
    "'w tpl_db \<Rightarrow> string \<Rightarrow> u64 \<Rightarrow> u64 \<Rightarrow> string \<Rightarrow> ('w, go_error + TplProviderRow list) io" where
  "ProviderDAO_GetByNameAndTplInfo db = td_FindProviders db"

section \<open>Repositories\<close>

text \<open>The interfaces of the DAOs and their constructors.\<close>

record 'w ChannelTplDAO =
  ctd_GetById :: "u64 \<Rightarrow> ('w, go_error + TplRow) io"
  ctd_GetVersionsById :: "u64 \<Rightarrow> ('w, go_error + VersionRow) io"
  ctd_GetVersionsByIds :: "u64 list \<Rightarrow> ('w, go_error + VersionRow list) io"

record 'w ProviderDAO =
  pvd_GetByNameAndTplInfo :: "string \<Rightarrow> u64 \<Rightarrow> u64 \<Rightarrow> string \<Rightarrow> ('w, go_error + TplProviderRow list) io"

definition NewDefaultChannelTplDAO :: "'w tpl_db \<Rightarrow> 'w ChannelTplDAO" where
  "NewDefaultChannelTplDAO db =
     \<lparr>ctd_GetById = ChannelTplDAO_GetById db, ctd_GetVersionsById = ChannelTplDAO_GetVersionsById db,
      ctd_GetVersionsByIds = ChannelTplDAO_GetVersionsByIds db\<rparr>"

definition NewDefaultProviderDAO :: "'w tpl_db \<Rightarrow> 'w ProviderDAO" where
  "NewDefaultProviderDAO db = \<lparr>pvd_GetByNameAndTplInfo = ProviderDAO_GetByNameAndTplInfo db\<rparr>"

definition toDomainVersion :: "VersionRow \<Rightarrow> ChannelTplVersion" where
  "toDomainVersion e =
     \<lparr>tv_Id = vr_Id e, tv_ChannelTplId = vr_ChannelTplId e, tv_Name = vr_Name e,
      tv_Signature = vr_Signature e, tv_Content = vr_Content e, tv_Remark = vr_Remark e,
      tv_AuditId = vr_AuditId e, tv_AuditorId = vr_AuditorId e, tv_AuditAt = vr_AuditAt e,
      tv_AuditStatus = vr_AuditStatus e, tv_RejectReason = vr_RejectReason e,
      tv_LastReviewAt = vr_LastReviewAt e, tv_CreateAt = vr_CreatedAt e,
      tv_UpdateAt = vr_UpdatedAt e, tv_Providers = []\<rparr>"

definition toDomainTemplate :: "TplRow \<Rightarrow> ChannelTpl" where
  "toDomainTemplate e =
     \<lparr>ct_Id = tr_Id e, ct_OwnerId = tr_OwnerId e, ct_OwnerType = tr_OwnerType e,
      ct_Name = tr_Name e, ct_Description = tr_Description e, ct_Channel = tr_Channel e,
      ct_BizType = tr_BizType e, ct_ActivatedVersionId = tr_ActivatedVersionId e,
      ct_CreateAt = tr_CreatedAt e, ct_UpdateAt = tr_UpdatedAt e, ct_Versions = []\<rparr>"

definition toDomainChannelTplProvider :: "TplProviderRow \<Rightarrow> ChannelTplProvider" where
  "toDomainChannelTplProvider e =
     \<lparr>tp_Id = pr_Id e, tp_TplId = pr_TplId e, tp_TplVersionId = pr_TplVersionId e,
      tp_ProviderId = pr_ProviderId e, tp_ProviderName = pr_ProviderName e,
      tp_ProviderChannel = pr_ProviderChannel e, tp_RequestId = pr_RequestId e,
      tp_ProviderTplId = pr_ProviderTplId e, tp_AuditStatus = pr_AuditStatus e,
      tp_RejectReason = pr_RejectReason e, tp_LastReviewAt = pr_LastReviewAt e,
      tp_CreateAt = pr_CreatedAt e, tp_UpdateAt = pr_UpdatedAt e\<rparr>"

text \<open>The interfaces \<open>ChannelTplRepo\<close> and \<open>ProviderRepo\<close>.\<close>

record 'w ChannelTplRepo =
  tplRepo_GetById :: "u64 \<Rightarrow> ('w, go_error + ChannelTpl) io"
  tplRepo_GetVersionByVersionId :: "u64 \<Rightarrow> ('w, go_error + ChannelTplVersion) io"

record 'w ProviderRepo =
  providerRepo_GetByNameAndTplInfo ::
    "string \<Rightarrow> u64 \<Rightarrow> u64 \<Rightarrow> string \<Rightarrow> ('w, go_error + ChannelTplProvider list) io"

definition DefaultChannelTplRepo_GetById :: "'w tpl_db \<Rightarrow> u64 \<Rightarrow> ('w, go_error + ChannelTpl) io" where
  "DefaultChannelTplRepo_GetById db iden =
     io_bind (ChannelTplDAO_GetById db iden) (\<lambda>r.
     case r of
       Inl err \<Rightarrow> io_return (Inl err)
     | Inr entity \<Rightarrow> io_return (Inr (toDomainTemplate entity)))"

definition DefaultChannelTplRepo_GetVersionByVersionId ::
    "'w tpl_db \<Rightarrow> u64 \<Rightarrow> ('w, go_error + ChannelTplVersion) io" where
  "DefaultChannelTplRepo_GetVersionByVersionId db versionId =
     io_bind (ChannelTplDAO_GetVersionsById db versionId) (\<lambda>r.
     case r of
       Inl err \<Rightarrow> io_return (Inl err)
     | Inr version \<Rightarrow> io_return (Inr (toDomainVersion version)))"

definition DefaultProviderRepo_GetByNameAndTplInfo ::
    "'w tpl_db \<Rightarrow> string \<Rightarrow> u64 \<Rightarrow> u64 \<Rightarrow> string \<Rightarrow> ('w, go_error + ChannelTplProvider list) io" where
  "DefaultProviderRepo_GetByNameAndTplInfo db name tplId tplVersionId tplChannel =
     io_bind (ProviderDAO_GetByNameAndTplInfo db name tplId tplVersionId tplChannel) (\<lambda>r.
     case r of
       Inl err \<Rightarrow> io_return (Inl err)
     | Inr providers \<Rightarrow> io_return (Inr (map toDomainChannelTplProvider providers)))"

definition NewDefaultChannelTplRepo :: "'w tpl_db \<Rightarrow> 'w ChannelTplRepo" where
  "NewDefaultChannelTplRepo db =
     \<lparr>tplRepo_GetById = DefaultChannelTplRepo_GetById db,
      tplRepo_GetVersionByVersionId = DefaultChannelTplRepo_GetVersionByVersionId db\<rparr>"

definition NewDefaultProviderRepo :: "'w tpl_db \<Rightarrow> 'w ProviderRepo" where
  "NewDefaultProviderRepo db =
     \<lparr>providerRepo_GetByNameAndTplInfo = DefaultProviderRepo_GetByNameAndTplInfo db\<rparr>"

text \<open>A template read from the database has no versions until the caller attaches them, so it has no
  activated version then, published or not.\<close>

lemma toDomainTemplate_no_version: "ChannelTpl_ActivatedVersion (toDomainTemplate e) = None"
  by (simp add: ChannelTpl_ActivatedVersion_def toDomainTemplate_def)

lemma ActivatedVersion_single:
  "ChannelTpl_ActivatedVersion (ct\<lparr>ct_Versions := [v]\<rparr>) = Some v \<longleftrightarrow>
     ChannelTpl_Published ct \<and> tv_Id v = ct_ActivatedVersionId ct"
  by (auto simp: ChannelTpl_ActivatedVersion_def ChannelTpl_Published_def word_gt_0)

lemma ActivatedVersion_Some:
  "ChannelTpl_ActivatedVersion ct = Some v \<Longrightarrow>
     v \<in> set (ct_Versions ct) \<and> tv_Id v = ct_ActivatedVersionId ct \<and> ChannelTpl_Published ct"
  by (auto simp: ChannelTpl_ActivatedVersion_def ChannelTpl_Published_def word_gt_0 find_Some_iff
      split: if_splits)

end
