(* ===== verification/Sms.thy ===== *)
theory Sms
  imports Templates "HOL-Library.AList" "HOL-Library.Sublist"
begin

text \<open>
  \<open>internal/service/provider/sms\<close>: the SMS provider (\<open>sms_provider.go\<close>) finds the approved, published
  version of a template and sends through a client; the Tencent client (\<open>client/tencent.go\<close>) builds the
  request of the vendor's SDK, whose \<open>SendSms\<close> is the parameter \<open>sdk\<close>. A map is an association list in
  iteration order, and the empty one stands for nil; a \<open>*string\<close> is a string option.
\<close>

section \<open>The client interface\<close>

record SmsSendReq =
  sq_PhoneNumbers :: "string list"
  sq_SignName :: string
  sq_TemplateId :: string
  sq_TemplateParams :: "(string \<times> string) list"

record SendRespStatus =
  rs_Code :: string
  rs_Message :: string

record SmsSendResp =
  sp_RequestId :: string
  sp_PhoneNumbers :: "(string \<times> SendRespStatus) list"

record 'w SmsClient =
  smsClient_Send :: "SmsSendReq \<Rightarrow> ('w, go_error + SmsSendResp) io"

definition ErrFailedToSendSms :: go_error where
  "ErrFailedToSendSms = ErrorNew ''[jotify] failed to send sms''"

section \<open>The Tencent client\<close>

record TencentRequest =
  tq_PhoneNumberSet :: "string option list"
  tq_SmsSdkAppId :: string
  tq_TemplateId :: string
  tq_SignName :: string
  tq_TemplateParamSet :: "string option list"

record TencentStatus =
  ts_PhoneNumber :: "string option"
  ts_Code :: "string option"
  ts_Message :: "string option"

record TencentResponse =
  tr_RequestId :: "string option"
  tr_SendStatusSet :: "TencentStatus list"

definition deref :: "'a option \<Rightarrow> 'a run" where
  "deref p = (case p of None \<Rightarrow> Inl NilDereference | Some x \<Rightarrow> Inr x)"

definition full_phone_number :: "string \<Rightarrow> string" where
  "full_phone_number phoneNumber =
     (if \<not> prefix ''+'' phoneNumber then ''+86'' @ phoneNumber else phoneNumber)"

definition TrimPrefix :: "string \<Rightarrow> string \<Rightarrow> string" where
  "TrimPrefix s pre = (if prefix pre s then drop (length pre) s else s)"

text \<open>\<open>make([]*string, len(xs))\<close> is a slice of nil pointers, and \<open>append\<close> adds behind them.\<close>

definition TencentSmsClient_request :: "string \<Rightarrow> SmsSendReq \<Rightarrow> TencentRequest" where
  "TencentSmsClient_request appId req =
     \<lparr>tq_PhoneNumberSet =
        foldl (\<lambda>acc phoneNumber. acc @ [Some (full_phone_number phoneNumber)])
          (replicate (length (sq_PhoneNumbers req)) None) (sq_PhoneNumbers req),
      tq_SmsSdkAppId = appId, tq_TemplateId = sq_TemplateId req, tq_SignName = sq_SignName req,
      tq_TemplateParamSet =
        foldl (\<lambda>acc (k, param). acc @ [Some param])
          (replicate (length (sq_TemplateParams req)) None) (sq_TemplateParams req)\<rparr>"

fun TencentSmsClient_statuses ::
    "(string \<times> SendRespStatus) list \<Rightarrow> TencentStatus list \<Rightarrow> (string \<times> SendRespStatus) list run" where
  "TencentSmsClient_statuses m [] = Inr m"
| "TencentSmsClient_statuses m (status # sts) =
     run_bind (deref (ts_PhoneNumber status)) (\<lambda>full.
     run_bind (deref (ts_Code status)) (\<lambda>code.
     run_bind (deref (ts_Message status)) (\<lambda>message.
     TencentSmsClient_statuses
       (AList.update (TrimPrefix full ''+86'') \<lparr>rs_Code = code, rs_Message = message\<rparr> m) sts)))"

definition TencentSmsClient_result :: "go_error + TencentResponse \<Rightarrow> ('w, go_error + SmsSendResp) io" where
  "TencentSmsClient_result r =
     (case r of
        Inl err \<Rightarrow> io_return (Inl (WrappedBoth ErrFailedToSendSms err))
      | Inr res \<Rightarrow>
          if length (tr_SendStatusSet res) = 0
          then io_return (Inl (Wrapped ErrFailedToSendSms ''no response from tencent''))
          else io_run (run_bind (deref (tr_RequestId res)) (\<lambda>requestId.
            run_bind (TencentSmsClient_statuses [] (tr_SendStatusSet res)) (\<lambda>m.
            Inr (Inr \<lparr>sp_RequestId = requestId, sp_PhoneNumbers = m\<rparr>)))))"

definition TencentSmsClient_Send ::
    "(TencentRequest \<Rightarrow> ('w, go_error + TencentResponse) io) \<Rightarrow> string \<Rightarrow> SmsSendReq
      \<Rightarrow> ('w, go_error + SmsSendResp) io" where
  "TencentSmsClient_Send sdk appId req =
     (if length (sq_PhoneNumbers req) = 0
      then io_return (Inl (Wrapped ErrInvalidParam ''phone number should not be empty''))
      else io_bind (sdk (TencentSmsClient_request appId req)) TencentSmsClient_result)"

definition TencentSmsClient ::
    "(TencentRequest \<Rightarrow> ('w, go_error + TencentResponse) io) \<Rightarrow> string \<Rightarrow> 'w SmsClient" where
  "TencentSmsClient sdk appId = \<lparr>smsClient_Send = TencentSmsClient_Send sdk appId\<rparr>"

definition TencentSmsClient_CreateTemplate :: "'req \<Rightarrow> ('w, 'resp) io" where
  "TencentSmsClient_CreateTemplate req = io_panic (PanicMessage ''implement me'')"

section \<open>The provider\<close>

record 'w SmsProvider =
  sms_name :: string
  sms_client :: "'w SmsClient"
  sms_tplRepo :: "'w ChannelTplRepo"
  sms_providerRepo :: "'w ProviderRepo option"

text \<open>\<open>NewProvider\<close> takes the provider repository and leaves the field nil.\<close>

definition NewSmsProvider ::
    "string \<Rightarrow> 'w SmsClient \<Rightarrow> 'w ChannelTplRepo \<Rightarrow> 'w ProviderRepo \<Rightarrow> 'w SmsProvider" where
  "NewSmsProvider name client tplRepo providerRepo =
     \<lparr>sms_name = name, sms_client = client, sms_tplRepo = tplRepo, sms_providerRepo = None\<rparr>"

definition SmsProvider_getTemplate ::
    "'w SmsProvider \<Rightarrow> u64 \<Rightarrow> ('w, go_error + ChannelTpl) io" where
  "SmsProvider_getTemplate p templateId =
     io_bind (tplRepo_GetById (sms_tplRepo p) templateId) (\<lambda>r.
     case r of
       Inl err \<Rightarrow> io_return (Inl err)
     | Inr tpl \<Rightarrow>
         if ct_Id tpl = 0 then io_return (Inl (Wrapped ErrChannelTplNotFound ''template id''))
         else io_bind (tplRepo_GetVersionByVersionId (sms_tplRepo p) (ct_ActivatedVersionId tpl)) (\<lambda>r.
         case r of
           Inl err \<Rightarrow> io_return (Inl err)
         | Inr version \<Rightarrow>
             if tv_AuditStatus version \<noteq> AuditStatusApproved
             then io_return (Inl (Wrapped ErrNotApprovedTplVersion ''template version id''))
             else io_bind (io_run (deref (sms_providerRepo p))) (\<lambda>providerRepo.
               io_bind (providerRepo_GetByNameAndTplInfo providerRepo (sms_name p) (ct_Id tpl)
                          (tv_Id version) ChannelSMS) (\<lambda>r.
               case r of
                 Inl err \<Rightarrow> io_return (Inl err)
               | Inr providers \<Rightarrow>
                   if length providers = 0
                   then io_return (Inl (Wrapped ErrNotAvailableProvider ''template id, version id''))
                   else io_return (Inr (tpl\<lparr>ct_Versions := [version\<lparr>tv_Providers := providers\<rparr>]\<rparr>))))))"

text \<open>\<open>strings.EqualFold(s, "OK")\<close>: under Unicode case folding the Kelvin sign equals k.\<close>

definition kelvin_sign :: string where
  "kelvin_sign = map char_of [0xE2, 0x84, 0xAA :: nat]"

definition EqualFold_OK :: "string \<Rightarrow> bool" where
  "EqualFold_OK s \<longleftrightarrow> s \<in> {''OK'', ''Ok'', ''oK'', ''ok'', ''O'' @ kelvin_sign, ''o'' @ kelvin_sign}"

definition SmsProvider_Send ::
    "'w SmsProvider \<Rightarrow> Notification \<Rightarrow> ('w, SendResp \<times> go_error option) io" where
  "SmsProvider_Send p n =
     io_bind (SmsProvider_getTemplate p (tpl_Id (n_Template n))) (\<lambda>r.
     case r of
       Inl err \<Rightarrow> io_return (zero_SendResult, Some (WrappedBoth ErrFailedToSendNotification err))
     | Inr channelTpl \<Rightarrow>
         (case ChannelTpl_ActivatedVersion channelTpl of
            None \<Rightarrow> io_return (zero_SendResult,
              Some (Wrapped ErrFailedToSendNotification ''no published templates found''))
          | Some activatedVersion \<Rightarrow>
              io_bind (io_run (index_at (tv_Providers activatedVersion) 0)) (\<lambda>provider.
              io_bind (smsClient_Send (sms_client p)
                \<lparr>sq_PhoneNumbers = n_Receivers n, sq_SignName = tv_Signature activatedVersion,
                 sq_TemplateId = tp_ProviderTplId provider,
                 sq_TemplateParams = tpl_Params (n_Template n)\<rparr>) (\<lambda>r.
              case r of
                Inl err \<Rightarrow> io_return (zero_SendResult, Some (WrappedBoth ErrFailedToSendNotification err))
              | Inr resp \<Rightarrow>
                  if \<exists>(number, status) \<in> set (sp_PhoneNumbers resp). \<not> EqualFold_OK (rs_Code status)
                  then io_return (zero_SendResult,
                    Some (Wrapped ErrFailedToSendNotification ''Response Code, Response Message''))
                  else io_return (\<lparr>sr_NotificationId = n_Id n, sr_Status = SendStatusSuccess\<rparr>, None)))))"

section \<open>Properties\<close>

lemma foldl_append: "foldl (\<lambda>acc x. acc @ [f x]) acc xs = acc @ map f xs"
  by (induction xs arbitrary: acc) auto

lemma request_phone_numbers:
  "tq_PhoneNumberSet (TencentSmsClient_request appId req)
     = replicate (length (sq_PhoneNumbers req)) None
       @ map (Some \<circ> full_phone_number) (sq_PhoneNumbers req)"
  by (simp add: TencentSmsClient_request_def foldl_append comp_def)

lemma request_template_params:
  "tq_TemplateParamSet (TencentSmsClient_request appId req)
     = replicate (length (sq_TemplateParams req)) None @ map (Some \<circ> snd) (sq_TemplateParams req)"
  using foldl_append [of "Some \<circ> snd"]
  by (simp add: TencentSmsClient_request_def comp_def case_prod_unfold)

text \<open>The request of the Tencent client holds every phone number and every parameter behind as many
  nil pointers: the sets have twice the length asked for and begin with nils. The numbers are the
  receivers with the country code +86 put before those without one, and removing the code again gives
  back a number that had none.\<close>

theorem Tencent_request_doubled:
  assumes "sq_PhoneNumbers req \<noteq> []"
  shows "\<exists>rq. TencentSmsClient_Send sdk appId req = io_bind (sdk rq) TencentSmsClient_result \<and>
     take (length (sq_PhoneNumbers req)) (tq_PhoneNumberSet rq)
       = replicate (length (sq_PhoneNumbers req)) None \<and>
     drop (length (sq_PhoneNumbers req)) (tq_PhoneNumberSet rq)
       = map (Some \<circ> full_phone_number) (sq_PhoneNumbers req) \<and>
     length (tq_TemplateParamSet rq) = 2 * length (sq_TemplateParams req) \<and>
     drop (length (sq_TemplateParams req)) (tq_TemplateParamSet rq)
       = map (Some \<circ> snd) (sq_TemplateParams req) \<and>
     (\<forall>number. \<not> prefix ''+'' number \<longrightarrow> TrimPrefix (full_phone_number number) ''+86'' = number)"
proof (intro exI conjI)
  show "TencentSmsClient_Send sdk appId req
      = io_bind (sdk (TencentSmsClient_request appId req)) TencentSmsClient_result"
    using assms by (simp add: TencentSmsClient_Send_def)
qed (auto simp: request_phone_numbers request_template_params full_phone_number_def TrimPrefix_def)

definition sample_smsReq :: SmsSendReq where
  "sample_smsReq = \<lparr>sq_PhoneNumbers = [''138'', ''+4412''], sq_SignName = ''s'', sq_TemplateId = ''t'',
     sq_TemplateParams = []\<rparr>"

lemma Tencent_request_doubled_witness:
  "\<exists>rq :: TencentRequest. TencentSmsClient_Send (\<lambda>rq w. (Inr (Inl (External 1)), w + 1)) ''app'' sample_smsReq
     = io_bind (\<lambda>w :: nat. (Inr (Inl (External 1)), w + 1)) TencentSmsClient_result \<and>
     take 2 (tq_PhoneNumberSet rq) = [None, None] \<and>
     drop 2 (tq_PhoneNumberSet rq) = [Some ''+86138'', Some ''+4412'']"
proof -
  have n: "length (sq_PhoneNumbers sample_smsReq) = 2" "sq_PhoneNumbers sample_smsReq \<noteq> []"
    "map (Some \<circ> full_phone_number) (sq_PhoneNumbers sample_smsReq)
      = [Some ''+86138'', Some ''+4412'']"
    "replicate 2 None = [None, None :: string option]"
    by (simp_all add: sample_smsReq_def full_phone_number_def numeral_2_eq_2)
  show ?thesis
    using Tencent_request_doubled [OF n(2), of "\<lambda>rq w :: nat. (Inr (Inl (External 1)), w + 1)" "''app''"]
    unfolding n by blast
qed

text \<open>The outcome of the template lookup, for a provider that has its repositories.\<close>

lemma getTemplate_Inr:
  assumes "SmsProvider_getTemplate p t w = (Inr (Inr ct), w')"
  shows "\<exists>tpl v ps pr w1 w2. sms_providerRepo p = Some pr \<and>
     tplRepo_GetById (sms_tplRepo p) t w = (Inr (Inr tpl), w1) \<and> ct_Id tpl \<noteq> 0 \<and>
     tplRepo_GetVersionByVersionId (sms_tplRepo p) (ct_ActivatedVersionId tpl) w1 = (Inr (Inr v), w2) \<and>
     tv_AuditStatus v = AuditStatusApproved \<and>
     providerRepo_GetByNameAndTplInfo pr (sms_name p) (ct_Id tpl) (tv_Id v) ChannelSMS w2
       = (Inr (Inr ps), w') \<and> ps \<noteq> [] \<and>
     ct = tpl\<lparr>ct_Versions := [v\<lparr>tv_Providers := ps\<rparr>]\<rparr>"
  using assms
  by (auto simp: SmsProvider_getTemplate_def io_bind_def deref_def
      split: prod.splits sum.splits if_splits option.splits)

text \<open>A notification counts as sent over SMS only when everything it needs was there: its template
  exists and has a published version, that version is approved, a provider is registered for it, and
  the client, asked to send the version's signature and the first provider's template to the
  receivers, answered OK for every number.\<close>

theorem SmsProvider_Send_sent:
  assumes "SmsProvider_Send p n w = (Inr (resp, None), w')"
  shows "\<exists>tpl v q qs pr w1 w2 w3 cresp. sms_providerRepo p = Some pr \<and>
     tplRepo_GetById (sms_tplRepo p) (tpl_Id (n_Template n)) w = (Inr (Inr tpl), w1) \<and>
     ChannelTpl_Published tpl \<and>
     tplRepo_GetVersionByVersionId (sms_tplRepo p) (ct_ActivatedVersionId tpl) w1 = (Inr (Inr v), w2) \<and>
     tv_Id v = ct_ActivatedVersionId tpl \<and> tv_AuditStatus v = AuditStatusApproved \<and>
     providerRepo_GetByNameAndTplInfo pr (sms_name p) (ct_Id tpl) (tv_Id v) ChannelSMS w2
       = (Inr (Inr (q # qs)), w3) \<and>
     smsClient_Send (sms_client p)
       \<lparr>sq_PhoneNumbers = n_Receivers n, sq_SignName = tv_Signature v,
        sq_TemplateId = tp_ProviderTplId q, sq_TemplateParams = tpl_Params (n_Template n)\<rparr> w3
       = (Inr (Inr cresp), w') \<and>
     (\<forall>(number, status) \<in> set (sp_PhoneNumbers cresp). EqualFold_OK (rs_Code status)) \<and>
     resp = \<lparr>sr_NotificationId = n_Id n, sr_Status = SendStatusSuccess\<rparr>"
proof -
  let ?t = "tpl_Id (n_Template n)"
  obtain ct w3 where ct: "SmsProvider_getTemplate p ?t w = (Inr (Inr ct), w3)"
    using assms by (auto simp: SmsProvider_Send_def io_bind_def split: prod.splits sum.splits)
  from getTemplate_Inr [OF this] obtain tpl v ps pr w1 w2 where *:
    "sms_providerRepo p = Some pr" "tplRepo_GetById (sms_tplRepo p) ?t w = (Inr (Inr tpl), w1)"
    "tplRepo_GetVersionByVersionId (sms_tplRepo p) (ct_ActivatedVersionId tpl) w1 = (Inr (Inr v), w2)"
    "tv_AuditStatus v = AuditStatusApproved"
    "providerRepo_GetByNameAndTplInfo pr (sms_name p) (ct_Id tpl) (tv_Id v) ChannelSMS w2
       = (Inr (Inr ps), w3)" "ps \<noteq> []" "ct = tpl\<lparr>ct_Versions := [v\<lparr>tv_Providers := ps\<rparr>]\<rparr>"
    by blast
  then obtain q qs where qs: "ps = q # qs" by (cases ps) auto
  obtain v' where v': "ChannelTpl_ActivatedVersion ct = Some v'"
    using assms by (auto simp: SmsProvider_Send_def ct split: option.splits)
  then have act: "v' = v\<lparr>tv_Providers := ps\<rparr>" "tv_Id v = ct_ActivatedVersionId tpl"
    "ChannelTpl_Published tpl"
    using ActivatedVersion_Some [OF v'] *(7) by (auto simp: ChannelTpl_Published_def)
  have first: "index_at (q # qs) 0 = Inr q" by (simp add: index_at_def)
  obtain cresp where cresp: "smsClient_Send (sms_client p)
       \<lparr>sq_PhoneNumbers = n_Receivers n, sq_SignName = tv_Signature v,
        sq_TemplateId = tp_ProviderTplId q, sq_TemplateParams = tpl_Params (n_Template n)\<rparr> w3
       = (Inr (Inr cresp), w')"
    "\<forall>(number, status) \<in> set (sp_PhoneNumbers cresp). EqualFold_OK (rs_Code status)"
    "resp = \<lparr>sr_NotificationId = n_Id n, sr_Status = SendStatusSuccess\<rparr>"
    using assms
    by (auto simp: SmsProvider_Send_def ct v' act(1) qs first io_bind_def
        split: prod.splits sum.splits if_splits)
  with * act(2,3) qs show ?thesis by blast
qed

definition sample_tpl :: ChannelTpl where
  "sample_tpl = (toDomainTemplate (\<lparr>tr_Id = 1, tr_OwnerId = 1, tr_OwnerType = ''person'',
     tr_Name = ''t'', tr_Description = ''d'', tr_Channel = ''sms'', tr_BizType = ''notification'',
     tr_ActivatedVersionId = 2, tr_CreatedAt = 0, tr_UpdatedAt = 0\<rparr>))"

definition sample_version :: ChannelTplVersion where
  "sample_version = toDomainVersion \<lparr>vr_Id = 2, vr_ChannelTplId = 1, vr_Name = ''v'', vr_Signature = ''s'',
     vr_Content = [], vr_Remark = [], vr_AuditId = 0, vr_AuditorId = 0, vr_AuditAt = 0,
     vr_AuditStatus = ''approved'', vr_RejectReason = [], vr_LastReviewAt = 0, vr_CreatedAt = 0,
     vr_UpdatedAt = 0\<rparr>"

definition sample_tplProvider :: ChannelTplProvider where
  "sample_tplProvider = toDomainChannelTplProvider \<lparr>pr_Id = 1, pr_TplId = 1, pr_TplVersionId = 2,
     pr_ProviderId = 1, pr_ProviderName = ''tencent'', pr_ProviderChannel = ''sms'', pr_RequestId = [],
     pr_ProviderTplId = ''T9'', pr_AuditStatus = ''approved'', pr_RejectReason = [],
     pr_LastReviewAt = 0, pr_CreatedAt = 0, pr_UpdatedAt = 0\<rparr>"

definition sample_tplRepo :: "nat ChannelTplRepo" where
  "sample_tplRepo = \<lparr>tplRepo_GetById = (\<lambda>_. io_return (Inr sample_tpl)),
     tplRepo_GetVersionByVersionId = (\<lambda>_. io_return (Inr sample_version))\<rparr>"

definition sample_smsProvider :: "nat SmsProvider" where
  "sample_smsProvider = \<lparr>sms_name = ''tencent'',
     sms_client = \<lparr>smsClient_Send = (\<lambda>rq w. (Inr (Inr \<lparr>sp_RequestId = ''r'',
        sp_PhoneNumbers = [(''r'', \<lparr>rs_Code = ''Ok'', rs_Message = []\<rparr>)]\<rparr>), w + 1))\<rparr>,
     sms_tplRepo = sample_tplRepo,
     sms_providerRepo = Some \<lparr>providerRepo_GetByNameAndTplInfo =
        (\<lambda>_ _ _ _. io_return (Inr [sample_tplProvider]))\<rparr>\<rparr>"

lemmas sample_sms_defs = sample_smsProvider_def sample_tplRepo_def sample_tplProvider_def
  sample_version_def sample_tpl_def toDomainTemplate_def toDomainVersion_def
  toDomainChannelTplProvider_def

lemma SmsProvider_Send_sent_witness:
  "\<exists>tpl w1. tplRepo_GetById sample_tplRepo 1 0 = (Inr (Inr tpl), w1) \<and> ChannelTpl_Published tpl"
proof -
  have "SmsProvider_Send sample_smsProvider sample_notification 0
      = (Inr (\<lparr>sr_NotificationId = 77, sr_Status = SendStatusSuccess\<rparr>, None), 1)"
    by (simp add: SmsProvider_Send_def SmsProvider_getTemplate_def sample_sms_defs deref_def
        AuditStatusApproved_def ChannelTpl_ActivatedVersion_def index_at_def EqualFold_OK_def
        sample_notification_def zero_Notification_def io_bind_def)
  from SmsProvider_Send_sent [OF this] show ?thesis
    by (auto simp: sample_smsProvider_def sample_notification_def zero_Notification_def)
qed

lemma getTemplate_cong:
  assumes "sms_tplRepo p = sms_tplRepo q" "sms_name p = sms_name q"
    "sms_providerRepo p = sms_providerRepo q"
  shows "SmsProvider_getTemplate p = SmsProvider_getTemplate q"
  unfolding SmsProvider_getTemplate_def assms by (rule refl)

text \<open>A provider made by \<open>NewProvider\<close> never sends anything: its provider repository stays nil, so
  for every notification \<open>Send\<close> fails with an error or panics, and does so without calling the client.\<close>

theorem NewProvider_never_sends:
  "SmsProvider_Send (NewSmsProvider name client tplRepo providerRepo) n
     = SmsProvider_Send (NewSmsProvider name client' tplRepo providerRepo) n \<and>
   fst (SmsProvider_Send (NewSmsProvider name client tplRepo providerRepo) n w) \<noteq> Inr (resp, None)"
proof -
  let ?p = "NewSmsProvider name client tplRepo providerRepo"
  let ?q = "NewSmsProvider name client' tplRepo providerRepo"
  let ?t = "tpl_Id (n_Template n)"
  have none: "SmsProvider_getTemplate ?p ?t w \<noteq> (Inr (Inr ct), w')" for w ct w'
    using getTemplate_Inr [of ?p ?t w ct w'] by (auto simp: NewSmsProvider_def)
  have same: "SmsProvider_getTemplate ?p = SmsProvider_getTemplate ?q"
    by (rule getTemplate_cong) (simp_all add: NewSmsProvider_def)
  have "SmsProvider_Send ?p n w = SmsProvider_Send ?q n w" for w
    using none [of w] same
    by (auto simp: SmsProvider_Send_def io_bind_def split: prod.splits sum.splits)
  moreover have "fst (SmsProvider_Send ?p n w) \<noteq> Inr (resp, None)"
    using none [of w] by (auto simp: SmsProvider_Send_def io_bind_def split: prod.splits sum.splits)
  ultimately show ?thesis by blast
qed

end
