(* ===== verification/Quota.thy ===== *)
theory Quota
  imports Effect Domain
begin

text \<open>
  The send quota of a business id and channel, kept in Redis: \<open>internal/repository/cache/quota.go\<close>, the
  client \<open>cache/redis/quota.go\<close> and its three Lua scripts. Redis itself is the parameter \<open>redis\<close>: the
  commands a script calls, and the two client calls the code makes, which may fail. \<open>redis_laws\<close> is what
  the commands are documented to do to the counters \<open>cnt\<close> (a missing key counts 0): a script runs
  atomically, and a client call that fails has either run or not. Lua numbers are integers here,
  exact below \<open>2 ^ 53\<close>.
\<close>

datatype lua_value = LuaNumber int | LuaString string

record 'w redis =
  rd_GET :: "string \<Rightarrow> 'w \<Rightarrow> int option"
  rd_SET :: "string \<Rightarrow> int \<Rightarrow> 'w \<Rightarrow> 'w"
  rd_INCRBY :: "string \<Rightarrow> int \<Rightarrow> 'w \<Rightarrow> int \<times> 'w"
  rd_DECRBY :: "string \<Rightarrow> int \<Rightarrow> 'w \<Rightarrow> int \<times> 'w"
  rd_Eval :: "('w \<Rightarrow> lua_value \<times> 'w) \<Rightarrow> 'w \<Rightarrow> (go_error + lua_value) \<times> 'w"
  rd_DecrBy :: "string \<Rightarrow> int \<Rightarrow> 'w \<Rightarrow> (go_error + int) \<times> 'w"

definition redis_laws :: "'w redis \<Rightarrow> ('w \<Rightarrow> string \<Rightarrow> int) \<Rightarrow> bool" where
  "redis_laws rd cnt \<longleftrightarrow>
     (\<forall>k w. (case rd_GET rd k w of None \<Rightarrow> 0 | Some v \<Rightarrow> v) = cnt w k) \<and>
     (\<forall>k v w. cnt (rd_SET rd k v w) = (cnt w)(k := v)) \<and>
     (\<forall>k v w. fst (rd_INCRBY rd k v w) = cnt w k + v \<and>
        cnt (snd (rd_INCRBY rd k v w)) = (cnt w)(k := cnt w k + v)) \<and>
     (\<forall>k v w. fst (rd_DECRBY rd k v w) = cnt w k - v \<and>
        cnt (snd (rd_DECRBY rd k v w)) = (cnt w)(k := cnt w k - v)) \<and>
     (\<forall>s w v w'. rd_Eval rd s w = (Inr v, w') \<longrightarrow> s w = (v, w')) \<and>
     (\<forall>s w e w'. rd_Eval rd s w = (Inl e, w') \<longrightarrow> w' = w \<or> w' = snd (s w)) \<and>
     (\<forall>k v w r w'. rd_DecrBy rd k v w = (Inr r, w') \<longrightarrow> rd_DECRBY rd k v w = (r, w')) \<and>
     (\<forall>k v w e w'. rd_DecrBy rd k v w = (Inl e, w') \<longrightarrow> w' = w \<or> w' = snd (rd_DECRBY rd k v w))"

section \<open>The scripts\<close>

definition lua_current :: "'w redis \<Rightarrow> string \<Rightarrow> 'w \<Rightarrow> int" where
  "lua_current rd key w = (case rd_GET rd key w of None \<Rightarrow> 0 | Some v \<Rightarrow> v)"

definition quotaIncrLua :: "'w redis \<Rightarrow> string \<Rightarrow> int \<Rightarrow> 'w \<Rightarrow> lua_value \<times> 'w" where
  "quotaIncrLua rd key quota w =
     (if lua_current rd key w < 0 then (LuaNumber quota, rd_SET rd key quota w)
      else if lua_current rd key w > 0 then
        (case rd_INCRBY rd key quota w of (v, w') \<Rightarrow> (LuaNumber v, w'))
      else (LuaNumber quota, rd_SET rd key quota w))"

fun quotaBatchIncr_loop :: "'w redis \<Rightarrow> (string \<times> int) list \<Rightarrow> 'w \<Rightarrow> 'w" where
  "quotaBatchIncr_loop rd [] w = w"
| "quotaBatchIncr_loop rd ((key, quota) # kas) w =
     quotaBatchIncr_loop rd kas
       (if lua_current rd key w < 0 then rd_SET rd key quota w else snd (rd_INCRBY rd key quota w))"

definition quotaBatchIncrLua :: "'w redis \<Rightarrow> string list \<Rightarrow> int list \<Rightarrow> 'w \<Rightarrow> lua_value \<times> 'w" where
  "quotaBatchIncrLua rd keys args w = (LuaNumber 1, quotaBatchIncr_loop rd (zip keys args) w)"

fun quotaBatchDecr_check :: "'w redis \<Rightarrow> (string \<times> int) list \<Rightarrow> 'w \<Rightarrow> string option" where
  "quotaBatchDecr_check rd [] w = None"
| "quotaBatchDecr_check rd ((key, threshold) # kas) w =
     (if lua_current rd key w < threshold then Some key else quotaBatchDecr_check rd kas w)"

fun quotaBatchDecr_loop :: "'w redis \<Rightarrow> (string \<times> int) list \<Rightarrow> 'w \<Rightarrow> 'w" where
  "quotaBatchDecr_loop rd [] w = w"
| "quotaBatchDecr_loop rd ((key, quota) # kas) w =
     quotaBatchDecr_loop rd kas (snd (rd_DECRBY rd key quota w))"

definition quotaBatchDecrLua :: "'w redis \<Rightarrow> string list \<Rightarrow> int list \<Rightarrow> 'w \<Rightarrow> lua_value \<times> 'w" where
  "quotaBatchDecrLua rd keys args w =
     (case quotaBatchDecr_check rd (zip keys args) w of
        Some key \<Rightarrow> (LuaString key, w)
      | None \<Rightarrow> (LuaString [], quotaBatchDecr_loop rd (zip keys args) w))"

section \<open>The client\<close>

record QuotaParam =
  qp_BizId :: u64
  qp_Quota :: i32
  qp_Channel :: Channel

definition redisKey :: "u64 \<Rightarrow> Channel \<Rightarrow> string" where
  "redisKey bizId channel = ''quota:'' @ FormatUint bizId @ '':'' @ channel"

definition redisKeysAndArgs :: "QuotaParam list \<Rightarrow> string list \<times> int list" where
  "redisKeysAndArgs params =
     (map (\<lambda>p. redisKey (qp_BizId p) (qp_Channel p)) params, map (\<lambda>p. sint (qp_Quota p)) params)"

definition eval_error :: "(go_error + lua_value) \<times> 'w \<Rightarrow> go_error option run \<times> 'w" where
  "eval_error r = (case r of (Inl err, w) \<Rightarrow> (Inr (Some err), w) | (Inr _, w) \<Rightarrow> (Inr None, w))"

definition QuotaRedisCache_Incr :: "'w redis \<Rightarrow> QuotaParam \<Rightarrow> ('w, go_error option) io" where
  "QuotaRedisCache_Incr rd param = (\<lambda>w. eval_error
     (rd_Eval rd (quotaIncrLua rd (redisKey (qp_BizId param) (qp_Channel param))
        (sint (qp_Quota param))) w))"

definition QuotaRedisCache_BatchIncr :: "'w redis \<Rightarrow> QuotaParam list \<Rightarrow> ('w, go_error option) io" where
  "QuotaRedisCache_BatchIncr rd params =
     (if length params = 0 then io_return None
      else case redisKeysAndArgs params of (keys, args) \<Rightarrow>
        (\<lambda>w. eval_error (rd_Eval rd (quotaBatchIncrLua rd keys args) w)))"

definition QuotaRedisCache_Decr :: "'w redis \<Rightarrow> QuotaParam \<Rightarrow> ('w, go_error option) io" where
  "QuotaRedisCache_Decr rd param = (\<lambda>w.
     case rd_DecrBy rd (redisKey (qp_BizId param) (qp_Channel param)) (sint (qp_Quota param)) w of
       (Inl err, w') \<Rightarrow> (Inr (Some err), w')
     | (Inr res, w') \<Rightarrow> (Inr (if res < 0 then Some ErrInsufficientQuota else None), w'))"

definition QuotaRedisCache_BatchDecr :: "'w redis \<Rightarrow> QuotaParam list \<Rightarrow> ('w, go_error option) io" where
  "QuotaRedisCache_BatchDecr rd params =
     (if length params = 0 then io_return None
      else case redisKeysAndArgs params of (keys, args) \<Rightarrow> (\<lambda>w.
        case rd_Eval rd (quotaBatchDecrLua rd keys args) w of
          (Inl err, w') \<Rightarrow> (Inr (Some err), w')
        | (Inr (LuaNumber _), w') \<Rightarrow> (Inr (Some (ErrorNew ''[jotify] wrong type of redis eval result'')), w')
        | (Inr (LuaString resMsg), w') \<Rightarrow>
            (Inr (if resMsg = [] then None
                  else Some (ErrorNew ''[jotify] the quota is not enough'')), w')))"

record 'w QuotaCache =
  qca_Incr :: "QuotaParam \<Rightarrow> ('w, go_error option) io"
  qca_BatchIncr :: "QuotaParam list \<Rightarrow> ('w, go_error option) io"
  qca_Decr :: "QuotaParam \<Rightarrow> ('w, go_error option) io"
  qca_BatchDecr :: "QuotaParam list \<Rightarrow> ('w, go_error option) io"

definition NewQuotaRedisCache :: "'w redis \<Rightarrow> 'w QuotaCache" where
  "NewQuotaRedisCache rc =
     \<lparr>qca_Incr = QuotaRedisCache_Incr rc, qca_BatchIncr = QuotaRedisCache_BatchIncr rc,
      qca_Decr = QuotaRedisCache_Decr rc, qca_BatchDecr = QuotaRedisCache_BatchDecr rc\<rparr>"

section \<open>Laws of the commands\<close>

lemma redisKey_inj: "redisKey b c = redisKey b' c' \<longleftrightarrow> b = b' \<and> c = c'"
proof
  have colon: "CHR '':'' \<notin> set (FormatUint v)" for v
    by (rule FormatUint_not_in) simp
  assume "redisKey b c = redisKey b' c'"
  then have "FormatUint b @ CHR '':'' # c = FormatUint b' @ CHR '':'' # c'"
    by (simp add: redisKey_def)
  from split_at_separator [OF this colon colon] show "b = b' \<and> c = c'"
    by (auto dest: FormatUint_inj)
qed simp

lemma redisKey_nonempty: "redisKey b c \<noteq> []"
  by (simp add: redisKey_def)

lemma redis_GET: "redis_laws rd cnt \<Longrightarrow> lua_current rd k w = cnt w k"
  by (simp add: redis_laws_def lua_current_def)

lemma redis_SET: "redis_laws rd cnt \<Longrightarrow> cnt (rd_SET rd k v w) = (cnt w)(k := v)"
  by (simp add: redis_laws_def)

lemma redis_INCRBY: "redis_laws rd cnt \<Longrightarrow>
    fst (rd_INCRBY rd k v w) = cnt w k + v \<and> cnt (snd (rd_INCRBY rd k v w)) = (cnt w)(k := cnt w k + v)"
  by (simp add: redis_laws_def)

lemma redis_DECRBY: "redis_laws rd cnt \<Longrightarrow>
    fst (rd_DECRBY rd k v w) = cnt w k - v \<and> cnt (snd (rd_DECRBY rd k v w)) = (cnt w)(k := cnt w k - v)"
  by (simp add: redis_laws_def)

lemma redis_Eval_Inr: "redis_laws rd cnt \<Longrightarrow> rd_Eval rd s w = (Inr v, w') \<Longrightarrow> s w = (v, w')"
  by (simp add: redis_laws_def)

lemma redis_DecrBy_Inr:
  "redis_laws rd cnt \<Longrightarrow> rd_DecrBy rd k v w = (Inr r, w') \<Longrightarrow> rd_DECRBY rd k v w = (r, w')"
  by (simp add: redis_laws_def)

text \<open>The counters a list of keys and amounts adds up to.\<close>

definition amount_of :: "(string \<times> int) list \<Rightarrow> string \<Rightarrow> int" where
  "amount_of kas k = sum_list (map snd (filter (\<lambda>(k', v). k' = k) kas))"

lemma amount_of_simps [simp]:
  "amount_of [] k = 0"
  "amount_of ((k', v) # kas) k = (if k' = k then v else 0) + amount_of kas k"
  by (simp_all add: amount_of_def)

lemma amount_of_notin: "k \<notin> fst ` set kas \<Longrightarrow> amount_of kas k = 0"
  by (induction kas) auto

lemma amount_of_in:
  "distinct (map fst kas) \<Longrightarrow> (k, v) \<in> set kas \<Longrightarrow> amount_of kas k = v"
  by (induction kas) (auto simp: amount_of_notin rev_image_eqI)

lemma BatchDecr_check_None:
  "redis_laws rd cnt \<Longrightarrow>
   quotaBatchDecr_check rd kas w = None \<longleftrightarrow> (\<forall>(k, v) \<in> set kas. v \<le> cnt w k)"
  by (induction kas) (auto simp: redis_GET not_less split: if_splits)

lemma BatchDecr_check_Some:
  "redis_laws rd cnt \<Longrightarrow> quotaBatchDecr_check rd kas w = Some k \<Longrightarrow>
   \<exists>v. (k, v) \<in> set kas \<and> cnt w k < v"
  by (induction kas) (auto simp: redis_GET split: if_splits)

lemma BatchDecr_loop:
  "redis_laws rd cnt \<Longrightarrow> cnt (quotaBatchDecr_loop rd kas w) = (\<lambda>k. cnt w k - amount_of kas k)"
  by (induction kas arbitrary: w) (auto simp: redis_DECRBY)

lemma BatchIncr_loop:
  assumes "redis_laws rd cnt" "\<forall>(k, v) \<in> set kas. 0 \<le> v \<and> 0 \<le> cnt w k"
  shows "cnt (quotaBatchIncr_loop rd kas w) = (\<lambda>k. cnt w k + amount_of kas k)"
  using assms(2)
proof (induction kas arbitrary: w)
  case Nil
  then show ?case by simp
next
  case (Cons ka kas)
  obtain k v where ka: "ka = (k, v)" by (cases ka)
  let ?w = "snd (rd_INCRBY rd k v w)"
  have c: "cnt ?w = (cnt w)(k := cnt w k + v)" using redis_INCRBY [OF assms(1)] by blast
  with Cons.prems ka have "\<forall>(k, v) \<in> set kas. 0 \<le> v \<and> 0 \<le> cnt ?w k" by auto
  with Cons.IH [of ?w] c have
    "cnt (quotaBatchIncr_loop rd kas ?w) = (\<lambda>k'. ((cnt w)(k := cnt w k + v)) k' + amount_of kas k')"
    by simp
  moreover have "\<not> lua_current rd k w < 0"
    using Cons.prems ka by (simp add: redis_GET [OF assms(1)] not_less)
  ultimately show ?case by (auto simp: ka)
qed

section \<open>What the client calls do\<close>

text \<open>A Redis that answers every call.\<close>

definition redis_up :: "'w redis \<Rightarrow> bool" where
  "redis_up rd \<longleftrightarrow> (\<forall>s w. \<exists>v w'. rd_Eval rd s w = (Inr v, w')) \<and>
     (\<forall>k v w. \<exists>r w'. rd_DecrBy rd k v w = (Inr r, w'))"

definition param_key :: "QuotaParam \<Rightarrow> string" where
  "param_key p = redisKey (qp_BizId p) (qp_Channel p)"

lemma Eval_runs:
  assumes "redis_laws rd cnt" "redis_up rd"
  shows "rd_Eval rd s w = (Inr (fst (s w)), snd (s w))"
proof -
  obtain v w' where "rd_Eval rd s w = (Inr v, w')" using assms(2) unfolding redis_up_def by blast
  with redis_Eval_Inr [OF assms(1) this] show ?thesis by simp
qed

lemma DecrBy_runs:
  assumes "redis_laws rd cnt" "redis_up rd"
  shows "rd_DecrBy rd k v w = (Inr (fst (rd_DECRBY rd k v w)), snd (rd_DECRBY rd k v w))"
proof -
  obtain r w' where "rd_DecrBy rd k v w = (Inr r, w')" using assms(2) unfolding redis_up_def by blast
  with redis_DecrBy_Inr [OF assms(1) this] show ?thesis by simp
qed

lemma Decr_result:
  assumes "redis_laws rd cnt" "redis_up rd"
  shows "\<exists>w'. QuotaRedisCache_Decr rd p w
       = (Inr (if cnt w (param_key p) < sint (qp_Quota p) then Some ErrInsufficientQuota else None), w') \<and>
     cnt w' = (cnt w)(param_key p := cnt w (param_key p) - sint (qp_Quota p))"
  using redis_DECRBY [OF assms(1), of "param_key p" "sint (qp_Quota p)" w]
  by (auto simp: QuotaRedisCache_Decr_def DecrBy_runs [OF assms] simp flip: param_key_def)

lemma Incr_result:
  assumes "redis_laws rd cnt" "redis_up rd"
  shows "\<exists>w'. QuotaRedisCache_Incr rd p w = (Inr None, w') \<and>
     cnt w' = (cnt w)(param_key p :=
       (if cnt w (param_key p) < 0 then 0 else cnt w (param_key p)) + sint (qp_Quota p))"
  using redis_INCRBY [OF assms(1), of "param_key p" "sint (qp_Quota p)" w]
  by (auto simp: QuotaRedisCache_Incr_def Eval_runs [OF assms] eval_error_def quotaIncrLua_def
      redis_GET [OF assms(1)] redis_SET [OF assms(1)] split: prod.splits simp flip: param_key_def)

text \<open>The keys and amounts of a list of parameters.\<close>

definition key_amounts :: "QuotaParam list \<Rightarrow> (string \<times> int) list" where
  "key_amounts ps = map (\<lambda>p. (param_key p, sint (qp_Quota p))) ps"

lemma zip_redisKeysAndArgs: "redisKeysAndArgs ps = (keys, args) \<Longrightarrow> zip keys args = key_amounts ps"
  by (auto simp: redisKeysAndArgs_def key_amounts_def param_key_def zip_map_map zip_same_conv_map)

lemma BatchDecr_result:
  assumes "redis_laws rd cnt" "redis_up rd"
  shows "\<exists>r w'. QuotaRedisCache_BatchDecr rd ps w = (Inr r, w') \<and>
     (if \<forall>p \<in> set ps. sint (qp_Quota p) \<le> cnt w (param_key p)
      then r = None \<and> cnt w' = (\<lambda>k. cnt w k - amount_of (key_amounts ps) k)
      else r \<noteq> None \<and> cnt w' = cnt w)"
proof (cases "ps = []")
  case True
  then show ?thesis by (simp add: QuotaRedisCache_BatchDecr_def key_amounts_def)
next
  case False
  obtain keys args where ka: "redisKeysAndArgs ps = (keys, args)" by fastforce
  note kas = zip_redisKeysAndArgs [OF this]
  show ?thesis
  proof (cases "quotaBatchDecr_check rd (key_amounts ps) w")
    case None
    then have "\<forall>p \<in> set ps. sint (qp_Quota p) \<le> cnt w (param_key p)"
      by (auto simp: BatchDecr_check_None [OF assms(1)] key_amounts_def)
    with None False ka kas show ?thesis
      by (simp add: QuotaRedisCache_BatchDecr_def Eval_runs [OF assms] quotaBatchDecrLua_def
          BatchDecr_loop [OF assms(1)])
  next
    case (Some key)
    from BatchDecr_check_Some [OF assms(1) this] obtain p where p:
      "p \<in> set ps" "param_key p = key" "cnt w (param_key p) < sint (qp_Quota p)"
      by (auto simp: key_amounts_def)
    then have "key \<noteq> []" by (auto simp: param_key_def redisKey_nonempty)
    moreover have "\<not> (\<forall>p \<in> set ps. sint (qp_Quota p) \<le> cnt w (param_key p))"
      using p by (meson not_le)
    ultimately show ?thesis using Some False ka kas
      by (simp add: QuotaRedisCache_BatchDecr_def Eval_runs [OF assms] quotaBatchDecrLua_def)
  qed
qed

lemma BatchIncr_result:
  assumes "redis_laws rd cnt" "redis_up rd"
    and "\<forall>p \<in> set ps. 0 \<le> sint (qp_Quota p) \<and> 0 \<le> cnt w (param_key p)"
  shows "\<exists>w'. QuotaRedisCache_BatchIncr rd ps w = (Inr None, w') \<and>
     cnt w' = (\<lambda>k. cnt w k + amount_of (key_amounts ps) k)"
proof (cases "ps = []")
  case True
  then show ?thesis by (simp add: QuotaRedisCache_BatchIncr_def key_amounts_def)
next
  case False
  obtain keys args where ka: "redisKeysAndArgs ps = (keys, args)" by fastforce
  note kas = zip_redisKeysAndArgs [OF this]
  have "\<forall>(k, v) \<in> set (key_amounts ps). 0 \<le> v \<and> 0 \<le> cnt w k"
    using assms(3) by (auto simp: key_amounts_def)
  from BatchIncr_loop [OF assms(1) this] False ka kas show ?thesis
    by (simp add: QuotaRedisCache_BatchIncr_def Eval_runs [OF assms(1,2)] quotaBatchIncrLua_def
        eval_error_def)
qed

section \<open>A Redis in memory\<close>

definition mem_redis :: "(string \<Rightarrow> int) redis" where
  "mem_redis = \<lparr>rd_GET = (\<lambda>k w. Some (w k)), rd_SET = (\<lambda>k v w. w(k := v)),
     rd_INCRBY = (\<lambda>k v w. (w k + v, w(k := w k + v))),
     rd_DECRBY = (\<lambda>k v w. (w k - v, w(k := w k - v))),
     rd_Eval = (\<lambda>s w. case s w of (v, w') \<Rightarrow> (Inr v, w')),
     rd_DecrBy = (\<lambda>k v w. (Inr (w k - v), w(k := w k - v)))\<rparr>"

lemma mem_redis_laws: "redis_laws mem_redis (\<lambda>w. w)" "redis_up mem_redis"
  by (auto simp: redis_laws_def redis_up_def mem_redis_def split: prod.splits)

end
