(* ===== verification/NotifDao.thy ===== *)
theory NotifDao
  imports Effect Domain Sharding "HOL-Library.AList" "HOL-Library.Sublist"
begin

text \<open>
  \<open>internal/repository/dao/notification.go\<close>: the notification rows over several databases and tables.
  The database library is the parameter \<open>gorm\<close>, one field per kind of statement the code issues,
  each with the name of the database it is issued on. \<open>env\<close> is the rest of the world the code reads:
  the clock, the shared id generator and the hash of the sharding strategy. A transaction gets its
  closure as a function of the captured variable; a map is an association list in insertion order,
  which is also the order it is iterated in; the goroutines of an \<open>errgroup\<close> run one after another in
  the order they are started, and the first error is the result.
\<close>

section \<open>Rows and interfaces\<close>

record NotifEntity =
  ne_Id :: u64
  ne_BizId :: u64
  ne_BizKey :: string
  ne_Receivers :: string
  ne_Channel :: string
  ne_TplId :: u64
  ne_TplVersionId :: u64
  ne_TplParams :: string
  ne_Status :: string
  ne_ScheduleStrat :: i64
  ne_ScheduleEnd :: i64
  ne_Version :: i32
  ne_CreatedAt :: i64
  ne_UpdatedAt :: i64

definition zero_NotifEntity :: NotifEntity where
  "zero_NotifEntity = \<lparr>ne_Id = 0, ne_BizId = 0, ne_BizKey = [], ne_Receivers = [], ne_Channel = [],
     ne_TplId = 0, ne_TplVersionId = 0, ne_TplParams = [], ne_Status = [], ne_ScheduleStrat = 0,
     ne_ScheduleEnd = 0, ne_Version = 0, ne_CreatedAt = 0, ne_UpdatedAt = 0\<rparr>"

record CallbackLogEntity =
  ce_NotificationId :: u64
  ce_RetriedTimes :: i32
  ce_NextRetryAt :: i64
  ce_Status :: string
  ce_CreatedAt :: i64
  ce_UpdatedAt :: i64

record 'w NotificationDAO =
  dao_Create :: "NotifEntity \<Rightarrow> ('w, NotifEntity \<times> go_error option) io"
  dao_CreateWithCallback :: "NotifEntity \<Rightarrow> ('w, NotifEntity \<times> go_error option) io"
  dao_BatchCreate :: "NotifEntity list \<Rightarrow> ('w, NotifEntity list \<times> go_error option) io"
  dao_BatchCreateWithCallback :: "NotifEntity list \<Rightarrow> ('w, NotifEntity list \<times> go_error option) io"
  dao_BatchUpdateStatus :: "NotifEntity list \<Rightarrow> NotifEntity list \<Rightarrow> ('w, go_error option) io"
  dao_GetById :: "u64 \<Rightarrow> ('w, NotifEntity \<times> go_error option) io"
  dao_GetByKey :: "u64 \<Rightarrow> string \<Rightarrow> ('w, NotifEntity \<times> go_error option) io"
  dao_GetMapByIds :: "u64 list \<Rightarrow> ('w, (u64 \<times> NotifEntity) list \<times> go_error option) io"
  dao_MarkSuccess :: "NotifEntity \<Rightarrow> ('w, go_error option) io"
  dao_MarkFailure :: "NotifEntity \<Rightarrow> ('w, go_error option) io"
  dao_CompareAndSwapStatus :: "NotifEntity \<Rightarrow> ('w, go_error option) io"
  dao_FindReady :: "int \<Rightarrow> int \<Rightarrow> ('w, NotifEntity list \<times> go_error option) io"

text \<open>An insert statement that a dry run of the library renders, with its arguments.\<close>

datatype insert_stmt =
    InsertNotification string NotifEntity
  | InsertCallbackLog string CallbackLogEntity

record 'w gorm =
  g_Transaction :: "string \<Rightarrow> (NotifEntity \<Rightarrow> 'w \<Rightarrow> (NotifEntity \<times> go_error option) \<times> 'w) \<Rightarrow>
     NotifEntity \<Rightarrow> 'w \<Rightarrow> (NotifEntity \<times> go_error option) \<times> 'w"
  g_Create :: "string \<Rightarrow> string \<Rightarrow> NotifEntity \<Rightarrow> 'w \<Rightarrow> go_error option \<times> 'w"
  g_CreateCb :: "string \<Rightarrow> string \<Rightarrow> CallbackLogEntity \<Rightarrow> 'w \<Rightarrow> go_error option \<times> 'w"
  g_ExecInserts :: "string \<Rightarrow> insert_stmt list \<Rightarrow> 'w \<Rightarrow> go_error option \<times> 'w"
  g_Exec :: "string \<Rightarrow> string \<Rightarrow> 'w \<Rightarrow> go_error option \<times> 'w"
  g_First :: "string \<Rightarrow> string \<Rightarrow> u64 \<Rightarrow> 'w \<Rightarrow> (go_error + NotifEntity) \<times> 'w"
  g_FirstByKey :: "string \<Rightarrow> string \<Rightarrow> u64 \<Rightarrow> string \<Rightarrow> 'w \<Rightarrow> (go_error + NotifEntity) \<times> 'w"
  g_FindIn :: "string \<Rightarrow> string \<Rightarrow> u64 list \<Rightarrow> 'w \<Rightarrow> (NotifEntity list \<times> go_error option) \<times> 'w"
  g_UpdateStatus :: "string \<Rightarrow> string \<Rightarrow> u64 \<Rightarrow> string \<Rightarrow> i64 \<Rightarrow> 'w \<Rightarrow> go_error option \<times> 'w"
  g_UpdateStatusVersion ::
    "string \<Rightarrow> string \<Rightarrow> u64 \<Rightarrow> i32 \<Rightarrow> string \<Rightarrow> i64 \<Rightarrow> 'w \<Rightarrow> (go_error option \<times> int) \<times> 'w"
  g_UpdateCbStatus :: "string \<Rightarrow> string \<Rightarrow> u64 \<Rightarrow> string \<Rightarrow> i64 \<Rightarrow> 'w \<Rightarrow> go_error option \<times> 'w"
  g_ErrorText :: "go_error \<Rightarrow> string"

record 'w env =
  ev_now :: "'w \<Rightarrow> Time"
  ev_gen :: "'w \<Rightarrow> Generator"
  ev_set_gen :: "Generator \<Rightarrow> 'w \<Rightarrow> 'w"
  ev_xxh :: "string \<Rightarrow> u64"

definition io_NowMilli :: "'w env \<Rightarrow> ('w, i64) io" where
  "io_NowMilli env = io_get (\<lambda>w. Time_UnixMilli (ev_now env w))"

definition nextId :: "'w env \<Rightarrow> u64 \<Rightarrow> string \<Rightarrow> 'w \<Rightarrow> u64 \<times> 'w" where
  "nextId env bizId bizKey w =
     (case NextId (ev_xxh env) (ev_gen env w) (ev_now env w) bizId bizKey of
        (g, iden) \<Rightarrow> (iden, ev_set_gen env g w))"

record NotifShardingDAO =
  nd_dbs :: "string \<Rightarrow> bool"
  nd_notifShardingStrategy :: HashStrategy
  nd_cbLogShardingStrategy :: HashStrategy

text \<open>\<open>IsIdDuplicateErr\<close> of \<open>dao/types.go\<close>: the text of the error holds one of the ids.\<close>

definition IsIdDuplicateErr :: "'w gorm \<Rightarrow> u64 list \<Rightarrow> go_error \<Rightarrow> bool" where
  "IsIdDuplicateErr gd ids err \<longleftrightarrow> (\<exists>iden \<in> set ids. sublist (FormatUint iden) (g_ErrorText gd err))"

definition failed_to_load :: go_error where
  "failed_to_load = ErrorNew ''failed to load db''"

section \<open>Creating one notification\<close>

text \<open>The closure of the transaction, on the captured variable \<open>n\<close>. Every turn of its loop returns.\<close>

definition create_closure ::
    "'w env \<Rightarrow> 'w gorm \<Rightarrow> Dst \<Rightarrow> Dst \<Rightarrow> i64 \<Rightarrow> bool
      \<Rightarrow> NotifEntity \<Rightarrow> 'w \<Rightarrow> (NotifEntity \<times> go_error option) \<times> 'w" where
  "create_closure env gd notifDst cbLogDst now needCallback n w =
     (case nextId env (ne_BizId n) (ne_BizKey n) w of
        (iden, w1) \<Rightarrow>
          let n = n\<lparr>ne_Id := iden\<rparr> in
          (case g_Create gd (dst_DB notifDst) (dst_Table notifDst) n w1 of
             (Some err, w2) \<Rightarrow>
               ((n, Some (if errors_Is err ErrDuplicatedKey \<and> IsIdDuplicateErr gd [ne_Id n] err
                          then Wrapped ErrDuplicateNotificationId [] else err)), w2)
           | (None, w2) \<Rightarrow>
               if needCallback then
                 (case g_CreateCb gd (dst_DB notifDst) (dst_Table cbLogDst)
                        \<lparr>ce_NotificationId = ne_Id n, ce_RetriedTimes = 0, ce_NextRetryAt = now,
                         ce_Status = CallbackStatusInit, ce_CreatedAt = now, ce_UpdatedAt = now\<rparr> w2 of
                    (Some err, w3) \<Rightarrow> ((n, Some (Wrapped ErrFailedToCreateCallbackLog [])), w3)
                  | (None, w3) \<Rightarrow> ((n, None), w3))
               else ((n, None), w2)))"

definition NotifShardingDAO_create ::
    "'w env \<Rightarrow> 'w gorm \<Rightarrow> NotifShardingDAO \<Rightarrow> NotifEntity \<Rightarrow> bool
      \<Rightarrow> ('w, NotifEntity \<times> go_error option) io" where
  "NotifShardingDAO_create env gd nd n needCallback =
     io_bind (io_NowMilli env) (\<lambda>now.
     let n = n\<lparr>ne_CreatedAt := now, ne_UpdatedAt := now, ne_Version := 1\<rparr> in
     io_bind (io_run (HashStrategy_Shard (ev_xxh env) (nd_notifShardingStrategy nd)
                        (ne_BizId n) (ne_BizKey n))) (\<lambda>notifDst.
     io_bind (io_run (HashStrategy_Shard (ev_xxh env) (nd_cbLogShardingStrategy nd)
                        (ne_BizId n) (ne_BizKey n))) (\<lambda>cbLogDst.
     if \<not> nd_dbs nd (dst_DB notifDst) then io_return (zero_NotifEntity, Some failed_to_load)
     else io_call (g_Transaction gd (dst_DB notifDst)
                     (create_closure env gd notifDst cbLogDst now needCallback) n))))"

definition NotifShardingDAO_Create where
  "NotifShardingDAO_Create env gd nd n = NotifShardingDAO_create env gd nd n False"

definition NotifShardingDAO_CreateWithCallback where
  "NotifShardingDAO_CreateWithCallback env gd nd n = NotifShardingDAO_create env gd nd n True"

section \<open>Creating a batch\<close>

text \<open>The notifications are grouped by database; a group holds the positions of its notifications,
  which the code shares by pointer.\<close>

fun group_by_db ::
    "(string \<Rightarrow> u64) \<Rightarrow> HashStrategy \<Rightarrow> NotifEntity list \<Rightarrow> nat \<Rightarrow> (string \<times> nat list) list
      \<Rightarrow> (string \<times> nat list) list run" where
  "group_by_db xxh h [] i m = Inr m"
| "group_by_db xxh h (n # ns) i m =
     run_bind (HashStrategy_Shard xxh h (ne_BizId n) (ne_BizKey n)) (\<lambda>dst.
     let mapNs = (case map_of m (dst_DB dst) of None \<Rightarrow> [] | Some ps \<Rightarrow> ps)
     in group_by_db xxh h ns (Suc i) (AList.update (dst_DB dst) (mapNs @ [i]) m))"

fun sqlGenerate_loop ::
    "'w env \<Rightarrow> NotifShardingDAO \<Rightarrow> bool \<Rightarrow> i64 \<Rightarrow> nat list \<Rightarrow> NotifEntity list
      \<Rightarrow> ('w, NotifEntity list \<times> insert_stmt list \<times> u64 list) io" where
  "sqlGenerate_loop env nd needCallback now [] es = io_return (es, [], [])"
| "sqlGenerate_loop env nd needCallback now (i # ps) es =
     (let n = es ! i in
      io_bind (io_call (nextId env (ne_BizId n) (ne_BizKey n))) (\<lambda>iden.
      let n = n\<lparr>ne_Id := iden\<rparr> in
      io_bind (io_run (HashStrategy_Shard (ev_xxh env) (nd_notifShardingStrategy nd)
                         (ne_BizId n) (ne_BizKey n))) (\<lambda>dst.
      io_bind (if needCallback
               then io_bind (io_run (HashStrategy_Shard (ev_xxh env) (nd_cbLogShardingStrategy nd)
                                       (ne_BizId n) (ne_BizKey n))) (\<lambda>cbDst.
                 io_return [InsertCallbackLog (dst_Table cbDst)
                   \<lparr>ce_NotificationId = iden, ce_RetriedTimes = 0, ce_NextRetryAt = now,
                    ce_Status = CallbackStatusInit, ce_CreatedAt = now, ce_UpdatedAt = now\<rparr>])
               else io_return []) (\<lambda>cbs.
      io_bind (sqlGenerate_loop env nd needCallback now ps (es[i := n])) (\<lambda>(es', sqls, ids).
      io_return (es', InsertNotification (dst_Table dst) n # cbs @ sqls, iden # ids))))))"

definition NotifShardingDAO_sqlGenerate ::
    "'w env \<Rightarrow> NotifShardingDAO \<Rightarrow> nat list \<Rightarrow> NotifEntity list \<Rightarrow> bool
      \<Rightarrow> ('w, NotifEntity list \<times> insert_stmt list \<times> u64 list) io" where
  "NotifShardingDAO_sqlGenerate env nd ps es needCallback =
     io_bind (io_NowMilli env) (\<lambda>now. sqlGenerate_loop env nd needCallback now ps es)"

text \<open>The loop of one goroutine: on a duplicate id it makes new ids and tries again. None is a loop
  that takes more than \<open>fuel\<close> turns.\<close>

fun insert_group ::
    "nat \<Rightarrow> 'w env \<Rightarrow> 'w gorm \<Rightarrow> NotifShardingDAO \<Rightarrow> bool \<Rightarrow> string \<Rightarrow> nat list \<Rightarrow> NotifEntity list
      \<Rightarrow> ('w, (NotifEntity list \<times> go_error option) option) io" where
  "insert_group 0 env gd nd needCallback db ps es = io_return None"
| "insert_group (Suc fuel) env gd nd needCallback db ps es =
     io_bind (NotifShardingDAO_sqlGenerate env nd ps es needCallback) (\<lambda>(es', sqls, ids).
     if sqls = [] then io_return (Some (es', None))
     else io_bind (io_call (g_ExecInserts gd db sqls)) (\<lambda>err.
       case err of
         None \<Rightarrow> io_return (Some (es', None))
       | Some e \<Rightarrow>
           if errors_Is e ErrDuplicatedKey \<and> IsIdDuplicateErr gd ids e
           then insert_group fuel env gd nd needCallback db ps es'
           else io_return (Some (es', Some e))))"

fun insert_groups ::
    "nat \<Rightarrow> 'w env \<Rightarrow> 'w gorm \<Rightarrow> NotifShardingDAO \<Rightarrow> bool \<Rightarrow> (string \<times> nat list) list
      \<Rightarrow> NotifEntity list \<Rightarrow> go_error option \<Rightarrow> ('w, (NotifEntity list \<times> go_error option) option) io" where
  "insert_groups fuel env gd nd needCallback [] es err = io_return (Some (es, err))"
| "insert_groups fuel env gd nd needCallback ((db, ps) # groups) es err =
     (if \<not> nd_dbs nd db then io_return (Some ([], Some failed_to_load))
      else io_bind (insert_group fuel env gd nd needCallback db ps es) (\<lambda>r.
        case r of
          None \<Rightarrow> io_return None
        | Some (es', err') \<Rightarrow>
            insert_groups fuel env gd nd needCallback groups es' (if err = None then err' else err)))"

definition NotifShardingDAO_tryBatchInsert ::
    "nat \<Rightarrow> 'w env \<Rightarrow> 'w gorm \<Rightarrow> NotifShardingDAO \<Rightarrow> NotifEntity list \<Rightarrow> bool
      \<Rightarrow> ('w, (NotifEntity list \<times> go_error option) option) io" where
  "NotifShardingDAO_tryBatchInsert fuel env gd nd ns needCallback =
     io_bind (io_run (group_by_db (ev_xxh env) (nd_notifShardingStrategy nd) ns 0 [])) (\<lambda>m.
     insert_groups fuel env gd nd needCallback m ns None)"

definition NotifShardingDAO_batchCreate ::
    "nat \<Rightarrow> 'w env \<Rightarrow> 'w gorm \<Rightarrow> NotifShardingDAO \<Rightarrow> NotifEntity list \<Rightarrow> bool
      \<Rightarrow> ('w, (NotifEntity list \<times> go_error option) option) io" where
  "NotifShardingDAO_batchCreate fuel env gd nd ns needCallback =
     (if length ns = 0 then io_return (Some ([], None))
      else io_bind (io_NowMilli env) (\<lambda>now.
        NotifShardingDAO_tryBatchInsert fuel env gd nd
          (map (\<lambda>src. src\<lparr>ne_CreatedAt := now, ne_UpdatedAt := now, ne_Version := 1\<rparr>) ns)
          needCallback))"

definition NotifShardingDAO_BatchCreate where
  "NotifShardingDAO_BatchCreate fuel env gd nd ns = NotifShardingDAO_batchCreate fuel env gd nd ns False"

definition NotifShardingDAO_BatchCreateWithCallback where
  "NotifShardingDAO_BatchCreateWithCallback fuel env gd nd ns =
     NotifShardingDAO_batchCreate fuel env gd nd ns True"

end
