(* ===== verification/NotifDaoOps.thy ===== *)
theory NotifDaoOps
  imports NotifDao
begin

text \<open>
  The remaining operations of \<open>internal/repository/dao/notification.go\<close>: the batch update of statuses
  with the statements it builds, the lookups, the single updates and the compare-and-swap.
\<close>

section \<open>Batch update of statuses\<close>

record modifyIds =
  mi_callbackTable :: string
  mi_successIds :: "u64 list"
  mi_failureIds :: "u64 list"

definition FormatInt :: "i64 \<Rightarrow> string" where
  "FormatInt k = (if sint k < 0 then ''-'' @ format_nat (nat (- sint k)) else format_nat (nat (sint k)))"

fun join_strings :: "string \<Rightarrow> string list \<Rightarrow> string" where
  "join_strings sep [] = []"
| "join_strings sep [s] = s"
| "join_strings sep (s # t # ss) = s @ sep @ join_strings sep (t # ss)"

definition listToString :: "u64 list \<Rightarrow> string" where
  "listToString xs = join_strings '','' (map FormatUint xs)"

definition successToString :: "modifyIds \<Rightarrow> string" where
  "successToString m = listToString (mi_successIds m)"

definition failureToString :: "modifyIds \<Rightarrow> string" where
  "failureToString m = listToString (mi_failureIds m)"

type_synonym dbMap = "(string \<times> (string \<times> modifyIds) list) list"

definition add_to_dbMap :: "string \<Rightarrow> string \<Rightarrow> u64 \<Rightarrow> modifyIds \<Rightarrow> dbMap \<Rightarrow> dbMap" where
  "add_to_dbMap db tb iden fresh m =
     (let tableMap = (case map_of m db of None \<Rightarrow> [] | Some t \<Rightarrow> t);
          modifyId = (case map_of tableMap tb of
                        Some mi \<Rightarrow> mi\<lparr>mi_successIds := mi_successIds mi @ [iden]\<rparr>
                      | None \<Rightarrow> fresh)
      in AList.update db (AList.update tb modifyId tableMap) m)"

text \<open>The two loops differ in the entry they start; both append to the success ids of an entry that
  is already there.\<close>

fun collect_success :: "NotifShardingDAO \<Rightarrow> NotifEntity list \<Rightarrow> dbMap \<Rightarrow> dbMap run" where
  "collect_success nd [] m = Inr m"
| "collect_success nd (n # ns) m =
     run_bind (HashStrategy_ShardWithId (nd_notifShardingStrategy nd) (ne_Id n)) (\<lambda>notifDst.
     run_bind (HashStrategy_ShardWithId (nd_cbLogShardingStrategy nd) (ne_Id n)) (\<lambda>callbackDst.
     collect_success nd ns
       (add_to_dbMap (dst_DB notifDst) (dst_Table notifDst) (ne_Id n)
          \<lparr>mi_callbackTable = dst_Table callbackDst, mi_successIds = [ne_Id n], mi_failureIds = []\<rparr> m)))"

fun collect_failure :: "NotifShardingDAO \<Rightarrow> NotifEntity list \<Rightarrow> dbMap \<Rightarrow> dbMap run" where
  "collect_failure nd [] m = Inr m"
| "collect_failure nd (n # ns) m =
     run_bind (HashStrategy_ShardWithId (nd_notifShardingStrategy nd) (ne_Id n)) (\<lambda>notifDst.
     run_bind (HashStrategy_ShardWithId (nd_cbLogShardingStrategy nd) (ne_Id n)) (\<lambda>callbackDst.
     collect_failure nd ns
       (add_to_dbMap (dst_DB notifDst) (dst_Table notifDst) (ne_Id n)
          \<lparr>mi_callbackTable = dst_Table callbackDst, mi_successIds = [], mi_failureIds = [ne_Id n]\<rparr> m)))"

definition notifSQL :: "string \<Rightarrow> string \<Rightarrow> i64 \<Rightarrow> string \<Rightarrow> string" where
  "notifSQL tb status now ids =
     ''UPDATE '' @ tb @ '' SET `version` = `version` + 1, `status` = '' @ [CHR 0x27] @ status @ [CHR 0x27]
       @ '', `update_at` = '' @ FormatInt now @ '' WHERE `id` IN ('' @ ids @ '')''"

definition cbLogSQL :: "string \<Rightarrow> string \<Rightarrow> i64 \<Rightarrow> string \<Rightarrow> string" where
  "cbLogSQL tb status now ids =
     ''UPDATE '' @ tb @ '' SET `status` = '' @ [CHR 0x27] @ status @ [CHR 0x27]
       @ '', `update_at` = '' @ FormatInt now @ '' WHERE `notification_id` IN ('' @ ids @ '')''"

definition batchMark_table :: "i64 \<Rightarrow> string \<times> modifyIds \<Rightarrow> string list" where
  "batchMark_table now e = (case e of (tb, m) \<Rightarrow>
     (if length (mi_successIds m) > 0
      then [notifSQL tb SendStatusSuccess now (successToString m),
            cbLogSQL tb CallbackStatusPending now (successToString m)]
      else []) @
     (if length (mi_failureIds m) > 0
      then [notifSQL tb SendStatusFailure now (successToString m)]
      else []))"

definition NotifShardingDAO_batchMark ::
    "'w env \<Rightarrow> 'w gorm \<Rightarrow> string \<Rightarrow> (string \<times> modifyIds) list \<Rightarrow> 'w \<Rightarrow> go_error option \<times> 'w" where
  "NotifShardingDAO_batchMark env gd db tbMap w =
     (let now = Time_UnixMilli (ev_now env w);
          sqls = concat (map (batchMark_table now) tbMap)
      in if length sqls = 0 then g_Exec gd db (join_strings ''; '' sqls) w else (None, w))"

text \<open>A transaction whose closure captures no variable that matters.\<close>

definition transaction ::
    "'w gorm \<Rightarrow> string \<Rightarrow> ('w \<Rightarrow> go_error option \<times> 'w) \<Rightarrow> ('w, go_error option) io" where
  "transaction gd db f =
     io_bind (io_call (g_Transaction gd db (\<lambda>n w. case f w of (err, w') \<Rightarrow> ((n, err), w'))
                zero_NotifEntity)) (\<lambda>(n, err). io_return err)"

fun batchMark_groups ::
    "'w env \<Rightarrow> 'w gorm \<Rightarrow> NotifShardingDAO \<Rightarrow> dbMap \<Rightarrow> go_error option \<Rightarrow> ('w, go_error option) io" where
  "batchMark_groups env gd nd [] err = io_return err"
| "batchMark_groups env gd nd ((db, tbMap) # m) err =
     io_bind (if \<not> nd_dbs nd db then io_return (Some failed_to_load)
              else transaction gd db (NotifShardingDAO_batchMark env gd db tbMap)) (\<lambda>err'.
     batchMark_groups env gd nd m (if err = None then err' else err))"

definition NotifShardingDAO_BatchUpdateStatus ::
    "'w env \<Rightarrow> 'w gorm \<Rightarrow> NotifShardingDAO \<Rightarrow> NotifEntity list \<Rightarrow> NotifEntity list
      \<Rightarrow> ('w, go_error option) io" where
  "NotifShardingDAO_BatchUpdateStatus env gd nd successNs failureNs =
     (if length successNs = 0 \<and> length failureNs = 0 then io_return None
      else io_bind (io_run (collect_success nd successNs [])) (\<lambda>m.
        io_bind (io_run (collect_failure nd failureNs m)) (\<lambda>m.
        batchMark_groups env gd nd m None)))"

section \<open>Lookups\<close>

definition NotifShardingDAO_GetById ::
    "'w gorm \<Rightarrow> NotifShardingDAO \<Rightarrow> u64 \<Rightarrow> ('w, NotifEntity \<times> go_error option) io" where
  "NotifShardingDAO_GetById gd nd iden =
     io_bind (io_run (HashStrategy_ShardWithId (nd_notifShardingStrategy nd) iden)) (\<lambda>dst.
     if \<not> nd_dbs nd (dst_DB dst) then io_return (zero_NotifEntity, Some failed_to_load)
     else io_bind (io_call (g_First gd (dst_DB dst) (dst_Table dst) iden)) (\<lambda>r.
       case r of
         Inl err \<Rightarrow> io_return (zero_NotifEntity,
           Some (if errors_Is err ErrRecordNotFound then Wrapped ErrNotificationNotFound ''id''
                 else err))
       | Inr n \<Rightarrow> io_return (n, None)))"

definition NotifShardingDAO_GetByKey ::
    "'w env \<Rightarrow> 'w gorm \<Rightarrow> NotifShardingDAO \<Rightarrow> u64 \<Rightarrow> string \<Rightarrow> ('w, NotifEntity \<times> go_error option) io" where
  "NotifShardingDAO_GetByKey env gd nd bizId bizKey =
     io_bind (io_run (HashStrategy_Shard (ev_xxh env) (nd_notifShardingStrategy nd) bizId bizKey)) (\<lambda>dst.
     if \<not> nd_dbs nd (dst_DB dst) then io_return (zero_NotifEntity, Some failed_to_load)
     else io_bind (io_call (g_FirstByKey gd (dst_DB dst) (dst_Table dst) bizId bizKey)) (\<lambda>r.
       case r of
         Inl err \<Rightarrow> io_return (zero_NotifEntity, Some (Wrapped err ''failed to get notification''))
       | Inr n \<Rightarrow> io_return (n, None)))"

fun group_ids ::
    "HashStrategy \<Rightarrow> u64 list \<Rightarrow> ((string \<times> string) \<times> u64 list) list
      \<Rightarrow> ((string \<times> string) \<times> u64 list) list run" where
  "group_ids h [] idMap = Inr idMap"
| "group_ids h (iden # ids) idMap =
     run_bind (HashStrategy_ShardWithId h iden) (\<lambda>dst.
     let key = (dst_DB dst, dst_Table dst);
         val = (case map_of idMap key of Some val \<Rightarrow> val @ [iden] | None \<Rightarrow> [iden])
     in group_ids h ids (AList.update key val idMap))"

fun find_groups ::
    "'w gorm \<Rightarrow> NotifShardingDAO \<Rightarrow> ((string \<times> string) \<times> u64 list) list
      \<Rightarrow> (u64 \<times> NotifEntity) list \<Rightarrow> go_error option
      \<Rightarrow> ('w, (u64 \<times> NotifEntity) list \<times> go_error option) io" where
  "find_groups gd nd [] notifMap err = io_return (notifMap, err)"
| "find_groups gd nd (((db, tb), ids) # groups) notifMap err =
     (if \<not> nd_dbs nd db
      then find_groups gd nd groups notifMap (if err = None then Some failed_to_load else err)
      else io_bind (io_call (g_FindIn gd db tb ids)) (\<lambda>(ns, err').
        find_groups gd nd groups (fold (\<lambda>n m. AList.update (ne_Id n) n m) ns notifMap)
          (if err = None then err' else err)))"

definition NotifShardingDAO_GetMapByIds ::
    "'w gorm \<Rightarrow> NotifShardingDAO \<Rightarrow> u64 list \<Rightarrow> ('w, (u64 \<times> NotifEntity) list \<times> go_error option) io" where
  "NotifShardingDAO_GetMapByIds gd nd ids =
     io_bind (io_run (group_ids (nd_notifShardingStrategy nd) ids [])) (\<lambda>idMap.
     find_groups gd nd idMap [] None)"

section \<open>Single updates\<close>

definition NotifShardingDAO_MarkSuccess ::
    "'w env \<Rightarrow> 'w gorm \<Rightarrow> NotifShardingDAO \<Rightarrow> NotifEntity \<Rightarrow> ('w, go_error option) io" where
  "NotifShardingDAO_MarkSuccess env gd nd n =
     io_bind (io_NowMilli env) (\<lambda>now.
     io_bind (io_run (HashStrategy_ShardWithId (nd_notifShardingStrategy nd) (ne_Id n))) (\<lambda>dst.
     io_bind (io_run (HashStrategy_ShardWithId (nd_cbLogShardingStrategy nd) (ne_Id n))) (\<lambda>cbLogDst.
     if \<not> nd_dbs nd (dst_DB dst) then io_return (Some failed_to_load)
     else transaction gd (dst_DB dst) (\<lambda>w.
       case g_UpdateStatus gd (dst_DB dst) (dst_Table dst) (ne_Id n) (ne_Status n) now w of
         (Some err, w') \<Rightarrow> (Some err, w')
       | (None, w') \<Rightarrow> g_UpdateCbStatus gd (dst_DB dst) (dst_Table cbLogDst) (ne_Id n)
                         CallbackStatusPending now w'))))"

definition NotifShardingDAO_MarkFailure ::
    "'w env \<Rightarrow> 'w gorm \<Rightarrow> NotifShardingDAO \<Rightarrow> NotifEntity \<Rightarrow> ('w, go_error option) io" where
  "NotifShardingDAO_MarkFailure env gd nd n =
     io_bind (io_NowMilli env) (\<lambda>now.
     io_bind (io_run (HashStrategy_ShardWithId (nd_notifShardingStrategy nd) (ne_Id n))) (\<lambda>dst.
     if \<not> nd_dbs nd (dst_DB dst) then io_return (Some failed_to_load)
     else transaction gd (dst_DB dst) (\<lambda>w.
       g_UpdateStatus gd (dst_DB dst) (dst_Table dst) (ne_Id n) (ne_Status n) now w)))"

definition NotifShardingDAO_CompareAndSwapStatus ::
    "'w env \<Rightarrow> 'w gorm \<Rightarrow> NotifShardingDAO \<Rightarrow> NotifEntity \<Rightarrow> ('w, go_error option) io" where
  "NotifShardingDAO_CompareAndSwapStatus env gd nd n =
     io_bind (io_run (HashStrategy_ShardWithId (nd_notifShardingStrategy nd) (ne_Id n))) (\<lambda>dst.
     if \<not> nd_dbs nd (dst_DB dst) then io_return (Some failed_to_load)
     else io_bind (io_NowMilli env) (\<lambda>now.
       io_bind (io_call (g_UpdateStatusVersion gd (dst_DB dst) (dst_Table dst) (ne_Id n)
                           (ne_Version n) (ne_Status n) now)) (\<lambda>(err, rowsAffected).
       if err \<noteq> None then io_return err
       else if rowsAffected < 0
       then io_return (Some (wrapf err ''failed to concurrent competition''))
       else io_return None)))"

definition NotifShardingDAO_FindReady ::
    "int \<Rightarrow> int \<Rightarrow> ('w, NotifEntity list \<times> go_error option) io" where
  "NotifShardingDAO_FindReady offset limit = io_panic (PanicMessage ''implement me'')"

text \<open>The value the DAO is used as; the batches run with the fuel \<open>fuel\<close>, and a batch that runs out of
  it stands for one that does not return (here a panic of its own).\<close>

definition io_returns :: "('w, 'a option) io \<Rightarrow> ('w, 'a) io" where
  "io_returns c = io_bind c (\<lambda>r. case r of None \<Rightarrow> io_panic (PanicMessage ''does not return'') | Some x \<Rightarrow> io_return x)"

definition NewNotifShardingDAO ::
    "nat \<Rightarrow> 'w env \<Rightarrow> 'w gorm \<Rightarrow> (string \<Rightarrow> bool) \<Rightarrow> HashStrategy \<Rightarrow> HashStrategy \<Rightarrow> 'w NotificationDAO" where
  "NewNotifShardingDAO fuel env gd dbs notifStrategy cbLogStrategy =
     (let nd = \<lparr>nd_dbs = dbs, nd_notifShardingStrategy = notifStrategy,
                nd_cbLogShardingStrategy = cbLogStrategy\<rparr>
      in \<lparr>dao_Create = NotifShardingDAO_Create env gd nd,
          dao_CreateWithCallback = NotifShardingDAO_CreateWithCallback env gd nd,
          dao_BatchCreate = (\<lambda>ns. io_returns (NotifShardingDAO_BatchCreate fuel env gd nd ns)),
          dao_BatchCreateWithCallback =
            (\<lambda>ns. io_returns (NotifShardingDAO_BatchCreateWithCallback fuel env gd nd ns)),
          dao_BatchUpdateStatus = NotifShardingDAO_BatchUpdateStatus env gd nd,
          dao_GetById = NotifShardingDAO_GetById gd nd,
          dao_GetByKey = NotifShardingDAO_GetByKey env gd nd,
          dao_GetMapByIds = NotifShardingDAO_GetMapByIds gd nd,
          dao_MarkSuccess = NotifShardingDAO_MarkSuccess env gd nd,
          dao_MarkFailure = NotifShardingDAO_MarkFailure env gd nd,
          dao_CompareAndSwapStatus = NotifShardingDAO_CompareAndSwapStatus env gd nd,
          dao_FindReady = NotifShardingDAO_FindReady\<rparr>)"

end
