(* ===== verification/NotifDaoLaws.thy ===== *)
theory NotifDaoLaws
  imports NotifDaoOps
begin

text \<open>
  What the notification DAO does to the stored rows. \<open>gorm_laws\<close> states what the database library is
  documented to do, over the view \<open>rows\<close> of the notification rows (by database, table and id) and the
  view \<open>cbs\<close> of the callback logs (by notification id): an insert adds one row or fails and changes
  nothing, a lookup changes nothing, a transaction keeps the effect of a closure that returned nil
  and undoes the rows of one that did not, and a conditional update changes the rows whose version
  matches. \<open>mem_gorm\<close> is a store in memory that satisfies the laws.
\<close>

type_synonym 'a tables = "string \<Rightarrow> string \<Rightarrow> u64 \<Rightarrow> 'a option"

definition put_row :: "string \<Rightarrow> string \<Rightarrow> u64 \<Rightarrow> 'a \<Rightarrow> 'a tables \<Rightarrow> 'a tables" where
  "put_row db t iden x rs = (\<lambda>d s. if d = db \<and> s = t then (rs d s)(iden \<mapsto> x) else rs d s)"

definition same_rows :: "('w \<Rightarrow> NotifEntity tables) \<Rightarrow> ('w \<Rightarrow> CallbackLogEntity tables) \<Rightarrow> 'w \<Rightarrow> 'w \<Rightarrow> bool" where
  "same_rows rows cbs w w' \<longleftrightarrow> rows w' = rows w \<and> cbs w' = cbs w"

definition gorm_laws ::
    "'w env \<Rightarrow> 'w gorm \<Rightarrow> ('w \<Rightarrow> NotifEntity tables) \<Rightarrow> ('w \<Rightarrow> CallbackLogEntity tables) \<Rightarrow> bool" where
  "gorm_laws env gd rows cbs \<longleftrightarrow>
     (\<forall>g w. same_rows rows cbs w (ev_set_gen env g w)) \<and>
     (\<forall>db t n w. rows w db t (ne_Id n) \<noteq> None \<longrightarrow> fst (g_Create gd db t n w) \<noteq> None) \<and>
     (\<forall>db t n w w'. g_Create gd db t n w = (None, w') \<longrightarrow>
        rows w' = put_row db t (ne_Id n) n (rows w) \<and> cbs w' = cbs w) \<and>
     (\<forall>db t n w e w'. g_Create gd db t n w = (Some e, w') \<longrightarrow> same_rows rows cbs w w') \<and>
     (\<forall>db t c w w'. g_CreateCb gd db t c w = (None, w') \<longrightarrow>
        cbs w' = put_row db t (ce_NotificationId c) c (cbs w) \<and> rows w' = rows w) \<and>
     (\<forall>db stmts w e w'. g_ExecInserts gd db stmts w = (e, w') \<longrightarrow>
        (\<forall>d t i n. rows w d t i = Some n \<longrightarrow> rows w' d t i = Some n) \<and>
        (e = None \<longrightarrow> (\<forall>t n. InsertNotification t n \<in> set stmts \<longrightarrow> rows w' db t (ne_Id n) = Some n))) \<and>
     (\<forall>db t i w r w'. g_First gd db t i w = (r, w') \<longrightarrow> same_rows rows cbs w w' \<and>
        (\<forall>n. r = Inr n \<longrightarrow> rows w db t i = Some n) \<and>
        (\<forall>e. r = Inl e \<longrightarrow> errors_Is e ErrRecordNotFound \<longrightarrow> rows w db t i = None)) \<and>
     (\<forall>db f n w n' w'. g_Transaction gd db f n w = ((n', None), w') \<longrightarrow>
        (\<exists>w0 w1. same_rows rows cbs w w0 \<and> f n w0 = ((n', None), w1) \<and> same_rows rows cbs w1 w')) \<and>
     (\<forall>db f n w n' e w'. g_Transaction gd db f n w = ((n', Some e), w') \<longrightarrow> same_rows rows cbs w w') \<and>
     (\<forall>db t i v s now w e k w'. g_UpdateStatusVersion gd db t i v s now w = ((e, k), w') \<longrightarrow>
        0 \<le> k \<and> cbs w' = cbs w \<and>
        (if e = None \<and> (\<exists>n. rows w db t i = Some n \<and> ne_Version n = v)
         then rows w' = put_row db t i ((the (rows w db t i))
                \<lparr>ne_Status := s, ne_Version := v + 1, ne_UpdatedAt := now\<rparr>) (rows w)
         else rows w' = rows w))"

lemma same_rows_refl [simp]: "same_rows rows cbs w w"
  by (simp add: same_rows_def)

lemma same_rows_trans: "same_rows rows cbs w w1 \<Longrightarrow> same_rows rows cbs w1 w2 \<Longrightarrow> same_rows rows cbs w w2"
  by (simp add: same_rows_def)

lemma gorm_gen: "gorm_laws env gd rows cbs \<Longrightarrow> same_rows rows cbs w (ev_set_gen env g w)"
  by (simp add: gorm_laws_def)

lemma gorm_Create: "gorm_laws env gd rows cbs \<Longrightarrow> g_Create gd db t n w = (None, w') \<Longrightarrow>
    rows w' = put_row db t (ne_Id n) n (rows w) \<and> cbs w' = cbs w \<and> rows w db t (ne_Id n) = None"
  unfolding gorm_laws_def by (metis fst_conv)

lemma gorm_CreateCb: "gorm_laws env gd rows cbs \<Longrightarrow> g_CreateCb gd db t c w = (None, w') \<Longrightarrow>
    cbs w' = put_row db t (ce_NotificationId c) c (cbs w) \<and> rows w' = rows w"
  by (simp add: gorm_laws_def)

lemma gorm_ExecInserts: "gorm_laws env gd rows cbs \<Longrightarrow> g_ExecInserts gd db stmts w = (e, w') \<Longrightarrow>
    (\<forall>d t i n. rows w d t i = Some n \<longrightarrow> rows w' d t i = Some n) \<and>
    (e = None \<longrightarrow> (\<forall>t n. InsertNotification t n \<in> set stmts \<longrightarrow> rows w' db t (ne_Id n) = Some n))"
  by (simp add: gorm_laws_def)

lemma gorm_First: "gorm_laws env gd rows cbs \<Longrightarrow> g_First gd db t i w = (r, w') \<Longrightarrow>
    same_rows rows cbs w w' \<and> (\<forall>n. r = Inr n \<longrightarrow> rows w db t i = Some n) \<and>
    (\<forall>e. r = Inl e \<longrightarrow> errors_Is e ErrRecordNotFound \<longrightarrow> rows w db t i = None)"
  by (simp add: gorm_laws_def)

lemma gorm_Transaction: "gorm_laws env gd rows cbs \<Longrightarrow>
    g_Transaction gd db f n w = ((n', None), w') \<Longrightarrow>
    \<exists>w0 w1. same_rows rows cbs w w0 \<and> f n w0 = ((n', None), w1) \<and> same_rows rows cbs w1 w'"
  by (simp add: gorm_laws_def)

lemma gorm_Rollback: "gorm_laws env gd rows cbs \<Longrightarrow>
    g_Transaction gd db f n w = ((n', Some e), w') \<Longrightarrow> same_rows rows cbs w w'"
  by (simp add: gorm_laws_def)

lemma gorm_UpdateStatusVersion: "gorm_laws env gd rows cbs \<Longrightarrow>
    g_UpdateStatusVersion gd db t i v s now w = ((e, k), w') \<Longrightarrow>
    0 \<le> k \<and> cbs w' = cbs w \<and>
    (if e = None \<and> (\<exists>n. rows w db t i = Some n \<and> ne_Version n = v)
     then rows w' = put_row db t i ((the (rows w db t i))
            \<lparr>ne_Status := s, ne_Version := v + 1, ne_UpdatedAt := now\<rparr>) (rows w)
     else rows w' = rows w)"
  unfolding gorm_laws_def by blast

section \<open>A store in memory\<close>

record mem_world =
  mw_rows :: "NotifEntity tables"
  mw_cbs :: "CallbackLogEntity tables"
  mw_gen :: Generator

definition mem_env :: "'x mem_world_scheme env" where
  "mem_env = \<lparr>ev_now = (\<lambda>w. unix_epoch + 1735689600123456789), ev_gen = mw_gen,
     ev_set_gen = (\<lambda>g w. w\<lparr>mw_gen := g\<rparr>), ev_xxh = (\<lambda>s. word_of_nat (length s))\<rparr>"

fun mem_exec ::
    "string \<Rightarrow> insert_stmt list \<Rightarrow> 'x mem_world_scheme \<Rightarrow> go_error option \<times> 'x mem_world_scheme" where
  "mem_exec db [] w = (None, w)"
| "mem_exec db (InsertNotification t n # ss) w =
     (if mw_rows w db t (ne_Id n) \<noteq> None then (Some ErrDuplicatedKey, w)
      else mem_exec db ss (w\<lparr>mw_rows := put_row db t (ne_Id n) n (mw_rows w)\<rparr>))"
| "mem_exec db (InsertCallbackLog t c # ss) w =
     mem_exec db ss (w\<lparr>mw_cbs := put_row db t (ce_NotificationId c) c (mw_cbs w)\<rparr>)"

lemma mem_exec_keeps: "mem_exec db ss w = (e, w') \<Longrightarrow> mw_rows w d t i = Some n \<Longrightarrow> mw_rows w' d t i = Some n"
proof (induction db ss w rule: mem_exec.induct)
  case (2 db t' n' ss w)
  then show ?case by (fastforce simp: put_row_def split: if_splits)
qed auto

lemma mem_exec_inserts:
  "mem_exec db ss w = (None, w') \<Longrightarrow> InsertNotification t n \<in> set ss \<Longrightarrow> mw_rows w' db t (ne_Id n) = Some n"
proof (induction db ss w rule: mem_exec.induct)
  case (2 db t' n' ss w)
  show ?case
  proof (cases "InsertNotification t n \<in> set ss")
    case True
    with 2 show ?thesis by (auto split: if_splits)
  next
    case False
    with 2 have "t' = t" "n' = n"
      "mem_exec db ss (w\<lparr>mw_rows := put_row db t (ne_Id n) n (mw_rows w)\<rparr>) = (None, w')"
      by (auto split: if_splits)
    from mem_exec_keeps [OF this(3)] show ?thesis by (simp add: put_row_def)
  qed
qed auto

text \<open>The row of a key: the first one in the order of the ids.\<close>

definition all_ids :: "u64 list" where
  "all_ids = map word_of_nat [0..<2 ^ 64]"

definition mem_first_key :: "NotifEntity tables \<Rightarrow> string \<Rightarrow> string \<Rightarrow> u64 \<Rightarrow> string \<Rightarrow> NotifEntity option" where
  "mem_first_key rs db t b k =
     find (\<lambda>n. ne_BizId n = b \<and> ne_BizKey n = k) (List.map_filter (rs db t) all_ids)"

definition mem_gorm :: "'x mem_world_scheme gorm" where
  "mem_gorm =
     \<lparr>g_Transaction = (\<lambda>db f n w. case f n w of
          ((n', None), w') \<Rightarrow> ((n', None), w')
        | ((n', Some e), w') \<Rightarrow> ((n', Some e), w\<lparr>mw_gen := mw_gen w'\<rparr>)),
      g_Create = (\<lambda>db t n w. if mw_rows w db t (ne_Id n) \<noteq> None then (Some ErrDuplicatedKey, w)
        else (None, w\<lparr>mw_rows := put_row db t (ne_Id n) n (mw_rows w)\<rparr>)),
      g_CreateCb = (\<lambda>db t c w. (None, w\<lparr>mw_cbs := put_row db t (ce_NotificationId c) c (mw_cbs w)\<rparr>)),
      g_ExecInserts = mem_exec,
      g_Exec = (\<lambda>db sql w. (None, w)),
      g_First = (\<lambda>db t i w. (case mw_rows w db t i of None \<Rightarrow> Inl ErrRecordNotFound | Some n \<Rightarrow> Inr n, w)),
      g_FirstByKey = (\<lambda>db t b k w. (case mem_first_key (mw_rows w) db t b k of
          None \<Rightarrow> Inl ErrRecordNotFound | Some n \<Rightarrow> Inr n, w)),
      g_FindIn = (\<lambda>db t ids w. ((List.map_filter (mw_rows w db t) ids, None), w)),
      g_UpdateStatus = (\<lambda>db t i s now w. (case mw_rows w db t i of None \<Rightarrow> (None, w)
        | Some n \<Rightarrow> (None, w\<lparr>mw_rows := put_row db t i
            (n\<lparr>ne_Status := s, ne_Version := ne_Version n + 1, ne_UpdatedAt := now\<rparr>) (mw_rows w)\<rparr>))),
      g_UpdateStatusVersion = (\<lambda>db t i v s now w. (case mw_rows w db t i of None \<Rightarrow> ((None, 0), w)
        | Some n \<Rightarrow> if ne_Version n = v then ((None, 1), w\<lparr>mw_rows := put_row db t i
            (n\<lparr>ne_Status := s, ne_Version := v + 1, ne_UpdatedAt := now\<rparr>) (mw_rows w)\<rparr>)
            else ((None, 0), w))),
      g_UpdateCbStatus = (\<lambda>db t i s now w. (None, w)),
      g_ErrorText = (\<lambda>e. [])\<rparr>"

definition mem_empty :: mem_world where
  "mem_empty = \<lparr>mw_rows = (\<lambda>_ _ _. None), mw_cbs = (\<lambda>_ _ _. None), mw_gen = NewGenerator\<rparr>"

lemma mem_gorm_laws: "gorm_laws mem_env mem_gorm mw_rows mw_cbs"
  unfolding gorm_laws_def mem_gorm_def mem_env_def same_rows_def
  by (auto simp: mem_exec_keeps mem_exec_inserts split: if_splits option.splits prod.splits)

section \<open>What create does\<close>

lemma nextId_rows:
  "gorm_laws env gd rows cbs \<Longrightarrow> nextId env b k w = (iden, w') \<Longrightarrow> same_rows rows cbs w w'"
  by (auto simp: nextId_def gorm_gen split: prod.splits)

lemma nextId_generated: "nextId env b k w = (iden, w') \<Longrightarrow> generated_id (ev_xxh env) b k iden"
  by (auto simp: nextId_def generated_id_def split: prod.splits) (metis snd_conv)

text \<open>The callback log a new notification gets.\<close>

definition initial_cbLog :: "u64 \<Rightarrow> i64 \<Rightarrow> CallbackLogEntity" where
  "initial_cbLog iden now = \<lparr>ce_NotificationId = iden, ce_RetriedTimes = 0, ce_NextRetryAt = now,
     ce_Status = CallbackStatusInit, ce_CreatedAt = now, ce_UpdatedAt = now\<rparr>"

lemma create_closure_None:
  assumes laws: "gorm_laws env gd rows cbs"
    and c: "create_closure env gd notifDst cbLogDst now needCallback n w = ((n', None), w')"
  shows "n' = n\<lparr>ne_Id := ne_Id n'\<rparr> \<and> generated_id (ev_xxh env) (ne_BizId n) (ne_BizKey n) (ne_Id n') \<and>
     rows w (dst_DB notifDst) (dst_Table notifDst) (ne_Id n') = None \<and>
     rows w' = put_row (dst_DB notifDst) (dst_Table notifDst) (ne_Id n') n' (rows w) \<and>
     cbs w' = (if needCallback
       then put_row (dst_DB notifDst) (dst_Table cbLogDst) (ne_Id n') (initial_cbLog (ne_Id n') now) (cbs w)
       else cbs w)"
proof -
  obtain iden w1 where id: "nextId env (ne_BizId n) (ne_BizKey n) w = (iden, w1)" by fastforce
  let ?n = "n\<lparr>ne_Id := iden\<rparr>"
  obtain w2 where w2: "g_Create gd (dst_DB notifDst) (dst_Table notifDst) ?n w1 = (None, w2)"
    using c id by (auto simp: create_closure_def Let_def split: prod.splits option.splits)
  have n': "n' = ?n"
    using c id w2
    by (auto simp: create_closure_def Let_def split: prod.splits option.splits if_splits)
  have w': "if needCallback
      then g_CreateCb gd (dst_DB notifDst) (dst_Table cbLogDst) (initial_cbLog iden now) w2 = (None, w')
      else w' = w2"
    using c id w2
    by (auto simp: create_closure_def Let_def initial_cbLog_def split: prod.splits option.splits if_splits)
  have "same_rows rows cbs w w1" using nextId_rows [OF laws id] .
  with gorm_Create [OF laws w2] w' gorm_CreateCb [OF laws, of _ _ "initial_cbLog iden now" w2 w'] n'
    nextId_generated [OF id]
  show ?thesis by (auto simp: same_rows_def initial_cbLog_def split: if_splits)
qed

text \<open>The destination of a notification, in a DAO whose strategies are usable.\<close>

definition dao_ok :: "NotifShardingDAO \<Rightarrow> bool" where
  "dao_ok nd \<longleftrightarrow>
     unat (hs_dbSharding (nd_notifShardingStrategy nd))
       * unat (hs_tableSharding (nd_notifShardingStrategy nd)) dvd 1024 \<and>
     unat (hs_dbSharding (nd_cbLogShardingStrategy nd))
       * unat (hs_tableSharding (nd_cbLogShardingStrategy nd)) dvd 1024 \<and>
     (\<forall>d \<in> set (HashStrategy_BroadCast (nd_notifShardingStrategy nd)). nd_dbs nd (dst_DB d))"

definition row_dst :: "'w env \<Rightarrow> NotifShardingDAO \<Rightarrow> u64 \<Rightarrow> string \<Rightarrow> Dst" where
  "row_dst env nd b k = dst_of (nd_notifShardingStrategy nd) (unat (ev_xxh env (HashKey b k)))"

definition cb_dst :: "'w env \<Rightarrow> NotifShardingDAO \<Rightarrow> u64 \<Rightarrow> string \<Rightarrow> Dst" where
  "cb_dst env nd b k = dst_of (nd_cbLogShardingStrategy nd) (unat (ev_xxh env (HashKey b k)))"

lemma dao_ok_Shard:
  assumes "dao_ok nd"
  shows "HashStrategy_Shard (ev_xxh env) (nd_notifShardingStrategy nd) b k = Inr (row_dst env nd b k)"
    and "HashStrategy_Shard (ev_xxh env) (nd_cbLogShardingStrategy nd) b k = Inr (cb_dst env nd b k)"
    and "nd_dbs nd (dst_DB (row_dst env nd b k))"
    and "generated_id (ev_xxh env) b k i \<Longrightarrow>
      HashStrategy_ShardWithId (nd_notifShardingStrategy nd) i = Inr (row_dst env nd b k)"
proof -
  from assms have nz: "hs_dbSharding (nd_notifShardingStrategy nd) \<noteq> 0 \<and>
      hs_tableSharding (nd_notifShardingStrategy nd) \<noteq> 0"
    "hs_dbSharding (nd_cbLogShardingStrategy nd) \<noteq> 0 \<and> hs_tableSharding (nd_cbLogShardingStrategy nd) \<noteq> 0"
    unfolding dao_ok_def using dvd_nonzero by blast+
  show s: "HashStrategy_Shard (ev_xxh env) (nd_notifShardingStrategy nd) b k = Inr (row_dst env nd b k)"
    using nz by (simp add: Shard_eq row_dst_def)
  show "HashStrategy_Shard (ev_xxh env) (nd_cbLogShardingStrategy nd) b k = Inr (cb_dst env nd b k)"
    using nz by (simp add: Shard_eq cb_dst_def)
  show "nd_dbs nd (dst_DB (row_dst env nd b k))"
    using assms nz by (simp add: dao_ok_def row_dst_def dst_of_in_BroadCast)
  assume "generated_id (ev_xxh env) b k i"
  with assms s show "HashStrategy_ShardWithId (nd_notifShardingStrategy nd) i = Inr (row_dst env nd b k)"
    by (simp add: dao_ok_def ShardWithId_generated)
qed

end
