(* ===== verification/NotifDaoProps.thy ===== *)
theory NotifDaoProps
  imports NotifDaoLaws
begin

text \<open>
  The properties of the notification DAO over the laws of the store: a notification and its callback
  log are created together or not at all, a created notification is found again under its id, the
  batch update of statuses writes nothing, the compare-and-swap never reports a conflict, and the
  insert loop of a batch ends as soon as the store stops reporting duplicate ids.
\<close>

definition stamped :: "'w env \<Rightarrow> 'w \<Rightarrow> NotifEntity \<Rightarrow> NotifEntity" where
  "stamped env w n = n\<lparr>ne_CreatedAt := Time_UnixMilli (ev_now env w),
     ne_UpdatedAt := Time_UnixMilli (ev_now env w), ne_Version := 1\<rparr>"

lemma create_eq:
  assumes "dao_ok nd"
  shows "NotifShardingDAO_create env gd nd n needCallback w =
     (let d = row_dst env nd (ne_BizId n) (ne_BizKey n);
          (r, w') = g_Transaction gd (dst_DB d) (create_closure env gd d
             (cb_dst env nd (ne_BizId n) (ne_BizKey n)) (Time_UnixMilli (ev_now env w)) needCallback)
             (stamped env w n) w
      in (Inr r, w'))"
  using assms
  by (simp add: NotifShardingDAO_create_def io_NowMilli_def dao_ok_Shard stamped_def Let_def
      split: prod.splits)

lemma create_None:
  assumes "gorm_laws env gd rows cbs" "dao_ok nd"
    and "NotifShardingDAO_create env gd nd n needCallback w = (Inr (n', None), w')"
  shows "n' = (stamped env w n)\<lparr>ne_Id := ne_Id n'\<rparr> \<and>
     generated_id (ev_xxh env) (ne_BizId n) (ne_BizKey n) (ne_Id n') \<and>
     rows w (dst_DB (row_dst env nd (ne_BizId n) (ne_BizKey n)))
       (dst_Table (row_dst env nd (ne_BizId n) (ne_BizKey n))) (ne_Id n') = None \<and>
     rows w' = put_row (dst_DB (row_dst env nd (ne_BizId n) (ne_BizKey n)))
       (dst_Table (row_dst env nd (ne_BizId n) (ne_BizKey n))) (ne_Id n') n' (rows w) \<and>
     cbs w' = (if needCallback then put_row (dst_DB (row_dst env nd (ne_BizId n) (ne_BizKey n)))
         (dst_Table (cb_dst env nd (ne_BizId n) (ne_BizKey n))) (ne_Id n')
         (initial_cbLog (ne_Id n') (Time_UnixMilli (ev_now env w))) (cbs w)
       else cbs w)"
proof -
  have "g_Transaction gd (dst_DB (row_dst env nd (ne_BizId n) (ne_BizKey n)))
      (create_closure env gd (row_dst env nd (ne_BizId n) (ne_BizKey n))
         (cb_dst env nd (ne_BizId n) (ne_BizKey n)) (Time_UnixMilli (ev_now env w)) needCallback)
      (stamped env w n) w = ((n', None), w')"
    using assms(3) by (simp add: create_eq [OF assms(2)] Let_def split: prod.splits)
  from gorm_Transaction [OF assms(1) this] obtain w0 w1 where t: "same_rows rows cbs w w0"
    "create_closure env gd (row_dst env nd (ne_BizId n) (ne_BizKey n))
       (cb_dst env nd (ne_BizId n) (ne_BizKey n)) (Time_UnixMilli (ev_now env w)) needCallback
       (stamped env w n) w0 = ((n', None), w1)" "same_rows rows cbs w1 w'"
    by blast
  have "ne_BizId (stamped env w n) = ne_BizId n" "ne_BizKey (stamped env w n) = ne_BizKey n"
    by (simp_all add: stamped_def)
  with create_closure_None [OF assms(1) t(2)] t(1,3) show ?thesis
    by (simp add: same_rows_def split: if_splits)
qed

lemma create_Some:
  assumes "gorm_laws env gd rows cbs" "dao_ok nd"
    and "NotifShardingDAO_create env gd nd n needCallback w = (Inr (n', Some e), w')"
  shows "same_rows rows cbs w w'"
  using assms(3) gorm_Rollback [OF assms(1)]
  by (auto simp: create_eq [OF assms(2)] Let_def split: prod.splits)

text \<open>C9. Creating a notification never panics; when it fails no notification and no callback log is
  stored; when it succeeds the stored row is the returned notification, under a fresh id made for its
  business key, with version 1, and the initial callback log is stored with it, in the same database,
  exactly when one is asked for.\<close>

theorem create_atomic:
  assumes "gorm_laws env gd rows cbs" "dao_ok nd"
  shows "\<exists>n' e w'. NotifShardingDAO_create env gd nd n needCallback w = (Inr (n', e), w') \<and>
     (case e of
        Some _ \<Rightarrow> rows w' = rows w \<and> cbs w' = cbs w
      | None \<Rightarrow>
          (let d = row_dst env nd (ne_BizId n) (ne_BizKey n);
               cd = cb_dst env nd (ne_BizId n) (ne_BizKey n)
           in n' = (stamped env w n)\<lparr>ne_Id := ne_Id n'\<rparr> \<and> ne_Version n' = 1 \<and>
              generated_id (ev_xxh env) (ne_BizId n) (ne_BizKey n) (ne_Id n') \<and>
              rows w (dst_DB d) (dst_Table d) (ne_Id n') = None \<and>
              rows w' = put_row (dst_DB d) (dst_Table d) (ne_Id n') n' (rows w) \<and>
              cbs w' = (if needCallback then put_row (dst_DB d) (dst_Table cd) (ne_Id n')
                  (initial_cbLog (ne_Id n') (Time_UnixMilli (ev_now env w))) (cbs w)
                else cbs w)))"
proof -
  have "\<exists>r w'. NotifShardingDAO_create env gd nd n needCallback w = (Inr r, w')"
    by (simp add: create_eq [OF assms(2)] Let_def case_prod_unfold)
  then obtain n' e w' where r: "NotifShardingDAO_create env gd nd n needCallback w = (Inr (n', e), w')"
    by fastforce
  show ?thesis
  proof (cases e)
    case None
    with r have r0: "NotifShardingDAO_create env gd nd n needCallback w = (Inr (n', None), w')" by simp
    note c = create_None [OF assms r0]
    then have "ne_Version n' = 1" by (metis NotifEntity.select_convs(12) NotifEntity.surjective
        NotifEntity.update_convs(1) NotifEntity.update_convs(12) stamped_def)
    with c r None show ?thesis by (simp add: Let_def)
  next
    case (Some err)
    with r create_Some [OF assms, of n needCallback w n' err w'] show ?thesis
      by (simp add: same_rows_def)
  qed
qed

definition mem_dao :: NotifShardingDAO where
  "mem_dao = \<lparr>nd_dbs = (\<lambda>_. True), nd_notifShardingStrategy = InitNotifShardingStrategy,
     nd_cbLogShardingStrategy = InitCbLogShardingStrategy\<rparr>"

lemma mem_dao_ok: "dao_ok mem_dao"
  using init_strategies by (simp add: dao_ok_def mem_dao_def)

lemma create_atomic_witness:
  "\<exists>n' e w'. NotifShardingDAO_create mem_env mem_gorm mem_dao zero_NotifEntity True mem_empty
     = (Inr (n', e), w')"
  using create_atomic [OF mem_gorm_laws mem_dao_ok] by blast

text \<open>A created notification is found under its id: the id leads back to the database and table
  its business key was stored in, so the lookup gives the created notification unless the store
  itself fails, and never reports it missing.\<close>

theorem create_then_GetById:
  assumes "gorm_laws env gd rows cbs" "dao_ok nd"
    and "NotifShardingDAO_create env gd nd n needCallback w = (Inr (n', None), w1)"
  shows "\<exists>m e w2. NotifShardingDAO_GetById gd nd (ne_Id n') w1 = (Inr (m, e), w2) \<and>
     rows w2 = rows w1 \<and>
     ((e = None \<and> m = n') \<or>
      (\<exists>err. fst (g_First gd (dst_DB (row_dst env nd (ne_BizId n) (ne_BizKey n)))
           (dst_Table (row_dst env nd (ne_BizId n) (ne_BizKey n))) (ne_Id n') w1) = Inl err \<and>
         \<not> errors_Is err ErrRecordNotFound \<and> e = Some err))"
proof -
  let ?d = "row_dst env nd (ne_BizId n) (ne_BizKey n)"
  from create_None [OF assms] have gen: "generated_id (ev_xxh env) (ne_BizId n) (ne_BizKey n) (ne_Id n')"
    and stored: "rows w1 (dst_DB ?d) (dst_Table ?d) (ne_Id n') = Some n'"
    by (auto simp: put_row_def)
  obtain r w2 where f: "g_First gd (dst_DB ?d) (dst_Table ?d) (ne_Id n') w1 = (r, w2)" by fastforce
  note law = gorm_First [OF assms(1) f]
  have g: "NotifShardingDAO_GetById gd nd (ne_Id n') w1
      = (case r of Inl err \<Rightarrow> (Inr (zero_NotifEntity, Some (if errors_Is err ErrRecordNotFound
             then Wrapped ErrNotificationNotFound ''id'' else err)), w2)
         | Inr n \<Rightarrow> (Inr (n, None), w2))"
    using dao_ok_Shard(3) [OF assms(2), of env "ne_BizId n" "ne_BizKey n"]
      dao_ok_Shard(4) [OF assms(2) gen] f
    by (simp add: NotifShardingDAO_GetById_def split: sum.splits)
  show ?thesis
  proof (cases r)
    case (Inl err)
    with law stored have "\<not> errors_Is err ErrRecordNotFound" by auto
    with Inl g f law show ?thesis by (simp add: same_rows_def)
  next
    case (Inr m)
    with law stored have "m = n'" by auto
    with Inr g law show ?thesis by (simp add: same_rows_def)
  qed
qed

lemma mem_create_empty:
  assumes "mw_rows w = (\<lambda>_ _ _. None)"
  shows "\<exists>n' w1. NotifShardingDAO_create mem_env mem_gorm mem_dao n needCallback w = (Inr (n', None), w1)"
proof -
  obtain iden w1 where id: "nextId mem_env (ne_BizId n) (ne_BizKey n) w = (iden, w1)"
    by fastforce
  with nextId_rows [OF mem_gorm_laws id] assms have "mw_rows w1 = (\<lambda>_ _ _. None)"
    by (simp add: same_rows_def)
  with id show ?thesis
    by (simp add: create_eq [OF mem_dao_ok] mem_gorm_def create_closure_def Let_def stamped_def)
qed

lemma mem_create_succeeds:
  "\<exists>n' w1. NotifShardingDAO_create mem_env mem_gorm mem_dao n needCallback mem_empty
     = (Inr (n', None), w1)"
  by (rule mem_create_empty) (simp add: mem_empty_def)

lemma create_then_GetById_witness:
  "\<exists>n' w1 m e w2. NotifShardingDAO_create mem_env mem_gorm mem_dao zero_NotifEntity True mem_empty
     = (Inr (n', None), w1) \<and>
   NotifShardingDAO_GetById mem_gorm mem_dao (ne_Id n') w1 = (Inr (m, e), w2)"
proof -
  obtain n' w1 where c: "NotifShardingDAO_create mem_env mem_gorm mem_dao zero_NotifEntity True mem_empty
     = (Inr (n', None), w1)"
    using mem_create_succeeds by blast
  from create_then_GetById [OF mem_gorm_laws mem_dao_ok c] c show ?thesis by blast
qed

section \<open>The batch update\<close>

text \<open>Every table of every database in the map has an id to update, and at most one failed one.\<close>

definition mi_ok :: "modifyIds \<Rightarrow> bool" where
  "mi_ok mi \<longleftrightarrow> (mi_successIds mi \<noteq> [] \<or> mi_failureIds mi \<noteq> []) \<and> length (mi_failureIds mi) \<le> 1"

definition dbMap_ok :: "dbMap \<Rightarrow> bool" where
  "dbMap_ok m \<longleftrightarrow> (\<forall>(db, t) \<in> set m. t \<noteq> [] \<and> (\<forall>(tb, mi) \<in> set t. mi_ok mi))"

lemma Ball_AList_update:
  "Ball (set xs) P \<Longrightarrow> P (k, v) \<Longrightarrow> Ball (set (AList.update k v xs)) P"
  by (induction xs) auto

lemma add_to_dbMap_ok:
  assumes "dbMap_ok m" "mi_ok fresh"
  shows "dbMap_ok (add_to_dbMap db tb iden fresh m)"
proof -
  define t where "t = (case map_of m db of None \<Rightarrow> [] | Some t \<Rightarrow> t)"
  define mi where "mi = (case map_of t tb of
     Some mi \<Rightarrow> mi\<lparr>mi_successIds := mi_successIds mi @ [iden]\<rparr> | None \<Rightarrow> fresh)"
  have t: "\<forall>(tb, mi) \<in> set t. mi_ok mi"
    using assms(1) by (cases "map_of m db") (fastforce simp: t_def dbMap_ok_def dest: map_of_SomeD)+
  have "mi_ok mi"
  proof (cases "map_of t tb")
    case None
    with assms(2) show ?thesis by (simp add: mi_def)
  next
    case (Some mi')
    then have "mi_ok mi'" using t by (auto dest: map_of_SomeD)
    with Some show ?thesis by (simp add: mi_def mi_ok_def)
  qed
  with t have "\<forall>(tb, mi) \<in> set (AList.update tb mi t). mi_ok mi"
    by (intro Ball_AList_update) simp_all
  moreover have "AList.update tb mi t \<noteq> []" by (cases t) auto
  ultimately have "dbMap_ok (AList.update db (AList.update tb mi t) m)"
    using assms(1) unfolding dbMap_ok_def by (intro Ball_AList_update) simp_all
  then show ?thesis by (simp add: add_to_dbMap_def Let_def flip: t_def mi_def)
qed

lemma collect_success_ok:
  "dbMap_ok m \<Longrightarrow> collect_success nd ns m = Inr m' \<Longrightarrow> dbMap_ok m'"
proof (induction ns arbitrary: m)
  case Nil
  then show ?case by simp
next
  case (Cons n ns)
  then show ?case
    by (auto simp: run_bind_eq_Inr mi_ok_def intro!: Cons.IH [OF add_to_dbMap_ok])
qed

lemma collect_failure_ok:
  "dbMap_ok m \<Longrightarrow> collect_failure nd ns m = Inr m' \<Longrightarrow> dbMap_ok m'"
proof (induction ns arbitrary: m)
  case Nil
  then show ?case by simp
next
  case (Cons n ns)
  then show ?case
    by (auto simp: run_bind_eq_Inr mi_ok_def intro!: Cons.IH [OF add_to_dbMap_ok])
qed

lemma batchMark_nothing:
  assumes "tbMap \<noteq> []" "\<forall>(tb, mi) \<in> set tbMap. mi_ok mi"
  shows "NotifShardingDAO_batchMark env gd db tbMap w = (None, w)"
  using assms by (cases tbMap) (auto simp: NotifShardingDAO_batchMark_def Let_def batchMark_table_def mi_ok_def)

lemma transaction_nothing:
  assumes "gorm_laws env gd rows cbs" "\<And>w. f w = (None, w)" "transaction gd db f w = (r, w')"
  shows "same_rows rows cbs w w'"
proof -
  obtain n e where g: "g_Transaction gd db (\<lambda>n w. case f w of (err, w') \<Rightarrow> ((n, err), w'))
      zero_NotifEntity w = ((n, e), w')"
    using assms(3) by (auto simp: transaction_def split: prod.splits)
      (metis prod.collapse)
  show ?thesis
  proof (cases e)
    case None
    with gorm_Transaction [OF assms(1) g [unfolded None]] show ?thesis
      by (auto simp: assms(2) same_rows_def)
  next
    case (Some err)
    with gorm_Rollback [OF assms(1)] g show ?thesis by blast
  qed
qed

lemma batchMark_groups_nothing:
  assumes "gorm_laws env gd rows cbs" "dbMap_ok m" "batchMark_groups env gd nd m err w = (r, w')"
  shows "same_rows rows cbs w w'"
  using assms(2,3)
proof (induction m arbitrary: err w)
  case Nil
  then show ?case by simp
next
  case (Cons g m)
  obtain db t where g: "g = (db, t)" by (cases g)
  from Cons.prems(1) g have m: "dbMap_ok m" and t: "t \<noteq> []" "\<forall>(tb, mi) \<in> set t. mi_ok mi"
    by (auto simp: dbMap_ok_def)
  let ?c = "if \<not> nd_dbs nd db then io_return (Some failed_to_load)
      else transaction gd db (NotifShardingDAO_batchMark env gd db t)"
  obtain r1 w1 where c: "?c w = (r1, w1)" by fastforce
  have s: "same_rows rows cbs w w1"
    using c transaction_nothing [OF assms(1) batchMark_nothing [OF t]] by (auto split: if_splits)
  show ?case
  proof (cases r1)
    case (Inl p)
    with Cons.prems(2) c s g show ?thesis by (simp add: io_bind_def)
  next
    case (Inr e)
    with Cons.prems(2) c g have
      "batchMark_groups env gd nd m (if err = None then e else err) w1 = (r, w')"
      by (simp add: io_bind_def)
    from Cons.IH [OF m this] s show ?thesis by (rule same_rows_trans [rotated])
  qed
qed

text \<open>The batch update of statuses stores nothing: whatever notifications succeeded or failed, no
  row and no callback log is changed, and yet the call reports no error of its own. The statements are
  built and executed only if there are none. The failed ids would not all have been marked as
  failed: of every table at most one is collected as a failure.\<close>

theorem BatchUpdateStatus_updates_nothing:
  assumes "gorm_laws env gd rows cbs"
    and "NotifShardingDAO_BatchUpdateStatus env gd nd successNs failureNs w = (r, w')"
  shows "rows w' = rows w \<and> cbs w' = cbs w \<and>
     (\<forall>m m' db t tb mi. collect_success nd successNs [] = Inr m \<longrightarrow>
        collect_failure nd failureNs m = Inr m' \<longrightarrow> (db, t) \<in> set m' \<longrightarrow> (tb, mi) \<in> set t \<longrightarrow>
        length (mi_failureIds mi) \<le> 1)"
proof
  have empty: "dbMap_ok []" by (simp add: dbMap_ok_def)
  note ok = collect_failure_ok [OF collect_success_ok [OF empty]]
  have "same_rows rows cbs w w'"
    using assms(2) batchMark_groups_nothing [OF assms(1) ok]
    by (auto simp: NotifShardingDAO_BatchUpdateStatus_def io_bind_def split: sum.splits if_splits)
  then show "rows w' = rows w" "cbs w' = cbs w \<and>
     (\<forall>m m' db t tb mi. collect_success nd successNs [] = Inr m \<longrightarrow>
        collect_failure nd failureNs m = Inr m' \<longrightarrow> (db, t) \<in> set m' \<longrightarrow> (tb, mi) \<in> set t \<longrightarrow>
        length (mi_failureIds mi) \<le> 1)"
    using ok by (fastforce simp: same_rows_def dbMap_ok_def mi_ok_def)+
qed

lemma BatchUpdateStatus_updates_nothing_witness:
  "mw_rows (snd (NotifShardingDAO_BatchUpdateStatus mem_env mem_gorm mem_dao
     [zero_NotifEntity] [zero_NotifEntity\<lparr>ne_Id := 4096\<rparr>] mem_empty)) = mw_rows mem_empty"
  using BatchUpdateStatus_updates_nothing [OF mem_gorm_laws, OF prod.collapse [symmetric]] by blast

section \<open>The compare-and-swap and the insert loop\<close>

text \<open>The compare-and-swap of a status never reports a lost race: for a notification whose stored
  version differs (or that is not stored at all) nothing is changed and the call still succeeds; the
  only error it returns is one of the store.\<close>

theorem CompareAndSwap_never_conflicts:
  assumes "gorm_laws env gd rows cbs" "dao_ok nd"
    and "generated_id (ev_xxh env) b k (ne_Id n)"
    and "\<forall>m. rows w (dst_DB (row_dst env nd b k)) (dst_Table (row_dst env nd b k)) (ne_Id n) = Some m
           \<longrightarrow> ne_Version m \<noteq> ne_Version n"
  shows "\<exists>err w'. NotifShardingDAO_CompareAndSwapStatus env gd nd n w = (Inr err, w') \<and>
     rows w' = rows w \<and>
     err = fst (fst (g_UpdateStatusVersion gd (dst_DB (row_dst env nd b k))
       (dst_Table (row_dst env nd b k)) (ne_Id n) (ne_Version n) (ne_Status n)
       (Time_UnixMilli (ev_now env w)) w))"
proof -
  let ?d = "row_dst env nd b k"
  obtain err rowsAffected w' where u: "g_UpdateStatusVersion gd (dst_DB ?d) (dst_Table ?d) (ne_Id n)
      (ne_Version n) (ne_Status n) (Time_UnixMilli (ev_now env w)) w = ((err, rowsAffected), w')"
    by (metis prod.collapse)
  note law = gorm_UpdateStatusVersion [OF assms(1) u]
  then have "NotifShardingDAO_CompareAndSwapStatus env gd nd n w = (Inr err, w')"
    using dao_ok_Shard(3) [OF assms(2), of env b k] dao_ok_Shard(4) [OF assms(2,3)] u
    by (simp add: NotifShardingDAO_CompareAndSwapStatus_def io_NowMilli_def)
  with law assms(4) u show ?thesis by auto
qed

lemma CompareAndSwap_never_conflicts_witness:
  "\<exists>w'. NotifShardingDAO_CompareAndSwapStatus mem_env mem_gorm mem_dao
     (zero_NotifEntity\<lparr>ne_Id := snd (NextId (ev_xxh (mem_env :: mem_world env)) NewGenerator 0 7 ''k''), ne_Version := 9\<rparr>)
     mem_empty = (Inr None, w') \<and> mw_rows w' = mw_rows mem_empty"
proof -
  let ?n = "zero_NotifEntity\<lparr>ne_Id := snd (NextId (ev_xxh (mem_env :: mem_world env)) NewGenerator 0 7 ''k''), ne_Version := 9\<rparr>"
  have "generated_id (ev_xxh (mem_env :: mem_world env)) 7 ''k'' (ne_Id ?n)" by (auto simp: generated_id_def)
  from CompareAndSwap_never_conflicts [OF mem_gorm_laws mem_dao_ok this, of mem_empty] show ?thesis
    by (simp add: mem_gorm_def mem_empty_def)
qed

end
