(* ===== verification/NotifDaoBatch.thy ===== *)
theory NotifDaoBatch
  imports NotifDaoProps
begin

text \<open>
  What \<open>batchCreate\<close> stores: the notifications of a batch are spread over the databases of their
  business keys, each goroutine inserts those of its database, and a batch that reports no error has
  stored every returned notification where its key and its id are looked up.
\<close>

section \<open>Grouping\<close>

definition db_of :: "(string \<Rightarrow> u64) \<Rightarrow> HashStrategy \<Rightarrow> NotifEntity \<Rightarrow> string" where
  "db_of xxh h n = dst_DB (dst_of h (unat (xxh (HashKey (ne_BizId n) (ne_BizKey n)))))"

text \<open>The group of a database: the positions, below \<open>k\<close>, of the notifications that belong to it.\<close>

definition group_at :: "(string \<Rightarrow> u64) \<Rightarrow> HashStrategy \<Rightarrow> NotifEntity list \<Rightarrow> nat \<Rightarrow> string \<Rightarrow> nat list option" where
  "group_at xxh h es k db =
     (let ps = filter (\<lambda>j. db_of xxh h (es ! j) = db) [0..<k] in if ps = [] then None else Some ps)"

lemma group_at_Suc:
  "group_at xxh h es (Suc k) = (group_at xxh h es k)
     (db_of xxh h (es ! k) \<mapsto>
       (case group_at xxh h es k (db_of xxh h (es ! k)) of None \<Rightarrow> [] | Some ps \<Rightarrow> ps) @ [k])"
  by (auto simp: group_at_def Let_def fun_eq_iff)

lemma group_by_db_spec:
  assumes "hs_dbSharding h \<noteq> 0" "hs_tableSharding h \<noteq> 0"
    and "map_of m = group_at xxh h es (length pre)" "distinct (map fst m)" "es = pre @ suf"
  shows "\<exists>m'. group_by_db xxh h suf (length pre) m = Inr m' \<and>
     map_of m' = group_at xxh h es (length es) \<and> distinct (map fst m')"
  using assms(3-5)
proof (induction suf arbitrary: m pre)
  case Nil
  then show ?case by simp
next
  case (Cons n ns)
  let ?db = "db_of xxh h n"
  let ?m = "AList.update ?db ((case map_of m ?db of None \<Rightarrow> [] | Some ps \<Rightarrow> ps) @ [length pre]) m"
  have "es ! length pre = n" using Cons.prems(3) by simp
  then have "map_of ?m = group_at xxh h es (length (pre @ [n]))"
    using Cons.prems(1) by (simp add: update_conv' group_at_Suc)
  moreover have "distinct (map fst ?m)" using Cons.prems(2) by (rule distinct_update)
  ultimately obtain m' where "group_by_db xxh h ns (length (pre @ [n])) ?m = Inr m'"
    "map_of m' = group_at xxh h es (length es)" "distinct (map fst m')"
    using Cons.IH [of ?m "pre @ [n]"] Cons.prems(3) by auto
  then show ?case
    using assms(1,2) by (simp add: Shard_eq db_of_def Let_def)
qed

section \<open>One group\<close>

text \<open>Lists that differ only in the ids.\<close>

definition same_but_id :: "NotifEntity list \<Rightarrow> NotifEntity list \<Rightarrow> bool" where
  "same_but_id es ns \<longleftrightarrow> length es = length ns \<and> (\<forall>i < length ns. es ! i = (ns ! i)\<lparr>ne_Id := ne_Id (es ! i)\<rparr>)"

lemma same_but_id_refl [simp]: "same_but_id es es"
  by (simp add: same_but_id_def)

lemma same_but_id_trans: "same_but_id es fs \<Longrightarrow> same_but_id fs gs \<Longrightarrow> same_but_id es gs"
  unfolding same_but_id_def
  by (metis NotifEntity.surjective NotifEntity.update_convs(1))

lemma same_but_id_upd: "i < length es \<Longrightarrow> same_but_id (es[i := (es ! i)\<lparr>ne_Id := x\<rparr>]) es"
  by (auto simp: same_but_id_def nth_list_update)

text \<open>The entry at position \<open>i\<close> is stored, in the database and table of its key, under an id made for it.\<close>

definition entry_ok :: "'w env \<Rightarrow> NotifShardingDAO \<Rightarrow> ('w \<Rightarrow> NotifEntity tables) \<Rightarrow> 'w \<Rightarrow> NotifEntity \<Rightarrow> bool" where
  "entry_ok env nd rows w n \<longleftrightarrow>
     generated_id (ev_xxh env) (ne_BizId n) (ne_BizKey n) (ne_Id n) \<and>
     rows w (dst_DB (row_dst env nd (ne_BizId n) (ne_BizKey n)))
       (dst_Table (row_dst env nd (ne_BizId n) (ne_BizKey n))) (ne_Id n) = Some n"

definition keeps_rows :: "('w \<Rightarrow> NotifEntity tables) \<Rightarrow> 'w \<Rightarrow> 'w \<Rightarrow> bool" where
  "keeps_rows rows w w' \<longleftrightarrow> (\<forall>d t i n. rows w d t i = Some n \<longrightarrow> rows w' d t i = Some n)"

lemma keeps_rows_trans: "keeps_rows rows w w1 \<Longrightarrow> keeps_rows rows w1 w2 \<Longrightarrow> keeps_rows rows w w2"
  by (simp add: keeps_rows_def)

lemma keeps_rows_same: "same_rows rows cbs w w' \<Longrightarrow> keeps_rows rows w w'"
  by (simp add: keeps_rows_def same_rows_def)

lemma keeps_rows_refl [simp]: "keeps_rows rows w w"
  by (simp add: keeps_rows_def)

lemma entry_ok_keeps: "entry_ok env nd rows w n \<Longrightarrow> keeps_rows rows w w' \<Longrightarrow> entry_ok env nd rows w' n"
  by (simp add: entry_ok_def keeps_rows_def)

definition key_of :: "NotifEntity \<Rightarrow> u64 \<times> string" where
  "key_of n = (ne_BizId n, ne_BizKey n)"

lemma same_but_id_key: "same_but_id es fs \<Longrightarrow> i < length fs \<Longrightarrow> key_of (es ! i) = key_of (fs ! i)"
  unfolding same_but_id_def key_of_def
  by (metis NotifEntity.ext_inject NotifEntity.surjective NotifEntity.update_convs(1))

lemma db_of_row_dst:
  "dst_DB (row_dst env nd (ne_BizId n) (ne_BizKey n)) = db_of (ev_xxh env) (nd_notifShardingStrategy nd) n"
  by (simp add: row_dst_def db_of_def)

lemma db_of_key: "key_of a = key_of b \<Longrightarrow> db_of xxh h a = db_of xxh h b"
  by (simp add: key_of_def db_of_def)

text \<open>The notification \<open>n\<close> has an id made for it, and its insertion is one of the statements \<open>sqls\<close>.\<close>

definition made :: "'w env \<Rightarrow> NotifShardingDAO \<Rightarrow> insert_stmt list \<Rightarrow> NotifEntity \<Rightarrow> bool" where
  "made env nd sqls n \<longleftrightarrow> generated_id (ev_xxh env) (ne_BizId n) (ne_BizKey n) (ne_Id n) \<and>
     InsertNotification (dst_Table (row_dst env nd (ne_BizId n) (ne_BizKey n))) n \<in> set sqls"

lemma sqlGenerate_loop_spec:
  assumes "gorm_laws env gd rows cbs" "dao_ok nd" "distinct ps" "set ps \<subseteq> {..<length es}"
  shows "\<exists>es' sqls ids w'. sqlGenerate_loop env nd needCallback now ps es w = (Inr (es', sqls, ids), w') \<and>
     same_but_id es' es \<and> (\<forall>i < length es. i \<notin> set ps \<longrightarrow> es' ! i = es ! i) \<and>
     same_rows rows cbs w w' \<and> (ps \<noteq> [] \<longrightarrow> sqls \<noteq> []) \<and>
     (\<forall>i \<in> set ps. made env nd sqls (es' ! i))"
  using assms(3,4)
proof (induction ps arbitrary: es w)
  case Nil
  then show ?case by simp
next
  case (Cons i ps)
  let ?n = "es ! i"
  obtain iden w1 where id: "nextId env (ne_BizId ?n) (ne_BizKey ?n) w = (iden, w1)" by fastforce
  let ?es = "es[i := ?n\<lparr>ne_Id := iden\<rparr>]"
  obtain es' sqls ids w' where r: "sqlGenerate_loop env nd needCallback now ps ?es w1 = (Inr (es', sqls, ids), w')"
    "same_but_id es' ?es" "\<forall>j < length es. j \<notin> set ps \<longrightarrow> es' ! j = ?es ! j" "same_rows rows cbs w1 w'"
    "\<forall>j \<in> set ps. made env nd sqls (es' ! j)"
    using Cons.IH [of ?es w1] Cons.prems by auto
  have i: "i < length es" "i \<notin> set ps" using Cons.prems by auto
  then have ei: "es' ! i = ?n\<lparr>ne_Id := iden\<rparr>" using r(3) by simp
  have sb: "same_but_id es' es"
    using r(2) same_but_id_upd [OF i(1)] by (rule same_but_id_trans)
  have sr: "same_rows rows cbs w w'" using nextId_rows [OF assms(1) id] r(4) by (rule same_rows_trans)
  have gen: "generated_id (ev_xxh env) (ne_BizId ?n) (ne_BizKey ?n) iden" using nextId_generated [OF id] .
  obtain sqls' ids' where "sqlGenerate_loop env nd needCallback now (i # ps) es w
      = (Inr (es', InsertNotification (dst_Table (row_dst env nd (ne_BizId ?n) (ne_BizKey ?n)))
          (?n\<lparr>ne_Id := iden\<rparr>) # sqls', ids'), w')" "set sqls \<subseteq> set sqls'"
    using dao_ok_Shard [OF assms(2), of env "ne_BizId ?n" "ne_BizKey ?n"] id r(1)
    by (cases needCallback) (auto simp: Let_def)
  then show ?case using r(3,5) sb sr gen ei i by (auto simp: made_def nth_list_update split: if_splits)
qed

text \<open>One turn of the insert loop: the statements are made, and their execution decides how it goes on.\<close>

lemma insert_group_round:
  assumes "gorm_laws env gd rows cbs" "dao_ok nd" "distinct ps" "set ps \<subseteq> {..<length es}"
    and "\<forall>i \<in> set ps. db_of (ev_xxh env) (nd_notifShardingStrategy nd) (es ! i) = db"
  obtains es1 sqls ids w1 where
    "same_but_id es1 es" "\<forall>i < length es. i \<notin> set ps \<longrightarrow> es1 ! i = es ! i" "same_rows rows cbs w w1"
    "ps \<noteq> [] \<longrightarrow> sqls \<noteq> []" "\<forall>i \<in> set ps. made env nd sqls (es1 ! i)"
    "\<forall>i \<in> set ps. db_of (ev_xxh env) (nd_notifShardingStrategy nd) (es1 ! i) = db"
    "insert_group (Suc fuel) env gd nd needCallback db ps es w =
      (if sqls = [] then (Inr (Some (es1, None)), w1)
       else case g_ExecInserts gd db sqls w1 of
         (None, w2) \<Rightarrow> (Inr (Some (es1, None)), w2)
       | (Some err, w2) \<Rightarrow> if errors_Is err ErrDuplicatedKey \<and> IsIdDuplicateErr gd ids err
           then insert_group fuel env gd nd needCallback db ps es1 w2 else (Inr (Some (es1, Some err)), w2))"
proof -
  let ?now = "Time_UnixMilli (ev_now env w)"
  obtain es1 sqls ids w1 where r: "sqlGenerate_loop env nd needCallback ?now ps es w = (Inr (es1, sqls, ids), w1)"
    and s: "same_but_id es1 es" "\<forall>i < length es. i \<notin> set ps \<longrightarrow> es1 ! i = es ! i" "same_rows rows cbs w w1"
      "ps \<noteq> [] \<longrightarrow> sqls \<noteq> []" "\<forall>i \<in> set ps. made env nd sqls (es1 ! i)"
    using sqlGenerate_loop_spec [OF assms(1-4), of needCallback ?now w] by blast
  have "db_of (ev_xxh env) (nd_notifShardingStrategy nd) (es1 ! i) = db" if "i \<in> set ps" for i
    using that assms(4,5) db_of_key [OF same_but_id_key [OF s(1)]] by (metis lessThan_iff subsetD)
  moreover have "insert_group (Suc fuel) env gd nd needCallback db ps es w =
      (if sqls = [] then (Inr (Some (es1, None)), w1)
       else case g_ExecInserts gd db sqls w1 of
         (None, w2) \<Rightarrow> (Inr (Some (es1, None)), w2)
       | (Some err, w2) \<Rightarrow> if errors_Is err ErrDuplicatedKey \<and> IsIdDuplicateErr gd ids err
           then insert_group fuel env gd nd needCallback db ps es1 w2 else (Inr (Some (es1, Some err)), w2))"
    using r by (auto simp: NotifShardingDAO_sqlGenerate_def io_NowMilli_def io_bind_def
        split: prod.splits option.splits)
  ultimately show ?thesis using that [OF s] by blast
qed

lemma insert_group_spec:
  assumes "gorm_laws env gd rows cbs" "dao_ok nd" "distinct ps" "set ps \<subseteq> {..<length es}"
    and "\<forall>i \<in> set ps. db_of (ev_xxh env) (nd_notifShardingStrategy nd) (es ! i) = db"
    and "insert_group fuel env gd nd needCallback db ps es w = (Inr (Some (es', e)), w')"
  shows "same_but_id es' es \<and> (\<forall>i < length es. i \<notin> set ps \<longrightarrow> es' ! i = es ! i) \<and>
     keeps_rows rows w w' \<and> (e = None \<longrightarrow> (\<forall>i \<in> set ps. entry_ok env nd rows w' (es' ! i)))"
  using assms(4-6)
proof (induction fuel arbitrary: es w)
  case 0
  then show ?case by simp
next
  case (Suc fuel)
  obtain es1 sqls ids w1 where
    s: "same_but_id es1 es" "\<forall>i < length es. i \<notin> set ps \<longrightarrow> es1 ! i = es ! i" "same_rows rows cbs w w1"
      "ps \<noteq> [] \<longrightarrow> sqls \<noteq> []" "\<forall>i \<in> set ps. made env nd sqls (es1 ! i)"
    and db1: "\<forall>i \<in> set ps. db_of (ev_xxh env) (nd_notifShardingStrategy nd) (es1 ! i) = db"
    and step: "insert_group (Suc fuel) env gd nd needCallback db ps es w =
      (if sqls = [] then (Inr (Some (es1, None)), w1)
       else case g_ExecInserts gd db sqls w1 of
         (None, w2) \<Rightarrow> (Inr (Some (es1, None)), w2)
       | (Some err, w2) \<Rightarrow> if errors_Is err ErrDuplicatedKey \<and> IsIdDuplicateErr gd ids err
           then insert_group fuel env gd nd needCallback db ps es1 w2 else (Inr (Some (es1, Some err)), w2))"
    by (rule insert_group_round [OF assms(1,2,3) Suc.prems(1,2), where fuel = fuel and w = w
        and needCallback = needCallback]) (rule that; assumption)
  show ?case
  proof (cases "sqls = []")
    case True
    with s(4) Suc.prems(3) step s(1-3) show ?thesis by (auto intro: keeps_rows_same)
  next
    case False
    obtain err w2 where x: "g_ExecInserts gd db sqls w1 = (err, w2)" by fastforce
    note law = gorm_ExecInserts [OF assms(1) x]
    then have k: "keeps_rows rows w w2" using s(3) by (simp add: keeps_rows_def same_rows_def)
    consider "err = None" "es' = es1" "e = None" "w' = w2"
      | "insert_group fuel env gd nd needCallback db ps es1 w2 = (Inr (Some (es', e)), w')"
      | e1 where "es' = es1" "e = Some e1" "w' = w2"
      using step False x Suc.prems(3)
      by (cases err; cases "errors_Is (the err) ErrDuplicatedKey \<and> IsIdDuplicateErr gd ids (the err)") auto
    then show ?thesis
    proof cases
      case 1
      with s(1,2,5) k law db1 show ?thesis by (auto simp: entry_ok_def made_def db_of_row_dst)
    next
      case 2
      have len: "length es1 = length es" using s(1) by (simp add: same_but_id_def)
      from Suc.IH [OF _ db1 2] Suc.prems(1) len s(1,2) k show ?thesis
        by (auto intro: same_but_id_trans keeps_rows_trans)
    next
      case 3
      with s(1,2) k show ?thesis by simp
    qed
  qed
qed

section \<open>The whole batch\<close>

text \<open>Groups still to insert: each holds the positions of its own database, and no two share a database.\<close>

definition groups_ok :: "(nat \<Rightarrow> string) \<Rightarrow> nat \<Rightarrow> (string \<times> nat list) list \<Rightarrow> bool" where
  "groups_ok dbf k m \<longleftrightarrow> distinct (map fst m) \<and>
     (\<forall>(db, ps) \<in> set m. distinct ps \<and> (\<forall>i. i \<in> set ps \<longleftrightarrow> i < k \<and> dbf i = db))"

text \<open>Inserting the group of one database and then the groups of the databases \<open>S\<close>.\<close>

lemma group_then_groups:
  assumes "\<And>i. i \<in> set ps \<longleftrightarrow> i < k \<and> dbf i = db" "db \<notin> S" "keeps_rows rows w1 w'"
    and "\<forall>i < k. i \<notin> set ps \<longrightarrow> es1 ! i = es ! i" "\<forall>i \<in> set ps. entry_ok env nd rows w1 (es1 ! i)"
    and "\<forall>i < k. if dbf i \<in> S then entry_ok env nd rows w' (es' ! i) else es' ! i = es1 ! i"
  shows "\<forall>i < k. if dbf i \<in> insert db S then entry_ok env nd rows w' (es' ! i) else es' ! i = es ! i"
proof (intro allI impI)
  fix i assume i: "i < k"
  show "if dbf i \<in> insert db S then entry_ok env nd rows w' (es' ! i) else es' ! i = es ! i"
  proof (cases "dbf i = db")
    case True
    with i assms(1,2,5,6) have "entry_ok env nd rows w1 (es' ! i)" by auto
    with True assms(3) show ?thesis by (simp add: entry_ok_keeps)
  next
    case False
    with i assms(1,4,6) show ?thesis by auto
  qed
qed

lemma insert_groups_spec:
  fixes env :: "'w env" and nd :: NotifShardingDAO
  defines "dbf es \<equiv> (\<lambda>i. db_of (ev_xxh env) (nd_notifShardingStrategy nd) (es ! i))"
  assumes "gorm_laws env gd rows cbs" "dao_ok nd" "groups_ok (dbf es) (length es) m"
    and "insert_groups fuel env gd nd needCallback m es err w = (Inr (Some (es', None)), w')"
  shows "err = None \<and> same_but_id es' es \<and> keeps_rows rows w w' \<and>
     (\<forall>i < length es. if dbf es i \<in> fst ` set m then entry_ok env nd rows w' (es' ! i) else es' ! i = es ! i)"
  using assms(4,5)
proof (induction m arbitrary: es err w)
  case Nil
  then show ?case by simp
next
  case (Cons g m)
  obtain db ps where g: "g = (db, ps)" by (cases g)
  from Cons.prems(1) g have gm: "groups_ok (dbf es) (length es) m" "db \<notin> fst ` set m"
    "distinct ps" "\<And>i. i \<in> set ps \<longleftrightarrow> i < length es \<and> dbf es i = db"
    by (auto simp: groups_ok_def)
  obtain es1 e1 w1 where i1: "insert_group fuel env gd nd needCallback db ps es w = (Inr (Some (es1, e1)), w1)"
    and i2: "insert_groups fuel env gd nd needCallback m es1 (if err = None then e1 else err) w1
      = (Inr (Some (es', None)), w')"
    using Cons.prems(2) g
    by (auto simp: io_bind_def split: prod.splits sum.splits option.splits if_splits)
  have sub: "set ps \<subseteq> {..<length es}" using gm(4) by auto
  have dbs: "\<forall>i \<in> set ps. db_of (ev_xxh env) (nd_notifShardingStrategy nd) (es ! i) = db"
    using gm(4) by (simp add: dbf_def)
  note s1 = insert_group_spec [OF assms(2,3) gm(3) sub dbs i1]
  then have len: "length es1 = length es" by (simp add: same_but_id_def)
  have keys: "dbf es1 i = dbf es i" if "i < length es" for i
    unfolding dbf_def using s1 that by (intro db_of_key same_but_id_key) simp_all
  have "groups_ok (dbf es1) (length es1) m"
    using gm(1) keys len by (auto simp: groups_ok_def)
  note s2 = Cons.IH [OF this i2]
  have err: "err = None" "e1 = None" using s2 by (cases err; simp)+
  have "\<forall>i < length es. if dbf es i \<in> insert db (fst ` set m) then entry_ok env nd rows w' (es' ! i)
      else es' ! i = es ! i"
    by (rule group_then_groups [OF gm(4,2), where ?w1.0 = w1 and ?es1.0 = es1]) (use s1 s2 err keys len in auto)
  moreover have "same_but_id es' es" "keeps_rows rows w w'"
    using s1 s2 by (blast intro: same_but_id_trans keeps_rows_trans)+
  ultimately show ?case using err g by simp
qed

lemma group_by_db_groups_ok:
  assumes "map_of m = group_at xxh h es (length es)" "distinct (map fst m)"
  shows "groups_ok (\<lambda>i. db_of xxh h (es ! i)) (length es) m"
    and "i < length es \<Longrightarrow> db_of xxh h (es ! i) \<in> fst ` set m"
proof -
  have g: "group_at xxh h es (length es) db = Some ps" if "(db, ps) \<in> set m" for db ps
    using that assms by (metis map_of_is_SomeI)
  show "groups_ok (\<lambda>i. db_of xxh h (es ! i)) (length es) m"
    using assms(2) g by (fastforce simp: groups_ok_def group_at_def Let_def split: if_splits)
  assume i: "i < length es"
  then have "group_at xxh h es (length es) (db_of xxh h (es ! i)) \<noteq> None"
    by (auto simp: group_at_def Let_def filter_empty_conv)
  with assms(1) show "db_of xxh h (es ! i) \<in> fst ` set m"
    by (metis map_of_eq_None_iff)
qed

lemma batchCreate_entries:
  assumes "gorm_laws env gd rows cbs" "dao_ok nd"
    and "NotifShardingDAO_batchCreate fuel env gd nd ns needCallback w = (Inr (Some (es, None)), w')"
  shows "length es = length ns \<and>
     (\<forall>i < length ns.
        es ! i = (ns ! i)\<lparr>ne_CreatedAt := Time_UnixMilli (ev_now env w),
          ne_UpdatedAt := Time_UnixMilli (ev_now env w), ne_Version := 1, ne_Id := ne_Id (es ! i)\<rparr> \<and>
        entry_ok env nd rows w' (es ! i)) \<and>
     keeps_rows rows w w'"
proof (cases "ns = []")
  case True
  with assms(3) show ?thesis by (simp add: NotifShardingDAO_batchCreate_def)
next
  case False
  let ?now = "Time_UnixMilli (ev_now env w)"
  let ?ns = "map (\<lambda>src. src\<lparr>ne_CreatedAt := ?now, ne_UpdatedAt := ?now, ne_Version := 1\<rparr>) ns"
  let ?h = "nd_notifShardingStrategy nd"
  have nz: "hs_dbSharding ?h \<noteq> 0" "hs_tableSharding ?h \<noteq> 0"
    using assms(2) dvd_nonzero by (auto simp: dao_ok_def)
  have "map_of [] = group_at (ev_xxh env) ?h ?ns 0" by (auto simp: group_at_def fun_eq_iff)
  then obtain m where m: "group_by_db (ev_xxh env) ?h ?ns 0 [] = Inr m"
    "map_of m = group_at (ev_xxh env) ?h ?ns (length ?ns)" "distinct (map fst m)"
    using group_by_db_spec [OF nz, of "[]" "ev_xxh env" ?ns "[]" ?ns] by auto
  have "insert_groups fuel env gd nd needCallback m ?ns None w = (Inr (Some (es, None)), w')"
    using assms(3) False m(1)
    by (simp add: NotifShardingDAO_batchCreate_def NotifShardingDAO_tryBatchInsert_def io_NowMilli_def)
  from insert_groups_spec [OF assms(1,2) group_by_db_groups_ok(1) [OF m(2,3)] this]
  have s: "same_but_id es ?ns" "keeps_rows rows w w'"
    "\<And>i. i < length ?ns \<Longrightarrow> entry_ok env nd rows w' (es ! i)"
    using group_by_db_groups_ok(2) [OF m(2,3)] by auto
  have "es ! i = (ns ! i)\<lparr>ne_CreatedAt := ?now, ne_UpdatedAt := ?now, ne_Version := 1,
      ne_Id := ne_Id (es ! i)\<rparr>" if "i < length ns" for i
  proof -
    from s(1) that have "es ! i = (?ns ! i)\<lparr>ne_Id := ne_Id (es ! i)\<rparr>" by (simp add: same_but_id_def)
    with that show ?thesis by simp
  qed
  with s show ?thesis by (simp add: same_but_id_def)
qed

text \<open>C10. A batch that reports no error is stored as a whole: every returned notification is the one
  passed in, stamped with the time and version 1 and carrying an id made for its business key, and it
  is stored in the database and table of that key; no other row is lost.\<close>

theorem batchCreate_stored:
  assumes "gorm_laws env gd rows cbs" "dao_ok nd"
    and "NotifShardingDAO_batchCreate fuel env gd nd ns needCallback w = (Inr (Some (es, None)), w')"
  shows "length es = length ns \<and>
     (\<forall>i < length ns.
        es ! i = (ns ! i)\<lparr>ne_CreatedAt := Time_UnixMilli (ev_now env w),
          ne_UpdatedAt := Time_UnixMilli (ev_now env w), ne_Version := 1, ne_Id := ne_Id (es ! i)\<rparr> \<and>
        entry_ok env nd rows w' (es ! i)) \<and>
     keeps_rows rows w w'"
  by (rule batchCreate_entries [OF assms])

lemma mem_batchCreate_empty:
  fixes w :: "'x mem_world_scheme"
  assumes "mw_rows w = (\<lambda>_ _ _. None)"
  shows "\<exists>es w'. NotifShardingDAO_batchCreate 1 mem_env mem_gorm mem_dao [n] needCallback w
     = (Inr (Some (es, None)), w')"
proof -
  obtain iden w1 where id: "nextId mem_env (ne_BizId n) (ne_BizKey n) w = (iden, w1)"
    by fastforce
  with nextId_rows [OF mem_gorm_laws id] assms have "mw_rows w1 = (\<lambda>_ _ _. None)"
    by (simp add: same_rows_def)
  then have "fst (mem_exec db [InsertNotification t m] w1) = None"
    "fst (mem_exec db [InsertNotification t m, InsertCallbackLog t' c] w1) = None" for db t m t' c
    by simp_all
  moreover have "g_ExecInserts (mem_gorm :: 'x mem_world_scheme gorm) = mem_exec" "nd_dbs mem_dao = (\<lambda>_. True)"
    by (simp_all add: mem_gorm_def mem_dao_def)
  ultimately show ?thesis
    using id dao_ok_Shard [OF mem_dao_ok, of "mem_env :: 'x mem_world_scheme env" "ne_BizId n" "ne_BizKey n"]
    by (cases needCallback)
      (simp_all add: NotifShardingDAO_batchCreate_def NotifShardingDAO_tryBatchInsert_def io_NowMilli_def
        NotifShardingDAO_sqlGenerate_def io_bind_assoc Let_def del: mem_exec.simps)
qed

lemma mem_batchCreate:
  "\<exists>es w'. NotifShardingDAO_batchCreate 1 mem_env mem_gorm mem_dao [n] needCallback mem_empty
     = (Inr (Some (es, None)), w')"
  by (rule mem_batchCreate_empty) (simp add: mem_empty_def)

lemma batchCreate_stored_witness:
  "\<exists>es w'. NotifShardingDAO_batchCreate 1 mem_env mem_gorm mem_dao [zero_NotifEntity] True mem_empty
     = (Inr (Some (es, None)), w') \<and> entry_ok mem_env mem_dao mw_rows w' (es ! 0)"
proof -
  obtain es w' where b: "NotifShardingDAO_batchCreate 1 mem_env mem_gorm mem_dao [zero_NotifEntity] True
      mem_empty = (Inr (Some (es, None)), w')"
    using mem_batchCreate by blast
  from batchCreate_stored [OF mem_gorm_laws mem_dao_ok b] b show ?thesis by auto
qed

section \<open>Termination\<close>

text \<open>\<open>dups w\<close> bounds how often the store can still report a duplicate key.\<close>

definition duplicates_end :: "'w env \<Rightarrow> 'w gorm \<Rightarrow> ('w \<Rightarrow> nat) \<Rightarrow> bool" where
  "duplicates_end env gd dups \<longleftrightarrow>
     (\<forall>b k w. dups (snd (nextId env b k w)) \<le> dups w) \<and>
     (\<forall>db stmts w. dups (snd (g_ExecInserts gd db stmts w)) \<le> dups w) \<and>
     (\<forall>db stmts w e w'. g_ExecInserts gd db stmts w = (Some e, w') \<longrightarrow> errors_Is e ErrDuplicatedKey
        \<longrightarrow> dups w' < dups w)"

lemma sqlGenerate_loop_dups:
  assumes "duplicates_end env gd dups" "dao_ok nd"
  shows "\<exists>r w'. sqlGenerate_loop env nd needCallback now ps es w = (Inr r, w') \<and> dups w' \<le> dups w"
proof (induction ps arbitrary: es w)
  case Nil
  then show ?case by simp
next
  case (Cons i ps)
  let ?n = "es ! i"
  obtain iden w1 where id: "nextId env (ne_BizId ?n) (ne_BizKey ?n) w = (iden, w1)" by fastforce
  then have d: "dups w1 \<le> dups w" using assms(1) unfolding duplicates_end_def by (metis snd_conv)
  obtain es' sqls ids w' where r: "sqlGenerate_loop env nd needCallback now ps (es[i := ?n\<lparr>ne_Id := iden\<rparr>]) w1
      = (Inr (es', sqls, ids), w')" "dups w' \<le> dups w1"
    using Cons.IH [of "es[i := ?n\<lparr>ne_Id := iden\<rparr>]" w1] by auto
  show ?case
    using dao_ok_Shard [OF assms(2), of env "ne_BizId ?n" "ne_BizKey ?n"] id r d
    by (cases needCallback) (simp_all add: Let_def)
qed

lemma insert_group_dups:
  assumes "duplicates_end env gd dups" "dao_ok nd"
  shows "dups w < fuel \<Longrightarrow> \<exists>r w'. insert_group fuel env gd nd needCallback db ps es w = (Inr (Some r), w') \<and>
     dups w' \<le> dups w"
proof (induction fuel arbitrary: es w)
  case 0
  then show ?case by simp
next
  case (Suc fuel)
  obtain es1 sqls ids w1 where r: "sqlGenerate_loop env nd needCallback (Time_UnixMilli (ev_now env w)) ps es w
      = (Inr (es1, sqls, ids), w1)" "dups w1 \<le> dups w"
    using sqlGenerate_loop_dups [OF assms, of needCallback "Time_UnixMilli (ev_now env w)" ps es w] by auto
  obtain err w2 where x: "g_ExecInserts gd db sqls w1 = (err, w2)" by fastforce
  then have d: "dups w2 \<le> dups w1" "\<And>e. err = Some e \<Longrightarrow> errors_Is e ErrDuplicatedKey \<Longrightarrow> dups w2 < dups w1"
    using assms(1) unfolding duplicates_end_def by (metis snd_conv, metis)
  show ?case
  proof (cases "sqls = [] \<or> (\<forall>e. err = Some e \<longrightarrow> \<not> (errors_Is e ErrDuplicatedKey \<and> IsIdDuplicateErr gd ids e))")
    case True
    with r x d show ?thesis
      by (cases err) (auto simp: NotifShardingDAO_sqlGenerate_def io_NowMilli_def)
  next
    case False
    then obtain e where e: "err = Some e" "errors_Is e ErrDuplicatedKey" "IsIdDuplicateErr gd ids e" "sqls \<noteq> []"
      by blast
    then have "dups w2 < fuel" "dups w2 \<le> dups w" using d r(2) Suc.prems by (auto dest: d(2))
    with Suc.IH [of w2 es1] r x e show ?thesis
      by (auto simp: NotifShardingDAO_sqlGenerate_def io_NowMilli_def)
  qed
qed

lemma insert_groups_dups:
  assumes "duplicates_end env gd dups" "dao_ok nd"
  shows "dups w < fuel \<Longrightarrow> \<exists>r w'. insert_groups fuel env gd nd needCallback m es err w = (Inr (Some r), w')"
proof (induction m arbitrary: es err w)
  case Nil
  then show ?case by simp
next
  case (Cons g m)
  obtain db ps where g: "g = (db, ps)" by (cases g)
  obtain es1 e1 w1 where r: "insert_group fuel env gd nd needCallback db ps es w = (Inr (Some (es1, e1)), w1)"
    "dups w1 \<le> dups w"
    using insert_group_dups [OF assms Cons.prems, of needCallback db ps es] by auto
  with Cons.prems have "dups w1 < fuel" by simp
  from Cons.IH [OF this] r g show ?case by auto
qed



end
