(* ===== verification/BatchRun.thy ===== *)
theory BatchRun
  imports NotifDaoBatch
begin

text \<open>
  A batch as a sequence of executions: what the statements of one execution are (\<open>batch_stmts\<close>), and an
  induction over the run of \<open>batchCreate\<close>: what making the ids and every execution of such statements
  keep is kept by the batch, however it ends.
\<close>

section \<open>The statements of a batch\<close>

text \<open>A row in the database and table its key and its id lead to; a copy of one of the notifications of a
  batch under an id of its own.\<close>

definition placed_row :: "'w env \<Rightarrow> NotifShardingDAO \<Rightarrow> string \<Rightarrow> string \<Rightarrow> u64 \<Rightarrow> NotifEntity \<Rightarrow> bool" where
  "placed_row env nd db t i n \<longleftrightarrow> ne_Id n = i \<and>
     generated_id (ev_xxh env) (ne_BizId n) (ne_BizKey n) i \<and>
     db = dst_DB (row_dst env nd (ne_BizId n) (ne_BizKey n)) \<and>
     t = dst_Table (row_dst env nd (ne_BizId n) (ne_BizKey n))"

definition copy_of :: "NotifEntity list \<Rightarrow> NotifEntity \<Rightarrow> bool" where
  "copy_of es n \<longleftrightarrow> (\<exists>i < length es. n = (es ! i)\<lparr>ne_Id := ne_Id n\<rparr>)"

lemma same_but_id_copy:
  assumes "same_but_id es1 es"
  shows "copy_of es1 n \<longleftrightarrow> copy_of es n"
proof -
  from assms have len: "length es1 = length es"
    and sb: "\<And>i. i < length es \<Longrightarrow> es1 ! i = (es ! i)\<lparr>ne_Id := ne_Id (es1 ! i)\<rparr>" by (simp_all add: same_but_id_def)
  have "(es1 ! i)\<lparr>ne_Id := k\<rparr> = (es ! i)\<lparr>ne_Id := k\<rparr>" if "i < length es" for i k
    by (subst sb [OF that]) simp
  then show ?thesis by (simp add: copy_of_def len cong: conj_cong)
qed

lemma sqlGenerate_loop_placed:
  assumes "dao_ok nd" "set ps \<subseteq> {..<length es}"
    and "sqlGenerate_loop env nd cb now ps es w = (Inr (es', sqls, ids), w')"
  shows "\<forall>t n. InsertNotification t n \<in> set sqls \<longrightarrow> generated_id (ev_xxh env) (ne_BizId n) (ne_BizKey n) (ne_Id n) \<and>
     t = dst_Table (row_dst env nd (ne_BizId n) (ne_BizKey n)) \<and> (\<exists>i \<in> set ps. n = (es ! i)\<lparr>ne_Id := ne_Id n\<rparr>)"
  using assms(2,3)
proof (induction ps arbitrary: es es' sqls ids w)
  case Nil
  then show ?case by simp
next
  case (Cons i ps)
  let ?n = "es ! i"
  obtain iden w1 where id: "nextId env (ne_BizId ?n) (ne_BizKey ?n) w = (iden, w1)" by fastforce
  let ?m = "?n\<lparr>ne_Id := iden\<rparr>" and ?t = "dst_Table (row_dst env nd (ne_BizId ?n) (ne_BizKey ?n))"
  obtain sqls1 ids1 where r: "sqlGenerate_loop env nd cb now ps (es[i := ?m]) w1 = (Inr (es', sqls1, ids1), w')"
    and s: "\<forall>t n. InsertNotification t n \<in> set sqls \<longrightarrow> t = ?t \<and> n = ?m \<or> InsertNotification t n \<in> set sqls1"
    using Cons.prems(2) id dao_ok_Shard [OF assms(1), of env "ne_BizId ?n" "ne_BizKey ?n"]
    by (cases cb) (auto simp: Let_def io_bind_eq_Inr)
  have upd: "(es[i := ?m] ! j)\<lparr>ne_Id := k\<rparr> = (es ! j)\<lparr>ne_Id := k\<rparr>" if "j < length es" for j k
    using that by (cases "i = j") simp_all
  from Cons.IH [OF _ r] Cons.prems(1) have
    IH: "\<forall>t n. InsertNotification t n \<in> set sqls1 \<longrightarrow> generated_id (ev_xxh env) (ne_BizId n) (ne_BizKey n) (ne_Id n) \<and>
      t = dst_Table (row_dst env nd (ne_BizId n) (ne_BizKey n)) \<and> (\<exists>j \<in> set ps. n = (es[i := ?m] ! j)\<lparr>ne_Id := ne_Id n\<rparr>)"
    by auto
  show ?case
  proof (intro allI impI)
    fix t n assume "InsertNotification t n \<in> set sqls"
    with s consider "t = ?t" "n = ?m" | "InsertNotification t n \<in> set sqls1" by blast
    then show "generated_id (ev_xxh env) (ne_BizId n) (ne_BizKey n) (ne_Id n) \<and>
        t = dst_Table (row_dst env nd (ne_BizId n) (ne_BizKey n)) \<and> (\<exists>j \<in> set (i # ps). n = (es ! j)\<lparr>ne_Id := ne_Id n\<rparr>)"
    proof cases
      case 1
      with nextId_generated [OF id] show ?thesis by simp
    next
      case 2
      with IH obtain j where "generated_id (ev_xxh env) (ne_BizId n) (ne_BizKey n) (ne_Id n)"
        "t = dst_Table (row_dst env nd (ne_BizId n) (ne_BizKey n))" "j \<in> set ps"
        "n = (es[i := ?m] ! j)\<lparr>ne_Id := ne_Id n\<rparr>" by blast
      with upd [of j "ne_Id n"] Cons.prems(1) show ?thesis by (intro conjI bexI [of _ j]) auto
    qed
  qed
qed

text \<open>In every beginning of the statements a log comes with its notification.\<close>

definition owners_first :: "'w env \<Rightarrow> NotifShardingDAO \<Rightarrow> insert_stmt list \<Rightarrow> bool" where
  "owners_first env nd ss \<longleftrightarrow> (\<forall>k t c. InsertCallbackLog t c \<in> set (take k ss) \<longrightarrow>
     (\<exists>n. InsertNotification (dst_Table (row_dst env nd (ne_BizId n) (ne_BizKey n))) n \<in> set (take k ss) \<and>
        ne_Id n = ce_NotificationId c \<and> t = dst_Table (cb_dst env nd (ne_BizId n) (ne_BizKey n))))"

lemma owners_first_Nil [simp]: "owners_first env nd []"
  by (simp add: owners_first_def)

lemma owners_first_notification:
  assumes "owners_first env nd ss"
  shows "owners_first env nd (InsertNotification t n # ss)"
  unfolding owners_first_def
proof (intro allI impI)
  fix k t' c assume c: "InsertCallbackLog t' c \<in> set (take k (InsertNotification t n # ss))"
  then obtain k' where k: "k = Suc k'" by (cases k) auto
  with c have "InsertCallbackLog t' c \<in> set (take k' ss)" by simp
  with assms k show "\<exists>m. InsertNotification (dst_Table (row_dst env nd (ne_BizId m) (ne_BizKey m))) m
      \<in> set (take k (InsertNotification t n # ss)) \<and>
    ne_Id m = ce_NotificationId c \<and> t' = dst_Table (cb_dst env nd (ne_BizId m) (ne_BizKey m))"
    unfolding owners_first_def by fastforce
qed

lemma owners_first_pair:
  assumes "owners_first env nd ss" "ce_NotificationId c = ne_Id n"
    and "t = dst_Table (row_dst env nd (ne_BizId n) (ne_BizKey n))" "t' = dst_Table (cb_dst env nd (ne_BizId n) (ne_BizKey n))"
  shows "owners_first env nd (InsertNotification t n # InsertCallbackLog t' c # ss)"
  unfolding owners_first_def
proof (intro allI impI)
  fix k u x assume x: "InsertCallbackLog u x \<in> set (take k (InsertNotification t n # InsertCallbackLog t' c # ss))"
  then obtain k' where k: "k = Suc (Suc k')" by (cases k; cases "k - 1") auto
  with x consider "u = t'" "x = c" | "InsertCallbackLog u x \<in> set (take k' ss)" by auto
  then show "\<exists>m. InsertNotification (dst_Table (row_dst env nd (ne_BizId m) (ne_BizKey m))) m
      \<in> set (take k (InsertNotification t n # InsertCallbackLog t' c # ss)) \<and>
    ne_Id m = ce_NotificationId x \<and> u = dst_Table (cb_dst env nd (ne_BizId m) (ne_BizKey m))"
  proof cases
    case 1
    with assms k show ?thesis by (intro exI [of _ n]) simp
  next
    case 2
    with assms(1) k show ?thesis unfolding owners_first_def by fastforce
  qed
qed

lemma sqlGenerate_owners_first:
  assumes "dao_ok nd" "sqlGenerate_loop env nd cb now ps es w = (Inr (es', sqls, ids), w')"
  shows "owners_first env nd sqls"
  using assms(2)
proof (induction ps arbitrary: es es' sqls ids w)
  case Nil
  then show ?case by simp
next
  case (Cons i ps)
  let ?n = "es ! i"
  obtain iden w1 where id: "nextId env (ne_BizId ?n) (ne_BizKey ?n) w = (iden, w1)" by fastforce
  let ?m = "?n\<lparr>ne_Id := iden\<rparr>" and ?t = "dst_Table (row_dst env nd (ne_BizId ?n) (ne_BizKey ?n))"
  obtain sqls1 ids1 c where r: "sqlGenerate_loop env nd cb now ps (es[i := ?m]) w1 = (Inr (es', sqls1, ids1), w')"
    and s: "sqls = InsertNotification ?t ?m # sqls1 \<or> ce_NotificationId c = iden \<and>
      sqls = InsertNotification ?t ?m # InsertCallbackLog (dst_Table (cb_dst env nd (ne_BizId ?n) (ne_BizKey ?n))) c # sqls1"
    using Cons.prems id dao_ok_Shard [OF assms(1), of env "ne_BizId ?n" "ne_BizKey ?n"]
    by (cases cb) (auto simp: Let_def io_bind_eq_Inr)
  from Cons.IH [OF r] s show ?case
    using owners_first_notification [of env nd sqls1] owners_first_pair [of env nd sqls1 c ?m] by auto
qed

definition batch_stmts :: "'w env \<Rightarrow> NotifShardingDAO \<Rightarrow> string \<Rightarrow> NotifEntity list \<Rightarrow> insert_stmt list \<Rightarrow> bool" where
  "batch_stmts env nd db es sqls \<longleftrightarrow> owners_first env nd sqls \<and>
     (\<forall>t n. InsertNotification t n \<in> set sqls \<longrightarrow> placed_row env nd db t (ne_Id n) n \<and> copy_of es n)"

lemma batch_stmts_same: "same_but_id es1 es \<Longrightarrow> batch_stmts env nd db es1 sqls \<longleftrightarrow> batch_stmts env nd db es sqls"
  by (simp add: batch_stmts_def same_but_id_copy)

lemma sqlGenerate_batch_stmts:
  assumes "dao_ok nd" "set ps \<subseteq> {..<length es}"
    and "\<forall>i \<in> set ps. db_of (ev_xxh env) (nd_notifShardingStrategy nd) (es ! i) = db"
    and "sqlGenerate_loop env nd cb now ps es w = (Inr (es', sqls, ids), w')"
  shows "batch_stmts env nd db es sqls"
proof -
  have "placed_row env nd db t (ne_Id n) n \<and> copy_of es n" if "InsertNotification t n \<in> set sqls" for t n
  proof -
    from sqlGenerate_loop_placed [OF assms(1,2,4)] that obtain i where
      n: "generated_id (ev_xxh env) (ne_BizId n) (ne_BizKey n) (ne_Id n)"
      "t = dst_Table (row_dst env nd (ne_BizId n) (ne_BizKey n))" "i \<in> set ps" "n = (es ! i)\<lparr>ne_Id := ne_Id n\<rparr>" by blast
    have "key_of n = key_of (es ! i)"
      using arg_cong [OF n(4), of ne_BizId] arg_cong [OF n(4), of ne_BizKey] by (simp add: key_of_def)
    with n(1-3) assms(3) db_of_key [of n "es ! i"] have "placed_row env nd db t (ne_Id n) n"
      by (simp add: placed_row_def db_of_row_dst)
    moreover have "i < length es" using n(3) assms(2) by auto
    ultimately show ?thesis using n(4) unfolding copy_of_def by blast
  qed
  with sqlGenerate_owners_first [OF assms(1,4)] show ?thesis by (simp add: batch_stmts_def)
qed

section \<open>What a batch keeps\<close>

lemma insert_group_keeps:
  assumes "gorm_laws env gd rows cbs" "dao_ok nd" "distinct ps"
    and same: "\<forall>w w'. I w \<longrightarrow> same_rows rows cbs w w' \<longrightarrow> I w'"
    and exec: "\<forall>db sqls w e w'. I w \<longrightarrow> batch_stmts env nd db es0 sqls \<longrightarrow> g_ExecInserts gd db sqls w = (e, w') \<longrightarrow> I w'"
    and "same_but_id es es0" "set ps \<subseteq> {..<length es}"
    and "\<forall>i \<in> set ps. db_of (ev_xxh env) (nd_notifShardingStrategy nd) (es ! i) = db"
    and "I w" "insert_group fuel env gd nd cb db ps es w = (r, w')"
  shows "I w' \<and> (\<exists>r'. r = Inr r' \<and> (\<forall>es' e. r' = Some (es', e) \<longrightarrow> same_but_id es' es))"
  using assms(6-10)
proof (induction fuel arbitrary: es w)
  case 0
  then show ?case by auto
next
  case (Suc fuel)
  let ?now = "Time_UnixMilli (ev_now env w)" and ?h = "nd_notifShardingStrategy nd"
  obtain es1 sqls ids w1 where g: "sqlGenerate_loop env nd cb ?now ps es w = (Inr (es1, sqls, ids), w1)"
    and s: "same_but_id es1 es" "same_rows rows cbs w w1"
    using sqlGenerate_loop_spec [OF assms(1,2,3) Suc.prems(2), of cb ?now w] by blast
  obtain e w2 where x: "g_ExecInserts gd db sqls w1 = (e, w2)" by fastforce
  have I: "I w1" "I w2"
    using same exec x s(2) Suc.prems(4) sqlGenerate_batch_stmts [OF assms(2) Suc.prems(2,3) g]
    unfolding batch_stmts_same [OF Suc.prems(1)] by blast+
  have len: "length es1 = length es" using s(1) by (simp add: same_but_id_def)
  have dbs: "\<forall>i \<in> set ps. db_of (ev_xxh env) ?h (es1 ! i) = db"
    using Suc.prems(2,3) db_of_key [OF same_but_id_key [OF s(1)]] by (metis lessThan_iff subsetD)
  consider f where "w' = w1" "r = Inr (Some (es1, f))" | f where "w' = w2" "r = Inr (Some (es1, f))"
    | "insert_group fuel env gd nd cb db ps es1 w2 = (r, w')"
    using Suc.prems(5) g x
    by (auto simp: NotifShardingDAO_sqlGenerate_def io_NowMilli_def split: if_splits option.splits)
  then show ?case
  proof cases
    case 3
    from Suc.IH [OF same_but_id_trans [OF s(1) Suc.prems(1)] _ dbs I(2) this] Suc.prems(2) len s(1) show ?thesis
      by (auto intro: same_but_id_trans)
  qed (use I s(1) in auto)
qed

lemma insert_groups_keep:
  assumes "gorm_laws env gd rows cbs" "dao_ok nd"
    and same: "\<forall>w w'. I w \<longrightarrow> same_rows rows cbs w w' \<longrightarrow> I w'"
    and exec: "\<forall>db sqls w e w'. I w \<longrightarrow> batch_stmts env nd db es0 sqls \<longrightarrow> g_ExecInserts gd db sqls w = (e, w') \<longrightarrow> I w'"
    and "same_but_id es es0" "groups_ok (\<lambda>i. db_of (ev_xxh env) (nd_notifShardingStrategy nd) (es ! i)) (length es) m"
    and "I w" "insert_groups fuel env gd nd cb m es err w = (r, w')"
  shows "I w' \<and> (\<exists>r'. r = Inr r')"
  using assms(5-8)
proof (induction m arbitrary: es err w)
  case Nil
  then show ?case by auto
next
  case (Cons g m)
  let ?dbf = "\<lambda>es i. db_of (ev_xxh env) (nd_notifShardingStrategy nd) (es ! i)"
  obtain db ps where g: "g = (db, ps)" by (cases g)
  from Cons.prems(2) g have gm: "groups_ok (?dbf es) (length es) m" "distinct ps"
    "set ps \<subseteq> {..<length es}" "\<forall>i \<in> set ps. ?dbf es i = db"
    by (auto simp: groups_ok_def)
  obtain r1 w1 where i1: "insert_group fuel env gd nd cb db ps es w = (r1, w1)" by fastforce
  note s1 = insert_group_keeps [where I = I, OF assms(1,2) gm(2) same exec Cons.prems(1) gm(3,4) Cons.prems(3) i1]
  then obtain r1' where r1': "r1 = Inr r1'" by blast
  consider "w' = w" "\<exists>r'. r = Inr r'" | "w' = w1" "\<exists>r'. r = Inr r'" | es1 e1 where "r1' = Some (es1, e1)"
      "insert_groups fuel env gd nd cb m es1 (if err = None then e1 else err) w1 = (r, w')"
    using Cons.prems(4) g i1 r1'
    by (auto simp: io_bind_def split: option.splits if_splits)
  then show ?case
  proof cases
    case (3 es1 e1)
    with s1 r1' have sb: "same_but_id es1 es" by blast
    then have len: "length es1 = length es" by (simp add: same_but_id_def)
    have "?dbf es1 i = ?dbf es i" if "i < length es" for i
      using sb that by (intro db_of_key same_but_id_key)
    then have "groups_ok (?dbf es1) (length es1) m" using gm(1) len by (auto simp: groups_ok_def)
    from Cons.IH [OF same_but_id_trans [OF sb Cons.prems(1)] this _ 3(2)] s1 show ?thesis by blast
  qed (use s1 Cons.prems(3) in simp_all)
qed

text \<open>The rows of a batch, stamped with the time of the call.\<close>

definition stamped_batch :: "'w env \<Rightarrow> 'w \<Rightarrow> NotifEntity list \<Rightarrow> NotifEntity list" where
  "stamped_batch env w ns = map (stamped env w) ns"

lemma batchCreate_keeps:
  assumes "gorm_laws env gd rows cbs" "dao_ok nd"
    and same: "\<forall>w w'. I w \<longrightarrow> same_rows rows cbs w w' \<longrightarrow> I w'"
    and exec: "\<forall>db sqls w1 e w2. I w1 \<longrightarrow> batch_stmts env nd db (stamped_batch env w ns) sqls \<longrightarrow>
      g_ExecInserts gd db sqls w1 = (e, w2) \<longrightarrow> I w2"
    and "I w" "NotifShardingDAO_batchCreate fuel env gd nd ns cb w = (r, w')"
  shows "I w' \<and> (\<exists>r'. r = Inr r')"
proof (cases "ns = []")
  case True
  with assms(5,6) show ?thesis by (auto simp: NotifShardingDAO_batchCreate_def)
next
  case False
  let ?h = "nd_notifShardingStrategy nd" and ?ns = "stamped_batch env w ns"
  have nz: "hs_dbSharding ?h \<noteq> 0" "hs_tableSharding ?h \<noteq> 0"
    using assms(2) dvd_nonzero by (auto simp: dao_ok_def)
  have "map_of [] = group_at (ev_xxh env) ?h ?ns 0" by (auto simp: group_at_def fun_eq_iff)
  then obtain m where m: "group_by_db (ev_xxh env) ?h ?ns 0 [] = Inr m"
    "map_of m = group_at (ev_xxh env) ?h ?ns (length ?ns)" "distinct (map fst m)"
    using group_by_db_spec [OF nz, of "[]" "ev_xxh env" ?ns "[]" ?ns] by auto
  have "insert_groups fuel env gd nd cb m ?ns None w = (r, w')"
    using assms(6) False m(1)
    by (simp add: NotifShardingDAO_batchCreate_def NotifShardingDAO_tryBatchInsert_def io_NowMilli_def
        stamped_batch_def stamped_def [abs_def])
  from insert_groups_keep [where I = I, OF assms(1,2) same exec same_but_id_refl group_by_db_groups_ok(1) [OF m(2,3)] assms(5) this]
  show ?thesis .
qed

end
