(* ===== verification/NotifRepo.thy ===== *)
theory NotifRepo
  imports Quota NotifDaoOps
begin

text \<open>
  \<open>internal/repository/notification.go\<close>: the repository turns notifications into rows and back, and
  charges the quota of Redis before a notification is created, giving it back when the creation or
  the sending fails. \<open>slice.Map\<close> and \<open>xmap.Vals\<close> of the utility library are the list functions; logging
  is left out.
\<close>

record 'w NotificationRepo =
  repo_Create :: "Notification \<Rightarrow> ('w, Notification \<times> go_error option) io"
  repo_CreateWithCallback :: "Notification \<Rightarrow> ('w, Notification \<times> go_error option) io"
  repo_BatchCreate :: "Notification list \<Rightarrow> ('w, Notification list \<times> go_error option) io"
  repo_BatchCreateWithCallback :: "Notification list \<Rightarrow> ('w, Notification list \<times> go_error option) io"
  repo_BatchUpdateStatus :: "Notification list \<Rightarrow> Notification list \<Rightarrow> ('w, go_error option) io"
  repo_MarkSuccess :: "Notification \<Rightarrow> ('w, go_error option) io"
  repo_MarkFailure :: "Notification \<Rightarrow> ('w, go_error option) io"
  repo_GetMapByIds :: "u64 list \<Rightarrow> ('w, (u64 \<times> Notification) list \<times> go_error option) io"
  repo_GetByKey :: "u64 \<Rightarrow> string \<Rightarrow> ('w, Notification \<times> go_error option) io"
  repo_CompareAndSwapStatus :: "Notification \<Rightarrow> ('w, go_error option) io"
  repo_FindReady :: "int \<Rightarrow> int \<Rightarrow> ('w, Notification list \<times> go_error option) io"

definition defaultQuota :: i32 where
  "defaultQuota = 1"

record 'w DefaultNotifRepo =
  dr_notifDAO :: "'w NotificationDAO"
  dr_quotaCache :: "'w redis"
  dr_json :: json_codec

section \<open>Rows and notifications\<close>

definition toEntity :: "json_codec \<Rightarrow> Notification \<Rightarrow> NotifEntity" where
  "toEntity js n =
     (let tplParams = (case Notification_MarshalTemplateParams js n of Inl _ \<Rightarrow> [] | Inr s \<Rightarrow> s);
          receivers = (case Notification_MarshalReceivers js n of Inl _ \<Rightarrow> [] | Inr s \<Rightarrow> s)
      in \<lparr>ne_Id = n_Id n, ne_BizId = n_BizId n, ne_BizKey = n_BizKey n, ne_Receivers = receivers,
          ne_Channel = n_Channel n, ne_TplId = tpl_Id (n_Template n),
          ne_TplVersionId = tpl_VersionId (n_Template n), ne_TplParams = tplParams,
          ne_Status = n_Status n, ne_ScheduleStrat = Time_UnixMilli (n_ScheduledStart n),
          ne_ScheduleEnd = Time_UnixMilli (n_ScheduledEnd n), ne_Version = n_Version n,
          ne_CreatedAt = 0, ne_UpdatedAt = 0\<rparr>)"

definition toEntities :: "json_codec \<Rightarrow> Notification list \<Rightarrow> NotifEntity list" where
  "toEntities js ns = map (toEntity js) ns"

definition toDomain :: "json_codec \<Rightarrow> NotifEntity \<Rightarrow> Notification" where
  "toDomain js e =
     (let tplParams = (case js_UnmarshalMap js (ne_TplParams e) of Inl _ \<Rightarrow> [] | Inr m \<Rightarrow> m);
          receivers = (case js_UnmarshalList js (ne_Receivers e) of Inl _ \<Rightarrow> [] | Inr xs \<Rightarrow> xs)
      in \<lparr>n_Id = ne_Id e, n_BizId = ne_BizId e, n_BizKey = ne_BizKey e, n_Receivers = receivers,
          n_Channel = ne_Channel e,
          n_Template = \<lparr>tpl_Id = ne_TplId e, tpl_VersionId = ne_TplVersionId e, tpl_Params = tplParams\<rparr>,
          n_Status = ne_Status e, n_ScheduledStart = time_of_UnixMilli (ne_ScheduleStrat e),
          n_ScheduledEnd = time_of_UnixMilli (ne_ScheduleEnd e), n_Version = ne_Version e,
          n_StrategyConfig = zero_StrategyConf\<rparr>)"

section \<open>Operations\<close>

text \<open>\<open>Create\<close> and \<open>CreateWithCallback\<close> differ in the call of the DAO, \<open>dao_create\<close>.\<close>

definition quotaParam_of :: "Notification \<Rightarrow> QuotaParam" where
  "quotaParam_of n = \<lparr>qp_BizId = n_BizId n, qp_Quota = defaultQuota, qp_Channel = n_Channel n\<rparr>"

definition DefaultNotifRepo_create ::
    "'w DefaultNotifRepo \<Rightarrow> (NotifEntity \<Rightarrow> ('w, NotifEntity \<times> go_error option) io) \<Rightarrow> Notification
      \<Rightarrow> ('w, Notification \<times> go_error option) io" where
  "DefaultNotifRepo_create d dao_create n =
     io_bind (QuotaRedisCache_Decr (dr_quotaCache d) (quotaParam_of n)) (\<lambda>err.
     if err \<noteq> None then io_return (zero_Notification, err)
     else io_bind (dao_create (toEntity (dr_json d) n)) (\<lambda>(entity, err).
       if err \<noteq> None then
         io_bind (QuotaRedisCache_Incr (dr_quotaCache d) (quotaParam_of n)) (\<lambda>refundErr.
         io_return (zero_Notification, err))
       else io_return (toDomain (dr_json d) entity, None)))"

definition DefaultNotifRepo_Create where
  "DefaultNotifRepo_Create d n = DefaultNotifRepo_create d (dao_Create (dr_notifDAO d)) n"

definition DefaultNotifRepo_CreateWithCallback where
  "DefaultNotifRepo_CreateWithCallback d n =
     DefaultNotifRepo_create d (dao_CreateWithCallback (dr_notifDAO d)) n"

definition quota_key :: "Notification \<Rightarrow> string" where
  "quota_key n = FormatUint (n_BizId n) @ '':'' @ n_Channel n"

fun buildQuotaParams_loop :: "Notification list \<Rightarrow> (string \<times> QuotaParam) list \<Rightarrow> (string \<times> QuotaParam) list" where
  "buildQuotaParams_loop [] m = m"
| "buildQuotaParams_loop (n # ns) m =
     (let param = (case map_of m (quota_key n) of
                     Some param \<Rightarrow> param
                   | None \<Rightarrow> \<lparr>qp_BizId = n_BizId n, qp_Quota = 0, qp_Channel = n_Channel n\<rparr>)
      in buildQuotaParams_loop ns (AList.update (quota_key n) (param\<lparr>qp_Quota := qp_Quota param + 1\<rparr>) m))"

definition buildQuotaParams :: "Notification list \<Rightarrow> QuotaParam list" where
  "buildQuotaParams ns = map snd (buildQuotaParams_loop ns [])"

text \<open>The error of the DAO is only logged: the result of a failed batch is what the DAO returned,
  without an error.\<close>

definition DefaultNotifRepo_batchCreate ::
    "'w DefaultNotifRepo \<Rightarrow> (NotifEntity list \<Rightarrow> ('w, NotifEntity list \<times> go_error option) io)
      \<Rightarrow> Notification list \<Rightarrow> ('w, Notification list \<times> go_error option) io" where
  "DefaultNotifRepo_batchCreate d dao_create ns =
     (if length ns = 0 then io_return ([], None)
      else let quotaParams = buildQuotaParams ns in
        io_bind (QuotaRedisCache_BatchDecr (dr_quotaCache d) quotaParams) (\<lambda>err.
        if err \<noteq> None then io_return ([], err)
        else io_bind (dao_create (toEntities (dr_json d) ns)) (\<lambda>(entities, err).
          io_bind (if err \<noteq> None then QuotaRedisCache_BatchIncr (dr_quotaCache d) quotaParams
                   else io_return None) (\<lambda>refundErr.
          io_return (map (toDomain (dr_json d)) entities, None)))))"

definition DefaultNotifRepo_BatchCreate where
  "DefaultNotifRepo_BatchCreate d ns = DefaultNotifRepo_batchCreate d (dao_BatchCreate (dr_notifDAO d)) ns"

definition DefaultNotifRepo_BatchCreateWithCallback where
  "DefaultNotifRepo_BatchCreateWithCallback d ns =
     DefaultNotifRepo_batchCreate d (dao_BatchCreateWithCallback (dr_notifDAO d)) ns"

definition DefaultNotifRepo_BatchUpdateStatus ::
    "'w DefaultNotifRepo \<Rightarrow> Notification list \<Rightarrow> Notification list \<Rightarrow> ('w, go_error option) io" where
  "DefaultNotifRepo_BatchUpdateStatus d successNs failureNs =
     io_bind (dao_BatchUpdateStatus (dr_notifDAO d) (toEntities (dr_json d) successNs)
                (toEntities (dr_json d) failureNs)) (\<lambda>err.
     if err \<noteq> None then io_return err
     else io_bind (QuotaRedisCache_BatchIncr (dr_quotaCache d) (buildQuotaParams failureNs)) (\<lambda>err.
       io_return None))"

definition DefaultNotifRepo_MarkSuccess :: "'w DefaultNotifRepo \<Rightarrow> Notification \<Rightarrow> ('w, go_error option) io" where
  "DefaultNotifRepo_MarkSuccess d n = dao_MarkSuccess (dr_notifDAO d) (toEntity (dr_json d) n)"

definition DefaultNotifRepo_MarkFailure :: "'w DefaultNotifRepo \<Rightarrow> Notification \<Rightarrow> ('w, go_error option) io" where
  "DefaultNotifRepo_MarkFailure d n =
     io_bind (dao_MarkFailure (dr_notifDAO d) (toEntity (dr_json d) n)) (\<lambda>err.
     if err \<noteq> None then io_return err
     else QuotaRedisCache_Incr (dr_quotaCache d) (quotaParam_of n))"

definition DefaultNotifRepo_GetMapByIds ::
    "'w DefaultNotifRepo \<Rightarrow> u64 list \<Rightarrow> ('w, (u64 \<times> Notification) list \<times> go_error option) io" where
  "DefaultNotifRepo_GetMapByIds d ids =
     io_bind (dao_GetMapByIds (dr_notifDAO d) ids) (\<lambda>(entityMap, err).
     if err \<noteq> None then io_return ([], err)
     else io_return (map (\<lambda>(iden, entity). (iden, toDomain (dr_json d) entity)) entityMap, None))"

definition DefaultNotifRepo_GetByKey ::
    "'w DefaultNotifRepo \<Rightarrow> u64 \<Rightarrow> string \<Rightarrow> ('w, Notification \<times> go_error option) io" where
  "DefaultNotifRepo_GetByKey d bizId bizKey =
     io_bind (dao_GetByKey (dr_notifDAO d) bizId bizKey) (\<lambda>(n, err).
     if err \<noteq> None then io_return (zero_Notification, err)
     else io_return (toDomain (dr_json d) n, None))"

definition DefaultNotifRepo_CompareAndSwapStatus ::
    "'w DefaultNotifRepo \<Rightarrow> Notification \<Rightarrow> ('w, go_error option) io" where
  "DefaultNotifRepo_CompareAndSwapStatus d n =
     dao_CompareAndSwapStatus (dr_notifDAO d) (toEntity (dr_json d) n)"

definition DefaultNotifRepo_FindReady ::
    "'w DefaultNotifRepo \<Rightarrow> int \<Rightarrow> int \<Rightarrow> ('w, Notification list \<times> go_error option) io" where
  "DefaultNotifRepo_FindReady d offset limit =
     io_bind (dao_FindReady (dr_notifDAO d) offset limit) (\<lambda>(ns, err).
     io_return (map (toDomain (dr_json d)) ns, err))"

definition NewDefaultNotifRepo :: "'w NotificationDAO \<Rightarrow> 'w redis \<Rightarrow> json_codec \<Rightarrow> 'w NotificationRepo" where
  "NewDefaultNotifRepo notifDAO quotaCache js =
     (let d = \<lparr>dr_notifDAO = notifDAO, dr_quotaCache = quotaCache, dr_json = js\<rparr>
      in \<lparr>repo_Create = DefaultNotifRepo_Create d,
          repo_CreateWithCallback = DefaultNotifRepo_CreateWithCallback d,
          repo_BatchCreate = DefaultNotifRepo_BatchCreate d,
          repo_BatchCreateWithCallback = DefaultNotifRepo_BatchCreateWithCallback d,
          repo_BatchUpdateStatus = DefaultNotifRepo_BatchUpdateStatus d,
          repo_MarkSuccess = DefaultNotifRepo_MarkSuccess d,
          repo_MarkFailure = DefaultNotifRepo_MarkFailure d,
          repo_GetMapByIds = DefaultNotifRepo_GetMapByIds d,
          repo_GetByKey = DefaultNotifRepo_GetByKey d,
          repo_CompareAndSwapStatus = DefaultNotifRepo_CompareAndSwapStatus d,
          repo_FindReady = DefaultNotifRepo_FindReady d\<rparr>)"

section \<open>The quota of a batch\<close>

text \<open>How many notifications of a list are charged to a Redis key.\<close>

definition notif_key :: "Notification \<Rightarrow> string" where
  "notif_key n = redisKey (n_BizId n) (n_Channel n)"

definition demand :: "Notification list \<Rightarrow> string \<Rightarrow> int" where
  "demand ns k = int (length (filter (\<lambda>n. notif_key n = k) ns))"

lemma demand_simps [simp]:
  "demand [] k = 0"
  "demand (n # ns) k = (if notif_key n = k then 1 else 0) + demand ns k"
  by (simp_all add: demand_def)

lemma demand_nonneg [simp]: "0 \<le> demand ns k"
  by (simp add: demand_def)

lemma demand_append: "demand (ns @ ms) k = demand ns k + demand ms k"
  by (simp add: demand_def)

lemma demand_le: "demand ns k \<le> int (length ns)"
  by (simp add: demand_def)

lemma demand_pos: "n \<in> set ns \<Longrightarrow> 0 < demand ns (notif_key n)"
  by (induction ns) (auto simp: add_pos_nonneg)

lemma quota_key_redis: "''quota:'' @ quota_key n = notif_key n"
  by (simp add: quota_key_def notif_key_def redisKey_def)

lemma quota_key_eq: "quota_key n = quota_key n' \<longleftrightarrow> notif_key n = notif_key n'"
  by (simp flip: quota_key_redis)

text \<open>The map after the notifications \<open>pre\<close>.\<close>

definition params_inv :: "Notification list \<Rightarrow> (string \<times> QuotaParam) list \<Rightarrow> bool" where
  "params_inv pre m \<longleftrightarrow> distinct (map fst m) \<and>
     (\<forall>(k, p) \<in> set m. ''quota:'' @ k = param_key p \<and> qp_Quota p = word_of_int (demand pre (param_key p))) \<and>
     fst ` set m = quota_key ` set pre"

text \<open>The entry the map has for a notification before it is counted.\<close>

definition quota_entry :: "(string \<times> QuotaParam) list \<Rightarrow> Notification \<Rightarrow> QuotaParam" where
  "quota_entry m n = (case map_of m (quota_key n) of Some param \<Rightarrow> param
     | None \<Rightarrow> \<lparr>qp_BizId = n_BizId n, qp_Quota = 0, qp_Channel = n_Channel n\<rparr>)"

lemma quota_entry_counts:
  assumes "params_inv pre m"
  shows "param_key (quota_entry m n) = notif_key n"
    and "qp_Quota (quota_entry m n) = word_of_int (demand pre (notif_key n))"
proof -
  have "demand pre (notif_key n) = 0" if "map_of m (quota_key n) = None"
  proof -
    have "quota_key n \<notin> fst ` set m" using that by (simp add: map_of_eq_None_iff)
    then have "\<forall>n' \<in> set pre. notif_key n' \<noteq> notif_key n"
      using assms quota_key_eq unfolding params_inv_def by (metis image_eqI)
    then show ?thesis by (simp add: demand_def filter_empty_conv)
  qed
  moreover have "param_key q = notif_key n \<and> qp_Quota q = word_of_int (demand pre (param_key q))"
    if "map_of m (quota_key n) = Some q" for q
    using map_of_SomeD [OF that] assms by (auto simp: params_inv_def simp flip: quota_key_redis)
  ultimately show "param_key (quota_entry m n) = notif_key n"
    "qp_Quota (quota_entry m n) = word_of_int (demand pre (notif_key n))"
    by (cases "map_of m (quota_key n)"; simp add: quota_entry_def param_key_def notif_key_def)+
qed

lemma params_inv_step:
  assumes "params_inv pre m"
  shows "params_inv (pre @ [n])
    (AList.update (quota_key n)
       (let param = (case map_of m (quota_key n) of Some param \<Rightarrow> param
          | None \<Rightarrow> \<lparr>qp_BizId = n_BizId n, qp_Quota = 0, qp_Channel = n_Channel n\<rparr>)
        in param\<lparr>qp_Quota := qp_Quota param + 1\<rparr>) m)"
proof -
  let ?p = "quota_entry m n"
  let ?p = "?p\<lparr>qp_Quota := qp_Quota ?p + 1\<rparr>"
  let ?m = "AList.update (quota_key n) ?p m"
  note p = quota_entry_counts [OF assms, of n]
  have dist: "distinct (map fst ?m)" using assms by (simp add: params_inv_def distinct_update)
  have entries: "''quota:'' @ k = param_key q \<and> qp_Quota q = word_of_int (demand (pre @ [n]) (param_key q))"
    if "(k, q) \<in> set ?m" for k q
  proof -
    have m: "map_of ?m k = Some q" using that dist by (simp add: map_of_is_SomeI)
    show ?thesis
    proof (cases "k = quota_key n")
      case True
      with m p quota_key_redis [of n] show ?thesis
        by (auto simp: update_conv' demand_append param_key_def)
    next
      case False
      with m have "(k, q) \<in> set m" by (auto simp: update_conv' dest: map_of_SomeD)
      with assms have q: "''quota:'' @ k = param_key q"
        "qp_Quota q = word_of_int (demand pre (param_key q))" by (auto simp: params_inv_def)
      with False quota_key_redis [of n] have "notif_key n \<noteq> param_key q" by (metis same_append_eq)
      with q show ?thesis by (simp add: demand_append)
    qed
  qed
  have "fst ` set ?m = insert (quota_key n) (fst ` set m)"
    using update_conv' [of "quota_key n" ?p m] by (metis dom_map_of_conv_image_fst dom_fun_upd option.discI)
  then have "fst ` set ?m = quota_key ` set (pre @ [n])"
    using assms by (simp add: params_inv_def)
  with dist entries show ?thesis
    unfolding Let_def quota_entry_def [symmetric] params_inv_def by blast
qed

lemma buildQuotaParams_loop_inv:
  "params_inv pre m \<Longrightarrow> params_inv (pre @ ns) (buildQuotaParams_loop ns m)"
proof (induction ns arbitrary: pre m)
  case Nil
  then show ?case by simp
next
  case (Cons n ns)
  from Cons.IH [OF params_inv_step [OF Cons.prems, of n]] show ?case by (simp add: Let_def)
qed

lemma buildQuotaParams_spec:
  assumes "length ns < 2 ^ 31"
  shows "distinct (map param_key (buildQuotaParams ns))"
    and "p \<in> set (buildQuotaParams ns) \<Longrightarrow> sint (qp_Quota p) = demand ns (param_key p)"
    and "n \<in> set ns \<Longrightarrow> \<exists>p \<in> set (buildQuotaParams ns). param_key p = notif_key n"
proof -
  have inv: "params_inv ns (buildQuotaParams_loop ns [])"
    using buildQuotaParams_loop_inv [of "[]" "[]" ns] by (simp add: params_inv_def)
  have "map param_key (buildQuotaParams ns) = map (\<lambda>k. ''quota:'' @ k) (map fst (buildQuotaParams_loop ns []))"
    using inv by (auto simp: params_inv_def buildQuotaParams_def)
  then show "distinct (map param_key (buildQuotaParams ns))"
    using inv by (simp add: params_inv_def distinct_map inj_on_def del: map_map)
  show "sint (qp_Quota p) = demand ns (param_key p)" if "p \<in> set (buildQuotaParams ns)"
  proof -
    from that inv have "qp_Quota p = word_of_int (demand ns (param_key p))"
      by (auto simp: params_inv_def buildQuotaParams_def)
    moreover have "demand ns (param_key p) < 2 ^ 31"
      using demand_le [of ns "param_key p"] assms by simp
    moreover have "- (2 ^ 31) \<le> demand ns (param_key p)"
      by (rule order_trans [of _ 0]) simp_all
    ultimately show ?thesis
      by (simp add: sint_sbintrunc' signed_take_bit_int_eq_self_iff)
  qed
  assume "n \<in> set ns"
  with inv obtain p where p: "(quota_key n, p) \<in> set (buildQuotaParams_loop ns [])"
    unfolding params_inv_def by (metis (no_types, lifting) imageE image_eqI prod.collapse)
  with inv have "param_key p = notif_key n" by (auto simp: params_inv_def simp flip: quota_key_redis)
  with p show "\<exists>p \<in> set (buildQuotaParams ns). param_key p = notif_key n"
    by (force simp: buildQuotaParams_def)
qed

lemma buildQuotaParams_has_source:
  assumes "p \<in> set (buildQuotaParams ns)"
  shows "\<exists>n \<in> set ns. notif_key n = param_key p"
proof -
  have inv: "params_inv ns (buildQuotaParams_loop ns [])"
    using buildQuotaParams_loop_inv [of "[]" "[]" ns] by (simp add: params_inv_def)
  from assms obtain k where k: "(k, p) \<in> set (buildQuotaParams_loop ns [])"
    by (auto simp: buildQuotaParams_def)
  with inv have "k \<in> quota_key ` set ns" unfolding params_inv_def by (metis fst_conv image_eqI)
  then obtain n where n: "n \<in> set ns" "k = quota_key n" by blast
  from inv k have "''quota:'' @ k = param_key p" by (auto simp: params_inv_def)
  with n quota_key_redis [of n] show ?thesis by (metis)
qed

end
