(* ===== verification/NotifRepoProps.thy ===== *)
theory NotifRepoProps
  imports NotifRepo
begin

text \<open>
  The properties of the notification repository: what creating one notification or a batch does to the
  quota counters of Redis, and what survives the way of a notification into a row and back.
\<close>

text \<open>Calls of a DAO that return and leave the counters alone.\<close>

definition leaves_quota :: "('w \<Rightarrow> string \<Rightarrow> int) \<Rightarrow> ('a \<Rightarrow> ('w, 'b) io) \<Rightarrow> bool" where
  "leaves_quota cnt f \<longleftrightarrow> (\<forall>x w. \<exists>r w'. f x w = (Inr r, w') \<and> cnt w' = cnt w)"

lemma sint_defaultQuota: "sint (qp_Quota (quotaParam_of n)) = 1" "param_key (quotaParam_of n) = notif_key n"
  by (simp_all add: quotaParam_of_def defaultQuota_def param_key_def notif_key_def)

lemma create_quota:
  assumes "redis_laws (dr_quotaCache d) cnt" "redis_up (dr_quotaCache d)" "leaves_quota cnt f"
  shows "\<exists>r err w'. DefaultNotifRepo_create d f n w = (Inr (r, err), w') \<and>
     (if cnt w (notif_key n) < 1
      then err = Some ErrInsufficientQuota \<and> cnt w' = (cnt w)(notif_key n := cnt w (notif_key n) - 1)
      else if err = None then cnt w' = (cnt w)(notif_key n := cnt w (notif_key n) - 1)
      else cnt w' = cnt w)"
proof -
  let ?k = "notif_key n"
  obtain w1 where d: "QuotaRedisCache_Decr (dr_quotaCache d) (quotaParam_of n) w
      = (Inr (if cnt w ?k < 1 then Some ErrInsufficientQuota else None), w1)"
    "cnt w1 = (cnt w)(?k := cnt w ?k - 1)"
    using Decr_result [OF assms(1,2), of "quotaParam_of n" w] by (auto simp: sint_defaultQuota)
  show ?thesis
  proof (cases "cnt w ?k < 1")
    case True
    with d show ?thesis by (simp add: DefaultNotifRepo_create_def)
  next
    case False
    obtain e err w2 where f: "f (toEntity (dr_json d) n) w1 = (Inr (e, err), w2)" "cnt w2 = cnt w1"
      using assms(3) unfolding leaves_quota_def by (metis prod.collapse)
    obtain w3 where i: "QuotaRedisCache_Incr (dr_quotaCache d) (quotaParam_of n) w2 = (Inr None, w3)"
      "cnt w3 = (cnt w2)(?k := (if cnt w2 ?k < 0 then 0 else cnt w2 ?k) + 1)"
      using Incr_result [OF assms(1,2), of "quotaParam_of n" w2] by (auto simp: sint_defaultQuota)
    have "cnt w3 = cnt w" using i(2) f(2) d(2) False by auto
    with False d f i show ?thesis by (simp add: DefaultNotifRepo_create_def)
  qed
qed

text \<open>Creating a notification charges one unit of its quota exactly when it succeeds or when the
  quota is used up: a creation the DAO refuses gives the unit back and leaves all counters as they
  were, but a creation refused for lack of quota has lowered the counter all the same, below zero.\<close>

theorem Create_quota:
  assumes "redis_laws rd cnt" "redis_up rd" "leaves_quota cnt (dao_Create dao)"
  shows "\<exists>r err w'. repo_Create (NewDefaultNotifRepo dao rd js) n w = (Inr (r, err), w') \<and>
     (if cnt w (notif_key n) < 1
      then err = Some ErrInsufficientQuota \<and> cnt w' = (cnt w)(notif_key n := cnt w (notif_key n) - 1)
      else if err = None then cnt w' = (cnt w)(notif_key n := cnt w (notif_key n) - 1)
      else cnt w' = cnt w)"
  using create_quota [of "\<lparr>dr_notifDAO = dao, dr_quotaCache = rd, dr_json = js\<rparr>" cnt "dao_Create dao" n w]
    assms
  by (simp add: NewDefaultNotifRepo_def DefaultNotifRepo_Create_def Let_def)

definition sample_dao :: "go_error option \<Rightarrow> 'w NotificationDAO" where
  "sample_dao err = \<lparr>dao_Create = (\<lambda>e. io_return (e, err)), dao_CreateWithCallback = (\<lambda>e. io_return (e, err)),
     dao_BatchCreate = (\<lambda>es. io_return (es, err)), dao_BatchCreateWithCallback = (\<lambda>es. io_return (es, err)),
     dao_BatchUpdateStatus = (\<lambda>_ _. io_return err), dao_GetById = (\<lambda>_. io_return (zero_NotifEntity, err)),
     dao_GetByKey = (\<lambda>_ _. io_return (zero_NotifEntity, err)), dao_GetMapByIds = (\<lambda>_. io_return ([], err)),
     dao_MarkSuccess = (\<lambda>_. io_return err), dao_MarkFailure = (\<lambda>_. io_return err),
     dao_CompareAndSwapStatus = (\<lambda>_. io_return err), dao_FindReady = (\<lambda>_ _. io_return ([], err))\<rparr>"

lemma sample_dao_leaves:
  "leaves_quota cnt (dao_Create (sample_dao err))" "leaves_quota cnt (dao_BatchCreate (sample_dao err))"
  by (simp_all add: leaves_quota_def sample_dao_def)

definition sample_json :: json_codec where
  "sample_json = \<lparr>js_MarshalList = (\<lambda>_. Inr []), js_UnmarshalList = (\<lambda>_. Inr []),
     js_MarshalMap = (\<lambda>_. Inr []), js_UnmarshalMap = (\<lambda>_. Inr [])\<rparr>"

lemma Create_quota_witness:
  "\<exists>r w'. repo_Create (NewDefaultNotifRepo (sample_dao None) mem_redis sample_json) zero_Notification (\<lambda>_. 0)
     = (Inr (r, Some ErrInsufficientQuota), w') \<and> w' (notif_key zero_Notification) = - 1"
  using Create_quota [OF mem_redis_laws sample_dao_leaves(1) [of _ None],
      of sample_json zero_Notification "\<lambda>_. 0"]
  by auto

section \<open>Batches\<close>

lemma amount_demand:
  assumes "length ns < 2 ^ 31"
  shows "amount_of (key_amounts (buildQuotaParams ns)) = demand ns"
proof
  fix k
  have keys: "map fst (key_amounts (buildQuotaParams ns)) = map param_key (buildQuotaParams ns)"
    by (simp add: key_amounts_def)
  show "amount_of (key_amounts (buildQuotaParams ns)) k = demand ns k"
  proof (cases "k \<in> param_key ` set (buildQuotaParams ns)")
    case True
    then obtain p where p: "p \<in> set (buildQuotaParams ns)" "k = param_key p" by blast
    then have "(k, sint (qp_Quota p)) \<in> set (key_amounts (buildQuotaParams ns))"
      by (auto simp: key_amounts_def)
    from amount_of_in [OF _ this] keys buildQuotaParams_spec(1,2) [OF assms] p show ?thesis by simp
  next
    case False
    then have "k \<notin> fst ` set (key_amounts (buildQuotaParams ns))" by (auto simp: key_amounts_def)
    moreover have "demand ns k = 0"
      using False buildQuotaParams_spec(3) [OF assms] by (auto simp: demand_def filter_empty_conv) force
    ultimately show ?thesis by (simp add: amount_of_notin)
  qed
qed

lemma enough_quota_iff:
  assumes "length ns < 2 ^ 31"
  shows "(\<forall>p \<in> set (buildQuotaParams ns). sint (qp_Quota p) \<le> c (param_key p)) \<longleftrightarrow>
     (\<forall>n \<in> set ns. demand ns (notif_key n) \<le> c (notif_key n))"
proof
  assume "\<forall>p \<in> set (buildQuotaParams ns). sint (qp_Quota p) \<le> c (param_key p)"
  then show "\<forall>n \<in> set ns. demand ns (notif_key n) \<le> c (notif_key n)"
    using buildQuotaParams_spec(2,3) [OF assms] by metis
next
  assume *: "\<forall>n \<in> set ns. demand ns (notif_key n) \<le> c (notif_key n)"
  show "\<forall>p \<in> set (buildQuotaParams ns). sint (qp_Quota p) \<le> c (param_key p)"
  proof
    fix p assume p: "p \<in> set (buildQuotaParams ns)"
    have "\<exists>n \<in> set ns. notif_key n = param_key p"
      using buildQuotaParams_has_source [OF p] .
    with * buildQuotaParams_spec(2) [OF assms p] show "sint (qp_Quota p) \<le> c (param_key p)" by auto
  qed
qed

lemma BatchDecr_demand:
  assumes "redis_laws rd cnt" "redis_up rd" "length ns < 2 ^ 31"
  obtains r w' where "QuotaRedisCache_BatchDecr rd (buildQuotaParams ns) w = (Inr r, w')"
    "if \<forall>n \<in> set ns. demand ns (notif_key n) \<le> cnt w (notif_key n)
     then r = None \<and> cnt w' = (\<lambda>k. cnt w k - demand ns k) else r \<noteq> None \<and> cnt w' = cnt w"
  using BatchDecr_result [OF assms(1,2), of "buildQuotaParams ns" w]
  by (auto simp: enough_quota_iff [OF assms(3)] amount_demand [OF assms(3)])

lemma BatchIncr_demand:
  assumes "redis_laws rd cnt" "redis_up rd" "length ns < 2 ^ 31"
    and "\<forall>n \<in> set ns. demand ns (notif_key n) \<le> c (notif_key n)" "cnt w = (\<lambda>k. c k - demand ns k)"
  obtains w' where "QuotaRedisCache_BatchIncr rd (buildQuotaParams ns) w = (Inr None, w')" "cnt w' = c"
proof -
  have "\<forall>p \<in> set (buildQuotaParams ns). 0 \<le> sint (qp_Quota p) \<and> 0 \<le> cnt w (param_key p)"
  proof
    fix p assume p: "p \<in> set (buildQuotaParams ns)"
    from buildQuotaParams_has_source [OF p] obtain n where "n \<in> set ns" "notif_key n = param_key p"
      by blast
    with assms(4,5) buildQuotaParams_spec(2) [OF assms(3) p]
    show "0 \<le> sint (qp_Quota p) \<and> 0 \<le> cnt w (param_key p)" by auto
  qed
  from BatchIncr_result [OF assms(1,2) this] that show ?thesis
    using assms(5) by (auto simp: amount_demand [OF assms(3)])
qed

text \<open>C12. Creating a batch charges every business id and channel for exactly the notifications of the
  batch that belong to it, or nothing at all: when some quota does not suffice for its share the batch
  is refused with an error and no counter changes; otherwise the DAO is called with all rows, and when
  it fails every counter is back where it was. But the failure of the DAO is not reported: the batch
  returns what the DAO returned, without an error.\<close>

theorem BatchCreate_quota:
  assumes "redis_laws rd cnt" "redis_up rd" "leaves_quota cnt (dao_BatchCreate dao)"
    and "ns \<noteq> []" "length ns < 2 ^ 31"
  shows "\<exists>r err w'. repo_BatchCreate (NewDefaultNotifRepo dao rd js) ns w = (Inr (r, err), w') \<and>
     (if \<forall>n \<in> set ns. demand ns (notif_key n) \<le> cnt w (notif_key n)
      then err = None \<and>
        (\<exists>es derr w1 w2. dao_BatchCreate dao (toEntities js ns) w1 = (Inr (es, derr), w2) \<and>
           r = map (toDomain js) es \<and>
           cnt w' = (if derr = None then (\<lambda>k. cnt w k - demand ns k) else cnt w))
      else err \<noteq> None \<and> r = [] \<and> cnt w' = cnt w)"
proof -
  let ?d = "\<lparr>dr_notifDAO = dao, dr_quotaCache = rd, dr_json = js\<rparr>"
  let ?ps = "buildQuotaParams ns"
  have repo: "repo_BatchCreate (NewDefaultNotifRepo dao rd js) ns
      = DefaultNotifRepo_batchCreate ?d (dao_BatchCreate dao) ns"
    by (simp add: NewDefaultNotifRepo_def DefaultNotifRepo_BatchCreate_def Let_def)
  obtain r0 w1 where d: "QuotaRedisCache_BatchDecr rd ?ps w = (Inr r0, w1)"
    "if \<forall>n \<in> set ns. demand ns (notif_key n) \<le> cnt w (notif_key n)
     then r0 = None \<and> cnt w1 = (\<lambda>k. cnt w k - demand ns k) else r0 \<noteq> None \<and> cnt w1 = cnt w"
    by (rule BatchDecr_demand [OF assms(1,2,5)])
  show ?thesis
  proof (cases "\<forall>n \<in> set ns. demand ns (notif_key n) \<le> cnt w (notif_key n)")
    case False
    with d assms(4) show ?thesis
      unfolding repo by (auto simp: DefaultNotifRepo_batchCreate_def Let_def)
  next
    case True
    with d have d1: "QuotaRedisCache_BatchDecr rd ?ps w = (Inr None, w1)"
      "cnt w1 = (\<lambda>k. cnt w k - demand ns k)" by simp_all
    obtain es derr w2 where f: "dao_BatchCreate dao (toEntities js ns) w1 = (Inr (es, derr), w2)"
      "cnt w2 = cnt w1"
      using assms(3) unfolding leaves_quota_def by (metis prod.collapse)
    obtain w3 where i: "QuotaRedisCache_BatchIncr rd ?ps w2 = (Inr None, w3)" "cnt w3 = cnt w"
      by (rule BatchIncr_demand [OF assms(1,2,5) True, of w2]) (use d1 f in simp_all)
    have res: "\<exists>w'. DefaultNotifRepo_batchCreate ?d (dao_BatchCreate dao) ns w
        = (Inr (map (toDomain js) es, None), w') \<and>
        cnt w' = (if derr = None then (\<lambda>k. cnt w k - demand ns k) else cnt w)"
      using d1 f i assms(4) by (auto simp: DefaultNotifRepo_batchCreate_def Let_def)
    show ?thesis unfolding repo if_P [OF True] using res f(1) by blast
  qed
qed

lemma BatchCreate_quota_witness:
  "\<exists>r w'. repo_BatchCreate (NewDefaultNotifRepo (sample_dao (Some (External 1))) mem_redis sample_json)
     [zero_Notification, zero_Notification] (\<lambda>_. 5) = (Inr (r, None), w')"
  using BatchCreate_quota [OF mem_redis_laws sample_dao_leaves(2) [of _ "Some (External 1)"],
      of "[zero_Notification, zero_Notification]" sample_json "\<lambda>_. 5"]
  by auto

section \<open>Rows\<close>

text \<open>Encoding and decoding JSON give back a list, and a map with the same entries.\<close>

definition json_laws :: "json_codec \<Rightarrow> bool" where
  "json_laws js \<longleftrightarrow>
     (\<forall>xs. \<exists>s. js_MarshalList js xs = Inr s \<and> js_UnmarshalList js s = Inr xs) \<and>
     (\<forall>m. \<exists>s m'. js_MarshalMap js m = Inr s \<and> js_UnmarshalMap js s = Inr m' \<and> set m' = set m)"

definition milli_range :: "Time \<Rightarrow> bool" where
  "milli_range t \<longleftrightarrow> - (2 ^ 63) \<le> (t - unix_epoch) div 1000000 \<and> (t - unix_epoch) div 1000000 < 2 ^ 63"

lemma time_of_UnixMilli_range:
  assumes "milli_range t"
  shows "time_of_UnixMilli (Time_UnixMilli t) = t - (t - unix_epoch) mod 1000000"
proof -
  have "sint (Time_UnixMilli t) = (t - unix_epoch) div 1000000"
    unfolding Time_UnixMilli_def using assms by (intro sint_word_of_int_64) (simp_all add: milli_range_def)
  then show ?thesis
    using minus_mod_eq_div_mult [of "t - unix_epoch" 1000000] by (simp add: time_of_UnixMilli_def)
qed

text \<open>What a notification keeps on its way into a row and back: everything but its send strategy,
  which is lost, with the bounds of its window cut to whole milliseconds.\<close>

theorem toDomain_toEntity:
  assumes "json_laws js" "milli_range (n_ScheduledStart n)" "milli_range (n_ScheduledEnd n)"
  shows "\<exists>m. toDomain js (toEntity js n) =
       n\<lparr>n_Template := (n_Template n)\<lparr>tpl_Params := m\<rparr>,
         n_ScheduledStart := n_ScheduledStart n - (n_ScheduledStart n - unix_epoch) mod 1000000,
         n_ScheduledEnd := n_ScheduledEnd n - (n_ScheduledEnd n - unix_epoch) mod 1000000,
         n_StrategyConfig := zero_StrategyConf\<rparr> \<and>
     set m = set (tpl_Params (n_Template n))"
proof -
  obtain s where s: "js_MarshalList js (n_Receivers n) = Inr s" "js_UnmarshalList js s = Inr (n_Receivers n)"
    using assms(1) unfolding json_laws_def by blast
  obtain t m where t: "js_MarshalMap js (tpl_Params (n_Template n)) = Inr t" "js_UnmarshalMap js t = Inr m"
    "set m = set (tpl_Params (n_Template n))"
    using assms(1) unfolding json_laws_def by blast
  then show ?thesis
    using s assms(2,3)
    by (intro exI [of _ m])
      (simp add: toDomain_def toEntity_def Notification_MarshalReceivers_def
        Notification_MarshalTemplateParams_def time_of_UnixMilli_range)
qed

text \<open>A codec for the witness: every character behind a mark, every string closed by another mark.\<close>

fun enc_list :: "string list \<Rightarrow> string" where
  "enc_list [] = []"
| "enc_list (x # xs) = concat (map (\<lambda>c. [CHR ''c'', c]) x) @ CHR ''e'' # enc_list xs"

fun dec_list :: "string \<Rightarrow> string \<Rightarrow> string list" where
  "dec_list cur [] = []"
| "dec_list cur [t] = (if t = CHR ''e'' then [cur] else [])"
| "dec_list cur (t # c # cs) =
     (if t = CHR ''e'' then cur # dec_list [] (c # cs) else dec_list (cur @ [c]) cs)"

lemma dec_enc_string:
  "dec_list cur (concat (map (\<lambda>c. [CHR ''c'', c]) x) @ CHR ''e'' # r) = (cur @ x) # dec_list [] r"
  by (induction x arbitrary: cur) (cases r; simp)+

lemma dec_enc_list: "dec_list [] (enc_list xs) = xs"
  by (induction xs) (simp_all add: dec_enc_string)

fun unflatten :: "string list \<Rightarrow> (string \<times> string) list" where
  "unflatten (k # v # xs) = (k, v) # unflatten xs"
| "unflatten _ = []"

lemma unflatten_concat: "unflatten (concat (map (\<lambda>(k, v). [k, v]) m)) = m"
  by (induction m) auto

definition mark_codec :: json_codec where
  "mark_codec = \<lparr>js_MarshalList = (\<lambda>xs. Inr (enc_list xs)), js_UnmarshalList = (\<lambda>s. Inr (dec_list [] s)),
     js_MarshalMap = (\<lambda>m. Inr (enc_list (concat (map (\<lambda>(k, v). [k, v]) m)))),
     js_UnmarshalMap = (\<lambda>s. Inr (unflatten (dec_list [] s)))\<rparr>"

lemma mark_codec_laws: "json_laws mark_codec"
  by (simp add: json_laws_def mark_codec_def dec_enc_list unflatten_concat)

lemma toDomain_toEntity_witness:
  "n_Receivers (toDomain mark_codec (toEntity mark_codec sample_notification)) = [''r''] \<and>
   n_StrategyConfig (toDomain mark_codec (toEntity mark_codec sample_notification)) = zero_StrategyConf"
proof -
  have "milli_range (n_ScheduledStart sample_notification)" "milli_range (n_ScheduledEnd sample_notification)"
    by (simp_all add: milli_range_def sample_notification_def zero_Notification_def unix_epoch_def)
  from toDomain_toEntity [OF mark_codec_laws this] obtain m where
    "toDomain mark_codec (toEntity mark_codec sample_notification) = sample_notification
       \<lparr>n_Template := (n_Template sample_notification)\<lparr>tpl_Params := m\<rparr>,
        n_ScheduledStart := n_ScheduledStart sample_notification
          - (n_ScheduledStart sample_notification - unix_epoch) mod 1000000,
        n_ScheduledEnd := n_ScheduledEnd sample_notification
          - (n_ScheduledEnd sample_notification - unix_epoch) mod 1000000,
        n_StrategyConfig := zero_StrategyConf\<rparr>"
    by blast
  then show ?thesis by (simp add: sample_notification_def)
qed

end
