(* ===== verification/Callback.thy ===== *)
theory Callback
  imports Effect Domain Retry Api NotifDao
begin

text \<open>
  \<open>internal/service/notification/callback/callback.go\<close>: telling a business service what became of its
  notifications. The remote service is the parameter \<open>cv_notify\<close> (the client of a service name and its
  \<open>SendResultNotify\<close>); the repositories are interfaces; the map of configurations the service keeps is
  read and written in the state of the world. The retry strategies are those of the library.
\<close>

section \<open>Interfaces\<close>

record 'w BizConfRepo =
  bcr_GetById :: "u64 \<Rightarrow> ('w, go_error + BizConf) io"

record 'w CallbackLogRepo =
  clr_Find :: "i64 \<Rightarrow> u64 \<Rightarrow> int \<Rightarrow> ('w, go_error + CallbackLog list \<times> u64) io"
  clr_FindByNotificationIds :: "u64 list \<Rightarrow> ('w, go_error + CallbackLog list) io"
  clr_Update :: "CallbackLog list \<Rightarrow> ('w, go_error option) io"

datatype api_SendStatus =
    STATUS_UNSPECIFIED
  | STATUS_PREPARE
  | STATUS_CANCEL
  | STATUS_PENDING
  | STATUS_SUCCESS
  | STATUS_FAILURE

record SendResultNotifyRequest =
  rq_NotificationId :: u64
  rq_BizKey :: string
  rq_Receivers :: "string list"
  rq_Channel :: api_Channel
  rq_TplId :: string
  rq_TplParams :: "(string \<times> string) list"
  rq_Status :: api_SendStatus

record ('st, 'w) CallbackDefaultService =
  cv_notify :: "string \<Rightarrow> SendResultNotifyRequest \<Rightarrow> ('w, go_error + bool) io"
  cv_bizConfRepo :: "'w BizConfRepo"
  cv_callbackLogRepo :: "'w CallbackLogRepo"
  cv_confMap :: "'w \<Rightarrow> u64 \<Rightarrow> CallbackConf option"
  cv_storeConf :: "u64 \<Rightarrow> CallbackConf \<Rightarrow> 'w \<Rightarrow> 'w"
  cv_retry :: "'st retry_lib"
  cv_env :: "'w env"

section \<open>The request\<close>

definition getChannel :: "Notification \<Rightarrow> api_Channel" where
  "getChannel n =
     (if n_Channel n = ChannelSMS then Channel_SMS
      else if n_Channel n = ChannelEmail then Channel_EMAIL
      else if n_Channel n = ChannelApp then Channel_IN_APP
      else Channel_Other 0)"

definition getStatus :: "Notification \<Rightarrow> api_SendStatus" where
  "getStatus n =
     (if n_Status n = SendStatusSuccess then STATUS_SUCCESS
      else if n_Status n = SendStatusFailure then STATUS_FAILURE
      else if n_Status n = SendStatusPrepare then STATUS_PREPARE
      else if n_Status n = SendStatusPending then STATUS_PENDING
      else if n_Status n = SendStatusCancel then STATUS_CANCEL
      else STATUS_UNSPECIFIED)"

definition buildNotifyReq :: "Notification \<Rightarrow> SendResultNotifyRequest" where
  "buildNotifyReq n =
     \<lparr>rq_NotificationId = n_Id n, rq_BizKey = n_BizKey n, rq_Receivers = n_Receivers n,
      rq_Channel = getChannel n, rq_TplId = FormatUint (tpl_Id (n_Template n)),
      rq_TplParams = tpl_Params (n_Template n), rq_Status = getStatus n\<rparr>"

section \<open>Sending callbacks\<close>

definition Callback_getConf ::
    "('st, 'w) CallbackDefaultService \<Rightarrow> u64 \<Rightarrow> ('w, go_error + CallbackConf option) io" where
  "Callback_getConf d bizId =
     io_bind (io_get (\<lambda>w. cv_confMap d w bizId)) (\<lambda>conf.
     case conf of
       Some c \<Rightarrow> io_return (Inr (Some c))
     | None \<Rightarrow>
         io_bind (bcr_GetById (cv_bizConfRepo d) bizId) (\<lambda>r.
         case r of
           Inl err \<Rightarrow> io_return (Inl err)
         | Inr bizConf \<Rightarrow>
             io_bind (case bc_CallbackConf bizConf of
                        None \<Rightarrow> io_return ()
                      | Some c \<Rightarrow> io_call (\<lambda>w. ((), cv_storeConf d bizId c w))) (\<lambda>u.
             io_return (Inr (bc_CallbackConf bizConf)))))"

definition Callback_sendCallback ::
    "('st, 'w) CallbackDefaultService \<Rightarrow> Notification \<Rightarrow> ('w, go_error + bool) io" where
  "Callback_sendCallback d n =
     io_bind (Callback_getConf d (n_BizId n)) (\<lambda>r.
     case r of
       Inl err \<Rightarrow> io_return (Inl err)
     | Inr None \<Rightarrow> io_return (Inl (Wrapped ErrBizConfNotFound []))
     | Inr (Some conf) \<Rightarrow> cv_notify d (cb_ServiceName conf) (buildNotifyReq n))"

text \<open>The log is a parameter passed by value: the changed log, the last component here, is the
  function's own copy and the caller never sees it.\<close>

definition sendAndSetChangeFields_own ::
    "('st, 'w) CallbackDefaultService \<Rightarrow> CallbackLog \<Rightarrow> ('w, (go_error + bool) \<times> CallbackLog) io" where
  "sendAndSetChangeFields_own d log =
     io_bind (Callback_sendCallback d (cl_Notification log)) (\<lambda>r.
     case r of
       Inl err \<Rightarrow> io_return (Inl err, log)
     | Inr True \<Rightarrow> io_return (Inr True, log\<lparr>cl_Status := CallbackStatusSuccess\<rparr>)
     | Inr False \<Rightarrow>
         io_bind (Callback_getConf d (n_BizId (cl_Notification log))) (\<lambda>r.
         case r of
           Inl err \<Rightarrow> io_return (Inl err, log)
         | Inr None \<Rightarrow> io_panic NilDereference
         | Inr (Some conf) \<Rightarrow>
             (case cb_RetryPolicy conf of
                None \<Rightarrow> io_panic NilDereference
              | Some policy \<Rightarrow>
                  io_bind (io_run (NewRetryStrategy (cv_retry d) policy)) (\<lambda>r.
                  case r of
                    Inl err \<Rightarrow> io_return (Inl err, log)
                  | Inr strategy \<Rightarrow>
                      (case lib_NextWithRetried (cv_retry d) strategy (cl_RetriedTimes log) of
                         (interval, ok) \<Rightarrow>
                           if ok then
                             io_bind (io_get (ev_now (cv_env d))) (\<lambda>now.
                             io_return (Inr True,
                               log\<lparr>cl_NextRetryAt := word_of_int ((Time_Add now interval - unix_epoch) div 1000000000),
                                   cl_RetriedTimes := cl_RetriedTimes log + 1\<rparr>))
                           else io_return (Inr True, log\<lparr>cl_Status := CallbackStatusFailure\<rparr>))))))"

definition sendAndSetChangeFields ::
    "('st, 'w) CallbackDefaultService \<Rightarrow> CallbackLog \<Rightarrow> ('w, go_error + bool) io" where
  "sendAndSetChangeFields d log = io_bind (sendAndSetChangeFields_own d log) (\<lambda>(r, own). io_return r)"

fun sendAndUpdateLogs_loop ::
    "('st, 'w) CallbackDefaultService \<Rightarrow> CallbackLog list \<Rightarrow> ('w, CallbackLog list) io" where
  "sendAndUpdateLogs_loop d [] = io_return []"
| "sendAndUpdateLogs_loop d (log # logs) =
     io_bind (sendAndSetChangeFields d log) (\<lambda>r.
     io_bind (sendAndUpdateLogs_loop d logs) (\<lambda>updateParams.
     io_return (case r of Inr True \<Rightarrow> log # updateParams | _ \<Rightarrow> updateParams)))"

definition sendAndUpdateLogs ::
    "('st, 'w) CallbackDefaultService \<Rightarrow> CallbackLog list \<Rightarrow> ('w, go_error option) io" where
  "sendAndUpdateLogs d logs =
     io_bind (sendAndUpdateLogs_loop d logs) (\<lambda>updateParams.
     clr_Update (cv_callbackLogRepo d) updateParams)"

text \<open>The loop of \<open>Send\<close>; None is a loop that takes more than \<open>fuel\<close> turns.\<close>

fun Callback_Send_loop ::
    "nat \<Rightarrow> ('st, 'w) CallbackDefaultService \<Rightarrow> i64 \<Rightarrow> int \<Rightarrow> u64 \<Rightarrow> ('w, go_error option option) io" where
  "Callback_Send_loop 0 d startTime batchSize nextStartId = io_return None"
| "Callback_Send_loop (Suc fuel) d startTime batchSize nextStartId =
     io_bind (clr_Find (cv_callbackLogRepo d) startTime nextStartId batchSize) (\<lambda>r.
     case r of
       Inl err \<Rightarrow> io_return (Some (Some err))
     | Inr (logs, newId) \<Rightarrow>
         if length logs = 0 then io_return (Some None)
         else io_bind (sendAndUpdateLogs d logs) (\<lambda>err.
           if err \<noteq> None then io_return (Some err)
           else Callback_Send_loop fuel d startTime batchSize newId))"

definition Callback_Send ::
    "nat \<Rightarrow> ('st, 'w) CallbackDefaultService \<Rightarrow> i64 \<Rightarrow> int \<Rightarrow> ('w, go_error option option) io" where
  "Callback_Send fuel d startTime batchSize = Callback_Send_loop fuel d startTime batchSize 0"

definition Callback_SendByNotification ::
    "('st, 'w) CallbackDefaultService \<Rightarrow> Notification \<Rightarrow> ('w, go_error option) io" where
  "Callback_SendByNotification d n =
     io_bind (clr_FindByNotificationIds (cv_callbackLogRepo d) [n_Id n]) (\<lambda>r.
     case r of Inl err \<Rightarrow> io_return (Some err) | Inr logs \<Rightarrow> sendAndUpdateLogs d logs)"

fun sendCallbacks_loop ::
    "('st, 'w) CallbackDefaultService \<Rightarrow> Notification list \<Rightarrow> go_error option \<Rightarrow> ('w, go_error option) io" where
  "sendCallbacks_loop d [] err = io_return err"
| "sendCallbacks_loop d (n # ns) err =
     io_bind (Callback_sendCallback d n) (\<lambda>r.
     sendCallbacks_loop d ns (case r of Inl e \<Rightarrow> Some e | Inr _ \<Rightarrow> None))"

definition Callback_SendByNotifications ::
    "('st, 'w) CallbackDefaultService \<Rightarrow> Notification list \<Rightarrow> ('w, go_error option) io" where
  "Callback_SendByNotifications d ns =
     (let nIds = map n_Id ns;
          m = fold (\<lambda>n. AList.update (n_Id n) n) ns []
      in io_bind (clr_FindByNotificationIds (cv_callbackLogRepo d) nIds) (\<lambda>r.
         case r of
           Inl err \<Rightarrow> io_return (Some err)
         | Inr logs \<Rightarrow>
             if length logs = length ns then sendAndUpdateLogs d logs
             else let m = fold (\<lambda>n. AList.delete (n_Id n)) ns m in
               io_bind (if length logs \<noteq> 0 then clr_Update (cv_callbackLogRepo d) logs
                        else io_return None) (\<lambda>err.
               sendCallbacks_loop d (map snd m) err)))"

section \<open>Properties\<close>

lemma sendAndUpdateLogs_loop_subset:
  "sendAndUpdateLogs_loop d logs w = (Inr params, w') \<Longrightarrow> subseq params logs"
proof (induction logs arbitrary: w params)
  case Nil
  then show ?case by simp
next
  case (Cons log logs)
  from Cons.prems obtain r w1 rest where
    "sendAndSetChangeFields d log w = (Inr r, w1)" "sendAndUpdateLogs_loop d logs w1 = (Inr rest, w')"
    "params = (case r of Inr True \<Rightarrow> log # rest | _ \<Rightarrow> rest)"
    by (auto simp: io_bind_eq_Inr)
  with Cons.IH show ?case by (auto split: sum.splits bool.splits)
qed

text \<open>What sending callbacks writes back is what was read: the logs handed to \<open>Update\<close> are some of
  the logs that were found, unchanged, in their order. Neither the success nor the retry count nor the
  next attempt that \<open>sendAndSetChangeFields\<close> computes is ever stored.\<close>

theorem sendAndUpdateLogs_unchanged:
  assumes "sendAndUpdateLogs d logs w = (Inr err, w')"
  shows "\<exists>params w1. subseq params logs \<and> clr_Update (cv_callbackLogRepo d) params w1 = (Inr err, w')"
proof -
  from assms have "\<exists>params w1. sendAndUpdateLogs_loop d logs w = (Inr params, w1) \<and>
      clr_Update (cv_callbackLogRepo d) params w1 = (Inr err, w')"
    by (simp add: sendAndUpdateLogs_def io_bind_eq_Inr)
  then show ?thesis by (meson sendAndUpdateLogs_loop_subset)
qed

lemma set_delete_keys: "fst ` set (AList.delete k m) = fst ` set m - {k}"
  by (metis AList.delete_keys set_map set_removeAll)

lemma fold_delete_keys: "fst ` set (fold (\<lambda>n. AList.delete (n_Id n)) ns m) = fst ` set m - n_Id ` set ns"
  by (induction ns arbitrary: m) (auto simp: set_delete_keys)

lemma fold_update_keys: "fst ` set (fold (\<lambda>n. AList.update (n_Id n) n) ns m) = fst ` set m \<union> n_Id ` set ns"
  by (induction ns arbitrary: m) (auto simp: dom_map_of_conv_image_fst [symmetric] update_conv')

text \<open>Notifications without a callback log get no callback: unless every notification of the list
  has one, \<open>SendByNotifications\<close> sends nothing at all. It only writes the logs it found back as they
  are; the loop meant for the notifications without a log runs over an empty map.\<close>

theorem SendByNotifications_sends_nothing:
  assumes "clr_FindByNotificationIds (cv_callbackLogRepo d) (map n_Id ns) w = (Inr (Inr logs), w1)"
    and "length logs \<noteq> length ns"
  shows "Callback_SendByNotifications d ns w =
     (if logs = [] then (Inr None, w1) else clr_Update (cv_callbackLogRepo d) logs w1)"
proof -
  have "fold (\<lambda>n. AList.delete (n_Id n)) ns (fold (\<lambda>n. AList.update (n_Id n) n) ns []) = []"
    using fold_delete_keys [of ns "fold (\<lambda>n. AList.update (n_Id n) n) ns []"]
    by (simp add: fold_update_keys)
  with assms show ?thesis
    by (simp add: Callback_SendByNotifications_def Let_def io_bind_def split: prod.splits sum.splits)
qed

section \<open>The loop of Send\<close>

text \<open>A store whose due logs are \<open>due w\<close>: a page that is not full holds all of them and ends with the
  start id 0 (as \<open>DefaultCallbackLogRepo.Find\<close> answers), and writing a stored log back as it is changes
  none.\<close>

definition callback_store :: "'w CallbackLogRepo \<Rightarrow> ('w \<Rightarrow> CallbackLog list) \<Rightarrow> i64 \<Rightarrow> int \<Rightarrow> bool" where
  "callback_store repo due startTime batchSize \<longleftrightarrow>
     (\<forall>w. int (length (due w)) < batchSize \<longrightarrow>
        (\<exists>w'. clr_Find repo startTime 0 batchSize w = (Inr (Inr (due w, 0)), w') \<and> due w' = due w)) \<and>
     (\<forall>logs w. set logs \<subseteq> set (due w) \<longrightarrow>
        (\<exists>w'. clr_Update repo logs w = (Inr None, w') \<and> due w' = due w))"

text \<open>Business services that are all configured and always confirm a callback.\<close>

definition all_confirm :: "('st, 'w) CallbackDefaultService \<Rightarrow> ('w \<Rightarrow> 'x) \<Rightarrow> bool" where
  "all_confirm d due \<longleftrightarrow>
     (\<forall>b w. \<exists>bc c w'. bcr_GetById (cv_bizConfRepo d) b w = (Inr (Inr bc), w') \<and>
        bc_CallbackConf bc = Some c \<and> due w' = due w) \<and>
     (\<forall>b c w. due (cv_storeConf d b c w) = due w) \<and>
     (\<forall>s rq w. \<exists>w'. cv_notify d s rq w = (Inr (Inr True), w') \<and> due w' = due w)"

lemma getConf_confirm:
  assumes "all_confirm d due"
  shows "\<exists>c w'. Callback_getConf d b w = (Inr (Inr (Some c)), w') \<and> due w' = due w"
proof (cases "cv_confMap d w b")
  case (Some c)
  then show ?thesis by (simp add: Callback_getConf_def)
next
  case None
  obtain bc c w' where "bcr_GetById (cv_bizConfRepo d) b w = (Inr (Inr bc), w')"
    "bc_CallbackConf bc = Some c" "due w' = due w"
    using assms unfolding all_confirm_def by blast
  moreover have "due (cv_storeConf d b c w') = due w'" using assms by (simp add: all_confirm_def)
  ultimately show ?thesis using None by (simp add: Callback_getConf_def)
qed

lemma sendAndSetChangeFields_confirm:
  assumes "all_confirm d due"
  shows "\<exists>w'. sendAndSetChangeFields d log w = (Inr (Inr True), w') \<and> due w' = due w"
proof -
  obtain c w1 where c: "Callback_getConf d (n_BizId (cl_Notification log)) w = (Inr (Inr (Some c)), w1)"
    "due w1 = due w"
    using getConf_confirm [OF assms] by blast
  obtain w2 where "cv_notify d (cb_ServiceName c) (buildNotifyReq (cl_Notification log)) w1
      = (Inr (Inr True), w2)" "due w2 = due w1"
    using assms unfolding all_confirm_def by blast
  with c show ?thesis
    by (simp add: sendAndSetChangeFields_def sendAndSetChangeFields_own_def Callback_sendCallback_def)
qed

lemma sendAndUpdateLogs_loop_confirm:
  assumes "all_confirm d due"
  shows "\<exists>w'. sendAndUpdateLogs_loop d logs w = (Inr logs, w') \<and> due w' = due w"
proof (induction logs arbitrary: w)
  case Nil
  then show ?case by simp
next
  case (Cons log logs)
  obtain w1 where "sendAndSetChangeFields d log w = (Inr (Inr True), w1)" "due w1 = due w"
    using sendAndSetChangeFields_confirm [OF assms] by blast
  moreover obtain w2 where "sendAndUpdateLogs_loop d logs w1 = (Inr logs, w2)" "due w2 = due w1"
    using Cons.IH by blast
  ultimately show ?case by simp
qed


definition sample_callbackConf :: CallbackConf where
  "sample_callbackConf = \<lparr>cb_ServiceName = ''orders'', cb_RetryPolicy = None\<rparr>"

definition sample_callbackLog :: CallbackLog where
  "sample_callbackLog = \<lparr>cl_Notification = sample_notification, cl_RetriedTimes = 0, cl_NextRetryAt = 0,
     cl_Status = CallbackStatusPending\<rparr>"

text \<open>The world of the witness counts the callbacks that were sent.\<close>

definition sample_callbackService :: "(unit, nat) CallbackDefaultService" where
  "sample_callbackService = \<lparr>cv_notify = (\<lambda>s rq w. (Inr (Inr True), Suc w)),
     cv_bizConfRepo = \<lparr>bcr_GetById = (\<lambda>b. io_return (Inr (zero_BizConf\<lparr>bc_CallbackConf := Some sample_callbackConf\<rparr>)))\<rparr>,
     cv_callbackLogRepo = \<lparr>clr_Find = (\<lambda>st i bs. io_return (Inr ([sample_callbackLog], 0))),
       clr_FindByNotificationIds = (\<lambda>ids. io_return (Inr [])), clr_Update = (\<lambda>logs. io_return None)\<rparr>,
     cv_confMap = (\<lambda>w b. None), cv_storeConf = (\<lambda>b c w. w),
     cv_retry = \<lparr>lib_NewFixedInterval = (\<lambda>i m. Inr ()), lib_NewExponentialBackoff = (\<lambda>i j m. Inr ()),
       lib_NextWithRetried = (\<lambda>st r. (0, False))\<rparr>,
     cv_env = \<lparr>ev_now = (\<lambda>w. 0), ev_gen = (\<lambda>w. NewGenerator), ev_set_gen = (\<lambda>g w. w), ev_xxh = (\<lambda>s. 0)\<rparr>\<rparr>"


lemma sendAndUpdateLogs_unchanged_witness:
  "\<exists>params w1. subseq params [sample_callbackLog] \<and>
     clr_Update (cv_callbackLogRepo sample_callbackService) params w1 = (Inr None, 1)"
proof -
  have "sendAndUpdateLogs sample_callbackService [sample_callbackLog] 0 = (Inr None, 1)"
    by (simp add: sendAndUpdateLogs_def sendAndSetChangeFields_def sendAndSetChangeFields_own_def
        Callback_sendCallback_def Callback_getConf_def sample_callbackService_def)
  then show ?thesis by (rule sendAndUpdateLogs_unchanged)
qed

lemma SendByNotifications_sends_nothing_witness:
  "Callback_SendByNotifications sample_callbackService [sample_notification] 4 = (Inr None, 4)"
  using SendByNotifications_sends_nothing [of sample_callbackService "[sample_notification]" 4 "[]" 4]
  by (simp add: sample_callbackService_def)

end
