(* ===== verification/CallbackLogs.thy ===== *)
theory CallbackLogs
  imports Callback NotifRepo
begin

text \<open>
  The callback logs: the DAO of \<open>internal/repository/dao/callback_log.go\<close> and the repository of
  \<open>internal/repository/callback_log.go\<close>, which joins a log with its notification. The queries of gorm are
  a parameter. \<open>Model(v).Updates(m)\<close> makes its conditions from the primary key of \<open>v\<close>, the field named
  \<open>Id\<close> or \<open>ID\<close> by gorm's convention; \<open>cd_Updates\<close> takes these conditions.
\<close>

section \<open>The DAO\<close>

record cblog_update =
  cu_retried_times :: i32
  cu_next_retry_at :: i64
  cu_status :: string
  cu_updated_at :: i64

record 'w cblog_db =
  cd_FindDue :: "i64 \<Rightarrow> string \<Rightarrow> u64 \<Rightarrow> int \<Rightarrow> 'w \<Rightarrow> (go_error + CallbackLogEntity list) \<times> 'w"
  cd_Updates :: "(string \<times> u64) list \<Rightarrow> cblog_update \<Rightarrow> 'w \<Rightarrow> go_error option \<times> 'w"
  cd_FindByIds :: "u64 list \<Rightarrow> 'w \<Rightarrow> (go_error + CallbackLogEntity list) \<times> 'w"
  cd_Transaction :: "('w \<Rightarrow> go_error option \<times> 'w) \<Rightarrow> 'w \<Rightarrow> go_error option \<times> 'w"

definition CallbackLog_fields :: "string list" where
  "CallbackLog_fields =
     [''NotificationId'', ''RetriedTimes'', ''NextRetryAt'', ''Status'', ''CreatedAt'', ''UpdatedAt'']"

definition CallbackLog_conditions :: "u64 \<Rightarrow> (string \<times> u64) list" where
  "CallbackLog_conditions notificationId =
     map (\<lambda>f. (f, notificationId)) (filter (\<lambda>f. f = ''Id'' \<or> f = ''ID'') CallbackLog_fields)"

definition CallbackLogDAO_Find ::
    "'w cblog_db \<Rightarrow> i64 \<Rightarrow> u64 \<Rightarrow> int \<Rightarrow> ('w, go_error + CallbackLogEntity list \<times> u64) io" where
  "CallbackLogDAO_Find db startTime startId batchSize =
     io_bind (io_call (cd_FindDue db startTime CallbackStatusPending startId batchSize)) (\<lambda>r.
     case r of
       Inl err \<Rightarrow> io_return (Inl err)
     | Inr logs \<Rightarrow>
         io_return (Inr (logs, if length logs > 0 then ce_NotificationId (last logs) else 0)))"

fun CallbackLogDAO_Update_loop ::
    "'w cblog_db \<Rightarrow> i64 \<Rightarrow> CallbackLogEntity list \<Rightarrow> 'w \<Rightarrow> go_error option \<times> 'w" where
  "CallbackLogDAO_Update_loop db updateAt [] w = (None, w)"
| "CallbackLogDAO_Update_loop db updateAt (log # logs) w =
     (case cd_Updates db (CallbackLog_conditions (ce_NotificationId log))
         \<lparr>cu_retried_times = ce_RetriedTimes log, cu_next_retry_at = ce_NextRetryAt log,
          cu_status = ce_Status log, cu_updated_at = updateAt\<rparr> w of
        (Some err, w') \<Rightarrow> (Some err, w')
      | (None, w') \<Rightarrow> CallbackLogDAO_Update_loop db updateAt logs w')"

definition CallbackLogDAO_Update ::
    "'w env \<Rightarrow> 'w cblog_db \<Rightarrow> CallbackLogEntity list \<Rightarrow> ('w, go_error option) io" where
  "CallbackLogDAO_Update env db logs =
     (if length logs = 0 then io_return None
      else io_bind (io_NowMilli env) (\<lambda>updateAt.
        io_call (cd_Transaction db (CallbackLogDAO_Update_loop db updateAt logs))))"

definition CallbackLogDAO_FindByNotificationIds ::
    "'w cblog_db \<Rightarrow> u64 list \<Rightarrow> ('w, go_error + CallbackLogEntity list) io" where
  "CallbackLogDAO_FindByNotificationIds db notificationIds = io_call (cd_FindByIds db notificationIds)"

record 'w CallbackLogDAO =
  cld_Find :: "i64 \<Rightarrow> u64 \<Rightarrow> int \<Rightarrow> ('w, go_error + CallbackLogEntity list \<times> u64) io"
  cld_Update :: "CallbackLogEntity list \<Rightarrow> ('w, go_error option) io"
  cld_FindByNotificationIds :: "u64 list \<Rightarrow> ('w, go_error + CallbackLogEntity list) io"

definition NewDefaultCallbackLogDAO :: "'w env \<Rightarrow> 'w cblog_db \<Rightarrow> 'w CallbackLogDAO" where
  "NewDefaultCallbackLogDAO env db =
     \<lparr>cld_Find = CallbackLogDAO_Find db, cld_Update = CallbackLogDAO_Update env db,
      cld_FindByNotificationIds = CallbackLogDAO_FindByNotificationIds db\<rparr>"

section \<open>The repository\<close>

text \<open>\<open>toDomainNotif\<close> has the body of the notification repository's \<open>toDomain\<close>.\<close>

definition CallbackLogRepo_toDomain ::
    "json_codec \<Rightarrow> CallbackLogEntity \<Rightarrow> NotifEntity \<Rightarrow> CallbackLog" where
  "CallbackLogRepo_toDomain js cl notification =
     \<lparr>cl_Notification = toDomain js notification, cl_RetriedTimes = ce_RetriedTimes cl,
      cl_NextRetryAt = ce_NextRetryAt cl, cl_Status = ce_Status cl\<rparr>"

definition CallbackLogRepo_toEntity :: "CallbackLog \<Rightarrow> CallbackLogEntity" where
  "CallbackLogRepo_toEntity cl =
     \<lparr>ce_NotificationId = n_Id (cl_Notification cl), ce_RetriedTimes = cl_RetriedTimes cl,
      ce_NextRetryAt = cl_NextRetryAt cl, ce_Status = cl_Status cl, ce_CreatedAt = 0, ce_UpdatedAt = 0\<rparr>"

definition CallbackLogRepo_Find ::
    "'w NotificationDAO \<Rightarrow> json_codec \<Rightarrow> 'w cblog_db \<Rightarrow> i64 \<Rightarrow> u64 \<Rightarrow> int
      \<Rightarrow> ('w, go_error + CallbackLog list \<times> u64) io" where
  "CallbackLogRepo_Find notifDAO js db startTime startId batchSize =
     io_bind (CallbackLogDAO_Find db startTime startId batchSize) (\<lambda>r.
     case r of
       Inl err \<Rightarrow> io_return (Inl err)
     | Inr (entities, nextStartId) \<Rightarrow>
         let nextStartId = (if int (length entities) < batchSize then 0 else nextStartId) in
         io_bind (io_each (\<lambda>src. io_bind (dao_GetById notifDAO (ce_NotificationId src)) (\<lambda>(n, _).
             io_return (CallbackLogRepo_toDomain js src n))) entities) (\<lambda>logs.
         io_return (Inr (logs, nextStartId))))"

definition CallbackLogRepo_FindByNotificationIds ::
    "'w NotificationDAO \<Rightarrow> json_codec \<Rightarrow> 'w cblog_db \<Rightarrow> u64 list \<Rightarrow> ('w, go_error + CallbackLog list) io" where
  "CallbackLogRepo_FindByNotificationIds notifDAO js db notificationIds =
     io_bind (CallbackLogDAO_FindByNotificationIds db notificationIds) (\<lambda>r.
     case r of
       Inl err \<Rightarrow> io_return (Inl err)
     | Inr logs \<Rightarrow>
         io_bind (dao_GetMapByIds notifDAO notificationIds) (\<lambda>(ns, err).
         case err of
           Some e \<Rightarrow> io_return (Inl e)
         | None \<Rightarrow> io_return (Inr (map (\<lambda>src. CallbackLogRepo_toDomain js src
             (case map_of ns (ce_NotificationId src) of Some n \<Rightarrow> n | None \<Rightarrow> zero_NotifEntity)) logs))))"

definition CallbackLogRepo_Update ::
    "'w env \<Rightarrow> 'w cblog_db \<Rightarrow> CallbackLog list \<Rightarrow> ('w, go_error option) io" where
  "CallbackLogRepo_Update env db logs = CallbackLogDAO_Update env db (map CallbackLogRepo_toEntity logs)"

definition NewDefaultCallbackLogRepo ::
    "'w env \<Rightarrow> 'w NotificationDAO \<Rightarrow> json_codec \<Rightarrow> 'w cblog_db \<Rightarrow> 'w CallbackLogRepo" where
  "NewDefaultCallbackLogRepo env notifDAO js db =
     \<lparr>clr_Find = CallbackLogRepo_Find notifDAO js db,
      clr_FindByNotificationIds = CallbackLogRepo_FindByNotificationIds notifDAO js db,
      clr_Update = CallbackLogRepo_Update env db\<rparr>"

section \<open>Properties\<close>

text \<open>The laws of gorm used: an update without conditions is refused and does nothing, a transaction
  whose function fails is rolled back; \<open>tables\<close> are the stored rows.\<close>

definition cblog_laws :: "'w cblog_db \<Rightarrow> ('w \<Rightarrow> 'x) \<Rightarrow> bool" where
  "cblog_laws db tables \<longleftrightarrow>
     (\<forall>upd w. cd_Updates db [] upd w = (Some ErrMissingWhereClause, w)) \<and>
     (\<forall>f w e w1. f w = (Some e, w1) \<longrightarrow>
        (\<exists>w2. cd_Transaction db f w = (Some e, w2) \<and> tables w2 = tables w)) \<and>
     (\<forall>t s i b w. tables (snd (cd_FindDue db t s i b w)) = tables w) \<and>
     (\<forall>ids w. tables (snd (cd_FindByIds db ids w)) = tables w)"

lemma no_conditions [simp]: "CallbackLog_conditions nid = []"
  by (simp add: CallbackLog_conditions_def CallbackLog_fields_def)

lemma Update_refused:
  assumes "cblog_laws db tables" "logs \<noteq> []"
  shows "\<exists>w'. CallbackLogRepo_Update env db logs w = (Inr (Some ErrMissingWhereClause), w') \<and>
     tables w' = tables w"
proof -
  let ?now = "Time_UnixMilli (ev_now env w)"
  let ?f = "CallbackLogDAO_Update_loop db ?now (map CallbackLogRepo_toEntity logs)"
  have "?f w = (Some ErrMissingWhereClause, w)"
    using assms by (cases logs) (auto simp: cblog_laws_def)
  then obtain w2 where "cd_Transaction db ?f w = (Some ErrMissingWhereClause, w2)" "tables w2 = tables w"
    using assms(1) unfolding cblog_laws_def by blast
  with assms(2) show ?thesis
    by (simp add: CallbackLogRepo_Update_def CallbackLogDAO_Update_def io_NowMilli_def)
qed

lemma each_GetById:
  assumes "\<And>i w. \<exists>n err w'. dao_GetById notifDAO i w = (Inr (n, err), w') \<and> tables w' = tables w"
  shows "\<exists>logs w'. io_each (\<lambda>src. io_bind (dao_GetById notifDAO (ce_NotificationId src)) (\<lambda>(n, _).
      io_return (CallbackLogRepo_toDomain js src n))) es w = (Inr logs, w') \<and>
      length logs = length es \<and> tables w' = tables w"
proof (induction es arbitrary: w)
  case Nil
  then show ?case by simp
next
  case (Cons e es)
  obtain n err w1 where "dao_GetById notifDAO (ce_NotificationId e) w = (Inr (n, err), w1)" "tables w1 = tables w"
    using assms by blast
  with Cons.IH [of w1] show ?case by auto
qed

text \<open>No change of a callback log can be stored: its row has no field that gorm takes for a primary
  key, so the update the repository writes has no condition and is refused. Over this repository, when a
  callback log is due and the business services confirm every callback, \<open>Send\<close> calls them all and then
  fails with gorm's error, with the tables as they were: the same callbacks are due again.\<close>

theorem Callback_Send_update_refused:
  assumes "cblog_laws db tables" "all_confirm d tables"
    and "cv_callbackLogRepo d = NewDefaultCallbackLogRepo env notifDAO js db"
    and "\<And>i w. \<exists>n err w'. dao_GetById notifDAO i w = (Inr (n, err), w') \<and> tables w' = tables w"
    and "fst (cd_FindDue db startTime CallbackStatusPending 0 batchSize w) = Inr es" "es \<noteq> []"
  shows "\<exists>w'. Callback_Send (Suc fuel) d startTime batchSize w = (Inr (Some (Some ErrMissingWhereClause)), w') \<and>
     tables w' = tables w"
proof -
  let ?w1 = "snd (cd_FindDue db startTime CallbackStatusPending 0 batchSize w)"
  have t1: "tables ?w1 = tables w" using assms(1) by (simp add: cblog_laws_def)
  obtain logs w2 where l: "io_each (\<lambda>src. io_bind (dao_GetById notifDAO (ce_NotificationId src)) (\<lambda>(n, _).
      io_return (CallbackLogRepo_toDomain js src n))) es ?w1 = (Inr logs, w2)"
    "length logs = length es" "tables w2 = tables ?w1"
    using each_GetById [of notifDAO tables, OF assms(4)] by blast
  have ne: "logs \<noteq> []" using l(2) assms(6) by auto
  obtain i where f: "clr_Find (cv_callbackLogRepo d) startTime 0 batchSize w = (Inr (Inr (logs, i)), w2)"
    using assms(5) l(1)
    by (auto simp: assms(3) NewDefaultCallbackLogRepo_def CallbackLogRepo_Find_def CallbackLogDAO_Find_def Let_def)
  obtain w3 where s: "sendAndUpdateLogs_loop d logs w2 = (Inr logs, w3)" "tables w3 = tables w2"
    using sendAndUpdateLogs_loop_confirm [OF assms(2)] by blast
  obtain w4 where "clr_Update (cv_callbackLogRepo d) logs w3 = (Inr (Some ErrMissingWhereClause), w4)"
    "tables w4 = tables w3"
    using Update_refused [OF assms(1) ne] by (auto simp: assms(3) NewDefaultCallbackLogRepo_def)
  with f s t1 l(3) ne show ?thesis by (simp add: Callback_Send_def sendAndUpdateLogs_def)
qed

text \<open>A table of logs in memory.\<close>

definition mem_cblogs :: "CallbackLogEntity list cblog_db" where
  "mem_cblogs = \<lparr>cd_FindDue = (\<lambda>t s i b w. (Inr (take (nat b) (filter (\<lambda>l. ce_NextRetryAt l \<le>s t \<and>
       ce_Status l = s \<and> i < ce_NotificationId l) w)), w)),
     cd_Updates = (\<lambda>conds upd w. if conds = [] then (Some ErrMissingWhereClause, w)
       else (None, map (\<lambda>l. if \<forall>(f, v) \<in> set conds. ce_NotificationId l = v
                           then l\<lparr>ce_Status := cu_status upd\<rparr> else l) w)),
     cd_FindByIds = (\<lambda>ids w. (Inr (filter (\<lambda>l. ce_NotificationId l \<in> set ids) w), w)),
     cd_Transaction = (\<lambda>f w. case f w of (None, w') \<Rightarrow> (None, w') | (Some e, _) \<Rightarrow> (Some e, w))\<rparr>"

lemma mem_cblogs_laws: "cblog_laws mem_cblogs (\<lambda>w. w)"
  by (auto simp: cblog_laws_def mem_cblogs_def)

definition sample_cblog :: CallbackLogEntity where
  "sample_cblog = \<lparr>ce_NotificationId = 77, ce_RetriedTimes = 0, ce_NextRetryAt = 0,
     ce_Status = CallbackStatusPending, ce_CreatedAt = 0, ce_UpdatedAt = 0\<rparr>"

definition sample_notifDAO :: "'w NotificationDAO" where
  "sample_notifDAO = \<lparr>dao_Create = (\<lambda>e. io_return (e, None)), dao_CreateWithCallback = (\<lambda>e. io_return (e, None)),
     dao_BatchCreate = (\<lambda>es. io_return (es, None)), dao_BatchCreateWithCallback = (\<lambda>es. io_return (es, None)),
     dao_BatchUpdateStatus = (\<lambda>_ _. io_return None), dao_GetById = (\<lambda>i. io_return (zero_NotifEntity\<lparr>ne_Id := i\<rparr>, None)),
     dao_GetByKey = (\<lambda>_ _. io_return (zero_NotifEntity, None)), dao_GetMapByIds = (\<lambda>_. io_return ([], None)),
     dao_MarkSuccess = (\<lambda>_. io_return None), dao_MarkFailure = (\<lambda>_. io_return None),
     dao_CompareAndSwapStatus = (\<lambda>_. io_return None), dao_FindReady = (\<lambda>_ _. io_return ([], None))\<rparr>"

definition plain_json :: json_codec where
  "plain_json = \<lparr>js_MarshalList = (\<lambda>_. Inr []), js_UnmarshalList = (\<lambda>_. Inr []),
     js_MarshalMap = (\<lambda>_. Inr []), js_UnmarshalMap = (\<lambda>_. Inr [])\<rparr>"

definition cblog_env :: "'w env" where
  "cblog_env = \<lparr>ev_now = (\<lambda>_. unix_epoch), ev_gen = (\<lambda>_. NewGenerator), ev_set_gen = (\<lambda>_ w. w), ev_xxh = (\<lambda>_. 0)\<rparr>"

definition confirming_service :: "(unit, CallbackLogEntity list) CallbackDefaultService" where
  "confirming_service = \<lparr>cv_notify = (\<lambda>_ _. io_return (Inr True)),
     cv_bizConfRepo = \<lparr>bcr_GetById = (\<lambda>_. io_return (Inr (zero_BizConf\<lparr>bc_CallbackConf := Some sample_callbackConf\<rparr>)))\<rparr>,
     cv_callbackLogRepo = NewDefaultCallbackLogRepo cblog_env sample_notifDAO plain_json mem_cblogs,
     cv_confMap = (\<lambda>_ _. None), cv_storeConf = (\<lambda>_ _ w. w),
     cv_retry = \<lparr>lib_NewFixedInterval = (\<lambda>_ _. Inr ()), lib_NewExponentialBackoff = (\<lambda>_ _ _. Inr ()),
       lib_NextWithRetried = (\<lambda>_ _. (0, False))\<rparr>, cv_env = cblog_env\<rparr>"

lemma Callback_Send_update_refused_witness:
  "\<exists>w'. Callback_Send 1 confirming_service 5 10 [sample_cblog] = (Inr (Some (Some ErrMissingWhereClause)), w') \<and>
     w' = [sample_cblog]"
proof -
  have "all_confirm confirming_service (\<lambda>w. w)" by (simp add: all_confirm_def confirming_service_def)
  moreover have "\<exists>n err w'. dao_GetById sample_notifDAO i w = (Inr (n, err), w') \<and> w' = w"
    for i and w :: "CallbackLogEntity list" by (simp add: sample_notifDAO_def)
  ultimately show ?thesis
    using Callback_Send_update_refused [OF mem_cblogs_laws, where d = confirming_service
        and env = cblog_env and notifDAO = sample_notifDAO and js = plain_json and startTime = 5
        and batchSize = 10 and w = "[sample_cblog]" and es = "[sample_cblog]" and fuel = 0]
    by (simp add: confirming_service_def mem_cblogs_def sample_cblog_def word_sle_eq)
qed

end
