(* ===== verification/BizConfs.thy ===== *)
theory BizConfs
  imports Callback
begin

text \<open>
  The configuration of a business: the JSON column type of \<open>internal/pkg/xsql/json.go\<close>, the row and DAO of
  \<open>internal/repository/dao/biz_conf.go\<close>, the local and the Redis cache of \<open>internal/repository/cache\<close>, and
  the repository of \<open>internal/repository/biz_conf.go\<close> that reads through them. The in-process cache
  library, the two Redis commands, the query of gorm and \<open>encoding/json\<close> are parameters.
\<close>

section \<open>JSON columns\<close>

text \<open>What a driver hands to \<open>Scan\<close> or takes from \<open>Value\<close>.\<close>

datatype driver_value = DriverNil | DriverBytes string | DriverString string | DriverOther nat

record 'v JsonColumn =
  jc_Val :: 'v
  jc_Valid :: bool

text \<open>\<open>json.Marshal\<close> of a value, and \<open>json.Unmarshal\<close> into a variable that has a value.\<close>

record 'v column_codec =
  cj_Marshal :: "'v \<Rightarrow> go_error + string"
  cj_Unmarshal :: "string \<Rightarrow> 'v \<Rightarrow> go_error option \<times> 'v"

definition JsonColumn_Value :: "'v column_codec \<Rightarrow> 'v JsonColumn \<Rightarrow> driver_value \<times> go_error option" where
  "JsonColumn_Value js j =
     (if \<not> jc_Valid j then (DriverNil, None)
      else case cj_Marshal js (jc_Val j) of
             Inl err \<Rightarrow> (DriverBytes [], Some err)
           | Inr res \<Rightarrow> (DriverBytes res, None))"

definition JsonColumn_Scan ::
    "'v column_codec \<Rightarrow> 'v JsonColumn \<Rightarrow> driver_value \<Rightarrow> 'v JsonColumn \<times> go_error option" where
  "JsonColumn_Scan js j src =
     (let scan = (\<lambda>bs. case cj_Unmarshal js bs (jc_Val j) of
                    (Some err, v) \<Rightarrow> (j\<lparr>jc_Val := v\<rparr>, Some err)
                  | (None, v) \<Rightarrow> (j\<lparr>jc_Val := v, jc_Valid := True\<rparr>, None))
      in case src of
           DriverNil \<Rightarrow> (j, None)
         | DriverBytes bs \<Rightarrow> scan bs
         | DriverString s \<Rightarrow> scan s
         | DriverOther _ \<Rightarrow> (j, Some (ErrorNew ''[jotify] unsupported type'')))"

section \<open>Rows\<close>

record BizConfRow =
  br_Id :: u64
  br_OwnerId :: u64
  br_OwnerType :: string
  br_ChannelConf :: "ChannelConf JsonColumn"
  br_TxNotifConf :: "TxNotifConf JsonColumn"
  br_RateLimit :: i32
  br_QuotaConf :: "QuotaConf JsonColumn"
  br_CallbackConf :: "CallbackConf JsonColumn"
  br_CreatedAt :: i64
  br_UpdatedAt :: i64

text \<open>The query of \<open>DefaultBizConfDAO.GetById\<close>: the first row of an id.\<close>

type_synonym 'w biz_db = "u64 \<Rightarrow> 'w \<Rightarrow> (go_error + BizConfRow) \<times> 'w"

definition DefaultBizConfDAO_GetById :: "'w biz_db \<Rightarrow> u64 \<Rightarrow> ('w, go_error + BizConfRow) io" where
  "DefaultBizConfDAO_GetById db iden = io_bind (io_call (db iden)) (\<lambda>r.
     case r of Inl err \<Rightarrow> io_return (Inl err) | Inr bizConf \<Rightarrow> io_return (Inr bizConf))"

definition BizConfRow_TableName :: "BizConfRow \<Rightarrow> string" where
  "BizConfRow_TableName bc = ''biz_conf''"

record 'w BizConfDAO =
  bcd_GetById :: "u64 \<Rightarrow> ('w, go_error + BizConfRow) io"

definition NewDefaultBizConfDAO :: "'w biz_db \<Rightarrow> 'w BizConfDAO" where
  "NewDefaultBizConfDAO db = \<lparr>bcd_GetById = DefaultBizConfDAO_GetById db\<rparr>"

section \<open>Caches\<close>

record 'w BizConfCache =
  bcc_Set :: "u64 \<Rightarrow> BizConf \<Rightarrow> ('w, go_error option) io"
  bcc_Get :: "u64 \<Rightarrow> ('w, go_error + BizConf) io"

definition BizConfPrefix :: string where "BizConfPrefix = ''biz_conf''"

definition DefaultExpires :: Duration where "DefaultExpires = 15 * Minute"

definition BizConfCacheKey :: "u64 \<Rightarrow> string" where
  "BizConfCacheKey bizId = BizConfPrefix @ '':'' @ FormatUint bizId"

text \<open>A value of the in-process cache is of any type.\<close>

datatype cached = CachedBizConf BizConf | CachedOther nat

record 'w gcache =
  gc_Set :: "string \<Rightarrow> cached \<Rightarrow> Duration \<Rightarrow> 'w \<Rightarrow> 'w"
  gc_Get :: "string \<Rightarrow> 'w \<Rightarrow> cached option"

definition BizConfLocalCache_Set :: "'w gcache \<Rightarrow> u64 \<Rightarrow> BizConf \<Rightarrow> ('w, go_error option) io" where
  "BizConfLocalCache_Set gc iden conf =
     io_bind (io_call (\<lambda>w. ((), gc_Set gc (BizConfCacheKey iden) (CachedBizConf conf) DefaultExpires w)))
       (\<lambda>_. io_return None)"

definition BizConfLocalCache_Get :: "'w gcache \<Rightarrow> u64 \<Rightarrow> ('w, go_error + BizConf) io" where
  "BizConfLocalCache_Get gc iden =
     io_bind (io_get (gc_Get gc (BizConfCacheKey iden))) (\<lambda>val.
     io_return (case val of
        None \<Rightarrow> Inl ErrBizConfCacheKeyNotFound
      | Some (CachedBizConf bizConf) \<Rightarrow> Inr bizConf
      | Some (CachedOther _) \<Rightarrow> Inl ErrWrongTypeOfBizConfCache))"

definition NewBizConfLocalCache :: "'w gcache \<Rightarrow> 'w BizConfCache" where
  "NewBizConfLocalCache gc = \<lparr>bcc_Set = BizConfLocalCache_Set gc, bcc_Get = BizConfLocalCache_Get gc\<rparr>"

record 'w redis_kv =
  rk_Set :: "string \<Rightarrow> string \<Rightarrow> Duration \<Rightarrow> 'w \<Rightarrow> go_error option \<times> 'w"
  rk_Get :: "string \<Rightarrow> 'w \<Rightarrow> (go_error + string) \<times> 'w"

record conf_codec =
  bj_Marshal :: "BizConf \<Rightarrow> go_error + string"
  bj_Unmarshal :: "string \<Rightarrow> go_error + BizConf"

definition BizConfRedisCache_Set ::
    "conf_codec \<Rightarrow> 'w redis_kv \<Rightarrow> u64 \<Rightarrow> BizConf \<Rightarrow> ('w, go_error option) io" where
  "BizConfRedisCache_Set js rk iden conf =
     (case bj_Marshal js conf of
        Inl err \<Rightarrow> io_return (Some (Wrapped err ''[jotify] marshal biz conf error''))
      | Inr data \<Rightarrow>
          io_bind (io_call (rk_Set rk (BizConfCacheKey iden) data DefaultExpires)) (\<lambda>err.
          case err of
            Some e \<Rightarrow> io_return (Some (Wrapped e ''[jotify] set biz conf to redis error''))
          | None \<Rightarrow> io_return None))"

definition BizConfRedisCache_Get ::
    "conf_codec \<Rightarrow> 'w redis_kv \<Rightarrow> u64 \<Rightarrow> ('w, go_error + BizConf) io" where
  "BizConfRedisCache_Get js rk iden =
     io_bind (io_call (rk_Get rk (BizConfCacheKey iden))) (\<lambda>r.
     case r of
       Inl err \<Rightarrow>
         if errors_Is err RedisNil then io_return (Inl ErrBizConfCacheKeyNotFound)
         else io_return (Inl (Wrapped err ''[jotify] get biz conf from redis error''))
     | Inr val \<Rightarrow>
         (case bj_Unmarshal js val of
            Inl err \<Rightarrow> io_return (Inl (Wrapped err ''[jotify] unmarshal biz conf error''))
          | Inr bizConf \<Rightarrow> io_return (Inr bizConf)))"

definition NewBizConfRedisCache :: "conf_codec \<Rightarrow> 'w redis_kv \<Rightarrow> 'w BizConfCache" where
  "NewBizConfRedisCache js rk = \<lparr>bcc_Set = BizConfRedisCache_Set js rk, bcc_Get = BizConfRedisCache_Get js rk\<rparr>"

section \<open>The repository\<close>

definition BizConfRepo_toDomain :: "BizConfRow \<Rightarrow> BizConf" where
  "BizConfRepo_toDomain entity =
     (let bizConf = zero_BizConf\<lparr>bc_Id := br_Id entity, bc_OwnerId := br_OwnerId entity,
            bc_OwnerType := br_OwnerType entity, bc_RateLimit := br_RateLimit entity,
            bc_CreateAt := br_CreatedAt entity, bc_UpdateAt := br_UpdatedAt entity\<rparr>;
          bizConf = (if jc_Valid (br_ChannelConf entity)
            then bizConf\<lparr>bc_ChannelConf := Some (jc_Val (br_ChannelConf entity))\<rparr> else bizConf);
          bizConf = (if jc_Valid (br_TxNotifConf entity)
            then bizConf\<lparr>bc_TxNotifConf := Some (jc_Val (br_TxNotifConf entity))\<rparr> else bizConf);
          bizConf = (if jc_Valid (br_QuotaConf entity)
            then bizConf\<lparr>bc_QuotaConf := Some (jc_Val (br_QuotaConf entity))\<rparr> else bizConf)
      in if jc_Valid (br_CallbackConf entity)
         then bizConf\<lparr>bc_CallbackConf := Some (jc_Val (br_CallbackConf entity))\<rparr> else bizConf)"

record 'w DefaultBizConfRepo =
  dbr_dao :: "u64 \<Rightarrow> ('w, go_error + BizConfRow) io"
  dbr_localCache :: "'w BizConfCache"
  dbr_redisCache :: "'w BizConfCache"

definition DefaultBizConfRepo_GetById :: "'w DefaultBizConfRepo \<Rightarrow> u64 \<Rightarrow> ('w, go_error + BizConf) io" where
  "DefaultBizConfRepo_GetById d iden =
     io_bind (bcc_Get (dbr_localCache d) iden) (\<lambda>r.
     case r of
       Inr bizConf \<Rightarrow> io_return (Inr bizConf)
     | Inl _ \<Rightarrow>
         io_bind (bcc_Get (dbr_redisCache d) iden) (\<lambda>r.
         case r of
           Inr bizConf \<Rightarrow>
             io_bind (bcc_Set (dbr_localCache d) iden bizConf) (\<lambda>lcErr. io_return (Inr bizConf))
         | Inl _ \<Rightarrow>
             io_bind (dbr_dao d iden) (\<lambda>r.
             case r of
               Inl err \<Rightarrow> io_return (Inl err)
             | Inr bcEntity \<Rightarrow>
                 let bizConf = BizConfRepo_toDomain bcEntity in
                 io_bind (bcc_Set (dbr_localCache d) iden bizConf) (\<lambda>lcErr.
                 io_bind (bcc_Set (dbr_redisCache d) iden bizConf) (\<lambda>rcErr.
                 io_return (Inr bizConf))))))"

definition NewDefaultBizConfRepo ::
    "(u64 \<Rightarrow> ('w, go_error + BizConfRow) io) \<Rightarrow> 'w BizConfCache \<Rightarrow> 'w BizConfCache \<Rightarrow> 'w BizConfRepo" where
  "NewDefaultBizConfRepo dao localCache redisCache =
     \<lparr>bcr_GetById = DefaultBizConfRepo_GetById
        \<lparr>dbr_dao = dao, dbr_localCache = localCache, dbr_redisCache = redisCache\<rparr>\<rparr>"

section \<open>Properties\<close>

text \<open>A JSON column read back from what was written is the column: a valid one with its value, as
  bytes or as text, whatever the variable held before; an invalid one is written as NULL, and reading NULL
  leaves the variable as it is, so it has to be fresh.\<close>

theorem JsonColumn_roundtrip:
  assumes "\<And>v bs old. cj_Marshal js v = Inr bs \<Longrightarrow> cj_Unmarshal js bs old = (None, v)"
    and "JsonColumn_Value js j = (v, None)"
  shows "if jc_Valid j
    then \<exists>bs. v = DriverBytes bs \<and> JsonColumn_Scan js old v = (\<lparr>jc_Val = jc_Val j, jc_Valid = True\<rparr>, None) \<and>
           JsonColumn_Scan js old (DriverString bs) = (\<lparr>jc_Val = jc_Val j, jc_Valid = True\<rparr>, None)
    else v = DriverNil \<and> JsonColumn_Scan js old v = (old, None)"
  using assms
  by (auto simp: JsonColumn_Value_def JsonColumn_Scan_def Let_def split: sum.splits)

definition string_codec :: "string column_codec" where
  "string_codec = \<lparr>cj_Marshal = Inr, cj_Unmarshal = (\<lambda>bs _. (None, bs))\<rparr>"

lemma JsonColumn_roundtrip_witness:
  "JsonColumn_Scan string_codec \<lparr>jc_Val = ''old'', jc_Valid = False\<rparr>
     (fst (JsonColumn_Value string_codec \<lparr>jc_Val = ''new'', jc_Valid = True\<rparr>))
     = (\<lparr>jc_Val = ''new'', jc_Valid = True\<rparr>, None)"
  using JsonColumn_roundtrip [of string_codec "\<lparr>jc_Val = ''new'', jc_Valid = True\<rparr>" "DriverBytes ''new''"
      "\<lparr>jc_Val = ''old'', jc_Valid = False\<rparr>"]
  by (simp add: string_codec_def JsonColumn_Value_def)

text \<open>What may happen to the caches while the table \<open>rows\<close> stays: an entry can expire at any time.\<close>

definition only_expires ::
    "'w gcache \<Rightarrow> ('w \<Rightarrow> string \<Rightarrow> string option) \<Rightarrow> ('w \<Rightarrow> u64 \<Rightarrow> BizConfRow option) \<Rightarrow> 'w \<Rightarrow> 'w \<Rightarrow> bool" where
  "only_expires gc stored rows w w' \<longleftrightarrow> rows w' = rows w \<and>
     (\<forall>k. gc_Get gc k w' = None \<or> gc_Get gc k w' = gc_Get gc k w) \<and>
     (\<forall>k. stored w' k = None \<or> stored w' k = stored w k)"

text \<open>The laws of the stores: setting an entry changes that entry only, a Redis command that fails has
  run or not, and a query reads the table.\<close>

definition conf_stores ::
    "'w gcache \<Rightarrow> 'w redis_kv \<Rightarrow> 'w biz_db \<Rightarrow> ('w \<Rightarrow> string \<Rightarrow> string option)
      \<Rightarrow> ('w \<Rightarrow> u64 \<Rightarrow> BizConfRow option) \<Rightarrow> bool" where
  "conf_stores gc rk db stored rows \<longleftrightarrow>
     (\<forall>k v d w. let w' = gc_Set gc k v d w in rows w' = rows w \<and>
        (\<forall>j. gc_Get gc j w' = None \<or> gc_Get gc j w' = (if j = k then Some v else gc_Get gc j w)) \<and>
        (\<forall>j. stored w' j = None \<or> stored w' j = stored w j)) \<and>
     (\<forall>k v d w. let w' = snd (rk_Set rk k v d w) in rows w' = rows w \<and>
        (\<forall>j. gc_Get gc j w' = None \<or> gc_Get gc j w' = gc_Get gc j w) \<and>
        (\<forall>j. stored w' j = None \<or> stored w' j = stored w j \<or> j = k \<and> stored w' j = Some v)) \<and>
     (\<forall>k w. only_expires gc stored rows w (snd (rk_Get rk k w)) \<and>
        (\<forall>v. fst (rk_Get rk k w) = Inr v \<longrightarrow> stored w k = Some v)) \<and>
     (\<forall>i w. only_expires gc stored rows w (snd (db i w)) \<and>
        (\<forall>row. fst (db i w) = Inr row \<longrightarrow> rows w i = Some row))"

text \<open>Every configuration in a cache is the one of its row.\<close>

definition conf_coherent ::
    "conf_codec \<Rightarrow> 'w gcache \<Rightarrow> ('w \<Rightarrow> string \<Rightarrow> string option) \<Rightarrow> ('w \<Rightarrow> u64 \<Rightarrow> BizConfRow option) \<Rightarrow> 'w \<Rightarrow> bool" where
  "conf_coherent js gc stored rows w \<longleftrightarrow>
     (\<forall>i c. gc_Get gc (BizConfCacheKey i) w = Some (CachedBizConf c)
        \<longrightarrow> Some c = map_option BizConfRepo_toDomain (rows w i)) \<and>
     (\<forall>i s c. stored w (BizConfCacheKey i) = Some s \<and> bj_Unmarshal js s = Inr c
        \<longrightarrow> Some c = map_option BizConfRepo_toDomain (rows w i))"

lemma BizConfCacheKey_inj [simp]: "BizConfCacheKey i = BizConfCacheKey j \<longleftrightarrow> i = j"
  by (auto simp: BizConfCacheKey_def dest: FormatUint_inj)

lemma coherent_expires:
  assumes "conf_coherent js gc stored rows w" "only_expires gc stored rows w w'"
  shows "conf_coherent js gc stored rows w'"
  unfolding conf_coherent_def
proof (intro conjI allI impI)
  fix i c assume "gc_Get gc (BizConfCacheKey i) w' = Some (CachedBizConf c)"
  with assms show "Some c = map_option BizConfRepo_toDomain (rows w' i)"
    unfolding conf_coherent_def only_expires_def by (metis option.distinct(1))
next
  fix i s c assume "stored w' (BizConfCacheKey i) = Some s \<and> bj_Unmarshal js s = Inr c"
  with assms show "Some c = map_option BizConfRepo_toDomain (rows w' i)"
    unfolding conf_coherent_def only_expires_def by (metis option.distinct(1))
qed

lemma local_set:
  assumes "conf_stores gc rk db stored rows" "conf_coherent js gc stored rows w"
    and "rows w i = Some row" "c = BizConfRepo_toDomain row"
  shows "\<exists>w'. BizConfLocalCache_Set gc i c w = (Inr None, w') \<and> rows w' = rows w \<and>
     conf_coherent js gc stored rows w'"
proof -
  let ?k = "BizConfCacheKey i"
  let ?w = "gc_Set gc ?k (CachedBizConf c) DefaultExpires w"
  have l: "rows ?w = rows w"
    "gc_Get gc j ?w = None \<or> gc_Get gc j ?w = (if j = ?k then Some (CachedBizConf c) else gc_Get gc j w)"
    "stored ?w j = None \<or> stored ?w j = stored w j" for j
    using assms(1) unfolding conf_stores_def Let_def by blast+
  have "conf_coherent js gc stored rows ?w"
    unfolding conf_coherent_def
  proof (intro conjI allI impI)
    fix j d assume "gc_Get gc (BizConfCacheKey j) ?w = Some (CachedBizConf d)"
    with l(2) [of "BizConfCacheKey j"] assms(2,3,4) show "Some d = map_option BizConfRepo_toDomain (rows ?w j)"
      unfolding conf_coherent_def l(1) by (cases "j = i") auto
  next
    fix j s d assume "stored ?w (BizConfCacheKey j) = Some s \<and> bj_Unmarshal js s = Inr d"
    with l(3) [of "BizConfCacheKey j"] assms(2) show "Some d = map_option BizConfRepo_toDomain (rows ?w j)"
      unfolding conf_coherent_def l(1) by (metis option.distinct(1))
  qed
  with l(1) show ?thesis by (simp add: BizConfLocalCache_Set_def)
qed

lemma redis_set:
  assumes "conf_stores gc rk db stored rows" "conf_coherent js gc stored rows w"
    and "rows w i = Some row" "c = BizConfRepo_toDomain row"
    and "\<And>c s. bj_Marshal js c = Inr s \<Longrightarrow> bj_Unmarshal js s = Inr c"
  shows "\<exists>e w'. BizConfRedisCache_Set js rk i c w = (Inr e, w') \<and> rows w' = rows w \<and>
     conf_coherent js gc stored rows w'"
proof (cases "bj_Marshal js c")
  case (Inl e)
  with assms(2) show ?thesis by (simp add: BizConfRedisCache_Set_def)
next
  case (Inr s)
  let ?k = "BizConfCacheKey i"
  let ?w = "snd (rk_Set rk ?k s DefaultExpires w)"
  have l: "rows ?w = rows w"
    "gc_Get gc j ?w = None \<or> gc_Get gc j ?w = gc_Get gc j w"
    "stored ?w j = None \<or> stored ?w j = stored w j \<or> j = ?k \<and> stored ?w j = Some s" for j
    using assms(1) unfolding conf_stores_def Let_def by blast+
  have "conf_coherent js gc stored rows ?w"
    unfolding conf_coherent_def
  proof (intro conjI allI impI)
    fix j d assume "gc_Get gc (BizConfCacheKey j) ?w = Some (CachedBizConf d)"
    with l(2) [of "BizConfCacheKey j"] assms(2) show "Some d = map_option BizConfRepo_toDomain (rows ?w j)"
      unfolding conf_coherent_def l(1) by (metis option.distinct(1))
  next
    fix j t d assume t: "stored ?w (BizConfCacheKey j) = Some t \<and> bj_Unmarshal js t = Inr d"
    show "Some d = map_option BizConfRepo_toDomain (rows ?w j)"
    proof (cases "stored ?w (BizConfCacheKey j) = stored w (BizConfCacheKey j)")
      case True
      with t assms(2) show ?thesis unfolding conf_coherent_def l(1) by metis
    next
      case False
      with l(3) [of "BizConfCacheKey j"] t have "j = i" "t = s" by auto
      with t assms(3,4) assms(5) [OF Inr] show ?thesis unfolding l(1) by simp
    qed
  qed
  with l(1) Inr show ?thesis
    by (auto simp: BizConfRedisCache_Set_def io_bind_def split: option.splits)
qed

lemma redis_read:
  assumes "conf_stores gc rk db stored rows" "conf_coherent js gc stored rows w"
  shows "\<exists>r w'. BizConfRedisCache_Get js rk i w = (Inr r, w') \<and> rows w' = rows w \<and>
     conf_coherent js gc stored rows w' \<and>
     (\<forall>c. r = Inr c \<longrightarrow> Some c = map_option BizConfRepo_toDomain (rows w i))"
proof -
  let ?w1 = "snd (rk_Get rk (BizConfCacheKey i) w)"
  have x1: "only_expires gc stored rows w ?w1"
    "\<And>v. fst (rk_Get rk (BizConfCacheKey i) w) = Inr v \<Longrightarrow> stored w (BizConfCacheKey i) = Some v"
    using assms(1) unfolding conf_stores_def by blast+
  have "\<exists>r. BizConfRedisCache_Get js rk i w = (Inr r, ?w1)"
    by (simp add: BizConfRedisCache_Get_def split: sum.split)
  then obtain r where r: "BizConfRedisCache_Get js rk i w = (Inr r, ?w1)" by blast
  then have "Some c = map_option BizConfRepo_toDomain (rows w i)" if "r = Inr c" for c
    using that assms(2) x1(2)
    by (auto simp: BizConfRedisCache_Get_def conf_coherent_def split: sum.splits if_splits)
  with r x1(1) coherent_expires [OF assms(2) x1(1)] show ?thesis by (auto simp: only_expires_def)
qed

text \<open>What the repository does once both caches have missed.\<close>

lemma query_fills:
  assumes "conf_stores gc rk db stored rows" "conf_coherent js gc stored rows w"
    and "\<And>c s. bj_Marshal js c = Inr s \<Longrightarrow> bj_Unmarshal js s = Inr c"
  shows "\<exists>r w'. (case db i w of (Inl err, w2) \<Rightarrow> (Inr (Inl err), w2)
          | (Inr row, w2) \<Rightarrow> io_bind (BizConfLocalCache_Set gc i (BizConfRepo_toDomain row)) (\<lambda>_.
              io_bind (BizConfRedisCache_Set js rk i (BizConfRepo_toDomain row)) (\<lambda>_.
              io_return (Inr (BizConfRepo_toDomain row)))) w2) = (Inr r, w') \<and>
     rows w' = rows w \<and> conf_coherent js gc stored rows w' \<and>
     (case r of Inr c \<Rightarrow> Some c = map_option BizConfRepo_toDomain (rows w i)
      | Inl e \<Rightarrow> fst (db i w) = Inl e)"
proof -
  obtain q w2 where q: "db i w = (q, w2)" by fastforce
  have x2: "only_expires gc stored rows w w2" "\<And>row. q = Inr row \<Longrightarrow> rows w i = Some row"
    using assms(1) q unfolding conf_stores_def by (metis snd_conv, metis fst_conv)
  note c2 = coherent_expires [OF assms(2) x2(1)]
  have r2: "rows w2 = rows w" using x2(1) by (simp add: only_expires_def)
  show ?thesis
  proof (cases q)
    case (Inl err)
    with q c2 r2 show ?thesis by auto
  next
    case (Inr row)
    with x2(2) r2 have row: "rows w2 i = Some row" "rows w i = Some row" by auto
    obtain w3 where w3: "BizConfLocalCache_Set gc i (BizConfRepo_toDomain row) w2 = (Inr None, w3)"
      "rows w3 = rows w" "conf_coherent js gc stored rows w3"
      using local_set [OF assms(1) c2 row(1) refl] r2 by auto
    then have "rows w3 i = Some row" using row by simp
    from redis_set [OF assms(1) w3(3) this refl assms(3)] obtain e w4 where
      "BizConfRedisCache_Set js rk i (BizConfRepo_toDomain row) w3 = (Inr e, w4)"
      "rows w4 = rows w" "conf_coherent js gc stored rows w4"
      using w3(2) by auto
    with q Inr w3 row show ?thesis by simp
  qed
qed

text \<open>C37. Reading a configuration through the two caches gives what reading the table would: while the
  table does not change and every cached entry was made from it, a configuration that is returned is the
  one of its row, whichever store it came from and whatever of the Redis commands failed; and the caches
  stay coherent. An error is the error of the query.\<close>

theorem BizConf_GetById_coherent:
  assumes "conf_stores gc rk db stored rows" "conf_coherent js gc stored rows w"
    and "\<And>c s. bj_Marshal js c = Inr s \<Longrightarrow> bj_Unmarshal js s = Inr c"
  shows "\<exists>r w'. bcr_GetById (NewDefaultBizConfRepo (DefaultBizConfDAO_GetById db) (NewBizConfLocalCache gc)
       (NewBizConfRedisCache js rk)) i w = (Inr r, w') \<and>
     rows w' = rows w \<and> conf_coherent js gc stored rows w' \<and>
     (case r of
        Inr c \<Rightarrow> Some c = map_option BizConfRepo_toDomain (rows w i)
      | Inl e \<Rightarrow> \<exists>w1. fst (db i w1) = Inl e)"
proof (cases "\<exists>c. gc_Get gc (BizConfCacheKey i) w = Some (CachedBizConf c)")
  case True
  then obtain c where "gc_Get gc (BizConfCacheKey i) w = Some (CachedBizConf c)" by blast
  with assms(2) show ?thesis
    by (simp add: NewDefaultBizConfRepo_def DefaultBizConfRepo_GetById_def NewBizConfLocalCache_def
        BizConfLocalCache_Get_def Let_def conf_coherent_def)
next
  case False
  let ?get = "bcr_GetById (NewDefaultBizConfRepo (DefaultBizConfDAO_GetById db) (NewBizConfLocalCache gc)
       (NewBizConfRedisCache js rk)) i w"
  note defs = NewDefaultBizConfRepo_def DefaultBizConfRepo_GetById_def NewBizConfLocalCache_def
    NewBizConfRedisCache_def
  from False have miss: "\<exists>e. bcc_Get (NewBizConfLocalCache gc) i w = (Inr (Inl e), w)"
    by (auto simp: NewBizConfLocalCache_def BizConfLocalCache_Get_def split: option.splits cached.splits)
  obtain r w1 where r: "BizConfRedisCache_Get js rk i w = (Inr r, w1)" "rows w1 = rows w"
    "conf_coherent js gc stored rows w1" "\<forall>c. r = Inr c \<longrightarrow> Some c = map_option BizConfRepo_toDomain (rows w i)"
    using redis_read [OF assms(1,2)] by blast
  show ?thesis
  proof (cases r)
    case (Inr c)
    with r(2,4) obtain row where row: "rows w1 i = Some row" "c = BizConfRepo_toDomain row"
      by (cases "rows w i") auto
    from local_set [OF assms(1) r(3) row] miss r Inr row show ?thesis by (auto simp: defs)
  next
    case (Inl e)
    have "?get = (case db i w1 of (Inl err, w2) \<Rightarrow> (Inr (Inl err), w2)
        | (Inr row, w2) \<Rightarrow> io_bind (BizConfLocalCache_Set gc i (BizConfRepo_toDomain row)) (\<lambda>_.
            io_bind (BizConfRedisCache_Set js rk i (BizConfRepo_toDomain row)) (\<lambda>_.
            io_return (Inr (BizConfRepo_toDomain row)))) w2)"
      using miss r(1) Inl
      by (auto simp: defs DefaultBizConfDAO_GetById_def Let_def split: sum.splits prod.splits)
    then obtain q w' where "?get = (Inr q, w')" "rows w' = rows w1" "conf_coherent js gc stored rows w'"
      and q: "case q of Inr c \<Rightarrow> Some c = map_option BizConfRepo_toDomain (rows w1 i)
        | Inl e \<Rightarrow> fst (db i w1) = Inl e"
      using query_fills [OF assms(1) r(3) assms(3), of i] by metis
    with r(2) show ?thesis by (cases q) auto
  qed
qed

text \<open>Stores in memory: a table with one row, an empty local cache and a Redis that refuses to be written.\<close>

record conf_world =
  cw_local :: "string \<Rightarrow> cached option"
  cw_redis :: "string \<Rightarrow> string option"

definition mem_gcache :: "conf_world gcache" where
  "mem_gcache = \<lparr>gc_Set = (\<lambda>k v _ w. w\<lparr>cw_local := (cw_local w)(k \<mapsto> v)\<rparr>), gc_Get = (\<lambda>k w. cw_local w k)\<rparr>"

definition mem_kv :: "conf_world redis_kv" where
  "mem_kv = \<lparr>rk_Set = (\<lambda>k v _ w. (Some (External 1), w)),
     rk_Get = (\<lambda>k w. (case cw_redis w k of None \<Rightarrow> Inl RedisNil | Some s \<Rightarrow> Inr s, w))\<rparr>"

definition sample_row :: BizConfRow where
  "sample_row = \<lparr>br_Id = 7, br_OwnerId = 0, br_OwnerType = [],
     br_ChannelConf = \<lparr>jc_Val = \<lparr>cc_Channels = [], cc_RetryPolicy = None\<rparr>, jc_Valid = False\<rparr>,
     br_TxNotifConf = \<lparr>jc_Val = \<lparr>tc_ServiceName = [], tc_InitialDelay = 0, tc_RetryPolicy = None\<rparr>, jc_Valid = False\<rparr>,
     br_RateLimit = 5, br_QuotaConf = \<lparr>jc_Val = \<lparr>qc_Daily = None, qc_Monthly = None\<rparr>, jc_Valid = False\<rparr>,
     br_CallbackConf = \<lparr>jc_Val = sample_callbackConf, jc_Valid = True\<rparr>, br_CreatedAt = 1, br_UpdatedAt = 2\<rparr>"

definition mem_db :: "conf_world biz_db" where
  "mem_db = (\<lambda>i w. (if i = 7 then Inr sample_row else Inl ErrRecordNotFound, w))"

definition zero_codec :: conf_codec where
  "zero_codec = \<lparr>bj_Marshal = (\<lambda>c. if c = zero_BizConf then Inr ''{}'' else Inl (External 2)),
     bj_Unmarshal = (\<lambda>s. if s = ''{}'' then Inr zero_BizConf else Inl (External 3))\<rparr>"

lemma mem_conf_stores:
  "conf_stores mem_gcache mem_kv mem_db cw_redis (\<lambda>_ i. if i = 7 then Some sample_row else None)"
  by (auto simp: conf_stores_def only_expires_def mem_gcache_def mem_kv_def mem_db_def Let_def
      split: option.splits if_splits)

lemma BizConf_GetById_coherent_witness:
  "\<exists>c w'. bcr_GetById (NewDefaultBizConfRepo (DefaultBizConfDAO_GetById mem_db) (NewBizConfLocalCache mem_gcache)
       (NewBizConfRedisCache zero_codec mem_kv)) 7 \<lparr>cw_local = Map.empty, cw_redis = Map.empty\<rparr> = (Inr (Inr c), w') \<and>
     c = BizConfRepo_toDomain sample_row"
proof -
  let ?rows = "\<lambda>(_ :: conf_world) i. if i = (7 :: u64) then Some sample_row else None"
  let ?w = "\<lparr>cw_local = Map.empty, cw_redis = Map.empty\<rparr> :: conf_world"
  have coh: "conf_coherent zero_codec mem_gcache cw_redis ?rows ?w"
    by (simp add: conf_coherent_def mem_gcache_def)
  have codec: "bj_Unmarshal zero_codec s = Inr c" if "bj_Marshal zero_codec c = Inr s" for c s
    using that by (simp add: zero_codec_def split: if_splits)
  obtain r w' where r: "bcr_GetById (NewDefaultBizConfRepo (DefaultBizConfDAO_GetById mem_db)
      (NewBizConfLocalCache mem_gcache) (NewBizConfRedisCache zero_codec mem_kv)) 7 ?w = (Inr r, w')"
    "case r of Inr c \<Rightarrow> Some c = map_option BizConfRepo_toDomain (?rows ?w 7) | Inl e \<Rightarrow> \<exists>w1. fst (mem_db 7 w1) = Inl e"
    using BizConf_GetById_coherent [OF mem_conf_stores coh codec, of 7] by blast
  then obtain c where "r = Inr c" by (cases r) (auto simp: mem_db_def)
  with r show ?thesis by auto
qed

end
