(* ===== verification/Sender.thy ===== *)
theory Sender
  imports Channels Callback NotifRepo
begin

text \<open>
  \<open>internal/service/sender/sender.go\<close>: the actual sending. \<open>Send\<close> sends one notification over its channel,
  marks the outcome and starts the callback; \<open>BatchSend\<close> sends a list concurrently, looks the
  notifications up again and starts their callbacks. The goroutines of a batch run in the order
  \<open>order\<close> in which they finish, a permutation of the positions; each appends its result to the list of
  successes or of failures under a lock.
\<close>

record 'w Sender =
  snd_Send :: "Notification \<Rightarrow> ('w, SendResp \<times> go_error option) io"
  snd_BatchSend :: "Notification list \<Rightarrow> ('w, BatchSendResp \<times> go_error option) io"

text \<open>What the sender calls of \<open>callback.Service\<close>.\<close>

record 'w CallbackService =
  cbs_SendByNotification :: "Notification \<Rightarrow> ('w, go_error option) io"
  cbs_SendByNotifications :: "Notification list \<Rightarrow> ('w, go_error option) io"

text \<open>The callback service as the value it is used as: \<open>confMap\<close> and \<open>storeConf\<close> read and write the map of
  configurations it keeps, which is empty at first.\<close>

definition NewDefaultService ::
    "(string \<Rightarrow> SendResultNotifyRequest \<Rightarrow> ('w, go_error + bool) io) \<Rightarrow> 'w BizConfRepo \<Rightarrow> 'w CallbackLogRepo
      \<Rightarrow> ('w \<Rightarrow> u64 \<Rightarrow> CallbackConf option) \<Rightarrow> (u64 \<Rightarrow> CallbackConf \<Rightarrow> 'w \<Rightarrow> 'w) \<Rightarrow> 'st retry_lib \<Rightarrow> 'w env
      \<Rightarrow> 'w CallbackService" where
  "NewDefaultService clients bizConfRepo callbackLogRepo confMap storeConf lib env =
     (let d = \<lparr>cv_notify = clients, cv_bizConfRepo = bizConfRepo, cv_callbackLogRepo = callbackLogRepo,
                cv_confMap = confMap, cv_storeConf = storeConf, cv_retry = lib, cv_env = env\<rparr>
      in \<lparr>cbs_SendByNotification = Callback_SendByNotification d,
          cbs_SendByNotifications = Callback_SendByNotifications d\<rparr>)"

record 'w DefaultSender =
  ds_channel :: "Notification \<Rightarrow> ('w, SendResp \<times> go_error option) io"
  ds_notifRepo :: "'w NotificationRepo"
  ds_callbackSvc :: "'w CallbackService"

definition DefaultSender_Send :: "'w DefaultSender \<Rightarrow> Notification \<Rightarrow> ('w, SendResp \<times> go_error option) io" where
  "DefaultSender_Send ds n =
     (let res = zero_SendResult\<lparr>sr_NotificationId := n_Id n\<rparr> in
      io_bind (ds_channel ds n) (\<lambda>(resp, err).
      let status = (if err \<noteq> None then SendStatusFailure else SendStatusSuccess);
          res = res\<lparr>sr_Status := status\<rparr>;
          n = n\<lparr>n_Status := status\<rparr>
      in io_bind (if err \<noteq> None then repo_MarkFailure (ds_notifRepo ds) n
                  else repo_MarkSuccess (ds_notifRepo ds) n) (\<lambda>err.
         if err \<noteq> None then io_return (zero_SendResult, err)
         else io_bind (cbs_SendByNotification (ds_callbackSvc ds) n) (\<lambda>_.
           io_return (res, None)))))"

fun BatchSend_goroutines ::
    "'w DefaultSender \<Rightarrow> Notification list \<Rightarrow> nat list \<Rightarrow> SendResult list \<Rightarrow> SendResult list
      \<Rightarrow> ('w, SendResult list \<times> SendResult list) io" where
  "BatchSend_goroutines ds ns [] success failure = io_return (success, failure)"
| "BatchSend_goroutines ds ns (i # order) success failure =
     io_bind (io_run (index_at ns (int i))) (\<lambda>n.
     io_bind (ds_channel ds n) (\<lambda>(resp, err).
     if err \<noteq> None
     then BatchSend_goroutines ds ns order success
            (failure @ [\<lparr>sr_NotificationId = n_Id n, sr_Status = SendStatusFailure\<rparr>])
     else BatchSend_goroutines ds ns order
            (success @ [\<lparr>sr_NotificationId = n_Id n, sr_Status = SendStatusSuccess\<rparr>]) failure))"

definition getNsWithStatus :: "SendResult list \<Rightarrow> (u64 \<times> Notification) list \<Rightarrow> Notification list" where
  "getNsWithStatus results nMap =
     concat (map (\<lambda>res. case map_of nMap (sr_NotificationId res) of
                          Some n \<Rightarrow> [n\<lparr>n_Status := sr_Status res\<rparr>]
                        | None \<Rightarrow> []) results)"

text \<open>The body of the condition is empty in the code.\<close>

definition batchUpdateStatus :: "Notification list \<Rightarrow> Notification list \<Rightarrow> ('w, go_error option) io" where
  "batchUpdateStatus successNs failureNs = io_return None"

definition DefaultSender_BatchSend ::
    "'w DefaultSender \<Rightarrow> nat list \<Rightarrow> Notification list \<Rightarrow> ('w, BatchSendResp \<times> go_error option) io" where
  "DefaultSender_BatchSend ds order ns =
     (if length ns = 0 then io_return ([], None)
      else io_bind (BatchSend_goroutines ds ns order [] []) (\<lambda>(success, failure).
        let allIds = map sr_NotificationId success @ map sr_NotificationId failure in
        io_bind (repo_GetMapByIds (ds_notifRepo ds) allIds) (\<lambda>(m, err).
        case err of
          Some e \<Rightarrow> io_return ([], Some (Wrapped e ''[jotify] failed to batch get notifications''))
        | None \<Rightarrow>
            let successNs = getNsWithStatus success m;
                failureNs = getNsWithStatus failure m
            in io_bind (batchUpdateStatus successNs failureNs) (\<lambda>err.
               case err of
                 Some e \<Rightarrow> io_return ([], Some (Wrapped e
                   ''[jotify] failed to batch update notification status''))
               | None \<Rightarrow>
                   io_bind (cbs_SendByNotifications (ds_callbackSvc ds) (successNs @ failureNs)) (\<lambda>_.
                   io_return (success @ failure, None))))))"

text \<open>The sender as the value it is used as; \<open>orderOf\<close> gives the order in which the goroutines of a batch
  finish. The code keeps the configuration repository and never uses it.\<close>

definition NewDefaultSender ::
    "(Notification \<Rightarrow> ('w, SendResp \<times> go_error option) io) \<Rightarrow> 'w NotificationRepo \<Rightarrow> 'w BizConfRepo
      \<Rightarrow> 'w CallbackService \<Rightarrow> (Notification list \<Rightarrow> nat list) \<Rightarrow> 'w Sender" where
  "NewDefaultSender channel notifRepo bizConfRepo callbackSvc orderOf =
     (let ds = \<lparr>ds_channel = channel, ds_notifRepo = notifRepo, ds_callbackSvc = callbackSvc\<rparr>
      in \<lparr>snd_Send = DefaultSender_Send ds, snd_BatchSend = (\<lambda>ns. DefaultSender_BatchSend ds (orderOf ns) ns)\<rparr>)"

section \<open>Properties\<close>

text \<open>Sending one notification: the outcome of the channel is stored, as a success or a failure,
  before the callback is started, and the callback is started exactly when it could be stored; a
  failure of the channel is not an error of \<open>Send\<close> but its result, and an outcome that could not be
  stored is an error with an empty result.\<close>

theorem DefaultSender_Send_outcome:
  assumes "ds_channel ds n w = (Inr (resp, cerr), w1)"
    and "(if cerr = None then repo_MarkSuccess (ds_notifRepo ds) (n\<lparr>n_Status := SendStatusSuccess\<rparr>)
          else repo_MarkFailure (ds_notifRepo ds) (n\<lparr>n_Status := SendStatusFailure\<rparr>)) w1 = (Inr merr, w2)"
  shows "DefaultSender_Send ds n w =
     (case merr of
        Some e \<Rightarrow> (Inr (zero_SendResult, Some e), w2)
      | None \<Rightarrow> io_bind (cbs_SendByNotification (ds_callbackSvc ds)
            (n\<lparr>n_Status := if cerr = None then SendStatusSuccess else SendStatusFailure\<rparr>))
          (\<lambda>_. io_return (\<lparr>sr_NotificationId = n_Id n,
             sr_Status = if cerr = None then SendStatusSuccess else SendStatusFailure\<rparr>, None)) w2)"
  using assms
  by (cases cerr; cases merr) (simp_all add: DefaultSender_Send_def Let_def zero_SendResult_def)

definition sample_repo :: "'w NotificationRepo" where
  "sample_repo = \<lparr>repo_Create = (\<lambda>n. io_return (n, None)), repo_CreateWithCallback = (\<lambda>n. io_return (n, None)),
     repo_BatchCreate = (\<lambda>ns. io_return (ns, None)), repo_BatchCreateWithCallback = (\<lambda>ns. io_return (ns, None)),
     repo_BatchUpdateStatus = (\<lambda>_ _. io_return None), repo_MarkSuccess = (\<lambda>_. io_return None),
     repo_MarkFailure = (\<lambda>_. io_return None), repo_GetMapByIds = (\<lambda>_. io_return ([], None)),
     repo_GetByKey = (\<lambda>_ _. io_return (zero_Notification, None)), repo_CompareAndSwapStatus = (\<lambda>_. io_return None),
     repo_FindReady = (\<lambda>_ _. io_return ([], None))\<rparr>"

definition sample_sender :: "nat DefaultSender" where
  "sample_sender = \<lparr>ds_channel = (\<lambda>n w. (Inr (zero_SendResult, if w = 0 then Some (External 1) else None), Suc w)),
     ds_notifRepo = sample_repo,
     ds_callbackSvc = \<lparr>cbs_SendByNotification = (\<lambda>_. io_return None),
       cbs_SendByNotifications = (\<lambda>_. io_return None)\<rparr>\<rparr>"

lemma DefaultSender_Send_outcome_witness:
  "DefaultSender_Send sample_sender sample_notification 0
     = (Inr (\<lparr>sr_NotificationId = 77, sr_Status = SendStatusFailure\<rparr>, None), 1)"
  using DefaultSender_Send_outcome [of sample_sender sample_notification 0 zero_SendResult
      "Some (External 1)" 1 None 1]
  by (simp add: sample_sender_def sample_repo_def sample_notification_def)

text \<open>The channel's answers in a run of the goroutines: the notification and whether it was sent.\<close>

fun channel_run ::
    "'w DefaultSender \<Rightarrow> Notification list \<Rightarrow> ('w, (Notification \<times> bool) list) io" where
  "channel_run ds [] = io_return []"
| "channel_run ds (n # ns) =
     io_bind (ds_channel ds n) (\<lambda>(resp, err).
     io_bind (channel_run ds ns) (\<lambda>rs. io_return ((n, err = None) # rs)))"

definition result_of :: "Notification \<times> bool \<Rightarrow> SendResult" where
  "result_of r = \<lparr>sr_NotificationId = n_Id (fst r),
     sr_Status = (if snd r then SendStatusSuccess else SendStatusFailure)\<rparr>"

lemma goroutines_run:
  assumes "set order \<subseteq> {..<length ns}"
  shows "BatchSend_goroutines ds ns order success failure w =
     io_bind (channel_run ds (map (\<lambda>i. ns ! i) order)) (\<lambda>rs.
       io_return (success @ map result_of (filter snd rs), failure @ map result_of (filter (\<lambda>r. \<not> snd r) rs))) w"
  using assms
proof (induction order arbitrary: success failure w)
  case Nil
  then show ?case by simp
next
  case (Cons i order)
  then have i: "i < length ns" by simp
  obtain r w1 where c: "ds_channel ds (ns ! i) w = (r, w1)" by fastforce
  show ?case
  proof (cases r)
    case (Inl p)
    with c i show ?thesis by (simp add: io_bind_def)
  next
    case (Inr rr)
    obtain resp err where rr: "rr = (resp, err)" by (cases rr)
    obtain q w2 where q: "channel_run ds (map (\<lambda>i. ns ! i) order) w1 = (q, w2)" by fastforce
    with Cons c i Inr rr show ?thesis
      by (cases q; cases err) (simp_all add: result_of_def io_bind_def)
  qed
qed

lemma channel_run_length: "channel_run ds ns w = (Inr rs, w') \<Longrightarrow> map fst rs = ns"
  by (induction ns arbitrary: w rs) (auto simp: io_bind_eq_Inr)



end
