(* ===== verification/SendStrategies.thy ===== *)
theory SendStrategies
  imports Sender NotifRepoProps
begin

text \<open>
  \<open>internal/service/sendstrategy\<close>: the two send strategies and the dispatcher that chooses between
  them. The default strategy stores the notification for a later sending, with a callback log when the
  business has a callback configuration; the immediate strategy stores it and sends it at once. The
  repositories and the sender behind them are the records of functions of their own theories.
\<close>

record 'w SendStrategyImpl =
  st_Send :: "Notification \<Rightarrow> ('w, SendResp \<times> go_error option) io"
  st_BatchSend :: "Notification list \<Rightarrow> ('w, BatchSendResp \<times> go_error option) io"

section \<open>The default strategy\<close>

record 'w DefaultSendStrategy =
  dss_notifRepo :: "'w NotificationRepo"
  dss_bizConfRepo :: "'w BizConfRepo"

definition needCallbackLog :: "'w DefaultSendStrategy \<Rightarrow> Notification \<Rightarrow> ('w, bool) io" where
  "needCallbackLog dss n =
     io_bind (bcr_GetById (dss_bizConfRepo dss) (n_BizId n)) (\<lambda>r.
     case r of
       Inl err \<Rightarrow> io_return False
     | Inr bizConf \<Rightarrow> io_return (bc_CallbackConf bizConf \<noteq> None))"

definition DefaultSendStrategy_create ::
    "'w DefaultSendStrategy \<Rightarrow> Notification \<Rightarrow> ('w, Notification \<times> go_error option) io" where
  "DefaultSendStrategy_create dss n =
     io_bind (needCallbackLog dss n) (\<lambda>need.
     if need then repo_CreateWithCallback (dss_notifRepo dss) n
     else repo_Create (dss_notifRepo dss) n)"

definition DefaultSendStrategy_Send ::
    "'w env \<Rightarrow> 'w DefaultSendStrategy \<Rightarrow> Notification \<Rightarrow> ('w, SendResp \<times> go_error option) io" where
  "DefaultSendStrategy_Send env dss n =
     io_bind (io_get (ev_now env)) (\<lambda>now.
     let n = Notification_SetSendTime n now in
     io_bind (DefaultSendStrategy_create dss n) (\<lambda>(created, err).
     case err of
       Some e \<Rightarrow> io_return (zero_SendResult,
         Some (Wrapped e ''[jotify] create delayed notification error''))
     | None \<Rightarrow> io_return (\<lparr>sr_NotificationId = n_Id created, sr_Status = n_Status created\<rparr>, None)))"

definition DefaultSendStrategy_batchCreate ::
    "'w DefaultSendStrategy \<Rightarrow> Notification list \<Rightarrow> ('w, Notification list \<times> go_error option) io" where
  "DefaultSendStrategy_batchCreate dss ns =
     io_bind (io_run (index_at ns 0)) (\<lambda>first.
     io_bind (needCallbackLog dss first) (\<lambda>need.
     if need then repo_BatchCreateWithCallback (dss_notifRepo dss) ns
     else repo_BatchCreate (dss_notifRepo dss) ns))"

definition DefaultSendStrategy_BatchSend ::
    "'w DefaultSendStrategy \<Rightarrow> Notification list \<Rightarrow> ('w, BatchSendResp \<times> go_error option) io" where
  "DefaultSendStrategy_BatchSend dss ns =
     (if length ns = 0
      then io_return ([], Some (Wrapped ErrInvalidParam ''notifications should not be empty''))
      else io_bind (DefaultSendStrategy_batchCreate dss ns) (\<lambda>(createdNs, err).
        case err of
          Some e \<Rightarrow> io_return ([], Some (Wrapped e ''[jotify] create delayed notifications error''))
        | None \<Rightarrow> io_return
            (map (\<lambda>n. \<lparr>sr_NotificationId = n_Id n, sr_Status = n_Status n\<rparr>) createdNs, None)))"

definition NewDefaultSendStrategy :: "'w NotificationRepo \<Rightarrow> 'w BizConfRepo \<Rightarrow> 'w DefaultSendStrategy" where
  "NewDefaultSendStrategy notifRepo bizConfRepo = \<lparr>dss_notifRepo = notifRepo, dss_bizConfRepo = bizConfRepo\<rparr>"

section \<open>The immediate strategy\<close>

record 'w ImmediateSendStrategy =
  iss_notifRepo :: "'w NotificationRepo"
  iss_sender :: "'w Sender"

definition ImmediateSendStrategy_Send ::
    "'w env \<Rightarrow> 'w ImmediateSendStrategy \<Rightarrow> Notification \<Rightarrow> ('w, SendResp \<times> go_error option) io" where
  "ImmediateSendStrategy_Send env s n =
     io_bind (io_get (ev_now env)) (\<lambda>now.
     let n = Notification_SetSendTime n now in
     io_bind (repo_Create (iss_notifRepo s) n) (\<lambda>(created, err).
     if err \<noteq> None then snd_Send (iss_sender s) n
     else if \<not> option_Is err ErrDuplicateNotificationId
     then io_return (zero_SendResult, Some (wrapf err ''failed to create notification''))
     else io_bind (repo_GetByKey (iss_notifRepo s) (n_BizId created) (n_BizKey created)) (\<lambda>(found, err).
       if err \<noteq> None then io_return (zero_SendResult, Some (wrapf err ''failed to get notification''))
       else if n_Status found = SendStatusSuccess
       then io_return (\<lparr>sr_NotificationId = n_Id found, sr_Status = n_Status found\<rparr>, None)
       else if n_Status found \<noteq> SendStatusSending
       then io_return (zero_SendResult, Some (Wrapped ErrFailedToSendNotification []))
       else let found = found\<lparr>n_Status := SendStatusSending\<rparr> in
         io_bind (repo_CompareAndSwapStatus (iss_notifRepo s) found) (\<lambda>err.
         if err \<noteq> None then io_return (zero_SendResult, Some (wrapf err []))
         else let found = found\<lparr>n_Version := n_Version found + 1\<rparr>
              in snd_Send (iss_sender s) found))))"

fun SetSendTimes :: "'w env \<Rightarrow> Notification list \<Rightarrow> ('w, Notification list) io" where
  "SetSendTimes env [] = io_return []"
| "SetSendTimes env (n # ns) =
     io_bind (io_get (ev_now env)) (\<lambda>now.
     io_bind (SetSendTimes env ns) (\<lambda>ns'. io_return (Notification_SetSendTime n now # ns')))"

definition ImmediateSendStrategy_BatchSend ::
    "'w env \<Rightarrow> 'w ImmediateSendStrategy \<Rightarrow> Notification list
      \<Rightarrow> ('w, BatchSendResp \<times> go_error option) io" where
  "ImmediateSendStrategy_BatchSend env s ns =
     (if length ns = 0 then io_return ([], Some (Wrapped ErrInvalidParam ''empty notification list''))
      else io_bind (SetSendTimes env ns) (\<lambda>ns.
        io_bind (repo_BatchCreate (iss_notifRepo s) ns) (\<lambda>(createdNs, err).
        if err \<noteq> None then io_return ([], Some (wrapf err ''failed to create notifications''))
        else snd_BatchSend (iss_sender s) createdNs)))"

definition NewImmediateSendStrategy :: "'w NotificationRepo \<Rightarrow> 'w Sender \<Rightarrow> 'w ImmediateSendStrategy" where
  "NewImmediateSendStrategy notifRepo sender = \<lparr>iss_notifRepo = notifRepo, iss_sender = sender\<rparr>"

section \<open>The dispatcher\<close>

record 'w Dispatcher =
  d_defaultStrategy :: "'w DefaultSendStrategy"
  d_immediateStrategy :: "'w ImmediateSendStrategy"

definition chooseStrategy :: "'w env \<Rightarrow> 'w Dispatcher \<Rightarrow> Notification \<Rightarrow> 'w SendStrategyImpl" where
  "chooseStrategy env d n =
     (if ss_Type (n_StrategyConfig n) = SendStrategyImmediate
      then \<lparr>st_Send = ImmediateSendStrategy_Send env (d_immediateStrategy d),
            st_BatchSend = ImmediateSendStrategy_BatchSend env (d_immediateStrategy d)\<rparr>
      else \<lparr>st_Send = DefaultSendStrategy_Send env (d_defaultStrategy d),
            st_BatchSend = DefaultSendStrategy_BatchSend (d_defaultStrategy d)\<rparr>)"

definition Dispatcher_Send ::
    "'w env \<Rightarrow> 'w Dispatcher \<Rightarrow> Notification \<Rightarrow> ('w, SendResp \<times> go_error option) io" where
  "Dispatcher_Send env d n = st_Send (chooseStrategy env d n) n"

definition Dispatcher_BatchSend ::
    "'w env \<Rightarrow> 'w Dispatcher \<Rightarrow> Notification list \<Rightarrow> ('w, BatchSendResp \<times> go_error option) io" where
  "Dispatcher_BatchSend env d ns =
     (if length ns = 0 then io_return ([], Some (Wrapped ErrInvalidParam ''no notifications to send''))
      else io_bind (io_run (index_at ns 0)) (\<lambda>n. st_BatchSend (chooseStrategy env d n) ns))"

text \<open>The dispatcher as the \<open>SendStrategy\<close> the service is given.\<close>

definition NewDispatcher :: "'w env \<Rightarrow> 'w DefaultSendStrategy \<Rightarrow> 'w ImmediateSendStrategy \<Rightarrow> 'w SendStrategyImpl" where
  "NewDispatcher env defaultStrategy immediateStrategy =
     (let d = \<lparr>d_defaultStrategy = defaultStrategy, d_immediateStrategy = immediateStrategy\<rparr>
      in \<lparr>st_Send = Dispatcher_Send env d, st_BatchSend = Dispatcher_BatchSend env d\<rparr>)"

section \<open>Properties\<close>

lemma index_at_Cons0 [simp]: "index_at (x # xs) 0 = Inr x"
  by (simp add: index_at_def)

lemma SetSendTimes_eq [simp]:
  "SetSendTimes env ns w = (Inr (map (\<lambda>n. Notification_SetSendTime n (ev_now env w)) ns), w)"
  by (induction ns) simp_all

text \<open>What the dispatcher does with a batch: the strategy of its first notification decides for all.\<close>

lemma Dispatcher_BatchSend_first:
  "Dispatcher_BatchSend env d (n # ns) =
     (if Notification_IsImmediate n
      then ImmediateSendStrategy_BatchSend env (d_immediateStrategy d) (n # ns)
      else DefaultSendStrategy_BatchSend (d_defaultStrategy d) (n # ns))"
  by (simp add: Dispatcher_BatchSend_def chooseStrategy_def Notification_IsImmediate_def)

lemma Dispatcher_Send_choice:
  "Dispatcher_Send env d n =
     (if Notification_IsImmediate n then ImmediateSendStrategy_Send env (d_immediateStrategy d) n
      else DefaultSendStrategy_Send env (d_defaultStrategy d) n)"
  by (simp add: Dispatcher_Send_def chooseStrategy_def Notification_IsImmediate_def)

text \<open>The immediate strategy tests the error of the creation the wrong way round: when the
  notification was stored, it gives an error and does not send it; when the creation failed, for whatever
  reason, it sends the notification that is not stored. Neither the look-up of a duplicate nor the
  optimistic lock is ever reached.\<close>

theorem immediate_Send_inverted:
  assumes "repo_Create (iss_notifRepo s) (Notification_SetSendTime n (ev_now env w)) w
     = (Inr (created, err), w1)"
  shows "ImmediateSendStrategy_Send env s n w =
     (case err of
        None \<Rightarrow> (Inr (zero_SendResult, Some (ErrorNew ''failed to create notification'')), w1)
      | Some e \<Rightarrow> snd_Send (iss_sender s) (Notification_SetSendTime n (ev_now env w)) w1) \<and>
     (\<forall>f g. ImmediateSendStrategy_Send env (s\<lparr>iss_notifRepo := (iss_notifRepo s)
        \<lparr>repo_GetByKey := f, repo_CompareAndSwapStatus := g\<rparr>\<rparr>) n w
      = ImmediateSendStrategy_Send env s n w)"
  using assms
  by (cases err) (simp_all add: ImmediateSendStrategy_Send_def Let_def option_Is_def wrapf_def)

text \<open>A clock that stands at \<open>t\<close>, for states without a generator in them.\<close>

definition still_env :: "Time \<Rightarrow> 'w env" where
  "still_env t = \<lparr>ev_now = (\<lambda>_. t), ev_gen = (\<lambda>_. NewGenerator), ev_set_gen = (\<lambda>_ w. w), ev_xxh = (\<lambda>_. 0)\<rparr>"

text \<open>A sender that only records what it was given.\<close>

definition sample_immediate :: "go_error option \<Rightarrow> (Notification list) ImmediateSendStrategy" where
  "sample_immediate err = \<lparr>iss_notifRepo = sample_repo\<lparr>repo_Create := (\<lambda>n. io_return (n, err))\<rparr>,
     iss_sender = \<lparr>snd_Send = (\<lambda>n sent. (Inr (zero_SendResult, None), sent @ [n])),
       snd_BatchSend = (\<lambda>ns sent. (Inr ([], None), sent @ ns))\<rparr>\<rparr>"

lemma immediate_Send_inverted_witness:
  "ImmediateSendStrategy_Send (still_env 5) (sample_immediate None) sample_notification []
     = (Inr (zero_SendResult, Some (ErrorNew ''failed to create notification'')), []) \<and>
   snd (ImmediateSendStrategy_Send (still_env 5) (sample_immediate (Some (External 1))) sample_notification [])
     = [Notification_SetSendTime sample_notification 5]"
  using immediate_Send_inverted [of "sample_immediate None" sample_notification "still_env 5" "[]"
      "Notification_SetSendTime sample_notification 5" None "[]"]
    immediate_Send_inverted [of "sample_immediate (Some (External 1))" sample_notification "still_env 5" "[]"
      "Notification_SetSendTime sample_notification 5" "Some (External 1)" "[]"]
  by (simp add: sample_immediate_def still_env_def)

lemma notif_key_SetSendTime [simp]: "notif_key (Notification_SetSendTime n t) = notif_key n"
  by (simp add: notif_key_def Notification_SetSendTime_def split: prod.splits)

text \<open>The quota does not bound what the immediate strategy sends. Over the repository of the code,
  with Redis up, a notification whose quota is used up is handed to the sender; one that has quota left
  is either charged for and not sent, or (when the DAO refuses it) sent without being charged for.\<close>

theorem immediate_Send_ignores_quota:
  assumes "redis_laws rd cnt" "redis_up rd" "leaves_quota cnt (dao_Create dao)"
    and "iss_notifRepo s = NewDefaultNotifRepo dao rd js"
  shows "\<exists>w1.
     (if cnt w (notif_key n) < 1
      then ImmediateSendStrategy_Send env s n w
             = snd_Send (iss_sender s) (Notification_SetSendTime n (ev_now env w)) w1
      else ImmediateSendStrategy_Send env s n w
             = (Inr (zero_SendResult, Some (ErrorNew ''failed to create notification'')), w1) \<and>
           cnt w1 = (cnt w)(notif_key n := cnt w (notif_key n) - 1) \<or>
           ImmediateSendStrategy_Send env s n w
             = snd_Send (iss_sender s) (Notification_SetSendTime n (ev_now env w)) w1 \<and> cnt w1 = cnt w)"
proof -
  let ?n = "Notification_SetSendTime n (ev_now env w)"
  let ?d = "\<lparr>dr_notifDAO = dao, dr_quotaCache = rd, dr_json = js\<rparr>"
  obtain r err w1 where c: "repo_Create (iss_notifRepo s) ?n w = (Inr (r, err), w1)"
    "if cnt w (notif_key n) < 1 then err = Some ErrInsufficientQuota
     else if err = None then cnt w1 = (cnt w)(notif_key n := cnt w (notif_key n) - 1) else cnt w1 = cnt w"
    using create_quota [of ?d cnt "dao_Create dao" ?n w] assms
    by (auto simp: NewDefaultNotifRepo_def DefaultNotifRepo_Create_def Let_def split: if_splits)
  then show ?thesis
    by (intro exI [of _ w1], cases err)
      (auto simp: ImmediateSendStrategy_Send_def Let_def option_Is_def wrapf_def split: if_splits)
qed

lemma immediate_Send_ignores_quota_witness:
  "\<exists>w1. ImmediateSendStrategy_Send (still_env 5)
     ((\<lparr>iss_notifRepo = NewDefaultNotifRepo (sample_dao None) mem_redis sample_json,
        iss_sender = \<lparr>snd_Send = (\<lambda>n w. (Inr (zero_SendResult, Some (External 7)), w)),
          snd_BatchSend = (\<lambda>_. io_return ([], None))\<rparr>\<rparr>)) sample_notification (\<lambda>_. 0)
     = (Inr (zero_SendResult, Some (External 7)), w1)"
  using immediate_Send_ignores_quota [OF mem_redis_laws sample_dao_leaves(1) [of _ None],
      of "\<lparr>iss_notifRepo = NewDefaultNotifRepo (sample_dao None) mem_redis sample_json,
        iss_sender = \<lparr>snd_Send = (\<lambda>n w. (Inr (zero_SendResult, Some (External 7)), w)),
          snd_BatchSend = (\<lambda>_. io_return ([], None))\<rparr>\<rparr>" sample_json "\<lambda>_. 0" sample_notification "still_env 5"]
  by auto

text \<open>A batch of the default strategy over the repository of the code gives the ids and statuses of
  the rows its DAO returned, with an error of the DAO or without one; and, unlike a single
  notification, the rows get the window the caller set, which nobody computes: for notifications fresh
  from the API it is the zero time, before any moment a scheduler asks for.\<close>

theorem default_BatchSend_rows:
  assumes "dss_notifRepo dss = NewDefaultNotifRepo dao rd js" "ns \<noteq> []"
    and "DefaultSendStrategy_BatchSend dss ns w = (Inr (results, None), w')"
  shows "\<exists>create entities derr w1 w2.
     create \<in> {dao_BatchCreate dao, dao_BatchCreateWithCallback dao} \<and>
     create (toEntities js ns) w1 = (Inr (entities, derr), w2) \<and>
     results = map (\<lambda>e. \<lparr>sr_NotificationId = ne_Id e, sr_Status = ne_Status e\<rparr>) entities \<and>
     map (\<lambda>e. (ne_ScheduleStrat e, ne_ScheduleEnd e)) (toEntities js ns)
       = map (\<lambda>n. (Time_UnixMilli (n_ScheduledStart n), Time_UnixMilli (n_ScheduledEnd n))) ns"
proof -
  let ?d = "\<lparr>dr_notifDAO = dao, dr_quotaCache = rd, dr_json = js\<rparr>"
  from assms(2,3) obtain created w1 where c: "DefaultSendStrategy_batchCreate dss ns w = (Inr (created, None), w')"
    "results = map (\<lambda>n. \<lparr>sr_NotificationId = n_Id n, sr_Status = n_Status n\<rparr>) created"
    by (auto simp: DefaultSendStrategy_BatchSend_def io_bind_eq_Inr split: option.splits)
  from c(1) obtain create w1 where b: "create \<in> {dao_BatchCreate dao, dao_BatchCreateWithCallback dao}"
    "DefaultNotifRepo_batchCreate ?d create ns w1 = (Inr (created, None), w')"
    by (auto simp: DefaultSendStrategy_batchCreate_def io_bind_eq_Inr assms(1) NewDefaultNotifRepo_def
        DefaultNotifRepo_BatchCreate_def DefaultNotifRepo_BatchCreateWithCallback_def Let_def
        split: if_splits)
  then obtain entities derr w2 w3 where e: "create (toEntities js ns) w2 = (Inr (entities, derr), w3)"
    "created = map (toDomain js) entities"
    using assms(2) by (auto simp: DefaultNotifRepo_batchCreate_def io_bind_eq_Inr Let_def split: if_splits)
  have r: "results = map (\<lambda>e. \<lparr>sr_NotificationId = ne_Id e, sr_Status = ne_Status e\<rparr>) entities"
    by (simp add: c(2) e(2) toDomain_def Let_def)
  have "map (\<lambda>e. (ne_ScheduleStrat e, ne_ScheduleEnd e)) (toEntities js ns)
    = map (\<lambda>n. (Time_UnixMilli (n_ScheduledStart n), Time_UnixMilli (n_ScheduledEnd n))) ns"
    by (simp add: toEntities_def toEntity_def Let_def)
  with b(1) e(1) r show ?thesis by blast
qed

definition sample_default :: "(string \<Rightarrow> int) DefaultSendStrategy" where
  "sample_default = \<lparr>dss_notifRepo = NewDefaultNotifRepo (sample_dao (Some (External 1))) mem_redis sample_json,
     dss_bizConfRepo = \<lparr>bcr_GetById = (\<lambda>_. io_return (Inl ErrBizConfNotFound))\<rparr>\<rparr>"

lemma default_BatchSend_rows_witness:
  "\<exists>results w'. DefaultSendStrategy_BatchSend sample_default [sample_notification] (\<lambda>_. 9)
     = (Inr (results, None), w') \<and> map sr_Status results = [SendStatusPending]"
proof -
  have "\<exists>results w'. DefaultSendStrategy_BatchSend sample_default [sample_notification] (\<lambda>_. 9)
     = (Inr (results, None), w')"
    by (simp add: DefaultSendStrategy_BatchSend_def DefaultSendStrategy_batchCreate_def needCallbackLog_def
        sample_default_def NewDefaultNotifRepo_def DefaultNotifRepo_BatchCreate_def
        DefaultNotifRepo_batchCreate_def sample_dao_def buildQuotaParams_def mem_redis_def
        QuotaRedisCache_BatchDecr_def QuotaRedisCache_BatchIncr_def redisKeysAndArgs_def
        quotaBatchDecrLua_def quotaBatchIncrLua_def lua_current_def eval_error_def Let_def
        io_bind_def io_return_def)
  then obtain results w' where r: "DefaultSendStrategy_BatchSend sample_default [sample_notification] (\<lambda>_. 9)
     = (Inr (results, None), w')" by blast
  have repo: "dss_notifRepo sample_default
      = NewDefaultNotifRepo (sample_dao (Some (External 1))) mem_redis sample_json"
    by (simp add: sample_default_def)
  have "map sr_Status results = [SendStatusPending]"
    using default_BatchSend_rows [OF repo _ r]
    by (auto simp: sample_dao_def toEntities_def toEntity_def sample_notification_def Let_def)
  with r show ?thesis by (intro exI conjI)
qed

end
