(* ===== verification/SendService.thy ===== *)
theory SendService
  imports SendStrategies NotifDaoLaws
begin

text \<open>
  \<open>internal/service/notification/notification_send.go\<close>: the entry point of the program. A notification is
  checked, given an id of the snowflake generator and handed to the send strategy; a batch is checked as
  a whole first. A \<open>range\<close> loop over notifications works on copies, as Go's does. The goroutines of
  \<open>BatchAsyncSend\<close>, one per send strategy in the batch, run one after another in the order \<open>order\<close> of
  their keys (a permutation of the map's keys: Go iterates a map in any order), and the error of the
  group is the first one; the cancellation of the group's context is not modelled.
\<close>

definition io_nextId :: "'w env \<Rightarrow> Notification \<Rightarrow> ('w, u64) io" where
  "io_nextId env n = io_call (nextId env (n_BizId n) (n_BizKey n))"

definition DefaultSendService_Send ::
    "'w env \<Rightarrow> 'w SendStrategyImpl \<Rightarrow> Notification \<Rightarrow> ('w, SendResp \<times> go_error option) io" where
  "DefaultSendService_Send env sendStrategy n =
     (let resp = zero_SendResult\<lparr>sr_Status := SendStatusFailure\<rparr> in
      io_bind (io_get (ev_now env)) (\<lambda>now.
      case Notification_Validate n now of
        Some err \<Rightarrow> io_return (resp, Some err)
      | None \<Rightarrow>
          io_bind (io_nextId env n) (\<lambda>iden.
          let n = n\<lparr>n_Id := iden\<rparr> in
          io_bind (st_Send sendStrategy n) (\<lambda>(sendResp, err).
          case err of
            Some e \<Rightarrow> io_return (resp, Some (WrappedBoth ErrFailedSendNotification e))
          | None \<Rightarrow> io_return (sendResp, None)))))"

definition DefaultSendService_AsyncSend ::
    "'w env \<Rightarrow> 'w SendStrategyImpl \<Rightarrow> Notification \<Rightarrow> ('w, SendResp \<times> go_error option) io" where
  "DefaultSendService_AsyncSend env sendStrategy n =
     io_bind (io_get (ev_now env)) (\<lambda>now.
     case Notification_Validate n now of
       Some err \<Rightarrow> io_return (zero_SendResult, Some err)
     | None \<Rightarrow>
         io_bind (io_nextId env n) (\<lambda>iden.
         let n = n\<lparr>n_Id := iden\<rparr> in
         io_bind (io_get (ev_now env)) (\<lambda>now.
         st_Send sendStrategy (Notification_ReplaceAsyncImmediate n now))))"

text \<open>The loop of \<open>BatchSend\<close>: the id is set in the copy and lost.\<close>

fun BatchSend_loop :: "'w env \<Rightarrow> Notification list \<Rightarrow> ('w, go_error option) io" where
  "BatchSend_loop env [] = io_return None"
| "BatchSend_loop env (n # ns) =
     io_bind (io_get (ev_now env)) (\<lambda>now.
     case Notification_Validate n now of
       Some err \<Rightarrow> io_return (Some err)
     | None \<Rightarrow> io_bind (io_nextId env n) (\<lambda>iden.
         let n = n\<lparr>n_Id := iden\<rparr> in BatchSend_loop env ns))"

definition DefaultSendService_BatchSend ::
    "'w env \<Rightarrow> 'w SendStrategyImpl \<Rightarrow> Notification list \<Rightarrow> ('w, BatchSendResp \<times> go_error option) io" where
  "DefaultSendService_BatchSend env sendStrategy ns =
     (if length ns = 0 then io_return ([], Some (Wrapped ErrInvalidParam ''no notifications to send''))
      else io_bind (BatchSend_loop env ns) (\<lambda>err.
        case err of
          Some e \<Rightarrow> io_return ([], Some e)
        | None \<Rightarrow>
            io_bind (st_BatchSend sendStrategy ns) (\<lambda>(sendResp, err).
            case err of
              Some e \<Rightarrow> io_return ([], Some (WrappedBoth ErrFailedSendNotification e))
            | None \<Rightarrow> io_return (sendResp, None))))"

fun BatchAsyncSend_loop :: "'w env \<Rightarrow> Notification list \<Rightarrow> u64 list \<Rightarrow> ('w, go_error + u64 list) io" where
  "BatchAsyncSend_loop env [] ids = io_return (Inr ids)"
| "BatchAsyncSend_loop env (n # ns) ids =
     io_bind (io_get (ev_now env)) (\<lambda>now.
     case Notification_Validate n now of
       Some err \<Rightarrow> io_return (Inl err)
     | None \<Rightarrow> io_bind (io_nextId env n) (\<lambda>iden.
         let n = n\<lparr>n_Id := iden\<rparr> in
         io_bind (io_get (ev_now env)) (\<lambda>now.
         let n = Notification_ReplaceAsyncImmediate n now in
         BatchAsyncSend_loop env ns (ids @ [iden]))))"

fun strategyGroup_loop ::
    "Notification list \<Rightarrow> (string \<times> Notification list) list \<Rightarrow> (string \<times> Notification list) list" where
  "strategyGroup_loop [] m = m"
| "strategyGroup_loop (n # ns) m =
     (let strategy = ss_Type (n_StrategyConfig n);
          old = (case map_of m strategy of None \<Rightarrow> [] | Some g \<Rightarrow> g)
      in strategyGroup_loop ns (AList.update strategy (old @ [n]) m))"

fun send_groups ::
    "'w SendStrategyImpl \<Rightarrow> (string \<times> Notification list) list \<Rightarrow> string list \<Rightarrow> go_error option
      \<Rightarrow> ('w, go_error option) io" where
  "send_groups sendStrategy strategyGroup [] err = io_return err"
| "send_groups sendStrategy strategyGroup (k # order) err =
     (case map_of strategyGroup k of
        None \<Rightarrow> send_groups sendStrategy strategyGroup order err
      | Some notifications \<Rightarrow>
          io_bind (st_BatchSend sendStrategy notifications) (\<lambda>(_, err').
          send_groups sendStrategy strategyGroup order
            (if err = None then map_option (WrappedBoth ErrFailedSendNotification) err' else err)))"

definition DefaultSendService_BatchAsyncSend ::
    "'w env \<Rightarrow> 'w SendStrategyImpl \<Rightarrow> string list \<Rightarrow> Notification list
      \<Rightarrow> ('w, BatchAsyncSendResp \<times> go_error option) io" where
  "DefaultSendService_BatchAsyncSend env sendStrategy order ns =
     (if length ns = 0 then io_return ([], Some (Wrapped ErrInvalidParam ''no notifications to send''))
      else io_bind (BatchAsyncSend_loop env ns []) (\<lambda>r.
        case r of
          Inl e \<Rightarrow> io_return ([], Some e)
        | Inr ids \<Rightarrow>
            io_bind (send_groups sendStrategy (strategyGroup_loop ns []) order None) (\<lambda>err.
            if err \<noteq> None then io_return ([], err) else io_return (ids, None))))"

text \<open>The service as the value it is used as; \<open>orderOf\<close> is the order of the goroutines of a batch.\<close>

record 'w SendService =
  svc_Send :: "Notification \<Rightarrow> ('w, SendResp \<times> go_error option) io"
  svc_AsyncSend :: "Notification \<Rightarrow> ('w, SendResp \<times> go_error option) io"
  svc_BatchSend :: "Notification list \<Rightarrow> ('w, BatchSendResp \<times> go_error option) io"
  svc_BatchAsyncSend :: "Notification list \<Rightarrow> ('w, BatchAsyncSendResp \<times> go_error option) io"

definition NewDefaultSendService ::
    "'w env \<Rightarrow> 'w SendStrategyImpl \<Rightarrow> (Notification list \<Rightarrow> string list) \<Rightarrow> 'w SendService" where
  "NewDefaultSendService env sendStrategy orderOf =
     \<lparr>svc_Send = DefaultSendService_Send env sendStrategy,
      svc_AsyncSend = DefaultSendService_AsyncSend env sendStrategy,
      svc_BatchSend = DefaultSendService_BatchSend env sendStrategy,
      svc_BatchAsyncSend = (\<lambda>ns. DefaultSendService_BatchAsyncSend env sendStrategy (orderOf ns) ns)\<rparr>"

section \<open>The loops\<close>

text \<open>The generator is part of the state; setting it does not turn the clock.\<close>

definition generator_laws :: "'w env \<Rightarrow> bool" where
  "generator_laws env \<longleftrightarrow>
     (\<forall>g w. ev_gen env (ev_set_gen env g w) = g \<and> ev_now env (ev_set_gen env g w) = ev_now env w)"

lemma mem_env_generator: "generator_laws mem_env"
  by (simp add: generator_laws_def mem_env_def)

lemma nextId_generator:
  assumes "generator_laws env" "nextId env b k w = (iden, w')"
  shows "iden = snd (NextId (ev_xxh env) (ev_gen env w) (ev_now env w) b k)"
    and "ev_gen env w' = fst (NextId (ev_xxh env) (ev_gen env w) (ev_now env w) b k)"
    and "ev_now env w' = ev_now env w"
  using assms by (auto simp: nextId_def generator_laws_def split: prod.splits)

definition call_of :: "Time \<Rightarrow> Notification \<Rightarrow> Time \<times> u64 \<times> string" where
  "call_of now n = (now, n_BizId n, n_BizKey n)"

lemma BatchAsyncSend_loop_ids:
  assumes "generator_laws env" "BatchAsyncSend_loop env ns ids w = (Inr (Inr ids'), w')"
  shows "ids' = ids @ gen_ids (ev_xxh env) (ev_gen env w) (map (call_of (ev_now env w)) ns) \<and>
    ev_now env w' = ev_now env w \<and> (\<forall>n \<in> set ns. Notification_Validate n (ev_now env w) = None)"
  using assms(2)
proof (induction ns arbitrary: ids w)
  case Nil
  then show ?case by simp
next
  case (Cons n ns)
  obtain iden w1 where i: "nextId env (n_BizId n) (n_BizKey n) w = (iden, w1)" by fastforce
  note g = nextId_generator [OF assms(1) i]
  from Cons.prems i have v: "Notification_Validate n (ev_now env w) = None"
    "BatchAsyncSend_loop env ns (ids @ [iden]) w1 = (Inr (Inr ids'), w')"
    by (auto simp: io_nextId_def Let_def split: option.splits)
  from Cons.IH [OF v(2)] v(1) g show ?case
    by (simp add: call_of_def split: prod.splits)
qed

lemma strategyGroup_loop_spec:
  "map_of (strategyGroup_loop ns m) k =
     (let old = (case map_of m k of None \<Rightarrow> [] | Some g \<Rightarrow> g);
          new = filter (\<lambda>n. ss_Type (n_StrategyConfig n) = k) ns
      in if map_of m k = None \<and> new = [] then None else Some (old @ new))"
proof (induction ns arbitrary: m)
  case Nil
  then show ?case by (auto split: option.splits)
next
  case (Cons n ns)
  show ?case
    by (auto simp: Cons.IH Let_def update_conv' split: option.splits)
qed

lemma send_groups_ok:
  assumes "send_groups st m order err w = (Inr None, w')"
  shows "err = None \<and> (\<exists>rs. io_each (st_BatchSend st) (map (\<lambda>k. the (map_of m k))
      (filter (\<lambda>k. map_of m k \<noteq> None) order)) w = (Inr rs, w') \<and> (\<forall>r \<in> set rs. snd r = None))"
  using assms
proof (induction order arbitrary: err w)
  case Nil
  then show ?case by simp
next
  case (Cons k order)
  show ?case
  proof (cases "map_of m k")
    case None
    with Cons show ?thesis by simp
  next
    case (Some g)
    with Cons.prems obtain r e w1 where r: "st_BatchSend st g w = (Inr (r, e), w1)"
      "send_groups st m order (if err = None then map_option (WrappedBoth ErrFailedSendNotification) e
         else err) w1 = (Inr None, w')"
      by (auto simp: io_bind_eq_Inr)
    from Cons.IH [OF r(2)] obtain rs where rs: "err = None" "e = None"
      "io_each (st_BatchSend st) (map (\<lambda>k. the (map_of m k)) (filter (\<lambda>k. map_of m k \<noteq> None) order)) w1
         = (Inr rs, w')" "\<forall>r \<in> set rs. snd r = None"
      by (auto split: if_splits)
    with Some r(1) show ?thesis by (auto intro!: exI [of _ "(r, e) # rs"])
  qed
qed

section \<open>Properties\<close>

definition send_types :: "Notification list \<Rightarrow> string set" where
  "send_types ns = (\<lambda>n. ss_Type (n_StrategyConfig n)) ` set ns"

definition of_type :: "string \<Rightarrow> Notification list \<Rightarrow> Notification list" where
  "of_type k ns = filter (\<lambda>n. ss_Type (n_StrategyConfig n) = k) ns"

lemma groups_of_types:
  assumes "set order = send_types ns"
  shows "map (\<lambda>k. the (map_of (strategyGroup_loop ns []) k))
      (filter (\<lambda>k. map_of (strategyGroup_loop ns []) k \<noteq> None) order) = map (\<lambda>k. of_type k ns) order"
proof -
  have "map_of (strategyGroup_loop ns []) k = Some (of_type k ns)" if "k \<in> set order" for k
    using that assms by (auto simp: strategyGroup_loop_spec of_type_def send_types_def filter_empty_conv)
  then show ?thesis by (simp cong: map_cong)
qed

lemma BatchAsyncSend_parts:
  assumes "generator_laws env" "set order = send_types ns"
    and "DefaultSendService_BatchAsyncSend env st order ns w = (Inr (ids, None), w')"
  shows "ns \<noteq> [] \<and> (\<forall>n \<in> set ns. Notification_Validate n (ev_now env w) = None) \<and>
     ids = gen_ids (ev_xxh env) (ev_gen env w) (map (call_of (ev_now env w)) ns) \<and>
     (\<exists>rs w1. io_each (st_BatchSend st) (map (\<lambda>k. of_type k ns) order) w1 = (Inr rs, w') \<and>
       (\<forall>r \<in> set rs. snd r = None))"
proof -
  from assms(3) obtain r w1 where r: "ns \<noteq> []" "BatchAsyncSend_loop env ns [] w = (Inr r, w1)"
    "(case r of Inl e \<Rightarrow> io_return ([], Some e)
      | Inr ids \<Rightarrow> io_bind (send_groups st (strategyGroup_loop ns []) order None) (\<lambda>err.
          if err \<noteq> None then io_return ([], err) else io_return (ids, None))) w1 = (Inr (ids, None), w')"
    by (auto simp: DefaultSendService_BatchAsyncSend_def io_bind_eq_Inr split: if_splits)
  then have l: "ns \<noteq> []" "BatchAsyncSend_loop env ns [] w = (Inr (Inr ids), w1)"
    "send_groups st (strategyGroup_loop ns []) order None w1 = (Inr None, w')"
    by (cases r; auto simp: io_bind_eq_Inr split: if_splits)+
  from send_groups_ok [OF l(3), unfolded groups_of_types [OF assms(2)]] l(1)
    BatchAsyncSend_loop_ids [OF assms(1) l(2)] show ?thesis by auto
qed

text \<open>A batch accepted for asynchronous sending: every notification was valid, the answer is one
  generated id per notification, in their order; but what the send strategy is given, group by group,
  are the notifications of the caller, without these ids and without the replaced strategy.\<close>

theorem BatchAsyncSend_originals:
  assumes "generator_laws env" "set order = send_types ns"
    and "DefaultSendService_BatchAsyncSend env st order ns w = (Inr (ids, None), w')"
  shows "ns \<noteq> [] \<and> (\<forall>n \<in> set ns. Notification_Validate n (ev_now env w) = None) \<and>
     ids = gen_ids (ev_xxh env) (ev_gen env w) (map (call_of (ev_now env w)) ns) \<and>
     (\<exists>rs w1. io_each (st_BatchSend st) (map (\<lambda>k. of_type k ns) order) w1 = (Inr rs, w') \<and>
       (\<forall>r \<in> set rs. snd r = None))"
  using BatchAsyncSend_parts [OF assms] .

text \<open>A strategy that records what it is given.\<close>

record sent_world =
  sw_gen :: Generator
  sw_sent :: "Notification list"

definition sent_env :: "sent_world env" where
  "sent_env = \<lparr>ev_now = (\<lambda>_. unix_epoch + 1735689600123456789), ev_gen = sw_gen,
     ev_set_gen = (\<lambda>g w. w\<lparr>sw_gen := g\<rparr>), ev_xxh = (\<lambda>s. word_of_nat (length s))\<rparr>"

definition sent_strategy :: "sent_world SendStrategyImpl" where
  "sent_strategy = \<lparr>st_Send = (\<lambda>n w. (Inr (zero_SendResult, None), w\<lparr>sw_sent := sw_sent w @ [n]\<rparr>)),
     st_BatchSend = (\<lambda>ns w. (Inr ([], None), w\<lparr>sw_sent := sw_sent w @ ns\<rparr>))\<rparr>"

lemma sent_env_generator: "generator_laws sent_env"
  by (simp add: generator_laws_def sent_env_def)

lemma BatchAsyncSend_originals_witness:
  "\<exists>ids w'. DefaultSendService_BatchAsyncSend sent_env sent_strategy [SendStrategyImmediate]
       [sample_notification] \<lparr>sw_gen = NewGenerator, sw_sent = []\<rparr> = (Inr (ids, None), w') \<and> length ids = 1"
proof -
  let ?w = "\<lparr>sw_gen = NewGenerator, sw_sent = []\<rparr>"
  have types: "set [SendStrategyImmediate] = send_types [sample_notification]"
    by (simp add: send_types_def sample_notification_def zero_StrategyConf_def)
  have type: "ss_Type (n_StrategyConfig sample_notification) = SendStrategyImmediate"
    by (simp add: sample_notification_def)
  have "\<exists>ids w'. DefaultSendService_BatchAsyncSend sent_env sent_strategy [SendStrategyImmediate]
       [sample_notification] ?w = (Inr (ids, None), w')"
    by (simp add: DefaultSendService_BatchAsyncSend_def sample_notification_valid io_nextId_def Let_def
        type sent_strategy_def)
  then obtain ids w' where r: "DefaultSendService_BatchAsyncSend sent_env sent_strategy
      [SendStrategyImmediate] [sample_notification] ?w = (Inr (ids, None), w')" by blast
  from BatchAsyncSend_originals [OF sent_env_generator types r] have "length ids = 1" by simp
  with r show ?thesis by (intro exI conjI)
qed

text \<open>So a batch of immediate notifications handed in for asynchronous sending is sent at once: over
  the dispatcher, what runs is the batch of the immediate strategy, on the notifications themselves.\<close>

theorem BatchAsyncSend_immediate_sent:
  assumes "generator_laws env" "\<forall>n \<in> set ns. Notification_IsImmediate n"
    and "DefaultSendService_BatchAsyncSend env (NewDispatcher env ds iss) [SendStrategyImmediate] ns w
       = (Inr (ids, None), w')"
  shows "\<exists>results created sent w1 w2. sent = map (\<lambda>n. Notification_SetSendTime n (ev_now env w1)) ns \<and>
     repo_BatchCreate (iss_notifRepo iss) sent w1 = (Inr (created, None), w2) \<and>
     snd_BatchSend (iss_sender iss) created w2 = (Inr (results, None), w')"
proof -
  have "ns \<noteq> []" using assms(3) by (auto simp: DefaultSendService_BatchAsyncSend_def)
  then have types: "set [SendStrategyImmediate] = send_types ns"
    using assms(2) by (cases ns) (auto simp: send_types_def Notification_IsImmediate_def)
  from BatchAsyncSend_parts [OF assms(1) types assms(3)]
  obtain n ms r w1 where n: "ns = n # ms"
    and r: "st_BatchSend (NewDispatcher env ds iss) (of_type SendStrategyImmediate ns) w1 = (Inr (r, None), w')"
    by (cases ns) (auto simp: io_bind_eq_Inr)
  have "of_type SendStrategyImmediate ns = ns"
    using assms(2) by (simp add: of_type_def Notification_IsImmediate_def)
  with r n have "ImmediateSendStrategy_BatchSend env iss ns w1 = (Inr (r, None), w')"
    using assms(2) by (simp add: NewDispatcher_def Dispatcher_BatchSend_first Let_def)
  with n show ?thesis
    by (auto simp: ImmediateSendStrategy_BatchSend_def io_bind_eq_Inr split: if_splits)
qed

definition sent_immediate :: "sent_world ImmediateSendStrategy" where
  "sent_immediate = \<lparr>iss_notifRepo = sample_repo,
     iss_sender = \<lparr>snd_Send = (\<lambda>n w. (Inr (zero_SendResult, None), w\<lparr>sw_sent := sw_sent w @ [n]\<rparr>)),
       snd_BatchSend = (\<lambda>ns w. (Inr ([], None), w\<lparr>sw_sent := sw_sent w @ ns\<rparr>))\<rparr>\<rparr>"

definition sent_default :: "go_error option \<Rightarrow> sent_world DefaultSendStrategy" where
  "sent_default err = \<lparr>dss_notifRepo = sample_repo\<lparr>repo_Create := (\<lambda>n. io_return (n, err))\<rparr>,
     dss_bizConfRepo = \<lparr>bcr_GetById = (\<lambda>_. io_return (Inl ErrBizConfNotFound))\<rparr>\<rparr>"

lemma BatchAsyncSend_immediate_sent_witness:
  "\<exists>ids w' sent (w1 :: sent_world). DefaultSendService_BatchAsyncSend sent_env
       (NewDispatcher sent_env (sent_default None) sent_immediate)
       [SendStrategyImmediate] [sample_notification] \<lparr>sw_gen = NewGenerator, sw_sent = []\<rparr> = (Inr (ids, None), w') \<and>
     length sent = 1 \<and> sw_sent w' = sw_sent w1 @ sent"
proof -
  let ?w = "\<lparr>sw_gen = NewGenerator, sw_sent = []\<rparr>" and ?st = "NewDispatcher sent_env (sent_default None) sent_immediate"
  have type: "ss_Type (n_StrategyConfig sample_notification) = SendStrategyImmediate"
    by (simp add: sample_notification_def)
  have "\<exists>ids w'. DefaultSendService_BatchAsyncSend sent_env ?st [SendStrategyImmediate]
       [sample_notification] ?w = (Inr (ids, None), w')"
    by (simp add: DefaultSendService_BatchAsyncSend_def sample_notification_valid io_nextId_def Let_def
        type NewDispatcher_def Dispatcher_BatchSend_first sample_notification_immediate
        ImmediateSendStrategy_BatchSend_def sent_immediate_def sample_repo_def)
  then obtain ids w' where r: "DefaultSendService_BatchAsyncSend sent_env ?st
      [SendStrategyImmediate] [sample_notification] ?w = (Inr (ids, None), w')" by blast
  from BatchAsyncSend_immediate_sent [OF sent_env_generator _ r]
  obtain w1 where "sw_sent w' = sw_sent w1 @ [Notification_SetSendTime sample_notification (ev_now sent_env w1)]"
    by (auto simp: sample_notification_immediate sent_immediate_def sample_repo_def)
  moreover have "length [Notification_SetSendTime sample_notification (ev_now sent_env w1)] = 1" by simp
  ultimately show ?thesis using r by (intro exI conjI)
qed

lemma NewDispatcher_Send:
  "st_Send (NewDispatcher env ds iss) n =
     (if Notification_IsImmediate n then ImmediateSendStrategy_Send env iss n
      else DefaultSendStrategy_Send env ds n)"
  by (simp add: NewDispatcher_def Dispatcher_Send_choice Let_def)

text \<open>Over the dispatcher, \<open>AsyncSend\<close> never sends: a valid notification, immediate or not, is given
  the next id of the generator and stored by the default strategy, an immediate one with the minute
  from the call on as its deadline; an invalid one is refused and nothing has changed.\<close>

theorem AsyncSend_deferred:
  assumes "generator_laws env"
  shows "case Notification_Validate n (ev_now env w) of
     Some err \<Rightarrow> DefaultSendService_AsyncSend env (NewDispatcher env ds iss) n w
       = (Inr (zero_SendResult, Some err), w)
   | None \<Rightarrow> \<exists>n' w1. DefaultSendService_AsyncSend env (NewDispatcher env ds iss) n w
         = DefaultSendStrategy_Send env ds n' w1 \<and>
       n_Id n' = snd (NextId (ev_xxh env) (ev_gen env w) (ev_now env w) (n_BizId n) (n_BizKey n)) \<and>
       ev_now env w1 = ev_now env w \<and>
       n'\<lparr>n_Id := n_Id n, n_StrategyConfig := n_StrategyConfig n\<rparr> = n \<and>
       (if Notification_IsImmediate n
        then (\<forall>t. SendStrategyConf_CalcTimeWindow (n_StrategyConfig n') t = (t, ev_now env w + 60000000000))
        else n_StrategyConfig n' = n_StrategyConfig n)"
proof (cases "Notification_Validate n (ev_now env w)")
  case (Some err)
  then show ?thesis by (simp add: DefaultSendService_AsyncSend_def)
next
  case None
  obtain iden w1 where i: "nextId env (n_BizId n) (n_BizKey n) w = (iden, w1)" by fastforce
  note g = nextId_generator [OF assms i]
  let ?n = "Notification_ReplaceAsyncImmediate (n\<lparr>n_Id := iden\<rparr>) (ev_now env w)"
  have "\<not> Notification_IsImmediate ?n"
    by (simp add: Notification_ReplaceAsyncImmediate_def Notification_IsImmediate_def SendStrategy_defs)
  with None i g(3) have "DefaultSendService_AsyncSend env (NewDispatcher env ds iss) n w
      = DefaultSendStrategy_Send env ds ?n w1"
    by (simp add: DefaultSendService_AsyncSend_def io_nextId_def Let_def NewDispatcher_Send)
  with None g show ?thesis
    by (auto intro!: exI [of _ ?n] exI [of _ w1]
        simp: Notification_ReplaceAsyncImmediate_def Notification_IsImmediate_def
          SendStrategyConf_CalcTimeWindow_def SendStrategy_defs Time_Add_durations)
qed

lemma AsyncSend_deferred_witness:
  "\<exists>n' w1. DefaultSendService_AsyncSend sent_env (NewDispatcher sent_env (sent_default None) sent_immediate)
       sample_notification \<lparr>sw_gen = NewGenerator, sw_sent = []\<rparr>
     = DefaultSendStrategy_Send sent_env (sent_default None) n' w1"
  using AsyncSend_deferred [OF sent_env_generator, where n = sample_notification
      and w = "\<lparr>sw_gen = NewGenerator, sw_sent = []\<rparr>" and ds = "sent_default None" and iss = sent_immediate]
  by (auto simp: sample_notification_valid)

text \<open>\<open>Send\<close> of an immediate notification succeeds only if it could not be stored: the repository
  refused it with an error, the sender was given it all the same, with the fresh id and the window of
  the call, and it is the sender's answer that is returned.\<close>

theorem Send_immediate_success:
  assumes "generator_laws env" "Notification_IsImmediate n"
    and "DefaultSendService_Send env (NewDispatcher env ds iss) n w = (Inr (resp, None), w')"
  shows "\<exists>n' created e w1 w2.
     n' = Notification_SetSendTime (n\<lparr>n_Id := snd (NextId (ev_xxh env) (ev_gen env w) (ev_now env w)
            (n_BizId n) (n_BizKey n))\<rparr>) (ev_now env w) \<and>
     repo_Create (iss_notifRepo iss) n' w1 = (Inr (created, Some e), w2) \<and>
     snd_Send (iss_sender iss) n' w2 = (Inr (resp, None), w')"
proof -
  obtain iden w1 where i: "nextId env (n_BizId n) (n_BizKey n) w = (iden, w1)" by fastforce
  note g = nextId_generator [OF assms(1) i]
  let ?n = "n\<lparr>n_Id := iden\<rparr>"
  have imm: "Notification_IsImmediate ?n" using assms(2) by (simp add: Notification_IsImmediate_def)
  from assms(3) i imm have s: "ImmediateSendStrategy_Send env iss ?n w1 = (Inr (resp, None), w')"
    by (auto simp: DefaultSendService_Send_def io_nextId_def Let_def NewDispatcher_Send io_bind_eq_Inr
        split: option.splits)
  then obtain created err w2 where
    c: "repo_Create (iss_notifRepo iss) (Notification_SetSendTime ?n (ev_now env w1)) w1 = (Inr (created, err), w2)"
    by (auto simp: ImmediateSendStrategy_Send_def io_bind_eq_Inr Let_def)
  with s obtain e where "err = Some e"
    "snd_Send (iss_sender iss) (Notification_SetSendTime ?n (ev_now env w1)) w2 = (Inr (resp, None), w')"
    by (cases err) (auto simp: ImmediateSendStrategy_Send_def Let_def option_Is_def)
  with c g show ?thesis by auto
qed

lemma Send_immediate_success_witness:
  "\<exists>e n' w2 created. repo_Create (iss_notifRepo (sent_immediate
       \<lparr>iss_notifRepo := sample_repo\<lparr>repo_Create := (\<lambda>n. io_return (n, Some (External 1)))\<rparr>\<rparr>)) n' w2
     = (Inr (created, Some e), w2)"
proof -
  let ?is = "sent_immediate
       \<lparr>iss_notifRepo := sample_repo\<lparr>repo_Create := (\<lambda>n. io_return (n, Some (External 1)))\<rparr>\<rparr>"
  let ?w = "\<lparr>sw_gen = NewGenerator, sw_sent = []\<rparr>"
  have "\<exists>resp w'. DefaultSendService_Send sent_env (NewDispatcher sent_env (sent_default None) ?is)
      sample_notification ?w = (Inr (resp, None), w')"
    using sample_notification_immediate
    by (simp add: DefaultSendService_Send_def sample_notification_valid io_nextId_def Let_def
        NewDispatcher_Send Notification_IsImmediate_def ImmediateSendStrategy_Send_def sent_immediate_def)
  then obtain resp w' where r: "DefaultSendService_Send sent_env
      (NewDispatcher sent_env (sent_default None) ?is) sample_notification ?w = (Inr (resp, None), w')" by blast
  from Send_immediate_success [OF sent_env_generator sample_notification_immediate r]
  show ?thesis by (auto simp: sent_immediate_def)
qed

end
