(* ===== verification/Balancers.thy ===== *)
theory Balancers
  imports Effect Ctx Snowflake
begin

text \<open>
  \<open>internal/pkg/client/balancer\<close>: how a call picks one of the ready connections of a service. A
  connection is a value of type \<open>'cc\<close>; \<open>ReadySCs\<close> is the list of the connections with the addresses they
  lead to, in the order in which Go iterates the map. This theory holds the simple balancers (random,
  round robin, weighted random). A random number is drawn by the argument \<open>rnd\<close> of a pick, a function of
  the bound the library is asked for.
\<close>

record SubConnInfo =
  sci_Addr :: string
  sci_Attributes :: "string \<Rightarrow> any option"

type_synonym 'cc PickerBuildInfo = "('cc \<times> SubConnInfo) list"

definition AttrWeight :: string where "AttrWeight = ''attr_weight''"
definition AttrReadWeight :: string where "AttrReadWeight = ''attr_read_weight''"
definition AttrWriteWeight :: string where "AttrWriteWeight = ''attr_write_weight''"
definition AttrGroup :: string where "AttrGroup = ''attr_group''"
definition AttrNode :: string where "AttrNode = ''attr_node''"

lemmas Attr_defs = AttrWeight_def AttrReadWeight_def AttrWriteWeight_def AttrGroup_def AttrNode_def

text \<open>\<open>weight, _ := Attributes.Value(AttrWeight).(uint32)\<close>: zero when the assertion fails.\<close>

definition attr_weight :: "SubConnInfo \<Rightarrow> u32" where
  "attr_weight info = fst (as_uint32 (sci_Attributes info AttrWeight))"

section \<open>Random\<close>

record 'cc RandomBalancer =
  rb_nodes :: "'cc list"
  rb_length :: int

text \<open>The field \<open>length\<close> is not set.\<close>

definition RandomBalancerBuilder_Build :: "'cc PickerBuildInfo \<Rightarrow> 'cc RandomBalancer" where
  "RandomBalancerBuilder_Build info = \<lparr>rb_nodes = map fst info, rb_length = 0\<rparr>"

definition RandomBalancer_Pick :: "(int \<Rightarrow> int) \<Rightarrow> 'cc RandomBalancer \<Rightarrow> (go_error + 'cc) run" where
  "RandomBalancer_Pick rnd p =
     (if rb_length p = 0 then Inr (Inl ErrNoSubConnAvailable)
      else run_bind (index_at (rb_nodes p) (rnd (rb_length p))) (\<lambda>cc. Inr (Inr cc)))"

section \<open>Hash\<close>

text \<open>The hash balancer is not implemented.\<close>

definition HashBalancerBuilder_Build :: "'cc PickerBuildInfo \<Rightarrow> 'picker run" where
  "HashBalancerBuilder_Build info = Inl (PanicMessage ''implement me'')"

definition HashBalancer_Pick :: "(go_error + 'cc) run" where
  "HashBalancer_Pick = Inl (PanicMessage ''implement me'')"

section \<open>Round robin\<close>

record 'cc RoundRobinBalancer =
  rr_ccs :: "'cc list"
  rr_index :: u64
  rr_length :: u64

definition RoundRobinBalancerBuilder_Build :: "'cc PickerBuildInfo \<Rightarrow> 'cc RoundRobinBalancer" where
  "RoundRobinBalancerBuilder_Build info =
     (let ccs = map fst info
      in \<lparr>rr_ccs = ccs, rr_index = 0, rr_length = word_of_nat (length ccs)\<rparr>)"

definition RoundRobinBalancer_Pick ::
    "'cc RoundRobinBalancer \<Rightarrow> (go_error + 'cc) run \<times> 'cc RoundRobinBalancer" where
  "RoundRobinBalancer_Pick p =
     (if length (rr_ccs p) = 0 then (Inr (Inl ErrNoSubConnAvailable), p)
      else let p' = p\<lparr>rr_index := rr_index p + 1\<rparr>;
               index = rr_index p'
           in (run_bind (word_rem (index - 1) (rr_length p)) (\<lambda>i.
               run_bind (index_at (rr_ccs p) (uint i)) (\<lambda>cc. Inr (Inr cc))), p'))"

fun RoundRobin_picks ::
    "nat \<Rightarrow> 'cc RoundRobinBalancer \<Rightarrow> (go_error + 'cc) run list" where
  "RoundRobin_picks 0 p = []"
| "RoundRobin_picks (Suc k) p =
     (case RoundRobinBalancer_Pick p of (r, p') \<Rightarrow> r # RoundRobin_picks k p')"

section \<open>Weighted random\<close>

record 'cc weightRandomNode =
  wr_cc :: 'cc
  wr_weight :: u32

record 'cc WeightRandomBalancer =
  wrb_nodes :: "'cc weightRandomNode list"
  wrb_totalWeight :: u32

definition WeightRandomBalancerBuilder_Build :: "'cc PickerBuildInfo \<Rightarrow> 'cc WeightRandomBalancer" where
  "WeightRandomBalancerBuilder_Build info =
     \<lparr>wrb_nodes = map (\<lambda>(cc, ccInfo). \<lparr>wr_cc = cc, wr_weight = attr_weight ccInfo\<rparr>) info,
      wrb_totalWeight = foldl (\<lambda>t (_, ccInfo). t + attr_weight ccInfo) 0 info\<rparr>"

fun WeightRandom_loop :: "'cc weightRandomNode list \<Rightarrow> int \<Rightarrow> (go_error + 'cc) run" where
  "WeightRandom_loop [] target = Inl (PanicMessage ''[jotify] unreachable'')"
| "WeightRandom_loop (node # nodes) target =
     (let target = target - uint (wr_weight node)
      in if target < 0 then Inr (Inr (wr_cc node)) else WeightRandom_loop nodes target)"

definition WeightRandomBalancer_Pick ::
    "(int \<Rightarrow> int) \<Rightarrow> 'cc WeightRandomBalancer \<Rightarrow> (go_error + 'cc) run" where
  "WeightRandomBalancer_Pick rnd p =
     (if length (wrb_nodes p) = 0 then Inr (Inl ErrNoSubConnAvailable)
      else WeightRandom_loop (wrb_nodes p) (rnd (uint (wrb_totalWeight p) + 1)))"

section \<open>Properties\<close>

text \<open>A random balancer never picks: its length stays zero, so every pick of a service with ready
  connections is refused as if there were none.\<close>

theorem Random_never_picks:
  "RandomBalancer_Pick rnd (RandomBalancerBuilder_Build info) = Inr (Inl ErrNoSubConnAvailable)"
  by (simp add: RandomBalancer_Pick_def RandomBalancerBuilder_Build_def)

lemma RoundRobin_Pick_at:
  assumes "rr_ccs p \<noteq> []" "rr_length p = word_of_nat (length (rr_ccs p))" "length (rr_ccs p) < 2 ^ 64"
    and "rr_index p = word_of_nat j" "j < 2 ^ 64"
  shows "RoundRobinBalancer_Pick p =
     (Inr (Inr (rr_ccs p ! (j mod length (rr_ccs p)))), p\<lparr>rr_index := word_of_nat (Suc j)\<rparr>)"
proof -
  let ?n = "length (rr_ccs p)"
  have n: "unat (word_of_nat ?n :: u64) = ?n" using assms(3) by (simp add: unsigned_of_nat take_bit_nat_eq_self)
  have j: "unat (word_of_nat j :: u64) = j" using assms(5) by (simp add: unsigned_of_nat take_bit_nat_eq_self)
  have "(word_of_nat ?n :: u64) \<noteq> 0" using n assms(1) by (metis length_0_conv unat_0)
  then have r: "word_rem (rr_index p + 1 - 1) (rr_length p) = Inr (word_of_nat j mod word_of_nat ?n)"
    using assms(2,4) by simp
  have "uint (word_of_nat j mod word_of_nat ?n :: u64) = int (j mod ?n)"
    by (metis n j unat_mod_distrib uint_nat)
  moreover have "j mod ?n < ?n" using assms(1) by simp
  ultimately show ?thesis
    using assms(1,4) r by (simp add: RoundRobinBalancer_Pick_def Let_def add.commute)
qed

lemma RoundRobin_picks_from:
  assumes "rr_ccs p \<noteq> []" "rr_length p = word_of_nat (length (rr_ccs p))" "length (rr_ccs p) < 2 ^ 64"
    and "rr_index p = word_of_nat j" "j + k \<le> 2 ^ 64"
  shows "RoundRobin_picks k p = map (\<lambda>i. Inr (Inr (rr_ccs p ! (i mod length (rr_ccs p))))) [j ..< j + k]"
  using assms
proof (induction k arbitrary: p j)
  case 0
  then show ?case by simp
next
  case (Suc k)
  have p: "RoundRobinBalancer_Pick p =
     (Inr (Inr (rr_ccs p ! (j mod length (rr_ccs p)))), p\<lparr>rr_index := word_of_nat (Suc j)\<rparr>)"
    using Suc.prems by (intro RoundRobin_Pick_at) auto
  have "RoundRobin_picks k (p\<lparr>rr_index := word_of_nat (Suc j)\<rparr>)
      = map (\<lambda>i. Inr (Inr (rr_ccs p ! (i mod length (rr_ccs p))))) [Suc j ..< Suc j + k]"
    using Suc.IH [of "p\<lparr>rr_index := word_of_nat (Suc j)\<rparr>" "Suc j"] Suc.prems by simp
  with p show ?case by (simp add: upt_conv_Cons del: upt_Suc)
qed

text \<open>Round robin is fair: of the first \<open>k\<close> picks, up to the range of its counter, the \<open>i\<close>-th takes
  connection \<open>i mod n\<close>; whole rounds take every connection equally often.\<close>

theorem RoundRobin_fair:
  assumes "info \<noteq> []" "length info < 2 ^ 64" "k \<le> 2 ^ 64"
  shows "RoundRobin_picks k (RoundRobinBalancerBuilder_Build info)
       = map (\<lambda>i. Inr (Inr (fst (info ! (i mod length info))))) [0 ..< k] \<and>
     (\<forall>rounds. k = rounds * length info \<longrightarrow>
        (\<forall>c < length info. card {i \<in> {..<k}. i mod length info = c} = rounds))"
proof
  let ?p = "RoundRobinBalancerBuilder_Build info" and ?n = "length info"
  have b: "rr_ccs ?p = map fst info" "rr_length ?p = word_of_nat ?n" "rr_index ?p = word_of_nat 0"
    by (simp_all add: RoundRobinBalancerBuilder_Build_def Let_def)
  have "rr_ccs ?p \<noteq> []" using assms(1) b(1) by simp
  then have "RoundRobin_picks k ?p
      = map (\<lambda>i. Inr (Inr (rr_ccs ?p ! (i mod length (rr_ccs ?p))))) [0 ..< 0 + k]"
    using RoundRobin_picks_from [of ?p 0 k] b assms(2,3) by simp
  also have "\<dots> = map (\<lambda>i. Inr (Inr (fst (info ! (i mod ?n))))) [0 ..< k]"
    using assms(1) b(1) by (intro map_cong) simp_all
  finally show "RoundRobin_picks k ?p = map (\<lambda>i. Inr (Inr (fst (info ! (i mod ?n))))) [0 ..< k]" .
  show "\<forall>rounds. k = rounds * ?n \<longrightarrow> (\<forall>c < ?n. card {i \<in> {..<k}. i mod ?n = c} = rounds)"
  proof (intro allI impI)
    fix rounds c assume k: "k = rounds * ?n" and c: "c < ?n"
    have "{i \<in> {..<k}. i mod ?n = c} = (\<lambda>r. r * ?n + c) ` {..<rounds}"
    proof (intro equalityI subsetI)
      fix i assume "i \<in> {i \<in> {..<k}. i mod ?n = c}"
      then have i: "i < rounds * ?n" "i mod ?n = c" using k by auto
      have "i = (i div ?n) * ?n + c" using i(2) by (metis div_mult_mod_eq)
      moreover have "i div ?n < rounds" using i(1) by (simp add: less_mult_imp_div_less)
      ultimately show "i \<in> (\<lambda>r. r * ?n + c) ` {..<rounds}" by blast
    next
      fix i assume "i \<in> (\<lambda>r. r * ?n + c) ` {..<rounds}"
      then obtain r where r: "r < rounds" "i = r * ?n + c" by blast
      have "r * ?n + c < Suc r * ?n" using c by simp
      also have "\<dots> \<le> k" unfolding k using r(1) by (intro mult_le_mono1) simp
      finally show "i \<in> {i \<in> {..<k}. i mod ?n = c}" using r(2) c by simp
    qed
    moreover have "inj_on (\<lambda>r. r * ?n + c) {..<rounds}" using assms(1) by (simp add: inj_on_def)
    ultimately show "card {i \<in> {..<k}. i mod ?n = c} = rounds" by (simp add: card_image)
  qed
qed

definition sample_info :: "nat PickerBuildInfo" where
  "sample_info = map (\<lambda>(i, w). (i, \<lparr>sci_Addr = ''a'', sci_Attributes = [AttrWeight \<mapsto> AnyUint32 w]\<rparr>))
     [(10, 1), (20, 2), (30, 3)]"

lemma RoundRobin_fair_witness:
  "RoundRobin_picks 5 (RoundRobinBalancerBuilder_Build sample_info)
     = map (\<lambda>i. Inr (Inr i)) [10, 20, 30, 10, 20]"
proof -
  have upt: "[0..<5] = [0, 1, 2, 3, 4 :: nat]" by (simp add: upt_rec)
  have info: "sample_info \<noteq> []" "length sample_info = 3" "fst (sample_info ! 0) = 10"
    "fst (sample_info ! 1) = 20" "fst (sample_info ! 2) = 30"
    by (simp_all add: sample_info_def)
  have "RoundRobin_picks 5 (RoundRobinBalancerBuilder_Build sample_info)
      = map (\<lambda>i. Inr (Inr (fst (sample_info ! (i mod length sample_info))))) [0..<5]"
    using RoundRobin_fair [of sample_info 5] info(1,2) by simp
  then show ?thesis unfolding upt info(2) using info by simp
qed

definition info_weight :: "'cc PickerBuildInfo \<Rightarrow> int" where
  "info_weight info = sum_list (map (\<lambda>(cc, ci). uint (attr_weight ci)) info)"

lemma info_weight_simps [simp]:
  "info_weight [] = 0"
  "info_weight ((cc, ci) # info) = uint (attr_weight ci) + info_weight info"
  by (simp_all add: info_weight_def)

lemma info_weight_nonneg [simp]: "0 \<le> info_weight info"
  by (induction info) auto

lemma foldl_weight:
  "uint t + info_weight info < 2 ^ 32 \<Longrightarrow>
   uint (foldl (\<lambda>t (_, ccInfo). t + attr_weight ccInfo) t info) = uint t + info_weight info"
proof (induction info arbitrary: t)
  case Nil
  then show ?case by simp
next
  case (Cons x info)
  obtain cc ci where x: "x = (cc, ci)" by (cases x)
  have "uint t + uint (attr_weight ci) < 2 ^ 32"
    using Cons.prems info_weight_nonneg [of info] unfolding x info_weight_simps by linarith
  then have "uint (t + attr_weight ci) = uint t + uint (attr_weight ci)"
    by (simp add: uint_plus_if')
  with Cons.IH [of "t + attr_weight ci"] Cons.prems x show ?case by (simp add: add.assoc)
qed

lemma WeightRandom_loop_at:
  assumes "0 \<le> r" "r < info_weight info"
  shows "\<exists>pre cc ci post. info = pre @ (cc, ci) # post \<and> info_weight pre \<le> r \<and>
     r < info_weight pre + uint (attr_weight ci) \<and>
     WeightRandom_loop (map (\<lambda>(cc, ccInfo). \<lparr>wr_cc = cc, wr_weight = attr_weight ccInfo\<rparr>) info) r = Inr (Inr cc)"
  using assms
proof (induction info arbitrary: r)
  case Nil
  then show ?case by simp
next
  case (Cons x info)
  obtain cc ci where x: "x = (cc, ci)" by (cases x)
  show ?case
  proof (cases "r < uint (attr_weight ci)")
    case True
    with x Cons.prems show ?thesis
      by (intro exI [of _ "[]"] exI [of _ cc] exI [of _ ci] exI [of _ info]) simp
  next
    case False
    with x Cons.prems obtain pre c' i' post where
      "info = pre @ (c', i') # post" "info_weight pre \<le> r - uint (attr_weight ci)"
      "r - uint (attr_weight ci) < info_weight pre + uint (attr_weight i')"
      "WeightRandom_loop (map (\<lambda>(cc, ccInfo). \<lparr>wr_cc = cc, wr_weight = attr_weight ccInfo\<rparr>) info)
         (r - uint (attr_weight ci)) = Inr (Inr c')"
      using Cons.IH [of "r - uint (attr_weight ci)"] by auto
    with x False show ?thesis
      by (intro exI [of _ "x # pre"] exI [of _ c'] exI [of _ i'] exI [of _ post]) simp
  qed
qed

lemma WeightRandom_loop_beyond:
  "info_weight info \<le> r \<Longrightarrow>
   WeightRandom_loop (map (\<lambda>(cc, ccInfo). \<lparr>wr_cc = cc, wr_weight = attr_weight ccInfo\<rparr>) info) r
     = Inl (PanicMessage ''[jotify] unreachable'')"
proof (induction info arbitrary: r)
  case Nil
  then show ?case by simp
next
  case (Cons x info)
  obtain cc ci where x: "x = (cc, ci)" by (cases x)
  have "uint (attr_weight ci) \<le> r" using Cons.prems info_weight_nonneg [of info]
    unfolding x info_weight_simps by linarith
  with Cons x show ?case by simp
qed

text \<open>C1. The weighted random pick draws one number too many. Of the \<open>W + 1\<close> numbers it may draw, where \<open>W\<close>
  is the sum of the weights, each connection owns as many consecutive ones as its weight, and the last one,
  \<open>W\<close>, ends the loop without a pick: the program panics, always when all weights are zero.\<close>

theorem WeightRandom_intervals:
  assumes "info \<noteq> []" "info_weight info < 2 ^ 32"
    and "rnd (info_weight info + 1) = r" "0 \<le> r" "r < info_weight info + 1"
  shows "if r = info_weight info
    then WeightRandomBalancer_Pick rnd (WeightRandomBalancerBuilder_Build info)
           = Inl (PanicMessage ''[jotify] unreachable'')
    else \<exists>pre cc ci post. info = pre @ (cc, ci) # post \<and> info_weight pre \<le> r \<and>
           r < info_weight pre + uint (attr_weight ci) \<and>
           WeightRandomBalancer_Pick rnd (WeightRandomBalancerBuilder_Build info) = Inr (Inr cc)"
proof -
  let ?ns = "map (\<lambda>(cc, ccInfo). \<lparr>wr_cc = cc, wr_weight = attr_weight ccInfo\<rparr>) info"
  have "uint (foldl (\<lambda>t (_, ccInfo). t + attr_weight ccInfo) 0 info) = info_weight info"
    using foldl_weight [of 0 info] assms(2) by simp
  then have p: "WeightRandomBalancer_Pick rnd (WeightRandomBalancerBuilder_Build info) = WeightRandom_loop ?ns r"
    using assms(1,3) by (simp add: WeightRandomBalancer_Pick_def WeightRandomBalancerBuilder_Build_def)
  show ?thesis
  proof (cases "r = info_weight info")
    case True
    then show ?thesis using WeightRandom_loop_beyond [of info r] by (simp add: p)
  next
    case False
    with assms(5) have "r < info_weight info" by simp
    with False WeightRandom_loop_at [OF assms(4)] show ?thesis unfolding p by auto
  qed
qed

lemma WeightRandom_intervals_witness:
  "WeightRandomBalancer_Pick (\<lambda>n. n - 1) (WeightRandomBalancerBuilder_Build sample_info)
     = Inl (PanicMessage ''[jotify] unreachable'')"
  using WeightRandom_intervals [of sample_info "\<lambda>n. n - 1" 6]
  by (simp add: sample_info_def attr_weight_def as_uint32_def)

end
