(* ===== verification/WeightBalancers.thy ===== *)
theory WeightBalancers
  imports Balancers
begin

text \<open>
  The smooth weighted round robin of \<open>weight_balancer.go\<close> and \<open>dynamic_weight_balancer.go\<close>. A picker holds
  pointers to its nodes; the nodes are in a store, a function from pointers. Every pick adds the efficient
  weight of each node to its current weight, takes the first node with the greatest current weight, and
  subtracts the sum of the efficient weights from it. The weights are \<open>uint32\<close> and wrap around. The callback
  \<open>Done\<close> of a pick is an operation of its own, on the node that was picked.
\<close>

section \<open>The loop of a pick\<close>

text \<open>The fields of a node that a pick reads and writes.\<close>

record 'n weight_fields =
  wf_current :: "'n \<Rightarrow> u32"
  wf_set_current :: "u32 \<Rightarrow> 'n \<Rightarrow> 'n"
  wf_efficient :: "'n \<Rightarrow> u32"

fun pick_loop ::
    "'n weight_fields \<Rightarrow> nat list \<Rightarrow> (nat \<Rightarrow> 'n) \<Rightarrow> u32 \<Rightarrow> nat option \<Rightarrow> (nat \<Rightarrow> 'n) \<times> u32 \<times> nat option" where
  "pick_loop f [] h totalWeight selectedNode = (h, totalWeight, selectedNode)"
| "pick_loop f (node # nodes) h totalWeight selectedNode =
     (let totalWeight = totalWeight + wf_efficient f (h node);
          h = h(node := wf_set_current f (wf_current f (h node) + wf_efficient f (h node)) (h node));
          selectedNode = (case selectedNode of
             None \<Rightarrow> Some node
           | Some s \<Rightarrow> if wf_current f (h s) < wf_current f (h node) then Some node else Some s)
      in pick_loop f nodes h totalWeight selectedNode)"

definition weight_pick ::
    "'n weight_fields \<Rightarrow> nat list \<Rightarrow> (nat \<Rightarrow> 'n) \<Rightarrow> (go_error + nat) \<times> (nat \<Rightarrow> 'n)" where
  "weight_pick f nodes h =
     (if length nodes = 0 then (Inl ErrNoSubConnAvailable, h)
      else case pick_loop f nodes h 0 None of
             (h, totalWeight, None) \<Rightarrow> (Inl ErrNoSubConnAvailable, h)
           | (h, totalWeight, Some s) \<Rightarrow>
               (Inr s, h(s := wf_set_current f (wf_current f (h s) - totalWeight) (h s))))"

section \<open>The two balancers\<close>

text \<open>The node types \<open>weightServiceNode\<close> and \<open>dynamicServiceNode\<close> have the same fields.\<close>

record 'cc weightServiceNode =
  wn_cc :: 'cc
  wn_weight :: u32
  wn_currentWeight :: u32
  wn_efficientWeight :: u32

definition weight_node_fields :: "'cc weightServiceNode weight_fields" where
  "weight_node_fields = \<lparr>wf_current = wn_currentWeight, wf_set_current = (\<lambda>v. wn_currentWeight_update (\<lambda>_. v)),
     wf_efficient = wn_efficientWeight\<rparr>"

record 'cc WeightBalancer =
  wb_nodes :: "nat list"
  wb_store :: "nat \<Rightarrow> 'cc weightServiceNode"

text \<open>The efficient weight is not set by the builder of the weight balancer; it is by that of the dynamic one.\<close>

definition WeightBalancerBuilder_Build :: "'cc PickerBuildInfo \<Rightarrow> 'cc WeightBalancer" where
  "WeightBalancerBuilder_Build info =
     \<lparr>wb_nodes = [0 ..< length info],
      wb_store = (\<lambda>i. case info ! i of (cc, ccInfo) \<Rightarrow>
        let weight = attr_weight ccInfo
        in \<lparr>wn_cc = cc, wn_weight = weight, wn_currentWeight = weight, wn_efficientWeight = 0\<rparr>)\<rparr>"

definition DynamicWeightBalancerBuilder_Build :: "'cc PickerBuildInfo \<Rightarrow> 'cc WeightBalancer" where
  "DynamicWeightBalancerBuilder_Build info =
     \<lparr>wb_nodes = [0 ..< length info],
      wb_store = (\<lambda>i. case info ! i of (cc, ccInfo) \<Rightarrow>
        let weight = attr_weight ccInfo
        in \<lparr>wn_cc = cc, wn_weight = weight, wn_currentWeight = weight, wn_efficientWeight = weight\<rparr>)\<rparr>"

text \<open>\<open>Pick\<close> is the same code in both; its result is the picked node, whose connection is \<open>wn_cc\<close>.\<close>

definition WeightBalancer_Pick :: "'cc WeightBalancer \<Rightarrow> (go_error + nat) \<times> 'cc WeightBalancer" where
  "WeightBalancer_Pick w =
     (case weight_pick weight_node_fields (wb_nodes w) (wb_store w) of
        (r, h) \<Rightarrow> (r, w\<lparr>wb_store := h\<rparr>))"

definition DynamicWeightBalancer_Pick :: "'cc WeightBalancer \<Rightarrow> (go_error + nat) \<times> 'cc WeightBalancer" where
  "DynamicWeightBalancer_Pick p =
     (case weight_pick weight_node_fields (wb_nodes p) (wb_store p) of
        (r, h) \<Rightarrow> (r, p\<lparr>wb_store := h\<rparr>))"

text \<open>\<open>io.EOF\<close> and the status \<open>codes.Unavailable\<close> of an error are parameters.\<close>

definition node_success :: "'cc weightServiceNode \<Rightarrow> 'cc weightServiceNode" where
  "node_success n =
     (let n = n\<lparr>wn_efficientWeight := wn_efficientWeight n + 1\<rparr>
      in n\<lparr>wn_efficientWeight := max (wn_efficientWeight n) (wn_weight n * 2)\<rparr>)"

definition node_decrement :: "'cc weightServiceNode \<Rightarrow> 'cc weightServiceNode" where
  "node_decrement n =
     (if wn_efficientWeight n > 1 then n\<lparr>wn_efficientWeight := wn_efficientWeight n - 1\<rparr> else n)"

definition WeightBalancer_Done ::
    "go_error \<Rightarrow> go_error option \<Rightarrow> 'cc weightServiceNode \<Rightarrow> 'cc weightServiceNode" where
  "WeightBalancer_Done EOF err selectedNode =
     (case err of
        None \<Rightarrow> node_success selectedNode
      | Some e \<Rightarrow>
          if errors_Is e DeadlineExceeded \<or> errors_Is e EOF then node_decrement selectedNode
          else selectedNode)"

definition DynamicWeightBalancer_Done ::
    "go_error \<Rightarrow> (go_error \<Rightarrow> bool) \<Rightarrow> go_error option \<Rightarrow> 'cc weightServiceNode \<Rightarrow> 'cc weightServiceNode" where
  "DynamicWeightBalancer_Done EOF unavailable err selectedNode =
     (case err of
        None \<Rightarrow> node_success selectedNode
      | Some e \<Rightarrow>
          if errors_Is e DeadlineExceeded \<or> errors_Is e EOF then selectedNode\<lparr>wn_efficientWeight := 1\<rparr>
          else if unavailable e then selectedNode\<lparr>wn_efficientWeight := 1\<rparr>
          else node_decrement selectedNode)"

section \<open>What a pick does\<close>

text \<open>The contract of the three fields a pick works on, and what follows from it for distinct nodes.\<close>

locale smooth_nodes =
  fixes f :: "'n weight_fields"
  assumes get_set: "wf_current f (wf_set_current f v n) = v"
    and set_set: "wf_set_current f u (wf_set_current f v n) = wf_set_current f u n"
    and set_get: "wf_set_current f (wf_current f n) n = n"
    and efficient_set: "wf_efficient f (wf_set_current f v n) = wf_efficient f n"
begin

definition bumped :: "'n \<Rightarrow> 'n" where
  "bumped n = wf_set_current f (wf_current f n + wf_efficient f n) n"

definition first_max :: "(nat \<Rightarrow> u32) \<Rightarrow> nat list \<Rightarrow> nat \<Rightarrow> bool" where
  "first_max w nodes s \<longleftrightarrow>
     (\<exists>pre post. nodes = pre @ s # post \<and> (\<forall>r \<in> set pre. w r < w s) \<and> (\<forall>r \<in> set post. w r \<le> w s))"

lemma loop_store:
  assumes "distinct nodes"
  shows "fst (pick_loop f nodes h t sel) = (\<lambda>r. if r \<in> set nodes then bumped (h r) else h r)"
  using assms by (induction nodes arbitrary: h t sel) (auto simp: fun_eq_iff Let_def bumped_def)

lemma loop_total:
  assumes "distinct nodes"
  shows "fst (snd (pick_loop f nodes h t sel)) = t + sum_list (map (\<lambda>r. wf_efficient f (h r)) nodes)"
  using assms
proof (induction nodes arbitrary: h t sel)
  case Nil
  then show ?case by simp
next
  case (Cons n nodes)
  have "(\<lambda>r. wf_efficient f ((h(n := bumped (h n))) r)) = (\<lambda>r. wf_efficient f (h r))"
    by (simp add: fun_eq_iff bumped_def efficient_set)
  with Cons.IH [of "h(n := bumped (h n))"] Cons.prems show ?case
    by (simp add: Let_def bumped_def add.assoc del: fun_upd_apply)
qed

lemma first_max_single: "first_max w [s] s"
  unfolding first_max_def by (intro exI [of _ "[]"]) simp

lemma first_max_greatest:
  assumes "first_max w nodes s"
  shows "s \<in> set nodes" "i \<in> set nodes \<Longrightarrow> w i \<le> w s"
  using assms unfolding first_max_def by (fastforce intro: less_imp_le)+

lemma first_max_unique:
  assumes "first_max w nodes s" "first_max w nodes s'"
  shows "s' = s"
proof -
  from assms obtain a b c d where
    ab: "nodes = a @ s # b" "\<forall>r \<in> set a. w r < w s" "\<forall>r \<in> set b. w r \<le> w s" and
    cd: "nodes = c @ s' # d" "\<forall>r \<in> set c. w r < w s'" "\<forall>r \<in> set d. w r \<le> w s'"
    unfolding first_max_def by blast
  from ab(1) cd(1) obtain us where
    "a = c @ us \<and> us @ s # b = s' # d \<or> a @ us = c \<and> s # b = us @ s' # d"
    using append_eq_append_conv2 [of a "s # b" c "s' # d"] by auto
  then show ?thesis
  proof
    assume us: "a = c @ us \<and> us @ s # b = s' # d"
    show ?thesis
    proof (cases us)
      case (Cons u us')
      with us have "s' \<in> set a" "s \<in> set d" by auto
      with ab(2) cd(3) have "w s' < w s" "w s \<le> w s'" by blast+
      then show ?thesis by simp
    qed (use us in simp)
  next
    assume us: "a @ us = c \<and> s # b = us @ s' # d"
    show ?thesis
    proof (cases us)
      case (Cons u us')
      with us have "s \<in> set c" "s' \<in> set b" by auto
      with cd(2) ab(3) have "w s < w s'" "w s' \<le> w s" by blast+
      then show ?thesis by simp
    qed (use us in simp)
  qed
qed

text \<open>The candidate after a prefix of the nodes is their first maximum of the new weights.\<close>

lemma loop_selected:
  assumes "distinct (pre @ nodes)" "\<forall>r \<in> set pre. h r = bumped (h0 r)" "\<forall>r \<in> set nodes. h r = h0 r"
    and "pre \<noteq> []" "sel = Some s" "first_max (\<lambda>r. wf_current f (bumped (h0 r))) pre s"
  shows "\<exists>s'. snd (snd (pick_loop f nodes h t sel)) = Some s' \<and>
     first_max (\<lambda>r. wf_current f (bumped (h0 r))) (pre @ nodes) s'"
  using assms
proof (induction nodes arbitrary: pre h t sel s)
  case Nil
  then show ?case by simp
next
  case (Cons n nodes)
  let ?w = "\<lambda>r. wf_current f (bumped (h0 r))"
  let ?h = "h(n := bumped (h n))"
  let ?s = "if ?w s < ?w n then n else s"
  have s: "s \<in> set pre" using Cons.prems(6) by (auto simp: first_max_def)
  then have sn: "s \<noteq> n" using Cons.prems(1) by auto
  have hs: "wf_current f (?h s) = ?w s" "wf_current f (?h n) = ?w n"
    using Cons.prems(2,3) s sn by auto
  from Cons.prems(6) obtain a b where ab: "pre = a @ s # b" "\<forall>r \<in> set a. ?w r < ?w s" "\<forall>r \<in> set b. ?w r \<le> ?w s"
    by (auto simp: first_max_def)
  have "first_max ?w (pre @ [n]) ?s"
  proof (cases "?w s < ?w n")
    case True
    with ab have "\<forall>r \<in> set pre. ?w r < ?w n" by (auto intro: le_less_trans order.strict_trans)
    with True show ?thesis unfolding first_max_def by (intro exI [of _ pre] exI [of _ "[]"]) simp
  next
    case False
    with ab show ?thesis unfolding first_max_def
      by (intro exI [of _ a] exI [of _ "b @ [n]"]) auto
  qed
  moreover have "\<forall>r \<in> set (pre @ [n]). ?h r = bumped (h0 r)" "\<forall>r \<in> set nodes. ?h r = h0 r"
    using Cons.prems(1-3) by auto
  moreover have "distinct ((pre @ [n]) @ nodes)" using Cons.prems(1) by auto
  ultimately have "\<exists>s'. snd (snd (pick_loop f nodes ?h (t + wf_efficient f (h n)) (Some ?s))) = Some s' \<and>
      first_max ?w ((pre @ [n]) @ nodes) s'"
    by (intro Cons.IH [of "pre @ [n]" ?h "Some ?s" ?s]) (assumption | rule refl | simp)+
  moreover have "pick_loop f (n # nodes) h t sel = pick_loop f nodes ?h (t + wf_efficient f (h n)) (Some ?s)"
    using hs Cons.prems(5) by (simp add: Let_def bumped_def del: fun_upd_apply)
  ultimately show ?case by simp
qed

lemma pick_eq:
  assumes "distinct nodes" "nodes \<noteq> []"
  shows "\<exists>s. first_max (\<lambda>r. wf_current f (h r) + wf_efficient f (h r)) nodes s \<and>
     weight_pick f nodes h = (Inr s, \<lambda>r. if r \<notin> set nodes then h r
       else if r = s then wf_set_current f (wf_current f (h r) + wf_efficient f (h r)
              - sum_list (map (\<lambda>r. wf_efficient f (h r)) nodes)) (h r)
       else wf_set_current f (wf_current f (h r) + wf_efficient f (h r)) (h r))"
proof -
  obtain n ns where n: "nodes = n # ns" using assms(2) by (cases nodes) auto
  let ?w = "\<lambda>r. wf_current f (bumped (h r))"
  have w: "?w = (\<lambda>r. wf_current f (h r) + wf_efficient f (h r))" by (simp add: bumped_def get_set)
  have "\<exists>s'. snd (snd (pick_loop f ns (h(n := bumped (h n))) (wf_efficient f (h n)) (Some n))) = Some s' \<and>
      first_max ?w ([n] @ ns) s'"
    by (rule loop_selected [where h = "h(n := bumped (h n))"])
      (use assms(1) n first_max_single in auto)
  then obtain s where s: "snd (snd (pick_loop f nodes h 0 None)) = Some s" "first_max ?w nodes s"
    by (auto simp: n Let_def bumped_def)
  obtain h' t where l: "pick_loop f nodes h 0 None = (h', t, Some s)"
    using s(1) by (metis prod.collapse)
  have h': "h' = (\<lambda>r. if r \<in> set nodes then bumped (h r) else h r)"
    using loop_store [OF assms(1), of h 0 None] l by simp
  have t: "t = sum_list (map (\<lambda>r. wf_efficient f (h r)) nodes)"
    using loop_total [OF assms(1), of h 0 None] l by simp
  have "s \<in> set nodes" using s(2) by (auto simp: first_max_def)
  then have "weight_pick f nodes h = (Inr s, \<lambda>r. if r \<notin> set nodes then h r
       else if r = s then wf_set_current f (wf_current f (h r) + wf_efficient f (h r)
              - sum_list (map (\<lambda>r. wf_efficient f (h r)) nodes)) (h r)
       else wf_set_current f (wf_current f (h r) + wf_efficient f (h r)) (h r))"
    using assms(2) l t by (auto simp: weight_pick_def h' bumped_def get_set set_set fun_eq_iff)
  with s(2) show ?thesis unfolding w by blast
qed

lemma pick_preserves_sum:
  assumes "distinct nodes" "nodes \<noteq> []"
  shows "sum_list (map (\<lambda>r. wf_current f (snd (weight_pick f nodes h) r)) nodes)
       = sum_list (map (\<lambda>r. wf_current f (h r)) nodes)"
proof -
  let ?c = "\<lambda>r. wf_current f (h r)" and ?e = "\<lambda>r. wf_efficient f (h r)"
  obtain s where s: "first_max (\<lambda>r. ?c r + ?e r) nodes s" and
    p: "weight_pick f nodes h = (Inr s, \<lambda>r. if r \<notin> set nodes then h r
       else if r = s then wf_set_current f (?c r + ?e r - sum_list (map ?e nodes)) (h r)
       else wf_set_current f (?c r + ?e r) (h r))"
    using pick_eq [OF assms, of h] by blast
  have sn: "s \<in> set nodes" using s by (auto simp: first_max_def)
  have sums: "sum_list (map g nodes) = sum g (set nodes)" for g :: "nat \<Rightarrow> u32"
    using assms(1) by (simp add: sum_list_distinct_conv_sum_set)
  have "sum_list (map (\<lambda>r. wf_current f (snd (weight_pick f nodes h) r)) nodes)
      = sum_list (map (\<lambda>r. ?c r + ?e r - (if r = s then sum_list (map ?e nodes) else 0)) nodes)"
    by (intro arg_cong [where f = sum_list] map_cong) (auto simp: p get_set)
  also have "\<dots> = sum ?c (set nodes) + sum ?e (set nodes) - sum ?e (set nodes)"
    using sn by (simp add: sums sum_subtractf sum.distrib)
  finally show ?thesis by (simp add: sums)
qed

end

interpretation weight_nodes: smooth_nodes "weight_node_fields :: 'cc weightServiceNode weight_fields"
  by unfold_locales (simp_all add: weight_node_fields_def)

section \<open>Properties\<close>

abbreviation current_of :: "'cc WeightBalancer \<Rightarrow> nat \<Rightarrow> u32" where
  "current_of p r \<equiv> wn_currentWeight (wb_store p r)"

abbreviation efficient_of :: "'cc WeightBalancer \<Rightarrow> nat \<Rightarrow> u32" where
  "efficient_of p r \<equiv> wn_efficientWeight (wb_store p r)"

lemma weight_node_fields_simps [simp]:
  "wf_current weight_node_fields = wn_currentWeight"
  "wf_set_current weight_node_fields v n = n\<lparr>wn_currentWeight := v\<rparr>"
  "wf_efficient weight_node_fields = wn_efficientWeight"
  by (simp_all add: weight_node_fields_def)

lemma Dynamic_Pick_same [simp]: "DynamicWeightBalancer_Pick p = WeightBalancer_Pick p"
  by (simp add: WeightBalancer_Pick_def DynamicWeightBalancer_Pick_def)

lemma Pick_eq:
  assumes "distinct (wb_nodes p)" "wb_nodes p \<noteq> []"
  shows "\<exists>s. weight_nodes.first_max (\<lambda>r. current_of p r + efficient_of p r) (wb_nodes p) s \<and>
     WeightBalancer_Pick p = (Inr s, p\<lparr>wb_store := \<lambda>r. if r \<notin> set (wb_nodes p) then wb_store p r
       else (wb_store p r)\<lparr>wn_currentWeight := current_of p r + efficient_of p r
              - (if r = s then sum_list (map (efficient_of p) (wb_nodes p)) else 0)\<rparr>\<rparr>)"
  using weight_nodes.pick_eq [OF assms, of "wb_store p"]
  by (fastforce simp: WeightBalancer_Pick_def fun_eq_iff)

text \<open>C31. A pick of the weighted round robin, for either balancer: it takes the first connection whose
  current weight, with the efficient weight added, is greatest; only current weights change, and their sum
  (modulo \<open>2 ^ 32\<close>) stays what it was.\<close>

theorem smooth_Pick:
  assumes "distinct (wb_nodes p)" "wb_nodes p \<noteq> []" "DynamicWeightBalancer_Pick p = (r, p')"
  shows "WeightBalancer_Pick p = (r, p') \<and>
     (\<exists>pre s post. r = Inr s \<and> wb_nodes p = pre @ s # post \<and>
       (\<forall>i \<in> set pre. current_of p i + efficient_of p i < current_of p s + efficient_of p s) \<and>
       (\<forall>i \<in> set post. current_of p i + efficient_of p i \<le> current_of p s + efficient_of p s)) \<and>
     wb_nodes p' = wb_nodes p \<and>
     (\<forall>i. wb_store p' i = (wb_store p i)\<lparr>wn_currentWeight := current_of p' i\<rparr>) \<and>
     sum_list (map (current_of p') (wb_nodes p)) = sum_list (map (current_of p) (wb_nodes p))"
proof -
  have r: "WeightBalancer_Pick p = (r, p')" using assms(3) by simp
  have sum: "sum_list (map (current_of p') (wb_nodes p)) = sum_list (map (current_of p) (wb_nodes p))"
    using weight_nodes.pick_preserves_sum [OF assms(1,2), of "wb_store p"] r
    by (auto simp: WeightBalancer_Pick_def split: prod.splits)
  from Pick_eq [OF assms(1,2)] r sum show ?thesis by (auto simp: weight_nodes.first_max_def)
qed

definition three_info :: "u32 \<Rightarrow> u32 \<Rightarrow> u32 \<Rightarrow> nat PickerBuildInfo" where
  "three_info u v w = map (\<lambda>(i, w). (i, \<lparr>sci_Addr = ''a'', sci_Attributes = [AttrWeight \<mapsto> AnyUint32 w]\<rparr>))
     [(10, u), (20, v), (30, w)]"

lemma smooth_Pick_witness:
  "\<exists>s p'. DynamicWeightBalancer_Pick (DynamicWeightBalancerBuilder_Build (three_info 5 1 1)) = (Inr s, p') \<and>
     s \<in> {0, 1, 2}"
proof -
  let ?p = "DynamicWeightBalancerBuilder_Build (three_info 5 1 1)"
  have n: "wb_nodes ?p = [0, 1, 2]"
    by (simp add: DynamicWeightBalancerBuilder_Build_def three_info_def upt_rec)
  obtain r p' where p: "DynamicWeightBalancer_Pick ?p = (r, p')" by fastforce
  have d: "distinct (wb_nodes ?p)" "wb_nodes ?p \<noteq> []" by (simp_all add: n)
  from smooth_Pick [OF d p] obtain pre s post where s: "r = Inr s" "wb_nodes ?p = pre @ s # post" by blast
  then have "s \<in> set (wb_nodes ?p)" by simp
  with s(1) p n show ?thesis by auto
qed

section \<open>A weight balancer that never rotates\<close>

datatype call_event = CallPick | CallDone nat "go_error option"

fun weight_events ::
    "go_error \<Rightarrow> call_event list \<Rightarrow> 'cc WeightBalancer \<Rightarrow> (go_error + nat) list \<times> 'cc WeightBalancer" where
  "weight_events EOF [] w = ([], w)"
| "weight_events EOF (CallPick # es) w =
     (case WeightBalancer_Pick w of (r, w) \<Rightarrow>
      case weight_events EOF es w of (rs, w) \<Rightarrow> (r # rs, w))"
| "weight_events EOF (CallDone s err # es) w =
     weight_events EOF es (w\<lparr>wb_store := (wb_store w)(s := WeightBalancer_Done EOF err (wb_store w s))\<rparr>)"

definition picks_of :: "call_event list \<Rightarrow> nat" where
  "picks_of es = length (filter (\<lambda>e. e = CallPick) es)"

lemma zero_efficient_pick:
  assumes "distinct (wb_nodes w)" "wb_nodes w \<noteq> []" "\<forall>r. efficient_of w r = 0"
    and "weight_nodes.first_max (current_of w) (wb_nodes w) s"
  shows "WeightBalancer_Pick w = (Inr s, w)"
proof -
  have e: "efficient_of w = (\<lambda>_. 0)" using assms(3) by (simp add: fun_eq_iff)
  have z: "sum_list (map (efficient_of w) (wb_nodes w)) = 0" unfolding e by simp
  obtain s' where s': "weight_nodes.first_max (\<lambda>r. current_of w r + efficient_of w r) (wb_nodes w) s'"
    and p: "WeightBalancer_Pick w = (Inr s', w\<lparr>wb_store := \<lambda>r. if r \<notin> set (wb_nodes w) then wb_store w r
       else (wb_store w r)\<lparr>wn_currentWeight := current_of w r + efficient_of w r
              - (if r = s' then sum_list (map (efficient_of w) (wb_nodes w)) else 0)\<rparr>\<rparr>)"
    using Pick_eq [OF assms(1,2)] by blast
  have "(\<lambda>r. if r \<notin> set (wb_nodes w) then wb_store w r
       else (wb_store w r)\<lparr>wn_currentWeight := current_of w r + efficient_of w r
              - (if r = s' then sum_list (map (efficient_of w) (wb_nodes w)) else 0)\<rparr>) = wb_store w"
    unfolding z using assms(3) by (intro ext) simp
  moreover have "s' = s"
    using weight_nodes.first_max_unique [OF assms(4), of s'] s' assms(3) by simp
  ultimately show ?thesis using p by simp
qed

lemma zero_efficient_events:
  assumes "distinct (wb_nodes w)" "wb_nodes w \<noteq> []" "\<forall>r. efficient_of w r = 0"
    and "\<forall>e \<in> set es. \<forall>s. e \<noteq> CallDone s None"
    and "weight_nodes.first_max (current_of w) (wb_nodes w) s"
  shows "weight_events EOF es w = (replicate (picks_of es) (Inr s), w)"
  using assms(4)
proof (induction es)
  case Nil
  then show ?case by (simp add: picks_of_def)
next
  case (Cons e es)
  show ?case
  proof (cases e)
    case CallPick
    have p: "WeightBalancer_Pick w = (Inr s, w)"
      by (rule zero_efficient_pick [OF assms(1-3,5)])
    with p Cons CallPick show ?thesis by (simp add: picks_of_def)
  next
    case (CallDone t err)
    with Cons.prems obtain er where "err = Some er" by (cases err) auto
    moreover have "WeightBalancer_Done EOF (Some er) (wb_store w t) = wb_store w t"
      using assms(3) by (simp add: WeightBalancer_Done_def node_decrement_def)
    ultimately show ?thesis using Cons CallDone by (simp add: picks_of_def)
  qed
qed

text \<open>A new weight balancer does not rotate. Its efficient weights are zero, so until a call succeeds
  every pick takes the same connection, the first of the heaviest, however many calls on it fail and in
  whatever order the calls are picked and end.\<close>

theorem WeightBalancer_no_rotation:
  assumes "info \<noteq> []" "\<forall>e \<in> set es. \<forall>s. e \<noteq> CallDone s None"
  shows "\<exists>s < length info. (\<forall>i < length info. attr_weight (snd (info ! i)) \<le> attr_weight (snd (info ! s))) \<and>
     weight_events EOF es (WeightBalancerBuilder_Build info)
       = (replicate (picks_of es) (Inr s), WeightBalancerBuilder_Build info)"
proof -
  let ?w = "WeightBalancerBuilder_Build info"
  have nodes: "wb_nodes ?w = [0 ..< length info]" "\<forall>r. efficient_of ?w r = 0"
    "\<And>i. current_of ?w i = attr_weight (snd (info ! i))"
    by (simp_all add: WeightBalancerBuilder_Build_def Let_def split: prod.splits)
  have d: "distinct (wb_nodes ?w)" "wb_nodes ?w \<noteq> []" using nodes(1) assms(1) by simp_all
  from Pick_eq [OF d] nodes(2) obtain s where s: "weight_nodes.first_max (current_of ?w) (wb_nodes ?w) s"
    by auto
  have "weight_events EOF es ?w = (replicate (picks_of es) (Inr s), ?w)"
    by (rule zero_efficient_events [OF d nodes(2) assms(2) s])
  moreover have "\<forall>i \<in> set (wb_nodes ?w). current_of ?w i \<le> current_of ?w s" "s \<in> set (wb_nodes ?w)"
    using weight_nodes.first_max_greatest [OF s] by blast+
  ultimately show ?thesis using nodes by (intro exI [of _ s]) auto
qed

lemma WeightBalancer_no_rotation_witness:
  "\<exists>s. fst (weight_events (External 0) [CallPick, CallPick, CallDone 1 (Some DeadlineExceeded), CallPick]
     (WeightBalancerBuilder_Build (three_info 1 2 1))) = replicate 3 (Inr s)"
proof -
  let ?es = "[CallPick, CallPick, CallDone 1 (Some DeadlineExceeded), CallPick]"
  have n: "three_info 1 2 1 \<noteq> []" by (simp add: three_info_def)
  have e: "\<forall>e \<in> set ?es. \<forall>s. e \<noteq> CallDone s None" by simp
  have "picks_of ?es = 3" by (simp add: picks_of_def)
  with WeightBalancer_no_rotation [OF n e, of "External 0"] show ?thesis by auto
qed

section \<open>The current weights of the dynamic balancer wrap around\<close>

fun dynamic_picks :: "nat \<Rightarrow> 'cc WeightBalancer \<Rightarrow> (go_error + nat) list \<times> 'cc WeightBalancer" where
  "dynamic_picks 0 p = ([], p)"
| "dynamic_picks (Suc n) p =
     (case DynamicWeightBalancer_Pick p of (r, p) \<Rightarrow>
      case dynamic_picks n p of (rs, p) \<Rightarrow> (r # rs, p))"

text \<open>Three nodes of efficient weights 5, 1 and 1 and the given current weights.\<close>

definition five_one_one :: "u32 \<Rightarrow> u32 \<Rightarrow> u32 \<Rightarrow> 'cc WeightBalancer \<Rightarrow> bool" where
  "five_one_one a b c p \<longleftrightarrow> wb_nodes p = [0, 1, 2] \<and>
     current_of p 0 = a \<and> current_of p 1 = b \<and> current_of p 2 = c \<and>
     efficient_of p 0 = 5 \<and> efficient_of p 1 = 1 \<and> efficient_of p 2 = 1"

lemma five_one_one_pick:
  assumes "five_one_one a b c p"
  shows "b + 1 \<le> a + 5 \<Longrightarrow> c + 1 \<le> a + 5 \<Longrightarrow>
      \<exists>p'. DynamicWeightBalancer_Pick p = (Inr 0, p') \<and> five_one_one (a + 5 - 7) (b + 1) (c + 1) p'"
    and "a + 5 < b + 1 \<Longrightarrow> c + 1 \<le> b + 1 \<Longrightarrow>
      \<exists>p'. DynamicWeightBalancer_Pick p = (Inr 1, p') \<and> five_one_one (a + 5) (b + 1 - 7) (c + 1) p'"
proof -
  let ?w = "\<lambda>r. current_of p r + efficient_of p r"
  from assms have n: "wb_nodes p = [0, 1, 2]" and v: "current_of p 0 = a" "current_of p 1 = b"
    "current_of p 2 = c" "efficient_of p 0 = 5" "efficient_of p 1 = 1" "efficient_of p 2 = 1"
    by (simp_all add: five_one_one_def)
  have d: "distinct (wb_nodes p)" "wb_nodes p \<noteq> []" by (simp_all add: n)
  obtain s where s: "weight_nodes.first_max ?w (wb_nodes p) s" and
    p: "WeightBalancer_Pick p = (Inr s, p\<lparr>wb_store := \<lambda>r. if r \<notin> set (wb_nodes p) then wb_store p r
       else (wb_store p r)\<lparr>wn_currentWeight := ?w r
              - (if r = s then sum_list (map (efficient_of p) (wb_nodes p)) else 0)\<rparr>\<rparr>)"
    using Pick_eq [OF d] by blast
  {
    assume "b + 1 \<le> a + 5" "c + 1 \<le> a + 5"
    then have "weight_nodes.first_max ?w (wb_nodes p) 0"
      unfolding weight_nodes.first_max_def n by (intro exI [of _ "[]"] exI [of _ "[1, 2]"]) (simp add: v del: One_nat_def)
    then have "s = 0" using s weight_nodes.first_max_unique by blast
    with p v show "\<exists>p'. DynamicWeightBalancer_Pick p = (Inr 0, p') \<and>
        five_one_one (a + 5 - 7) (b + 1) (c + 1) p'"
      by (simp add: five_one_one_def n del: One_nat_def)
  }
  {
    assume "a + 5 < b + 1" "c + 1 \<le> b + 1"
    then have "weight_nodes.first_max ?w (wb_nodes p) 1"
      unfolding weight_nodes.first_max_def n by (intro exI [of _ "[0]"] exI [of _ "[2]"]) (simp add: v del: One_nat_def)
    then have "s = 1" using s weight_nodes.first_max_unique by blast
    with p v show "\<exists>p'. DynamicWeightBalancer_Pick p = (Inr 1, p') \<and>
        five_one_one (a + 5) (b + 1 - 7) (c + 1) p'"
      by (simp add: five_one_one_def n del: One_nat_def)
  }
qed

definition starved :: "nat \<Rightarrow> 'cc WeightBalancer \<Rightarrow> bool" where
  "starved j p \<longleftrightarrow> five_one_one (of_nat (4 + 5 * j)) (of_nat (2 ^ 32 - 2 - 6 * j)) (of_nat (5 + j)) p"

lemma starved_pick:
  assumes "starved j p" "j < 390000000"
  shows "\<exists>p'. DynamicWeightBalancer_Pick p = (Inr 1, p') \<and> starved (Suc j) p'"
proof -
  have u: "unat (of_nat m :: u32) = m" if "m < 4294967296" for m
    using that by (simp add: unsigned_of_nat take_bit_nat_eq_self)
  have a: "of_nat (4 + 5 * j) + 5 = (of_nat (4 + 5 * Suc j) :: u32)" by simp
  have b: "of_nat (2 ^ 32 - 2 - 6 * j) + 1 = (of_nat (2 ^ 32 - 1 - 6 * j) :: u32)"
  proof -
    have "of_nat (2 ^ 32 - 1 - 6 * j) = (of_nat (Suc (2 ^ 32 - 2 - 6 * j)) :: u32)"
      using assms(2) by (intro arg_cong [where f = of_nat]) simp
    then show ?thesis by (simp add: add.commute)
  qed
  have b': "(of_nat (2 ^ 32 - 1 - 6 * j) - 7 :: u32) = of_nat (2 ^ 32 - 2 - 6 * Suc j)"
  proof -
    have "of_nat (2 ^ 32 - 1 - 6 * j) = (of_nat (7 + (2 ^ 32 - 2 - 6 * Suc j)) :: u32)"
      using assms(2) by (intro arg_cong [where f = of_nat]) simp
    then show ?thesis by simp
  qed
  have c: "of_nat (5 + j) + 1 = (of_nat (5 + Suc j) :: u32)" by simp
  have bounds: "4 + 5 * Suc j < 2 ^ 32 - 1 - 6 * j" "5 + Suc j \<le> 2 ^ 32 - 1 - 6 * j"
    "4 + 5 * Suc j < 4294967296" "5 + Suc j < 4294967296" "2 ^ 32 - 1 - 6 * j < (4294967296 :: nat)"
    using assms(2) by simp_all
  have less: "of_nat (4 + 5 * Suc j) < (of_nat (2 ^ 32 - 1 - 6 * j) :: u32)"
    "of_nat (5 + Suc j) \<le> (of_nat (2 ^ 32 - 1 - 6 * j) :: u32)"
    unfolding word_less_nat_alt word_le_nat_alt
      u [OF bounds(3)] u [OF bounds(4)] u [OF bounds(5)] by (rule bounds)+
  show ?thesis
    using five_one_one_pick(2) [OF assms(1) [unfolded starved_def]] less
    unfolding a b c b' starved_def by blast
qed

lemma starved_picks:
  assumes "starved j p" "j + k \<le> 390000000"
  shows "fst (dynamic_picks k p) = replicate k (Inr 1)"
  using assms
proof (induction k arbitrary: j p)
  case (Suc k)
  then obtain p' where p': "DynamicWeightBalancer_Pick p = (Inr 1, p')" "starved (Suc j) p'"
    using starved_pick [of j p] by auto
  with Suc.IH [of "Suc j" p'] Suc.prems show ?case
    by (simp add: case_prod_unfold del: Dynamic_Pick_same)
qed simp

text \<open>The dynamic balancer with three connections of weights 5, 1 and 1. The current weight is unsigned, so
  the first connection's weight, which drops to minus one with the third pick, becomes the greatest weight
  there is, and the fourth pick wraps it to 4. From then on the second connection, which wrapped the same
  way, is taken every time: for the next 390 million picks the connection of weight 5 gets no call.\<close>

theorem Dynamic_starvation:
  assumes "k \<le> 390000000"
  shows "fst (dynamic_picks (4 + k) (DynamicWeightBalancerBuilder_Build (three_info 5 1 1)))
     = [Inr 0, Inr 0, Inr 0, Inr 1] @ replicate k (Inr 1)"
proof -
  let ?p = "DynamicWeightBalancerBuilder_Build (three_info 5 1 1)"
  have "five_one_one 5 1 1 ?p"
    by (simp add: five_one_one_def DynamicWeightBalancerBuilder_Build_def three_info_def upt_rec
        attr_weight_def Let_def as_uint32_def)
  from five_one_one_pick(1) [OF this] obtain p1 where
    p1: "DynamicWeightBalancer_Pick ?p = (Inr 0, p1)" "five_one_one 3 2 2 p1" by auto
  from five_one_one_pick(1) [OF p1(2)] obtain p2 where
    p2: "DynamicWeightBalancer_Pick p1 = (Inr 0, p2)" "five_one_one 1 3 3 p2" by auto
  from five_one_one_pick(1) [OF p2(2)] obtain p3 where
    p3: "DynamicWeightBalancer_Pick p2 = (Inr 0, p3)" "five_one_one (- 1) 4 4 p3" by auto
  from five_one_one_pick(2) [OF p3(2)] obtain p4 where
    p4: "DynamicWeightBalancer_Pick p3 = (Inr 1, p4)" "five_one_one 4 (- 2) 5 p4" by auto
  moreover have "(- 2 :: u32) = 4294967294" by (simp add: word_uint_eq_iff)
  ultimately have "starved 0 p4" by (simp add: starved_def)
  then have "fst (dynamic_picks k p4) = replicate k (Inr 1)"
    using assms by (intro starved_picks) auto
  moreover have e: "4 + k = Suc (Suc (Suc (Suc k)))" by simp
  ultimately show ?thesis unfolding e using p1(1) p2(1) p3(1) p4(1)
    by (simp add: case_prod_unfold del: Dynamic_Pick_same)
qed

lemma Dynamic_starvation_witness:
  "fst (dynamic_picks (4 + 390000000) (DynamicWeightBalancerBuilder_Build (three_info 5 1 1)))
     = [Inr 0, Inr 0, Inr 0, Inr 1] @ replicate 390000000 (Inr 1)"
  by (rule Dynamic_starvation) simp

section \<open>The efficient weight after successful calls\<close>

text \<open>The efficient weight of a connection is at least doubled by its first successful call and grows by
  one with every later one; no number of successes stops it, until the word wraps.\<close>

theorem Done_successes:
  assumes "unat (wn_efficientWeight n) + k < 2 ^ 32" "2 * unat (wn_weight n) + k < 2 ^ 32" "0 < k"
  shows "unat (wn_efficientWeight ((DynamicWeightBalancer_Done EOF unavailable None ^^ k) n))
       = max (unat (wn_efficientWeight n) + k) (2 * unat (wn_weight n) + k - 1)"
proof -
  have step: "unat (wn_efficientWeight (node_success m))
       = max (unat (wn_efficientWeight m) + 1) (2 * unat (wn_weight m))"
    if "unat (wn_efficientWeight m) + 1 < 2 ^ 32" "2 * unat (wn_weight m) < 2 ^ 32"
    for m :: "'a weightServiceNode"
  proof -
    have e: "unat (wn_efficientWeight m + 1) = unat (wn_efficientWeight m) + 1"
      using that(1) by (simp add: unat_word_ariths)
    have w: "unat (wn_weight m * 2) = 2 * unat (wn_weight m)"
      using that(2) by (simp add: unat_word_ariths)
    show ?thesis
      using e w by (auto simp: node_success_def max_def word_le_nat_alt)
  qed
  have weight: "wn_weight ((node_success ^^ j) n) = wn_weight n" for j
    by (induction j) (simp_all add: node_success_def Let_def)
  have eq: "DynamicWeightBalancer_Done EOF unavailable None = (node_success :: 'a weightServiceNode \<Rightarrow> _)"
    by (simp add: fun_eq_iff DynamicWeightBalancer_Done_def)
  from assms show ?thesis unfolding eq
  proof (induction k)
    case (Suc k)
    show ?case
    proof (cases "k = 0")
      case True
      with Suc.prems show ?thesis using step [of n] by simp
    next
      case False
      with Suc show ?thesis using step [of "(node_success ^^ k) n"] by (simp add: weight)
    qed
  qed simp
qed

lemma Done_successes_witness:
  "unat (wn_efficientWeight ((DynamicWeightBalancer_Done (External 0) (\<lambda>_. False) None ^^ 1000)
     \<lparr>wn_cc = (), wn_weight = 5, wn_currentWeight = 5, wn_efficientWeight = 5\<rparr>)) = 1009"
  using Done_successes [of "\<lparr>wn_cc = (), wn_weight = 5, wn_currentWeight = 5, wn_efficientWeight = 5\<rparr>" 1000
      "External 0" "\<lambda>_. False"] by simp

end
