(* ===== verification/RwBalancer.thy ===== *)
theory RwBalancer
  imports WeightBalancers
begin

text \<open>
  \<open>rw_weight_balancer.go\<close>: the balancer that keeps separate weights for reads and writes and offers a call
  only the nodes of its group. The builder caches the nodes by name, so that their weights survive a change
  of the set of ready connections; builder and pickers share the nodes by pointer. The heap of nodes is a
  function from pointers and the next free pointer.
\<close>

record 'cc rwWeightServiceNode =
  rw_cc :: 'cc
  rw_readWeight :: u32
  rw_currentReadWeight :: u32
  rw_efficientReadWeight :: u32
  rw_writeWeight :: u32
  rw_currentWriteWeight :: u32
  rw_efficientWriteWeight :: u32
  rw_group :: string

definition newRwWeightServiceNode :: "'cc \<Rightarrow> u32 \<Rightarrow> u32 \<Rightarrow> string \<Rightarrow> 'cc rwWeightServiceNode" where
  "newRwWeightServiceNode cc readWeight writeWeight g =
     \<lparr>rw_cc = cc, rw_readWeight = readWeight, rw_currentReadWeight = readWeight,
      rw_efficientReadWeight = readWeight, rw_writeWeight = writeWeight, rw_currentWriteWeight = writeWeight,
      rw_efficientWriteWeight = writeWeight, rw_group = g\<rparr>"

section \<open>The builder\<close>

record 'cc RwWeightBalancerBuilder =
  rwb_nodeCache :: "string \<Rightarrow> nat option"
  rwb_store :: "nat \<Rightarrow> 'cc rwWeightServiceNode"
  rwb_next :: nat

definition NewRwWeightBalancerBuilder :: "(nat \<Rightarrow> 'cc rwWeightServiceNode) \<Rightarrow> 'cc RwWeightBalancerBuilder" where
  "NewRwWeightBalancerBuilder h = \<lparr>rwb_nodeCache = Map.empty, rwb_store = h, rwb_next = 0\<rparr>"

definition new_cached_node ::
    "string \<Rightarrow> 'cc rwWeightServiceNode \<Rightarrow> 'cc RwWeightBalancerBuilder \<Rightarrow> nat \<times> 'cc RwWeightBalancerBuilder" where
  "new_cached_node nodeName n b =
     (rwb_next b, b\<lparr>rwb_store := (rwb_store b)(rwb_next b := n), rwb_next := Suc (rwb_next b),
        rwb_nodeCache := (rwb_nodeCache b)(nodeName \<mapsto> rwb_next b)\<rparr>)"

text \<open>The four attributes of an address; None where an assertion fails and the address is skipped.\<close>

definition rw_attributes :: "SubConnInfo \<Rightarrow> (u32 \<times> u32 \<times> string \<times> string) option" where
  "rw_attributes ccInfo =
     (case as_uint32 (sci_Attributes ccInfo AttrReadWeight) of (readWeight, ok) \<Rightarrow>
      if \<not> ok then None
      else case as_uint32 (sci_Attributes ccInfo AttrWriteWeight) of (writeWeight, ok) \<Rightarrow>
      if \<not> ok then None
      else case as_string (sci_Attributes ccInfo AttrGroup) of (groupName, ok) \<Rightarrow>
      if \<not> ok then None
      else case as_string (sci_Attributes ccInfo AttrNode) of (nodeName, ok) \<Rightarrow>
      if \<not> ok then None else Some (readWeight, writeWeight, groupName, nodeName))"

definition build_node ::
    "'cc \<Rightarrow> u32 \<Rightarrow> u32 \<Rightarrow> string \<Rightarrow> string \<Rightarrow> 'cc RwWeightBalancerBuilder \<Rightarrow> nat \<times> 'cc RwWeightBalancerBuilder" where
  "build_node cc readWeight writeWeight groupName nodeName b =
     (case rwb_nodeCache b nodeName of
        Some cacheNode \<Rightarrow>
          (let b = b\<lparr>rwb_store := (rwb_store b)(cacheNode := (rwb_store b cacheNode)\<lparr>rw_group := groupName\<rparr>)\<rparr>
           in if rw_readWeight (rwb_store b cacheNode) \<noteq> readWeight
                 \<or> rw_writeWeight (rwb_store b cacheNode) \<noteq> writeWeight
              then new_cached_node nodeName (newRwWeightServiceNode cc readWeight writeWeight groupName) b
              else (cacheNode, b))
      | None \<Rightarrow> new_cached_node nodeName (newRwWeightServiceNode cc readWeight writeWeight groupName) b)"

fun build_loop ::
    "'cc PickerBuildInfo \<Rightarrow> nat list \<Rightarrow> string set \<Rightarrow> 'cc RwWeightBalancerBuilder \<Rightarrow>
       nat list \<times> string set \<times> 'cc RwWeightBalancerBuilder" where
  "build_loop [] nodes ccMap b = (nodes, ccMap, b)"
| "build_loop ((cc, ccInfo) # info) nodes ccMap b =
     (case rw_attributes ccInfo of
        None \<Rightarrow> build_loop info nodes ccMap b
      | Some (readWeight, writeWeight, groupName, nodeName) \<Rightarrow>
          (case build_node cc readWeight writeWeight groupName nodeName b of
             (node, b) \<Rightarrow> build_loop info (nodes @ [node]) (insert nodeName ccMap) b))"

text \<open>A picker is the list of its nodes.\<close>

definition RwWeightBalancerBuilder_Build ::
    "'cc PickerBuildInfo \<Rightarrow> 'cc RwWeightBalancerBuilder \<Rightarrow> nat list \<times> 'cc RwWeightBalancerBuilder" where
  "RwWeightBalancerBuilder_Build info b =
     (case build_loop info [] {} b of
        (nodes, ccMap, b) \<Rightarrow> (nodes, b\<lparr>rwb_nodeCache := rwb_nodeCache b |` ccMap\<rparr>))"

section \<open>A pick and its end\<close>

definition isWriteReq :: "Context \<Rightarrow> bool" where
  "isWriteReq ctx = (case ReqTypeFromContext ctx of (reqType, ok) \<Rightarrow> if ok then reqType = 1 else False)"

definition rw_read_fields :: "'cc rwWeightServiceNode weight_fields" where
  "rw_read_fields = \<lparr>wf_current = rw_currentReadWeight, wf_set_current = (\<lambda>v. rw_currentReadWeight_update (\<lambda>_. v)),
     wf_efficient = rw_efficientReadWeight\<rparr>"

definition rw_write_fields :: "'cc rwWeightServiceNode weight_fields" where
  "rw_write_fields = \<lparr>wf_current = rw_currentWriteWeight, wf_set_current = (\<lambda>v. rw_currentWriteWeight_update (\<lambda>_. v)),
     wf_efficient = rw_efficientWriteWeight\<rparr>"

definition rw_candidates :: "Context \<Rightarrow> nat list \<Rightarrow> (nat \<Rightarrow> 'cc rwWeightServiceNode) \<Rightarrow> nat list" where
  "rw_candidates ctx nodes h =
     filter (\<lambda>src. case GroupFromContext ctx of (g, ok) \<Rightarrow> ok \<and> g = rw_group (h src)) nodes"

text \<open>The result of a pick is the selected node; its connection is \<open>rw_cc\<close>.\<close>

definition RwWeightBalancer_Pick ::
    "Context \<Rightarrow> nat list \<Rightarrow> (nat \<Rightarrow> 'cc rwWeightServiceNode) \<Rightarrow> (go_error + nat) \<times> (nat \<Rightarrow> 'cc rwWeightServiceNode)" where
  "RwWeightBalancer_Pick ctx nodes h =
     (if length nodes = 0 then (Inl ErrNoSubConnAvailable, h)
      else weight_pick (if isWriteReq ctx then rw_write_fields else rw_read_fields) (rw_candidates ctx nodes h) h)"

definition RwWeightBalancer_Done ::
    "go_error \<Rightarrow> bool \<Rightarrow> go_error option \<Rightarrow> 'cc rwWeightServiceNode \<Rightarrow> 'cc rwWeightServiceNode" where
  "RwWeightBalancer_Done EOF isWrite err n =
     (let isDecrementErr = (case err of None \<Rightarrow> False | Some e \<Rightarrow> errors_Is e DeadlineExceeded \<or> errors_Is e EOF)
      in if isWrite then
           (if err = None then
              (let n = n\<lparr>rw_efficientWriteWeight := rw_efficientWriteWeight n + 1\<rparr>
               in n\<lparr>rw_currentWriteWeight := max (rw_efficientWriteWeight n) (rw_writeWeight n * 2)\<rparr>)
            else if isDecrementErr \<and> rw_efficientWriteWeight n > 1
            then n\<lparr>rw_efficientWriteWeight := rw_efficientWriteWeight n - 1\<rparr>
            else n)
         else if err = None then
              (let n = n\<lparr>rw_efficientReadWeight := rw_efficientReadWeight n + 1\<rparr>
               in n\<lparr>rw_currentReadWeight := max (rw_efficientReadWeight n) (rw_readWeight n * 2)\<rparr>)
         else if isDecrementErr \<and> rw_efficientReadWeight n > 1
         then n\<lparr>rw_efficientReadWeight := rw_efficientReadWeight n - 1\<rparr>
         else n)"

interpretation read_nodes: smooth_nodes "rw_read_fields :: 'cc rwWeightServiceNode weight_fields"
  by unfold_locales (simp_all add: rw_read_fields_def)

interpretation write_nodes: smooth_nodes "rw_write_fields :: 'cc rwWeightServiceNode weight_fields"
  by unfold_locales (simp_all add: rw_write_fields_def)

lemma rw_fields_simps [simp]:
  "wf_current rw_read_fields = rw_currentReadWeight"
  "wf_set_current rw_read_fields v n = n\<lparr>rw_currentReadWeight := v\<rparr>"
  "wf_efficient rw_read_fields = rw_efficientReadWeight"
  "wf_current rw_write_fields = rw_currentWriteWeight"
  "wf_set_current rw_write_fields v n = n\<lparr>rw_currentWriteWeight := v\<rparr>"
  "wf_efficient rw_write_fields = rw_efficientWriteWeight"
  by (simp_all add: rw_read_fields_def rw_write_fields_def)

section \<open>Properties of the builder\<close>

text \<open>The invariant of the cache: different names, different nodes, all of them allocated.\<close>

definition cache_ok :: "'cc RwWeightBalancerBuilder \<Rightarrow> bool" where
  "cache_ok b \<longleftrightarrow> inj_on (rwb_nodeCache b) (dom (rwb_nodeCache b)) \<and>
     (\<forall>k r. rwb_nodeCache b k = Some r \<longrightarrow> r < rwb_next b)"

lemma cache_ok_inj: "cache_ok b \<Longrightarrow> rwb_nodeCache b k = Some r \<Longrightarrow> rwb_nodeCache b k' = Some r \<Longrightarrow> k = k'"
  unfolding cache_ok_def by (metis domI inj_onD)

lemma cache_okI:
  assumes "\<And>k k' r. rwb_nodeCache b k = Some r \<Longrightarrow> rwb_nodeCache b k' = Some r \<Longrightarrow> k = k'"
    and "\<And>k r. rwb_nodeCache b k = Some r \<Longrightarrow> r < rwb_next b"
  shows "cache_ok b"
  using assms unfolding cache_ok_def by (fastforce intro: inj_onI)

text \<open>The node an address gets from a builder: the cached one, with the group of the address, when its
  weights are those of the address, and otherwise a new one.\<close>

definition node_for ::
    "'cc \<Rightarrow> u32 \<Rightarrow> u32 \<Rightarrow> string \<Rightarrow> string \<Rightarrow> 'cc RwWeightBalancerBuilder \<Rightarrow> 'cc rwWeightServiceNode" where
  "node_for cc readWeight writeWeight groupName nodeName b =
     (case rwb_nodeCache b nodeName of
        Some r \<Rightarrow> if rw_readWeight (rwb_store b r) = readWeight \<and> rw_writeWeight (rwb_store b r) = writeWeight
          then (rwb_store b r)\<lparr>rw_group := groupName\<rparr>
          else newRwWeightServiceNode cc readWeight writeWeight groupName
      | None \<Rightarrow> newRwWeightServiceNode cc readWeight writeWeight groupName)"

lemma new_cached_node_spec:
  assumes "cache_ok b" "new_cached_node name n b = (r, b')"
  shows "cache_ok b' \<and> rwb_nodeCache b' = (rwb_nodeCache b)(name \<mapsto> r) \<and> rwb_store b' r = n \<and>
     (\<forall>k q. k \<noteq> name \<and> rwb_nodeCache b k = Some q \<longrightarrow> rwb_store b' q = rwb_store b q)"
proof -
  have lt: "q < rwb_next b" if "rwb_nodeCache b k = Some q" for k q
    using assms(1) that by (simp add: cache_ok_def)
  have r: "r = rwb_next b" and cache: "rwb_nodeCache b' = (rwb_nodeCache b)(name \<mapsto> rwb_next b)"
    and store: "rwb_store b' = (rwb_store b)(rwb_next b := n)" and nxt: "rwb_next b' = Suc (rwb_next b)"
    using assms(2) by (auto simp: new_cached_node_def)
  have "cache_ok b'"
  proof (rule cache_okI)
    fix k k' q assume "rwb_nodeCache b' k = Some q" "rwb_nodeCache b' k' = Some q"
    then show "k = k'"
      using lt [of k q] lt [of k' q] cache_ok_inj [OF assms(1), of k q k']
      by (auto simp: cache split: if_splits)
  next
    fix k q assume "rwb_nodeCache b' k = Some q"
    then show "q < rwb_next b'" using lt [of k q] by (auto simp: cache nxt split: if_splits)
  qed
  then show ?thesis using lt by (fastforce simp: r cache store)
qed

lemma build_node_spec:
  assumes "cache_ok b" "build_node cc rwt wwt g name b = (r, b')"
  shows "cache_ok b' \<and> rwb_nodeCache b' = (rwb_nodeCache b)(name \<mapsto> r) \<and>
     rwb_store b' r = node_for cc rwt wwt g name b \<and>
     (\<forall>k q. k \<noteq> name \<and> rwb_nodeCache b k = Some q \<longrightarrow> rwb_store b' q = rwb_store b q)"
proof (cases "rwb_nodeCache b name")
  case None
  with assms(2) have "new_cached_node name (newRwWeightServiceNode cc rwt wwt g) b = (r, b')"
    by (simp add: build_node_def)
  from new_cached_node_spec [OF assms(1) this] None show ?thesis by (simp add: node_for_def)
next
  case (Some c)
  have other: "rwb_nodeCache b k \<noteq> Some c" if "k \<noteq> name" for k
    using cache_ok_inj [OF assms(1) Some, of k] that by blast
  let ?b = "b\<lparr>rwb_store := (rwb_store b)(c := (rwb_store b c)\<lparr>rw_group := g\<rparr>)\<rparr>"
  have ok: "cache_ok ?b" using assms(1) by (simp add: cache_ok_def)
  show ?thesis
  proof (cases "rw_readWeight (rwb_store b c) = rwt \<and> rw_writeWeight (rwb_store b c) = wwt")
    case True
    with Some have "build_node cc rwt wwt g name b = (c, ?b)" by (simp add: build_node_def)
    moreover have "r = fst (build_node cc rwt wwt g name b)" "b' = snd (build_node cc rwt wwt g name b)"
      using assms(2) by simp_all
    ultimately have "r = c" "b' = ?b" by simp_all
    with True Some other ok show ?thesis by (auto simp: node_for_def)
  next
    case False
    with Some assms(2) have "new_cached_node name (newRwWeightServiceNode cc rwt wwt g) ?b = (r, b')"
      by (auto simp add: build_node_def Let_def)
    from new_cached_node_spec [OF ok this] False Some other show ?thesis
      by (auto simp: node_for_def)
  qed
qed

text \<open>The addresses a build takes, with their attributes.\<close>

definition eligible :: "'cc PickerBuildInfo \<Rightarrow> ('cc \<times> u32 \<times> u32 \<times> string \<times> string) list" where
  "eligible info = List.map_filter (\<lambda>(cc, i). map_option (Pair cc) (rw_attributes i)) info"

lemma eligible_simps [simp]:
  "eligible [] = []"
  "eligible ((cc, i) # info) = (case rw_attributes i of None \<Rightarrow> eligible info | Some a \<Rightarrow> (cc, a) # eligible info)"
  by (simp_all add: eligible_def List.map_filter_simps split: option.split)

abbreviation node_name :: "'cc \<times> u32 \<times> u32 \<times> string \<times> string \<Rightarrow> string" where
  "node_name e \<equiv> snd (snd (snd (snd e)))"

lemma build_loop_spec:
  assumes "cache_ok b" "distinct (map node_name (eligible info))"
    and "build_loop info nodes ccMap b = (nodes', ccMap', b')"
  shows "cache_ok b' \<and> ccMap' = ccMap \<union> set (map node_name (eligible info)) \<and>
     nodes' = nodes @ map (\<lambda>e. the (rwb_nodeCache b' (node_name e))) (eligible info) \<and>
     (\<forall>(cc, rwt, wwt, g, name) \<in> set (eligible info). \<exists>r. rwb_nodeCache b' name = Some r \<and>
        rwb_store b' r = node_for cc rwt wwt g name b) \<and>
     (\<forall>k q. k \<notin> set (map node_name (eligible info)) \<longrightarrow> rwb_nodeCache b' k = rwb_nodeCache b k \<and>
        (rwb_nodeCache b k = Some q \<longrightarrow> rwb_store b' q = rwb_store b q))"
  using assms
proof (induction info arbitrary: nodes ccMap b)
  case (Cons x info)
  obtain cc i where x: "x = (cc, i)" by (cases x)
  show ?case
  proof (cases "rw_attributes i")
    case None
    with Cons x show ?thesis by simp
  next
    case (Some a)
    obtain rwt wwt g name where a: "a = (rwt, wwt, g, name)" by (cases a) auto
    obtain r b1 where bn: "build_node cc rwt wwt g name b = (r, b1)" by fastforce
    note s = build_node_spec [OF Cons.prems(1) bn]
    from Cons.prems(2) Some a x have new: "name \<notin> set (map node_name (eligible info))"
      "distinct (map node_name (eligible info))" by auto
    from Cons.prems(3) Some a bn x have l:
      "build_loop info (nodes @ [r]) (insert name ccMap) b1 = (nodes', ccMap', b')" by simp
    note IH = Cons.IH [OF conjunct1 [OF s] new(2) l]
    have same: "node_for cc' rwt' wwt' g' name' b1 = node_for cc' rwt' wwt' g' name' b"
      if "(cc', rwt', wwt', g', name') \<in> set (eligible info)" for cc' rwt' wwt' g' name'
    proof -
      from that new(1) have "name' \<noteq> name" by force
      with s show ?thesis by (auto simp: node_for_def split: option.split)
    qed
    have r: "rwb_nodeCache b' name = Some r" "rwb_store b' r = node_for cc rwt wwt g name b"
      using IH new(1) s by simp_all
    have "\<forall>(cc, rwt, wwt, g, name) \<in> set (eligible info). \<exists>r. rwb_nodeCache b' name = Some r \<and>
        rwb_store b' r = node_for cc rwt wwt g name b"
      using IH same by fastforce
    with IH s r x Some a show ?thesis by auto
  qed
qed simp

lemma RwBuild_facts:
  assumes "cache_ok b" "distinct (map node_name (eligible info))"
    and "RwWeightBalancerBuilder_Build info b = (nodes, b')"
  shows "cache_ok b' \<and> dom (rwb_nodeCache b') = set (map node_name (eligible info)) \<and> distinct nodes \<and>
     map (rwb_store b') nodes
       = map (\<lambda>(cc, readWeight, writeWeight, groupName, nodeName).
           node_for cc readWeight writeWeight groupName nodeName b) (eligible info) \<and>
     map (\<lambda>e. rwb_nodeCache b' (node_name e)) (eligible info) = map Some nodes"
proof -
  obtain ns ccMap b1 where l: "build_loop info [] {} b = (ns, ccMap, b1)" by (cases "build_loop info [] {} b")
  with assms(3) have n: "nodes = ns" "b' = b1\<lparr>rwb_nodeCache := rwb_nodeCache b1 |` ccMap\<rparr>"
    by (auto simp: RwWeightBalancerBuilder_Build_def)
  note s = build_loop_spec [OF assms(1,2) l]
  have each: "\<exists>r. rwb_nodeCache b1 (node_name e) = Some r \<and>
      rwb_store b1 r = (case e of (cc, rwt, wwt, g, name) \<Rightarrow> node_for cc rwt wwt g name b)"
    if "e \<in> set (eligible info)" for e
    using s that by fastforce
  have nodes: "map (\<lambda>e. rwb_nodeCache b1 (node_name e)) (eligible info) = map Some nodes"
    using s each by (auto simp: n)
  have "cache_ok b'"
    by (rule cache_okI) (use cache_ok_inj [OF conjunct1 [OF s]] s in
      \<open>auto simp: n restrict_map_def cache_ok_def split: if_splits\<close>)
  moreover have "dom (rwb_nodeCache b') = set (map node_name (eligible info))"
    using s each by (auto simp: n restrict_map_def dom_def split: if_splits)
  moreover have "distinct nodes"
  proof -
    have "inj_on (\<lambda>e. rwb_nodeCache b1 (node_name e)) (set (eligible info))"
    proof (rule inj_onI)
      fix e e' assume e: "e \<in> set (eligible info)" "e' \<in> set (eligible info)"
        "rwb_nodeCache b1 (node_name e) = rwb_nodeCache b1 (node_name e')"
      then have "node_name e = node_name e'"
        using each [OF e(1)] cache_ok_inj [OF conjunct1 [OF s]] by metis
      with e assms(2) show "e = e'" by (auto simp: distinct_map dest: inj_onD)
    qed
    then have "distinct (map (\<lambda>e. rwb_nodeCache b1 (node_name e)) (eligible info))"
      using assms(2) by (simp add: distinct_map)
    then show ?thesis unfolding nodes by (simp add: distinct_map)
  qed
  moreover have "map (rwb_store b') nodes = map (\<lambda>(cc, rwt, wwt, g, name). node_for cc rwt wwt g name b) (eligible info)"
    using s each by (auto simp: n)
  moreover have "map (\<lambda>e. rwb_nodeCache b' (node_name e)) (eligible info) = map Some nodes"
    using s nodes by (auto simp: n)
  ultimately show ?thesis by blast
qed

lemma RwBuild_nth:
  assumes "cache_ok b" "distinct (map node_name (eligible info))"
    and "RwWeightBalancerBuilder_Build info b = (nodes, b')" "i < length (eligible info)"
    and "eligible info ! i = (cc, rwt, wwt, g, name)"
  shows "length nodes = length (eligible info) \<and> rwb_nodeCache b' name = Some (nodes ! i) \<and>
     rwb_store b' (nodes ! i) = node_for cc rwt wwt g name b"
proof -
  note s = RwBuild_facts [OF assms(1-3)]
  then have m: "map (rwb_store b') nodes
       = map (\<lambda>(cc, rwt, wwt, g, name). node_for cc rwt wwt g name b) (eligible info)"
    "map (\<lambda>e. rwb_nodeCache b' (node_name e)) (eligible info) = map Some nodes" by blast+
  from m(2) have len: "length nodes = length (eligible info)" by (metis length_map)
  show ?thesis
    using arg_cong [OF m(1), of "\<lambda>l. l ! i"] arg_cong [OF m(2), of "\<lambda>l. l ! i"] assms(4,5) len by simp
qed


definition node_info :: "u32 \<Rightarrow> u32 \<Rightarrow> string \<Rightarrow> string \<Rightarrow> SubConnInfo" where
  "node_info readWeight writeWeight g name = \<lparr>sci_Addr = name, sci_Attributes =
     [AttrReadWeight \<mapsto> AnyUint32 readWeight, AttrWriteWeight \<mapsto> AnyUint32 writeWeight,
      AttrGroup \<mapsto> AnyString g, AttrNode \<mapsto> AnyString name]\<rparr>"

lemma rw_attributes_node_info [simp]: "rw_attributes (node_info rwt wwt g name) = Some (rwt, wwt, g, name)"
  by (simp add: rw_attributes_def node_info_def Attr_defs as_uint32_def as_string_def)

lemma cache_ok_new [simp]: "cache_ok (NewRwWeightBalancerBuilder h)"
  by (simp add: cache_ok_def NewRwWeightBalancerBuilder_def)


lemma node_for_new [simp]:
  "rwb_nodeCache b name = None \<Longrightarrow> node_for cc rwt wwt g name b = newRwWeightServiceNode cc rwt wwt g"
  by (simp add: node_for_def)

lemma eligible_attributes:
  assumes "map snd info = map snd info'"
  shows "map snd (eligible info) = map snd (eligible info')"
  using assms
proof (induction info arbitrary: info')
  case (Cons x info)
  then obtain x' info'' where "info' = x' # info''" "snd x = snd x'" "map snd info = map snd info''"
    by (cases info') auto
  with Cons.IH [of info''] show ?case by (cases x; cases x') (auto split: option.split)
qed simp

text \<open>A node that reconnects without a change of its weights keeps the connection it had: after a build for
  the connections of \<open>info\<close>, any picks and completed calls, and a second build for the same addresses over
  other connections \<open>info'\<close>, the new picker still offers the connections of \<open>info\<close>.\<close>

theorem RwBuild_stale_connections:
  assumes "distinct (map node_name (eligible info))" "map snd info' = map snd info"
    and "RwWeightBalancerBuilder_Build info (NewRwWeightBalancerBuilder h) = (nodes, b)"
    and "\<forall>r. rw_cc (g r) = rw_cc (rwb_store b r) \<and> rw_readWeight (g r) = rw_readWeight (rwb_store b r) \<and>
       rw_writeWeight (g r) = rw_writeWeight (rwb_store b r)"
    and "RwWeightBalancerBuilder_Build info' (b\<lparr>rwb_store := g\<rparr>) = (nodes', b')"
  shows "map (\<lambda>r. rw_cc (rwb_store b' r)) nodes' = map fst (eligible info)"
proof -
  let ?e = "eligible info" and ?e' = "eligible info'"
  have attrs: "map snd ?e' = map snd ?e" using eligible_attributes [OF assms(2)] .
  then have len: "length ?e' = length ?e" by (metis length_map)
  have snd_eq: "snd (?e' ! i) = snd (?e ! i)" if "i < length ?e" for i
    using arg_cong [OF attrs, of "\<lambda>l. l ! i"] that len by simp
  have d': "distinct (map node_name ?e')"
    using arg_cong [OF attrs, of "map (\<lambda>a. snd (snd (snd a)))"] assms(1) by (simp add: comp_def)
  have ok: "cache_ok (b\<lparr>rwb_store := g\<rparr>)"
    using conjunct1 [OF RwBuild_facts [OF cache_ok_new assms(1,3)]] unfolding cache_ok_def by simp
  have len': "length nodes' = length ?e'"
    using RwBuild_facts [OF ok d' assms(5)] by (metis length_map)
  have "rw_cc (rwb_store b' (nodes' ! i)) = fst (?e ! i)" if i: "i < length ?e" for i
  proof -
    obtain cc rwt wwt gn name where e: "?e ! i = (cc, rwt, wwt, gn, name)" by (cases "?e ! i") auto
    obtain cc' where e': "?e' ! i = (cc', rwt, wwt, gn, name)"
      using snd_eq [OF i] e by (cases "?e' ! i") auto
    have none: "rwb_nodeCache (NewRwWeightBalancerBuilder h) name = None"
      by (simp add: NewRwWeightBalancerBuilder_def)
    have first: "rwb_nodeCache b name = Some (nodes ! i)"
      "rwb_store b (nodes ! i) = newRwWeightServiceNode cc rwt wwt gn"
      using RwBuild_nth [OF cache_ok_new assms(1,3) i e] none by simp_all
    have "rwb_store b' (nodes' ! i) = node_for cc' rwt wwt gn name (b\<lparr>rwb_store := g\<rparr>)"
      using RwBuild_nth [OF ok d' assms(5) _ e'] i len by simp
    with first assms(4) e show ?thesis by (simp add: node_for_def newRwWeightServiceNode_def)
  qed
  with len len' show ?thesis by (intro nth_equalityI) auto
qed

lemma RwBuild_stale_connections_witness:
  "\<exists>nodes b nodes' b'.
     RwWeightBalancerBuilder_Build [(1 :: nat, node_info 1 2 ''g'' ''n'')] (NewRwWeightBalancerBuilder h) = (nodes, b) \<and>
     RwWeightBalancerBuilder_Build [(2, node_info 1 2 ''g'' ''n'')] b = (nodes', b') \<and>
     map (\<lambda>r. rw_cc (rwb_store b' r)) nodes' = [1]"
proof -
  let ?i = "[(1 :: nat, node_info 1 2 ''g'' ''n'')]" and ?i' = "[(2, node_info 1 2 ''g'' ''n'')]"
  obtain nodes b where b: "RwWeightBalancerBuilder_Build ?i (NewRwWeightBalancerBuilder h) = (nodes, b)"
    by fastforce
  obtain nodes' b' where b': "RwWeightBalancerBuilder_Build ?i' b = (nodes', b')" by fastforce
  have d: "distinct (map node_name (eligible ?i))" "map snd ?i' = map snd ?i" by simp_all
  have "RwWeightBalancerBuilder_Build ?i' (b\<lparr>rwb_store := rwb_store b\<rparr>) = (nodes', b')" using b' by simp
  from RwBuild_stale_connections [OF d b _ this] b b' show ?thesis by auto
qed

section \<open>Properties of a pick\<close>

text \<open>C20. A pick offers a call only the nodes of the group in its context: without a group, or without a node
  of it, the pick fails and changes nothing; otherwise it takes a node of the group with the greatest weight
  for the kind of the request. The weights of the other kind and the nodes of other groups stay as they
  were.\<close>

theorem RwPick_group:
  assumes "distinct nodes" "RwWeightBalancer_Pick ctx nodes h = (r, h')"
  defines "cands \<equiv> filter (\<lambda>n. GroupFromContext ctx = (rw_group (h n), True)) nodes"
    and "grown \<equiv> \<lambda>n. if isWriteReq ctx then rw_currentWriteWeight (h n) + rw_efficientWriteWeight (h n)
                   else rw_currentReadWeight (h n) + rw_efficientReadWeight (h n)"
  shows "if cands = [] then r = Inl ErrNoSubConnAvailable \<and> h' = h
     else (\<exists>s \<in> set cands. r = Inr s \<and> (\<forall>n \<in> set cands. grown n \<le> grown s)) \<and>
       (\<forall>n. n \<notin> set cands \<longrightarrow> h' n = h n) \<and>
       (\<forall>n. if isWriteReq ctx then h' n = (h n)\<lparr>rw_currentWriteWeight := rw_currentWriteWeight (h' n)\<rparr>
            else h' n = (h n)\<lparr>rw_currentReadWeight := rw_currentReadWeight (h' n)\<rparr>)"
proof -
  have cands: "rw_candidates ctx nodes h = cands"
    unfolding rw_candidates_def cands_def by (intro filter_cong) (auto split: prod.split)
  show ?thesis
  proof (cases "cands = []")
    case True
    with assms(2) cands show ?thesis
      by (auto simp: RwWeightBalancer_Pick_def weight_pick_def split: if_splits)
  next
    case False
    then have ne: "nodes \<noteq> []" by (auto simp: cands_def)
    have d: "distinct cands" using assms(1) by (simp add: cands_def)
    show ?thesis
    proof (cases "isWriteReq ctx")
      case True
      with assms(2) ne cands have p: "weight_pick rw_write_fields cands h = (r, h')"
        by (simp add: RwWeightBalancer_Pick_def)
      from write_nodes.pick_eq [OF d False, of h] p True False write_nodes.first_max_greatest show ?thesis
        by (fastforce simp: grown_def)
    next
      case read: False
      with assms(2) ne cands have p: "weight_pick rw_read_fields cands h = (r, h')"
        by (simp add: RwWeightBalancer_Pick_def)
      from read_nodes.pick_eq [OF d False, of h] p read False read_nodes.first_max_greatest show ?thesis
        by (fastforce simp: grown_def)
    qed
  qed
qed

definition two_nodes :: "string \<Rightarrow> string \<Rightarrow> nat \<Rightarrow> nat rwWeightServiceNode" where
  "two_nodes g g' r = (if r = 0 then newRwWeightServiceNode 10 1 1 g else newRwWeightServiceNode 20 1 1 g')"

lemma RwPick_group_witness:
  "fst (RwWeightBalancer_Pick (WithGroup Background ''b'') [0, 1] (two_nodes ''a'' ''b'')) = Inr 1"
proof -
  obtain r h' where p: "RwWeightBalancer_Pick (WithGroup Background ''b'') [0, 1] (two_nodes ''a'' ''b'') = (r, h')"
    by fastforce
  have d: "distinct [0, 1 :: nat]" by simp
  have "filter (\<lambda>n. GroupFromContext (WithGroup Background ''b'') = (rw_group (two_nodes ''a'' ''b'' n), True)) [0, 1]
      = [1]"
    by (simp add: context_defs two_nodes_def newRwWeightServiceNode_def)
  from RwPick_group [OF d p, unfolded this] p show ?thesis by auto
qed

section \<open>Calls one after the other\<close>

text \<open>Calls that start when the one before has succeeded.\<close>

fun rw_calls ::
    "go_error \<Rightarrow> nat \<Rightarrow> Context \<Rightarrow> nat list \<Rightarrow> (nat \<Rightarrow> 'cc rwWeightServiceNode) \<Rightarrow> (go_error + nat) list" where
  "rw_calls EOF 0 ctx nodes h = []"
| "rw_calls EOF (Suc k) ctx nodes h =
     (case RwWeightBalancer_Pick ctx nodes h of
        (Inl e, h) \<Rightarrow> Inl e # rw_calls EOF k ctx nodes h
      | (Inr s, h) \<Rightarrow> Inr s # rw_calls EOF k ctx nodes
          (h(s := RwWeightBalancer_Done EOF (isWriteReq ctx) None (h s))))"

definition equal_nodes :: "string \<Rightarrow> nat \<Rightarrow> (nat \<Rightarrow> 'cc rwWeightServiceNode) \<Rightarrow> bool" where
  "equal_nodes g j h \<longleftrightarrow> rw_group (h 0) = g \<and> rw_group (h 1) = g \<and> rw_readWeight (h 0) = 1 \<and>
     rw_currentReadWeight (h 0) = of_nat (1 + j) \<and> rw_efficientReadWeight (h 0) = of_nat (1 + j) \<and>
     rw_currentReadWeight (h 1) = of_nat (1 + j) \<and> rw_efficientReadWeight (h 1) = 1"

lemma equal_nodes_call:
  assumes "equal_nodes g j h" "GroupFromContext ctx = (g, True)" "\<not> isWriteReq ctx" "j < 2147483647"
  shows "\<exists>h1. RwWeightBalancer_Pick ctx [0, 1] h = (Inr 0, h1) \<and>
     equal_nodes g (Suc j) (h1(0 := RwWeightBalancer_Done EOF (isWriteReq ctx) None (h1 0)))"
proof -
  let ?w = "\<lambda>r. rw_currentReadWeight (h r) + rw_efficientReadWeight (h r)"
  from assms(1) have v: "rw_group (h 0) = g" "rw_group (h 1) = g" "rw_readWeight (h 0) = 1"
    "rw_currentReadWeight (h 0) = of_nat (1 + j)" "rw_efficientReadWeight (h 0) = of_nat (1 + j)"
    "rw_currentReadWeight (h 1) = of_nat (1 + j)" "rw_efficientReadWeight (h 1) = 1"
    by (simp_all add: equal_nodes_def)
  have u: "unat (of_nat m :: u32) = m" if "m < 4294967296" for m
    using that by (simp add: unsigned_of_nat take_bit_nat_eq_self)
  have w: "?w 0 = of_nat (2 + 2 * j)" "?w 1 = of_nat (2 + j)" unfolding v by simp_all
  have bounds: "2 + 2 * j < 4294967296" "2 + j < 4294967296" using assms(4) by simp_all
  have "?w 1 \<le> ?w 0"
    unfolding w word_le_nat_alt u [OF bounds(1)] u [OF bounds(2)] by simp
  then have fm: "read_nodes.first_max ?w [0, 1] 0"
    unfolding read_nodes.first_max_def by (intro exI [of _ "[]"] exI [of _ "[1]"]) simp
  have "distinct [0, 1 :: nat]" "[0, 1 :: nat] \<noteq> []" by simp_all
  from read_nodes.pick_eq [OF this, of h, unfolded rw_fields_simps] obtain s where
    s: "read_nodes.first_max ?w [0, 1] s" and p: "weight_pick rw_read_fields [0, 1] h
      = (Inr s, \<lambda>r. if r \<notin> set [0, 1] then h r
         else if r = s then (h r)\<lparr>rw_currentReadWeight := ?w r - sum_list (map (\<lambda>r. rw_efficientReadWeight (h r)) [0, 1])\<rparr>
         else (h r)\<lparr>rw_currentReadWeight := ?w r\<rparr>)"
    by blast
  have s0: "s = 0" using s fm read_nodes.first_max_unique by blast
  have "rw_candidates ctx [0, 1] h = [0, 1]"
    using assms(2) v(1,2) by (simp add: rw_candidates_def del: One_nat_def)
  with p s0 assms(3) obtain h1 where h1: "RwWeightBalancer_Pick ctx [0, 1] h = (Inr 0, h1)"
    "h1 0 = (h 0)\<lparr>rw_currentReadWeight := ?w 0 - (of_nat (1 + j) + 1)\<rparr>"
    "h1 1 = (h 1)\<lparr>rw_currentReadWeight := ?w 1\<rparr>"
    by (simp add: RwWeightBalancer_Pick_def v del: One_nat_def)
  have e: "rw_efficientReadWeight (h 0) + 1 = of_nat (2 + j)" unfolding v by simp
  have two: "(1 :: u32) * 2 = of_nat 2" by simp
  have "max (of_nat (2 + j)) (of_nat 2) = (of_nat (2 + j) :: u32)"
    unfolding max_def word_le_nat_alt u [OF bounds(2)] using u [of 2] by simp
  with h1 v e w two assms(3) show ?thesis
    by (intro exI [of _ h1]) (simp add: equal_nodes_def RwWeightBalancer_Done_def Let_def del: One_nat_def)
qed

lemma equal_nodes_calls:
  assumes "equal_nodes g j h" "GroupFromContext ctx = (g, True)" "\<not> isWriteReq ctx" "j + k < 2147483648"
  shows "rw_calls EOF k ctx [0, 1] h = replicate k (Inr 0)"
  using assms(1,4)
proof (induction k arbitrary: j h)
  case (Suc k)
  then have j: "j < 2147483647" by simp
  from equal_nodes_call [OF Suc.prems(1) assms(2,3) j, of EOF] obtain h1 where
    h1: "RwWeightBalancer_Pick ctx [0, 1] h = (Inr 0, h1)"
    "equal_nodes g (Suc j) (h1(0 := RwWeightBalancer_Done EOF (isWriteReq ctx) None (h1 0)))" by blast
  have "rw_calls EOF k ctx [0, 1] (h1(0 := RwWeightBalancer_Done EOF (isWriteReq ctx) None (h1 0)))
      = replicate k (Inr 0)"
    by (rule Suc.IH [OF h1(2)]) (use Suc.prems(2) in simp)
  with h1(1) show ?case by (simp del: fun_upd_apply)
qed simp

text \<open>Two equal read nodes of weight 1 in one group, and reads that each start after the previous one
  has succeeded: the completed call resets the current weight of the node that was just used, so the second
  node is never picked (for the first \<open>2 ^ 31 - 1\<close> calls).\<close>

theorem RwWeight_starvation:
  assumes "GroupFromContext ctx = (g, True)" "\<not> isWriteReq ctx" "k < 2147483648" "name \<noteq> name'"
    and "RwWeightBalancerBuilder_Build [(cc, node_info 1 wwt g name), (cc', node_info 1 wwt' g name')]
       (NewRwWeightBalancerBuilder h) = (nodes, b)"
  shows "nodes = [0, 1] \<and> rw_calls EOF k ctx nodes (rwb_store b) = replicate k (Inr 0)"
proof -
  have n: "nodes = [0, 1]" and "equal_nodes g 0 (rwb_store b)"
    using assms(4,5) by (auto simp: RwWeightBalancerBuilder_Build_def NewRwWeightBalancerBuilder_def
        build_node_def new_cached_node_def equal_nodes_def newRwWeightServiceNode_def)
  with equal_nodes_calls [of g 0 "rwb_store b" ctx k EOF] assms(1-3) show ?thesis by simp
qed

lemma RwWeight_starvation_witness:
  "\<forall>h. \<exists>nodes b. RwWeightBalancerBuilder_Build [((), node_info 1 1 ''g'' ''a''), ((), node_info 1 1 ''g'' ''b'')]
      (NewRwWeightBalancerBuilder h) = (nodes, b) \<and>
     rw_calls (External 0) 1000 (WithGroup Background ''g'') nodes (rwb_store b) = replicate 1000 (Inr 0)"
proof
  fix h :: "nat \<Rightarrow> unit rwWeightServiceNode"
  obtain nodes b where b: "RwWeightBalancerBuilder_Build [((), node_info 1 1 ''g'' ''a''), ((), node_info 1 1 ''g'' ''b'')]
      (NewRwWeightBalancerBuilder h) = (nodes, b)" by fastforce
  have c: "GroupFromContext (WithGroup Background ''g'') = (''g'', True)" "\<not> isWriteReq (WithGroup Background ''g'')"
    "(1000 :: nat) < 2147483648" "''a'' \<noteq> ''b''"
    by (simp_all add: context_defs isWriteReq_def Background_def)
  from RwWeight_starvation [OF c b, of "External 0"] b show
    "\<exists>nodes b. RwWeightBalancerBuilder_Build [((), node_info 1 1 ''g'' ''a''), ((), node_info 1 1 ''g'' ''b'')]
        (NewRwWeightBalancerBuilder h) = (nodes, b) \<and>
      rw_calls (External 0) 1000 (WithGroup Background ''g'') nodes (rwb_store b) = replicate 1000 (Inr 0)" by blast
qed

end
