(* ===== verification/HashRing.thy ===== *)
theory HashRing
  imports Balancers "HOL-Library.Multiset" "HOL-Library.AList"
begin

text \<open>
  \<open>consistent_hash_balancer.go\<close>: the consistent hash balancer. Its ring is two slices of the same length, the
  hashes of the virtual nodes in ascending order and their addresses. The hash \<open>xxhash.Sum64String\<close> is the
  parameter \<open>xxh\<close>, the map of connections an association list. \<open>sort.Slice\<close> promises a sorted permutation and no order of equal elements, so it is the
  parameter \<open>srt\<close>, a function of the key it sorts by, with that promise as the locale \<open>slice_sort\<close>; the
  stable \<open>sort_key\<close> is one of its instances.
\<close>

section \<open>The binary search of the standard library\<close>

text \<open>\<open>sort.Search(n, f)\<close>.\<close>

function search_loop :: "(nat \<Rightarrow> bool) \<Rightarrow> nat \<Rightarrow> nat \<Rightarrow> nat" where
  "search_loop f i j =
     (if i < j then
        let h = (i + j) div 2
        in if \<not> f h then search_loop f (h + 1) j else search_loop f i h
      else i)"
  by pat_completeness auto

termination search_loop
  by (relation "measure (\<lambda>(f, i, j). j - i)") auto

declare search_loop.simps [simp del]

definition sort_Search :: "nat \<Rightarrow> (nat \<Rightarrow> bool) \<Rightarrow> nat" where
  "sort_Search n f = search_loop f 0 n"

lemma search_loop_spec:
  assumes "i \<le> j" "j \<le> n" "\<forall>k < i. \<not> f k" "\<forall>k. j \<le> k \<and> k < n \<longrightarrow> f k"
    and "\<forall>k l. k \<le> l \<and> l < n \<and> f k \<longrightarrow> f l"
  shows "search_loop f i j \<le> j \<and> (\<forall>k < search_loop f i j. \<not> f k) \<and>
     (\<forall>k. search_loop f i j \<le> k \<and> k < n \<longrightarrow> f k)"
  using assms
proof (induction f i j rule: search_loop.induct)
  case (1 f i j)
  let ?h = "(i + j) div 2"
  note mono = "1.prems"(5)
  show ?case
  proof (cases "i < j")
    case True
    then have h: "i \<le> ?h" "?h < j" by auto
    show ?thesis
    proof (cases "f ?h")
      case fh: True
      have "\<forall>k. ?h \<le> k \<and> k < n \<longrightarrow> f k" using fh mono by blast
      moreover have "?h \<le> n" using h "1.prems"(2) by linarith
      ultimately have "search_loop f i ?h \<le> ?h \<and> (\<forall>k < search_loop f i ?h. \<not> f k) \<and>
          (\<forall>k. search_loop f i ?h \<le> k \<and> k < n \<longrightarrow> f k)"
        using "1.IH"(2) [OF True refl] fh h(1) "1.prems"(3) mono by blast
      moreover have "search_loop f i j = search_loop f i ?h"
        using fh True by (subst search_loop.simps) (simp add: Let_def)
      ultimately show ?thesis using h(2) by (metis le_trans less_imp_le)
    next
      case fh: False
      have low: "\<forall>k < ?h + 1. \<not> f k"
      proof (intro allI impI)
        fix k assume "k < ?h + 1"
        then have "k \<le> ?h" by linarith
        moreover have "?h < n" using h(2) "1.prems"(2) by linarith
        ultimately show "\<not> f k" using fh mono by blast
      qed
      moreover have "?h + 1 \<le> j" using h(2) by linarith
      ultimately have "search_loop f (?h + 1) j \<le> j \<and> (\<forall>k < search_loop f (?h + 1) j. \<not> f k) \<and>
          (\<forall>k. search_loop f (?h + 1) j \<le> k \<and> k < n \<longrightarrow> f k)"
        using "1.IH"(1) [OF True refl fh] "1.prems"(2,4) mono by blast
      moreover have "search_loop f i j = search_loop f (?h + 1) j"
        using fh True by (subst search_loop.simps) (simp add: Let_def)
      ultimately show ?thesis by metis
    qed
  next
    case False
    then have "search_loop f i j = i" by (subst search_loop.simps) simp
    moreover have "i = j" using False "1.prems"(1) by linarith
    ultimately show ?thesis using "1.prems"(3,4) by auto
  qed
qed

lemma sort_Search_spec:
  assumes "\<forall>k l. k \<le> l \<and> l < n \<and> f k \<longrightarrow> f l"
  shows "sort_Search n f \<le> n" "k < sort_Search n f \<Longrightarrow> \<not> f k" "sort_Search n f \<le> k \<Longrightarrow> k < n \<Longrightarrow> f k"
proof -
  have "search_loop f 0 n \<le> n \<and> (\<forall>k < search_loop f 0 n. \<not> f k) \<and>
      (\<forall>k. search_loop f 0 n \<le> k \<and> k < n \<longrightarrow> f k)"
    by (rule search_loop_spec [OF _ _ _ _ assms]) auto
  then show "sort_Search n f \<le> n" "k < sort_Search n f \<Longrightarrow> \<not> f k" "sort_Search n f \<le> k \<Longrightarrow> k < n \<Longrightarrow> f k"
    unfolding sort_Search_def by blast+
qed

section \<open>The ring\<close>

record 'cc CHBalancer =
  ch_ccs :: "(string \<times> 'cc) list"
  ch_ring :: "u32 list"
  ch_nodes :: "string list"
  ch_virtualNodeCnt :: int

definition CHBalancer_hash :: "(string \<Rightarrow> u64) \<Rightarrow> string \<Rightarrow> u32" where
  "CHBalancer_hash xxh src = ucast (xxh src)"

text \<open>The two slices have the same length throughout.\<close>

definition sortRing :: "((nat \<Rightarrow> u32) \<Rightarrow> nat list \<Rightarrow> nat list) \<Rightarrow> 'cc CHBalancer \<Rightarrow> 'cc CHBalancer" where
  "sortRing srt p =
     (let indices = srt (\<lambda>i. ch_ring p ! i) [0 ..< length (ch_ring p)]
      in p\<lparr>ch_ring := map (\<lambda>index. ch_ring p ! index) indices,
           ch_nodes := map (\<lambda>index. ch_nodes p ! index) indices\<rparr>)"

definition addNode ::
    "(string \<Rightarrow> u64) \<Rightarrow> ((nat \<Rightarrow> u32) \<Rightarrow> nat list \<Rightarrow> nat list) \<Rightarrow> 'cc \<Rightarrow> string \<Rightarrow> 'cc CHBalancer \<Rightarrow> 'cc CHBalancer" where
  "addNode xxh srt cc addr p =
     (let p = p\<lparr>ch_ccs := AList.update addr cc (ch_ccs p)\<rparr>;
          p = fold (\<lambda>i p. p\<lparr>ch_ring := ch_ring p @ [CHBalancer_hash xxh (addr @ ''#'' @ format_nat i)],
                            ch_nodes := ch_nodes p @ [addr]\<rparr>) [0 ..< nat (ch_virtualNodeCnt p)] p
      in sortRing srt p)"

text \<open>The new slices are made with the length less the virtual nodes as capacity, a panic when negative.\<close>

definition removeNode :: "string \<Rightarrow> 'cc CHBalancer \<Rightarrow> 'cc CHBalancer run" where
  "removeNode addr p =
     (if int (length (ch_ring p)) - ch_virtualNodeCnt p < 0 \<or> int (length (ch_nodes p)) - ch_virtualNodeCnt p < 0
      then Inl MakeSliceOutOfRange
      else let kept = filter (\<lambda>i. ch_nodes p ! i \<noteq> addr) [0 ..< length (ch_nodes p)]
           in Inr (p\<lparr>ch_ccs := AList.delete addr (ch_ccs p), ch_ring := map (\<lambda>i. ch_ring p ! i) kept,
                     ch_nodes := map (\<lambda>i. ch_nodes p ! i) kept\<rparr>))"

definition getNodeAddr :: "'cc CHBalancer \<Rightarrow> u32 \<Rightarrow> string" where
  "getNodeAddr p h =
     (if length (ch_ring p) = 0 then []
      else let index = sort_Search (length (ch_ring p)) (\<lambda>i. h \<le> ch_ring p ! i);
               index = (if length (ch_ring p) \<le> index then 0 else index)
           in ch_nodes p ! index)"

definition hashFromContext :: "(string \<Rightarrow> u64) \<Rightarrow> Context \<Rightarrow> go_error + u32" where
  "hashFromContext xxh ctx =
     (case BizIdFromContext ctx of (bizId, ok) \<Rightarrow>
      if \<not> ok then Inl (ErrorNew ''[jotify] bizId not found in context'')
      else case BizKeyFromContext ctx of (bizKey, ok) \<Rightarrow>
      if \<not> ok then Inl (ErrorNew ''[jotify] bizKey not found in context'')
      else Inr (CHBalancer_hash xxh (HashKey bizId bizKey)))"

definition CHBalancer_Pick :: "(string \<Rightarrow> u64) \<Rightarrow> Context \<Rightarrow> 'cc CHBalancer \<Rightarrow> go_error + 'cc" where
  "CHBalancer_Pick xxh ctx p =
     (if length (ch_ccs p) = 0 then Inl ErrNoSubConnAvailable
      else case hashFromContext xxh ctx of
        Inl e \<Rightarrow> Inl e
      | Inr hashKey \<Rightarrow>
          (let nodeAddr = getNodeAddr p hashKey
           in if nodeAddr = [] then Inl ErrNoSubConnAvailable
              else case map_of (ch_ccs p) nodeAddr of
                None \<Rightarrow> Inl ErrNoSubConnAvailable
              | Some cc \<Rightarrow> Inr cc))"

section \<open>The builder\<close>

datatype 'cc ch_picker = ErrPicker go_error | CHPicker "'cc CHBalancer"

definition NewCHBalancerBuilder :: int where
  "NewCHBalancerBuilder = 100"

text \<open>A builder is its number of virtual nodes.\<close>

definition CHBalancerBuilder_VirtualNodeCnt :: "int \<Rightarrow> int \<Rightarrow> int" where
  "CHBalancerBuilder_VirtualNodeCnt cnt b = cnt"

definition CHBalancerBuilder_Build ::
    "(string \<Rightarrow> u64) \<Rightarrow> ((nat \<Rightarrow> u32) \<Rightarrow> nat list \<Rightarrow> nat list) \<Rightarrow> int \<Rightarrow> 'cc PickerBuildInfo \<Rightarrow> 'cc ch_picker" where
  "CHBalancerBuilder_Build xxh srt virtualNodeCnt info =
     (if length info = 0 then ErrPicker ErrNoSubConnAvailable
      else if virtualNodeCnt \<le> 0 then ErrPicker (ErrorNew ''[jotify] virtual node count must be greater than 0'')
      else CHPicker (fold (\<lambda>(cc, ccInfo). addNode xxh srt cc (sci_Addr ccInfo)) info
        \<lparr>ch_ccs = [], ch_ring = [], ch_nodes = [], ch_virtualNodeCnt = virtualNodeCnt\<rparr>))"

section \<open>The ring as a sorted list of points\<close>

abbreviation points :: "'cc CHBalancer \<Rightarrow> (u32 \<times> string) list" where
  "points p \<equiv> zip (ch_ring p) (ch_nodes p)"

definition ring_ok :: "'cc CHBalancer \<Rightarrow> bool" where
  "ring_ok p \<longleftrightarrow> length (ch_nodes p) = length (ch_ring p) \<and> sorted (ch_ring p) \<and> set (ch_nodes p) \<subseteq> fst ` set (ch_ccs p)"

text \<open>The owner of a hash: the first point at or after it, and past the last point the first of all.\<close>

definition owner :: "(u32 \<times> string) list \<Rightarrow> u32 \<Rightarrow> string" where
  "owner ps h = (case filter (\<lambda>(x, a). h \<le> x) ps of
       [] \<Rightarrow> (case ps of [] \<Rightarrow> [] | (x, a) # _ \<Rightarrow> a)
     | (x, a) # _ \<Rightarrow> a)"

lemma owner_filter:
  assumes "owner ps h \<noteq> addr"
  shows "owner (filter (\<lambda>(x, a). a \<noteq> addr) ps) h = owner ps h"
proof -
  let ?later = "filter (\<lambda>(x, a). h \<le> x)" and ?kept = "filter (\<lambda>(x, a). a \<noteq> addr)"
  have swap: "?later (?kept ps) = ?kept (?later ps)" by (induction ps) auto
  show ?thesis
  proof (cases "?later ps")
    case Nil
    then have "?later (?kept ps) = []" unfolding swap by simp
    with Nil assms show ?thesis by (cases ps) (auto simp: owner_def split: prod.splits)
  next
    case (Cons q qs)
    obtain x a where q: "q = (x, a)" by (cases q)
    with Cons assms have "a \<noteq> addr" by (simp add: owner_def)
    then have "?later (?kept ps) = (x, a) # ?kept qs" unfolding swap Cons q by simp
    with Cons q show ?thesis by (simp add: owner_def)
  qed
qed

lemma owner_in: "ps \<noteq> [] \<Longrightarrow> owner ps h \<in> snd ` set ps"
proof -
  assume "ps \<noteq> []"
  then show ?thesis
  proof (cases "filter (\<lambda>(x, a). h \<le> x) ps")
    case Nil
    with \<open>ps \<noteq> []\<close> show ?thesis by (cases ps) (auto simp: owner_def)
  next
    case (Cons q qs)
    then have "q \<in> set ps" by (metis filter_is_subset list.set_intros(1) subsetD)
    with Cons show ?thesis by (cases q) (force simp: owner_def)
  qed
qed

lemma getNodeAddr_owner:
  assumes "ring_ok p"
  shows "getNodeAddr p h = owner (points p) h"
proof (cases "ch_ring p = []")
  case True
  then show ?thesis by (simp add: getNodeAddr_def owner_def)
next
  case False
  let ?f = "\<lambda>i. h \<le> ch_ring p ! i" and ?n = "length (ch_ring p)"
  let ?r = "sort_Search ?n ?f"
  have len: "length (ch_nodes p) = ?n" and sorted: "sorted (ch_ring p)" using assms by (simp_all add: ring_ok_def)
  have mono: "\<forall>k l. k \<le> l \<and> l < ?n \<and> ?f k \<longrightarrow> ?f l"
    using sorted by (meson order_trans sorted_nth_mono)
  note s = sort_Search_spec [OF mono]
  have early: "filter (\<lambda>(x, a). h \<le> x) (take ?r (points p)) = []"
    using s(1,2) by (auto simp: filter_empty_conv in_set_conv_nth)
  have split: "points p = take ?r (points p) @ drop ?r (points p)" by simp
  show ?thesis
  proof (cases "?r < ?n")
    case True
    have "drop ?r (points p) = (ch_ring p ! ?r, ch_nodes p ! ?r) # drop (Suc ?r) (points p)"
      using True len by (simp add: Cons_nth_drop_Suc [symmetric])
    then have "filter (\<lambda>(x, a). h \<le> x) (points p)
        = (ch_ring p ! ?r, ch_nodes p ! ?r) # filter (\<lambda>(x, a). h \<le> x) (drop (Suc ?r) (points p))"
      using early s(3) [of ?r] True by (subst split) simp
    with True False show ?thesis by (simp add: getNodeAddr_def owner_def Let_def)
  next
    case last: False
    with s(1) have "?r = ?n" by simp
    then have "filter (\<lambda>(x, a). h \<le> x) (points p) = []" using early len by simp
    moreover obtain x xs a as where "ch_ring p = x # xs" "ch_nodes p = a # as"
      using False len by (metis length_0_conv neq_Nil_conv)
    ultimately show ?thesis using last by (simp add: getNodeAddr_def owner_def Let_def)
  qed
qed

section \<open>What sorting the ring does\<close>

definition virtual_points :: "(string \<Rightarrow> u64) \<Rightarrow> int \<Rightarrow> string \<Rightarrow> (u32 \<times> string) list" where
  "virtual_points xxh cnt addr = map (\<lambda>i. (CHBalancer_hash xxh (addr @ ''#'' @ format_nat i), addr)) [0 ..< nat cnt]"

lemma append_virtual:
  "fold (\<lambda>i p. p\<lparr>ch_ring := ch_ring p @ [f i], ch_nodes := ch_nodes p @ [addr]\<rparr>) xs p
     = p\<lparr>ch_ring := ch_ring p @ map f xs, ch_nodes := ch_nodes p @ map (\<lambda>_. addr) xs\<rparr>"
  by (induction xs arbitrary: p) simp_all

definition info_points :: "(string \<Rightarrow> u64) \<Rightarrow> int \<Rightarrow> 'cc PickerBuildInfo \<Rightarrow> (u32 \<times> string) list" where
  "info_points xxh cnt info = concat (map (\<lambda>(cc, i). virtual_points xxh cnt (sci_Addr i)) info)"

locale slice_sort =
  fixes srt :: "(nat \<Rightarrow> u32) \<Rightarrow> nat list \<Rightarrow> nat list"
  assumes perm: "mset (srt key xs) = mset xs"
    and ordered: "sorted (map key (srt key xs))"
begin

lemma set_srt: "set (srt key xs) = set xs"
  using perm [of key xs] by (rule mset_eq_setD)

lemma points_sortRing:
  assumes "length (ch_nodes p) = length (ch_ring p)"
  shows "mset (points (sortRing srt p)) = mset (points p) \<and> sorted (ch_ring (sortRing srt p)) \<and>
     length (ch_nodes (sortRing srt p)) = length (ch_ring (sortRing srt p))"
proof -
  let ?n = "length (ch_ring p)" and ?key = "\<lambda>i. ch_ring p ! i"
  let ?ix = "srt ?key [0 ..< ?n]"
  have "points (sortRing srt p) = map (\<lambda>i. (ch_ring p ! i, ch_nodes p ! i)) ?ix"
    by (simp add: sortRing_def Let_def zip_map_map zip_same_conv_map)
  also have "\<dots> = map (\<lambda>i. points p ! i) ?ix"
    using assms set_srt [of ?key "[0 ..< ?n]"] by (intro map_cong) auto
  finally have "mset (points (sortRing srt p)) = image_mset (\<lambda>i. points p ! i) (mset [0 ..< ?n])"
    using perm [of ?key "[0 ..< ?n]"] by simp
  also have "\<dots> = mset (map (\<lambda>i. points p ! i) [0 ..< length (points p)])" using assms by simp
  also have "\<dots> = mset (points p)" unfolding map_nth by (rule refl)
  finally show ?thesis using ordered [of ?key "[0 ..< ?n]"] by (simp add: sortRing_def Let_def)
qed

lemma addNode_spec:
  assumes "ring_ok p"
  shows "ring_ok (addNode xxh srt cc addr p) \<and>
     mset (points (addNode xxh srt cc addr p))
       = mset (points p) + mset (virtual_points xxh (ch_virtualNodeCnt p) addr) \<and>
     ch_ccs (addNode xxh srt cc addr p) = AList.update addr cc (ch_ccs p) \<and>
     ch_virtualNodeCnt (addNode xxh srt cc addr p) = ch_virtualNodeCnt p"
proof -
  define q where "q = p\<lparr>ch_ccs := AList.update addr cc (ch_ccs p),
     ch_ring := ch_ring p @ map (\<lambda>i. CHBalancer_hash xxh (addr @ ''#'' @ format_nat i)) [0 ..< nat (ch_virtualNodeCnt p)],
     ch_nodes := ch_nodes p @ map (\<lambda>_. addr) [0 ..< nat (ch_virtualNodeCnt p)]\<rparr>"
  have add: "addNode xxh srt cc addr p = sortRing srt q"
    by (simp add: addNode_def append_virtual q_def)
  have len: "length (ch_nodes q) = length (ch_ring q)" using assms by (simp add: q_def ring_ok_def)
  have "points q = points p @ virtual_points xxh (ch_virtualNodeCnt p) addr"
    using assms by (simp add: q_def ring_ok_def virtual_points_def zip_map_map zip_same_conv_map)
  then have pts: "mset (points (sortRing srt q))
      = mset (points p) + mset (virtual_points xxh (ch_virtualNodeCnt p) addr)"
    using points_sortRing [OF len] by simp
  have ccs: "ch_ccs (sortRing srt q) = AList.update addr cc (ch_ccs p)"
    "ch_virtualNodeCnt (sortRing srt q) = ch_virtualNodeCnt p"
    by (simp_all add: sortRing_def Let_def q_def)
  have lens: "length (ch_nodes (sortRing srt q)) = length (ch_ring (sortRing srt q))"
    using points_sortRing [OF len] by simp
  have "set (ch_nodes (sortRing srt q)) = snd ` set (points (sortRing srt q))"
    using lens by (metis map_snd_zip set_map)
  also have "\<dots> = snd ` (set (points p) \<union> set (virtual_points xxh (ch_virtualNodeCnt p) addr))"
    using mset_eq_setD [of "points (sortRing srt q)" "points p @ virtual_points xxh (ch_virtualNodeCnt p) addr"]
      pts by simp
  also have "\<dots> \<subseteq> insert addr (set (ch_nodes p))"
    by (auto simp: virtual_points_def dest: set_zip_rightD)
  finally have "ring_ok (sortRing srt q)"
    using assms points_sortRing [OF len] lens ccs by (auto simp: ring_ok_def dom_update)
  with pts ccs show ?thesis by (simp add: add)
qed

lemma fold_addNode:
  assumes "ring_ok p"
  shows "let q = fold (\<lambda>(cc, ccInfo). addNode xxh srt cc (sci_Addr ccInfo)) info p
     in ring_ok q \<and> mset (points q) = mset (points p) + mset (info_points xxh (ch_virtualNodeCnt p) info) \<and>
       ch_ccs q = fold (\<lambda>(cc, i). AList.update (sci_Addr i) cc) info (ch_ccs p)"
  using assms
proof (induction info arbitrary: p)
  case Nil
  then show ?case by (simp add: info_points_def)
next
  case (Cons x info)
  obtain cc i where x: "x = (cc, i)" by (cases x)
  from addNode_spec [OF Cons.prems, of xxh cc "sci_Addr i"] Cons.IH [of "addNode xxh srt cc (sci_Addr i) p"]
  show ?case by (simp add: x Let_def info_points_def)
qed

end

interpretation stable: slice_sort "\<lambda>key. sort_key key"
  by unfold_locales simp_all

section \<open>The connections of a built picker\<close>

abbreviation ccs_of :: "'cc PickerBuildInfo \<Rightarrow> (string \<times> 'cc) list \<Rightarrow> (string \<times> 'cc) list" where
  "ccs_of info ccs \<equiv> fold (\<lambda>(cc, i). AList.update (sci_Addr i) cc) info ccs"

lemma ccs_of_sound:
  "map_of (ccs_of info ccs) a = Some cc \<Longrightarrow> (\<exists>i. (cc, i) \<in> set info \<and> sci_Addr i = a) \<or> map_of ccs a = Some cc"
  by (induction info arbitrary: ccs) (fastforce simp: update_conv split: if_splits prod.splits)+

lemma ccs_of_distinct:
  assumes "distinct (map (\<lambda>(cc, i). sci_Addr i) info)"
  shows "map_of (ccs_of info ccs) a = Some cc \<longleftrightarrow>
     (\<exists>i. (cc, i) \<in> set info \<and> sci_Addr i = a) \<or>
     map_of ccs a = Some cc \<and> a \<notin> set (map (\<lambda>(cc, i). sci_Addr i) info)"
  using assms
proof (induction info arbitrary: ccs)
  case (Cons x info)
  obtain c i where x: "x = (c, i)" by (cases x)
  from Cons.prems have "sci_Addr i \<notin> set (map (\<lambda>(cc, i). sci_Addr i) info)" by (simp add: x)
  then have "\<And>c' i'. (c', i') \<in> set info \<Longrightarrow> sci_Addr i' \<noteq> sci_Addr i" by force
  with Cons.IH [of "AList.update (sci_Addr i) c ccs"] Cons.prems x show ?case
    by (auto simp: update_conv)
qed simp

lemma ccs_of_nonempty: "ccs \<noteq> [] \<or> info \<noteq> [] \<Longrightarrow> ccs_of info ccs \<noteq> []"
proof (induction info arbitrary: ccs)
  case (Cons x info)
  from Cons.IH [of "AList.update (sci_Addr (snd x)) (fst x) ccs"] show ?case
    by (simp add: case_prod_unfold)
qed simp

lemma Build_spec:
  assumes "slice_sort srt" "CHBalancerBuilder_Build xxh srt cnt info = CHPicker p"
  shows "info \<noteq> [] \<and> 0 < cnt \<and> ring_ok p \<and> mset (points p) = mset (info_points xxh cnt info) \<and>
     ch_ccs p = ccs_of info []"
proof -
  let ?p = "\<lparr>ch_ccs = [], ch_ring = [], ch_nodes = [], ch_virtualNodeCnt = cnt\<rparr>"
  from assms(2) have info: "info \<noteq> []" "0 < cnt" and
    p: "p = fold (\<lambda>(cc, ccInfo). addNode xxh srt cc (sci_Addr ccInfo)) info ?p"
    by (auto simp: CHBalancerBuilder_Build_def split: if_splits)
  have "ring_ok ?p" by (simp add: ring_ok_def)
  from slice_sort.fold_addNode [OF assms(1) this, where info = info and xxh = xxh] info show ?thesis by (simp add: p Let_def)
qed

lemma Build_some:
  assumes "info \<noteq> []" "0 < cnt"
  obtains p where "CHBalancerBuilder_Build xxh srt cnt info = CHPicker p"
  using assms by (auto simp: CHBalancerBuilder_Build_def)

definition biz_ctx :: "Context \<Rightarrow> u64 \<Rightarrow> string \<Rightarrow> Context" where
  "biz_ctx ctx bizId bizKey = WithBizKey (WithBizId ctx bizId) bizKey"

lemma hashFromContext_biz [simp]:
  "hashFromContext xxh (biz_ctx ctx b k) = Inr (CHBalancer_hash xxh (HashKey b k))"
  by (simp add: hashFromContext_def biz_ctx_def context_defs)

lemma snd_points: "ring_ok p \<Longrightarrow> snd ` set (points p) = set (ch_nodes p)"
  by (metis map_snd_zip ring_ok_def set_map)

text \<open>C18. A picker built for at least one connection, none with an empty address, always finds a connection for
  a call that carries a business id and key: the one of the address whose virtual node is the first at or
  after the hash of the key, around the ring; and the ring holds exactly the virtual nodes of the addresses.\<close>

theorem CH_Pick_ready:
  assumes "slice_sort srt" "CHBalancerBuilder_Build xxh srt cnt info = CHPicker p"
    and "\<forall>(cc, i) \<in> set info. sci_Addr i \<noteq> []"
  shows "mset (points p) = mset (info_points xxh cnt info) \<and>
     (\<exists>(cc, i) \<in> set info. CHBalancer_Pick xxh (biz_ctx ctx b k) p = Inr cc \<and>
        sci_Addr i = owner (points p) (CHBalancer_hash xxh (HashKey b k)))"
proof -
  let ?h = "CHBalancer_hash xxh (HashKey b k)" and ?a = "owner (points p) (CHBalancer_hash xxh (HashKey b k))"
  note s = Build_spec [OF assms(1,2)]
  then have ok: "ring_ok p" by blast
  obtain c i info' where "info = (c, i) # info'" using s by (cases info) auto
  with s have "info_points xxh cnt info \<noteq> []" by (simp add: info_points_def virtual_points_def)
  with s have "points p \<noteq> []" by (metis mset_zero_iff)
  then have "?a \<in> set (ch_nodes p)" using owner_in snd_points [OF ok] by blast
  then have "?a \<in> fst ` set (ch_ccs p)" using ok by (auto simp: ring_ok_def)
  then obtain cc where cc: "map_of (ch_ccs p) ?a = Some cc"
    by (metis map_of_eq_None_iff not_None_eq)
  with s ccs_of_sound [of info "[]"] obtain j where j: "(cc, j) \<in> set info" "sci_Addr j = ?a" by fastforce
  with assms(3) have "?a \<noteq> []" by fastforce
  moreover have "ch_ccs p \<noteq> []" using cc by auto
  ultimately have "CHBalancer_Pick xxh (biz_ctx ctx b k) p = Inr cc"
    using cc getNodeAddr_owner [OF ok] by (simp add: CHBalancer_Pick_def Let_def)
  with j s show ?thesis by blast
qed

definition addrs_info :: "string list \<Rightarrow> string PickerBuildInfo" where
  "addrs_info as = map (\<lambda>a. (a, \<lparr>sci_Addr = a, sci_Attributes = Map.empty\<rparr>)) as"

lemma CH_Pick_ready_witness:
  "\<exists>p. CHBalancerBuilder_Build (\<lambda>s. of_nat (length s)) (\<lambda>key. sort_key key) 2 (addrs_info [''a'', ''bb'']) = CHPicker p \<and>
     CHBalancer_Pick (\<lambda>s. of_nat (length s)) (biz_ctx Background 7 ''k'') p \<in> {Inr ''a'', Inr ''bb''}"
proof -
  obtain p where p: "CHBalancerBuilder_Build (\<lambda>s. of_nat (length s)) (\<lambda>key. sort_key key) 2
      (addrs_info [''a'', ''bb'']) = CHPicker p"
    by (rule Build_some [of "addrs_info [''a'', ''bb'']" 2]) (simp_all add: addrs_info_def)
  have "\<forall>(cc, i) \<in> set (addrs_info [''a'', ''bb'']). sci_Addr i \<noteq> []" by (simp add: addrs_info_def)
  from CH_Pick_ready [OF stable.slice_sort_axioms p this, of Background 7 "''k''"] p show ?thesis
    by (auto simp: addrs_info_def)
qed

lemma sorted_points_unique:
  assumes "mset ps = mset qs" "sorted (map fst ps)" "sorted (map fst qs)" "distinct (map fst qs)"
  shows "ps = qs"
proof (rule map_sorted_distinct_set_unique [where f = fst])
  have "mset (map fst ps) = mset (map fst qs)" using assms(1) by simp
  then show "distinct (map fst ps)" using assms(4) by (metis mset_eq_imp_distinct_iff)
  show "set ps = set qs" using assms(1) by (rule mset_eq_setD)
  with assms(4) show "inj_on fst (set ps \<union> set qs)" by (simp add: distinct_map)
qed (use assms in simp_all)

lemma map_fst_points: "ring_ok p \<Longrightarrow> map fst (points p) = ch_ring p"
  by (simp add: ring_ok_def)

text \<open>C26. Two pickers built for the same connections in any two iteration orders of the map, and by any two
  sorts, send every call to the same connection, when no two virtual nodes have the same hash and the
  addresses are different.\<close>

theorem CH_order_irrelevant:
  assumes "slice_sort srt" "slice_sort srt'"
    and "CHBalancerBuilder_Build xxh srt cnt info = CHPicker p"
    and "CHBalancerBuilder_Build xxh srt' cnt info' = CHPicker p'"
    and "mset info = mset info'" "distinct (map (\<lambda>(cc, i). sci_Addr i) info)"
    and "distinct (map fst (info_points xxh cnt info))"
  shows "CHBalancer_Pick xxh ctx p = CHBalancer_Pick xxh ctx p'"
proof -
  note s = Build_spec [OF assms(1,3)] and s' = Build_spec [OF assms(2,4)]
  then have ok: "ring_ok p" "ring_ok p'" by blast+
  have "mset (info_points xxh cnt info) = mset (info_points xxh cnt info')"
    unfolding info_points_def mset_concat by (metis (no_types, lifting) assms(5) mset_map sum_mset_sum_list)
  then have m: "mset (points p) = mset (points p')" using s s' by simp
  have "distinct (map fst (points p'))"
  proof -
    have "mset (map fst (points p')) = mset (map fst (info_points xxh cnt info))" using s m by simp
    then show ?thesis using assms(7) by (metis mset_eq_imp_distinct_iff)
  qed
  then have pts: "points p = points p'"
    using sorted_points_unique [OF m] ok by (simp add: ring_ok_def)
  have set_eq: "set info = set info'" using assms(5) by (rule mset_eq_setD)
  have "mset (map (\<lambda>(cc, i). sci_Addr i) info') = mset (map (\<lambda>(cc, i). sci_Addr i) info)"
    using assms(5) by simp
  then have d': "distinct (map (\<lambda>(cc, i). sci_Addr i) info')" using assms(6) by (metis mset_eq_imp_distinct_iff)
  have "map_of (ch_ccs p) a = Some cc \<longleftrightarrow> map_of (ch_ccs p') a = Some cc" for a cc
    using s s' ccs_of_distinct [OF assms(6), of "[]" a cc] ccs_of_distinct [OF d', of "[]" a cc] set_eq
    by simp
  then have ccs: "map_of (ch_ccs p) = map_of (ch_ccs p')"
    by (metis (no_types, opaque_lifting) not_Some_eq ext)
  have "ch_ccs p \<noteq> []" "ch_ccs p' \<noteq> []" using s s' ccs_of_nonempty by (metis conjunct1)+
  then show ?thesis
    using ccs pts getNodeAddr_owner [OF ok(1)] getNodeAddr_owner [OF ok(2)]
    by (simp add: CHBalancer_Pick_def Let_def split: sum.split)
qed

lemma CH_order_irrelevant_witness:
  "\<exists>p p'. CHBalancerBuilder_Build (\<lambda>s. of_nat (length s)) (\<lambda>key. sort_key key) 1 (addrs_info [''a'', ''bb'']) = CHPicker p \<and>
     CHBalancerBuilder_Build (\<lambda>s. of_nat (length s)) (\<lambda>key. sort_key key) 1 (addrs_info [''bb'', ''a'']) = CHPicker p' \<and>
     CHBalancer_Pick (\<lambda>s. of_nat (length s)) Background p = CHBalancer_Pick (\<lambda>s. of_nat (length s)) Background p'"
proof -
  let ?xxh = "\<lambda>s. of_nat (length s)" and ?srt = "\<lambda>key. sort_key key"
  obtain p where p: "CHBalancerBuilder_Build ?xxh ?srt 1 (addrs_info [''a'', ''bb'']) = CHPicker p"
    by (rule Build_some [of "addrs_info [''a'', ''bb'']" 1]) (simp_all add: addrs_info_def)
  obtain p' where p': "CHBalancerBuilder_Build ?xxh ?srt 1 (addrs_info [''bb'', ''a'']) = CHPicker p'"
    by (rule Build_some [of "addrs_info [''bb'', ''a'']" 1]) (simp_all add: addrs_info_def)
  have "mset (addrs_info [''a'', ''bb'']) = mset (addrs_info [''bb'', ''a''])"
    "distinct (map (\<lambda>(cc, i). sci_Addr i) (addrs_info [''a'', ''bb'']))"
    by (simp_all add: addrs_info_def add_mset_commute)
  moreover have "distinct (map fst (info_points ?xxh 1 (addrs_info [''a'', ''bb''])))"
    by (simp add: addrs_info_def info_points_def virtual_points_def CHBalancer_hash_def format_nat.simps)
  ultimately show ?thesis
    using CH_order_irrelevant [OF stable.slice_sort_axioms stable.slice_sort_axioms p p'] p p' by blast
qed



text \<open>C19. Removing an address from a ring: the address owns nothing any more, and every hash that another
  address owned keeps its owner. The removal does not panic when the ring has at least one address's worth
  of points.\<close>

theorem removeNode_moves_only_its_keys:
  assumes "ring_ok p" "ch_virtualNodeCnt p \<le> int (length (ch_ring p))"
  shows "\<exists>p'. removeNode addr p = Inr p' \<and> ring_ok p' \<and> addr \<notin> set (ch_nodes p') \<and>
     (getNodeAddr p h \<noteq> addr \<longrightarrow> getNodeAddr p' h = getNodeAddr p h)"
proof -
  let ?kept = "filter (\<lambda>i. ch_nodes p ! i \<noteq> addr) [0 ..< length (ch_nodes p)]"
  let ?p = "p\<lparr>ch_ccs := AList.delete addr (ch_ccs p), ch_ring := map (\<lambda>i. ch_ring p ! i) ?kept,
     ch_nodes := map (\<lambda>i. ch_nodes p ! i) ?kept\<rparr>"
  have len: "length (ch_nodes p) = length (ch_ring p)" using assms(1) by (simp add: ring_ok_def)
  have r: "removeNode addr p = Inr ?p" using assms(2) len by (simp add: removeNode_def Let_def)
  have "points ?p = map (\<lambda>i. (ch_ring p ! i, ch_nodes p ! i)) ?kept"
    by (simp add: zip_map_map zip_same_conv_map)
  also have "\<dots> = map (\<lambda>i. points p ! i) (filter (\<lambda>i. snd (points p ! i) \<noteq> addr) [0 ..< length (points p)])"
    using len by (auto intro!: map_cong filter_cong)
  also have "\<dots> = filter (\<lambda>q. snd q \<noteq> addr) (map (\<lambda>i. points p ! i) [0 ..< length (points p)])"
    by (simp only: filter_map comp_def)
  finally have pts: "points ?p = filter (\<lambda>(x, a). a \<noteq> addr) (points p)"
    unfolding map_nth by (simp add: case_prod_unfold)
  have "sorted (map fst (points ?p))"
    unfolding pts using assms(1) map_fst_points [OF assms(1)] by (simp add: sorted_filter ring_ok_def)
  moreover have "set (ch_nodes ?p) \<subseteq> fst ` set (ch_ccs ?p)"
    using assms(1) by (force simp: ring_ok_def AList.delete_eq)
  ultimately have ok: "ring_ok ?p" by (simp add: ring_ok_def del: map_map)
  have "getNodeAddr ?p h = getNodeAddr p h" if "getNodeAddr p h \<noteq> addr"
    using owner_filter [of "points p" h addr] that pts
    unfolding getNodeAddr_owner [OF ok] getNodeAddr_owner [OF assms(1)] by simp
  moreover have "addr \<notin> set (ch_nodes ?p)" by auto
  ultimately show ?thesis using r ok by blast
qed

lemma removeNode_moves_only_its_keys_witness:
  "\<exists>p'. removeNode ''a'' \<lparr>ch_ccs = [(''a'', ()), (''b'', ())], ch_ring = [3, 5], ch_nodes = [''a'', ''b''],
      ch_virtualNodeCnt = 1\<rparr> = Inr p' \<and> getNodeAddr p' 4 = ''b''"
proof -
  let ?p = "\<lparr>ch_ccs = [(''a'', ()), (''b'', ())], ch_ring = [3, 5], ch_nodes = [''a'', ''b''], ch_virtualNodeCnt = 1\<rparr>"
  have p: "ring_ok ?p" "ch_virtualNodeCnt ?p \<le> int (length (ch_ring ?p))" by (simp_all add: ring_ok_def)
  have "getNodeAddr ?p 4 = ''b''"
    by (simp add: getNodeAddr_def sort_Search_def search_loop.simps)
  with removeNode_moves_only_its_keys [OF p, of "''a''" 4] show ?thesis by auto
qed

end
