(* ===== verification/Discovery.thy ===== *)
theory Discovery
  imports RwBalancer "HOL-Library.Sublist" "HOL-Library.AList"
begin

text \<open>
  How a service is found: the registry over etcd (\<open>pkg/registry\<close>, \<open>pkg/registry/etcd\<close>), the resolver that
  turns its instances into addresses of a gRPC connection (\<open>pkg/client/resolver\<close>), the cache of gRPC clients
  (\<open>pkg/grpc/clients.go\<close>) and the start and end of the server (\<open>ioc/app.go\<close>). etcd, the JSON codec and gRPC are
  parameters; the timeouts of their calls are left out.
\<close>

section \<open>The registry\<close>

record ServiceInstance =
  si_Name :: string
  si_Addr :: string
  si_Group :: string
  si_ReadWeight :: int
  si_WriteWeight :: int

record si_codec =
  sj_Marshal :: "ServiceInstance \<Rightarrow> go_error + string"
  sj_Unmarshal :: "string \<Rightarrow> go_error + ServiceInstance"

text \<open>The calls of the etcd client: \<open>Put\<close> under the lease of the session, \<open>Delete\<close>, and \<open>Get\<close> with a prefix.\<close>

record 'w etcd =
  ec_Put :: "string \<Rightarrow> string \<Rightarrow> 'w \<Rightarrow> go_error option \<times> 'w"
  ec_Delete :: "string \<Rightarrow> 'w \<Rightarrow> go_error option \<times> 'w"
  ec_GetPrefix :: "string \<Rightarrow> 'w \<Rightarrow> (go_error + (string \<times> string) list) \<times> 'w"

definition serviceKey :: "string \<Rightarrow> string" where
  "serviceKey serviceName = ''/notification/'' @ serviceName"

definition instanceKey :: "ServiceInstance \<Rightarrow> string" where
  "instanceKey si = ''/notification/'' @ si_Name si @ ''/'' @ si_Addr si"

definition Registry_Register :: "si_codec \<Rightarrow> 'w etcd \<Rightarrow> ServiceInstance \<Rightarrow> ('w, go_error option) io" where
  "Registry_Register js ec si =
     (case sj_Marshal js si of
        Inl err \<Rightarrow> io_return (Some err)
      | Inr val \<Rightarrow> io_call (ec_Put ec (instanceKey si) val))"

definition Registry_Unregister :: "'w etcd \<Rightarrow> ServiceInstance \<Rightarrow> ('w, go_error option) io" where
  "Registry_Unregister ec si = io_call (ec_Delete ec (instanceKey si))"

fun unmarshal_all :: "si_codec \<Rightarrow> (string \<times> string) list \<Rightarrow> ServiceInstance list \<Rightarrow> go_error + ServiceInstance list" where
  "unmarshal_all js [] res = Inr res"
| "unmarshal_all js ((k, v) # kvs) res =
     (case sj_Unmarshal js v of
        Inl err \<Rightarrow> Inl err
      | Inr si \<Rightarrow> unmarshal_all js kvs (res @ [si]))"

definition Registry_ListService ::
    "si_codec \<Rightarrow> 'w etcd \<Rightarrow> string \<Rightarrow> ('w, go_error + ServiceInstance list) io" where
  "Registry_ListService js ec serviceName =
     io_bind (io_call (ec_GetPrefix ec (serviceKey serviceName))) (\<lambda>resp.
     case resp of
       Inl err \<Rightarrow> io_return (Inl err)
     | Inr kvs \<Rightarrow> io_return (unmarshal_all js kvs []))"

text \<open>The goroutine of a subscription receives the responses of an etcd watch: it returns the number of
  events it has sent and whether it has returned. A closed channel of responses delivers the zero response,
  which has neither an error nor the canceled flag.\<close>

record watch_response =
  wr_Err :: "go_error option"
  wr_Canceled :: bool

definition zero_response :: watch_response where
  "zero_response = \<lparr>wr_Err = None, wr_Canceled = False\<rparr>"

datatype subscribe_event = SubscribeDone | SubscribeResponse watch_response

fun Subscribe_goroutine :: "subscribe_event list \<Rightarrow> nat \<times> bool" where
  "Subscribe_goroutine [] = (0, False)"
| "Subscribe_goroutine (SubscribeDone # evs) = (0, True)"
| "Subscribe_goroutine (SubscribeResponse resp # evs) =
     (if wr_Err resp \<noteq> None then Subscribe_goroutine evs
      else if wr_Canceled resp then (0, True)
      else case Subscribe_goroutine evs of (n, stopped) \<Rightarrow> (Suc n, stopped))"

text \<open>The cancel functions a registry keeps, as the numbers of their contexts, and the contexts canceled so far.
  \<open>Close\<close> cancels all and returns what the session answers.\<close>

record registry_watches =
  rw_watchCancel :: "nat list"
  rw_canceled :: "nat set"

definition Registry_Subscribe :: "string \<Rightarrow> nat \<Rightarrow> registry_watches \<Rightarrow> string \<times> registry_watches" where
  "Registry_Subscribe serviceName ctx r =
     (serviceKey serviceName, r\<lparr>rw_watchCancel := rw_watchCancel r @ [ctx]\<rparr>)"

definition Registry_Close :: "go_error option \<Rightarrow> registry_watches \<Rightarrow> go_error option \<times> registry_watches" where
  "Registry_Close sessionErr r = (sessionErr, fold (\<lambda>c r. r\<lparr>rw_canceled := insert c (rw_canceled r)\<rparr>) (rw_watchCancel r) r)"

record RegistryBuilder =
  rb_leaseTTL :: int

definition NewRegistryBuilder :: RegistryBuilder where
  "NewRegistryBuilder = \<lparr>rb_leaseTTL = 30\<rparr>"

definition RegistryBuilder_LeaseTTL :: "int \<Rightarrow> RegistryBuilder \<Rightarrow> RegistryBuilder" where
  "RegistryBuilder_LeaseTTL ttl rb = rb\<lparr>rb_leaseTTL := ttl\<rparr>"

definition RegistryBuilder_Build :: "(int \<Rightarrow> go_error + 'session) \<Rightarrow> RegistryBuilder \<Rightarrow> go_error + 'session" where
  "RegistryBuilder_Build NewSession rb =
     (if rb_leaseTTL rb \<le> 0 then Inl (ErrorNew ''[jotify] etcd lease TTL must be greater than 0'')
      else NewSession (rb_leaseTTL rb))"

section \<open>The resolver\<close>

record Address =
  ad_Addr :: string
  ad_ServerName :: string
  ad_Attributes :: "string \<Rightarrow> any option"

record 'w ClientConn =
  cn_ReportError :: "go_error \<Rightarrow> 'w \<Rightarrow> 'w"
  cn_UpdateState :: "Address list \<Rightarrow> 'w \<Rightarrow> go_error option \<times> 'w"

definition address_of :: "ServiceInstance \<Rightarrow> Address" where
  "address_of i =
     \<lparr>ad_Addr = si_Addr i, ad_ServerName = si_Name i,
      ad_Attributes = [AttrReadWeight \<mapsto> AnyInt (si_ReadWeight i), AttrWriteWeight \<mapsto> AnyInt (si_WriteWeight i),
        AttrGroup \<mapsto> AnyString (si_Group i), AttrNode \<mapsto> AnyString (si_Name i)]\<rparr>"

definition GrpcResolver_resolve ::
    "(string \<Rightarrow> ('w, go_error + ServiceInstance list) io) \<Rightarrow> 'w ClientConn \<Rightarrow> string \<Rightarrow> ('w, unit) io" where
  "GrpcResolver_resolve ListService cc endpoint =
     io_bind (ListService endpoint) (\<lambda>r.
     case r of
       Inl err \<Rightarrow> io_call (\<lambda>w. ((), cn_ReportError cc err w))
     | Inr instances \<Rightarrow>
         io_bind (io_call (cn_UpdateState cc (map address_of instances))) (\<lambda>err.
         case err of
           Some e \<Rightarrow> io_call (\<lambda>w. ((), cn_ReportError cc e w))
         | None \<Rightarrow> io_return ()))"

text \<open>The loop that watches the registry: an event resolves again, the closed channel ends it.\<close>

datatype watch_event = WatchEvent | WatchClosed

fun GrpcResolver_watch ::
    "(string \<Rightarrow> ('w, go_error + ServiceInstance list) io) \<Rightarrow> 'w ClientConn \<Rightarrow> string \<Rightarrow> watch_event list \<Rightarrow> ('w, unit) io" where
  "GrpcResolver_watch ls cc endpoint [] = io_return ()"
| "GrpcResolver_watch ls cc endpoint (WatchEvent # evs) =
     io_bind (GrpcResolver_resolve ls cc endpoint) (\<lambda>_. GrpcResolver_watch ls cc endpoint evs)"
| "GrpcResolver_watch ls cc endpoint (WatchClosed # evs) = io_return ()"

definition GrpcResolver_ResolveNow ::
    "(string \<Rightarrow> ('w, go_error + ServiceInstance list) io) \<Rightarrow> 'w ClientConn \<Rightarrow> string \<Rightarrow> ('w, unit) io" where
  "GrpcResolver_ResolveNow ls cc endpoint = GrpcResolver_resolve ls cc endpoint"

text \<open>The flag says whether the channel that ends the loop is closed; closing it again is a panic.\<close>

definition GrpcResolver_Close :: "bool \<Rightarrow> bool run" where
  "GrpcResolver_Close closed = (if closed then Inl (PanicMessage ''close of closed channel'') else Inr True)"

definition GrpcResolverBuilder_Scheme :: string where
  "GrpcResolverBuilder_Scheme = ''registry''"

lemma dial_scheme: "\<exists>rest. ''registry:///'' @ serviceName = GrpcResolverBuilder_Scheme @ '':///'' @ rest"
  by (simp add: GrpcResolverBuilder_Scheme_def)

text \<open>A builder keeps the registry, of which the resolver uses the listing; a resolver adds its target and its
  connection. Its timeout is left out.\<close>

record 'w GrpcResolverBuilder =
  gb_registry :: "string \<Rightarrow> ('w, go_error + ServiceInstance list) io"

definition NewGrpcResolverBuilder ::
    "(string \<Rightarrow> ('w, go_error + ServiceInstance list) io) \<Rightarrow> 'w GrpcResolverBuilder" where
  "NewGrpcResolverBuilder r = \<lparr>gb_registry = r\<rparr>"

record 'w GrpcResolver =
  gr_registry :: "string \<Rightarrow> ('w, go_error + ServiceInstance list) io"
  gr_target :: string
  gr_cc :: "'w ClientConn"

definition GrpcResolverBuilder_Build ::
    "'w GrpcResolverBuilder \<Rightarrow> 'w ClientConn \<Rightarrow> string \<Rightarrow> watch_event list \<Rightarrow> ('w, 'w GrpcResolver) io" where
  "GrpcResolverBuilder_Build b cc endpoint evs =
     (let r = \<lparr>gr_registry = gb_registry b, gr_target = endpoint, gr_cc = cc\<rparr>
      in io_bind (GrpcResolver_resolve (gr_registry r) (gr_cc r) (gr_target r)) (\<lambda>_.
         io_bind (GrpcResolver_watch (gr_registry r) (gr_cc r) (gr_target r) evs) (\<lambda>_. io_return r)))"

section \<open>The clients\<close>

text \<open>\<open>%q\<close> for a text of printable characters.\<close>

definition quoted :: "string \<Rightarrow> string" where
  "quoted s = CHR 0x22 # concat (map (\<lambda>c. if c = CHR 0x22 \<or> c = CHR 0x5C then [CHR 0x5C, c] else [c]) s) @ [CHR 0x22]"

record dial_options =
  do_insecure :: bool
  do_serviceConfig :: "string option"

definition service_config :: "string \<Rightarrow> string" where
  "service_config name =
     CHR 0x7B # CHR 0x22 # ''loadBalancingPolicy: '' @ quoted name @ [CHR 0x22, CHR 0x7D]"

record Clients =
  cl_insecure :: bool
  cl_balancer :: "string option"

definition Clients_dial ::
    "(string \<Rightarrow> dial_options \<Rightarrow> go_error + 'conn) \<Rightarrow> Clients \<Rightarrow> string \<Rightarrow> go_error + 'conn" where
  "Clients_dial NewClient c serviceName =
     NewClient (''registry:///'' @ serviceName)
       \<lparr>do_insecure = cl_insecure c, do_serviceConfig = map_option service_config (cl_balancer c)\<rparr>"

text \<open>The map of clients before and after.\<close>

definition Clients_Get ::
    "(string \<Rightarrow> dial_options \<Rightarrow> go_error + 'conn) \<Rightarrow> ('conn \<Rightarrow> 'client) \<Rightarrow> Clients \<Rightarrow> string
       \<Rightarrow> (string \<Rightarrow> 'client option) \<Rightarrow> ('client \<times> (string \<Rightarrow> 'client option)) run" where
  "Clients_Get NewClient creator c serviceName clientMap =
     (case clientMap serviceName of
        Some client \<Rightarrow> Inr (client, clientMap)
      | None \<Rightarrow>
          (case Clients_dial NewClient c serviceName of
             Inl err \<Rightarrow> Inl (PanicMessage (''failed to create grpc client for service '' @ serviceName))
           | Inr conn \<Rightarrow> (let client = creator conn in Inr (client, clientMap(serviceName \<mapsto> client)))))"

section \<open>The server\<close>

text \<open>The registry of the server is nil when None. The goroutine that serves compares the error of
  \<open>Listen\<close>, which is nil there, and so drops the error of \<open>Serve\<close>.\<close>

record 'w app_registry =
  ar_Register :: "ServiceInstance \<Rightarrow> ('w, go_error option) io"
  ar_Unregister :: "ServiceInstance \<Rightarrow> ('w, go_error option) io"
  ar_Close :: "('w, go_error option) io"

record 'w App =
  app_Listen :: "string \<Rightarrow> 'w \<Rightarrow> go_error option \<times> 'w"
  app_GracefulStop :: "'w \<Rightarrow> 'w"
  app_registry :: "'w app_registry option"
  app_serviceInstance :: ServiceInstance

definition App_serve_goroutine :: "go_error option \<Rightarrow> go_error option \<Rightarrow> unit run" where
  "App_serve_goroutine err serveErr = (if err \<noteq> None then Inl (PanicMessage ''serve'') else Inr ())"

definition App_Start :: "'w App \<Rightarrow> ('w, go_error option) io" where
  "App_Start app =
     io_bind (io_call (app_Listen app (si_Addr (app_serviceInstance app)))) (\<lambda>err.
     case err of
       Some e \<Rightarrow> io_return (Some e)
     | None \<Rightarrow>
         (case app_registry app of
            None \<Rightarrow> io_return None
          | Some r \<Rightarrow> ar_Register r (app_serviceInstance app)))"

definition App_Close :: "'w App \<Rightarrow> ('w, unit) io" where
  "App_Close app =
     io_bind (case app_registry app of
        None \<Rightarrow> io_return ()
      | Some r \<Rightarrow>
          io_bind (ar_Unregister r (app_serviceInstance app)) (\<lambda>err.
          io_bind (ar_Close r) (\<lambda>_. io_return ()))) (\<lambda>_.
     io_call (\<lambda>w. ((), app_GracefulStop app w)))"

section \<open>Properties of the registry\<close>

text \<open>What etcd promises: \<open>kv\<close> is the map it stores; a call that fails leaves it as it was, and \<open>Get\<close> with a
  prefix returns every key that starts with it, once.\<close>

definition etcd_laws :: "'w etcd \<Rightarrow> ('w \<Rightarrow> string \<Rightarrow> string option) \<Rightarrow> bool" where
  "etcd_laws ec kv \<longleftrightarrow>
     (\<forall>k v w err w'. ec_Put ec k v w = (err, w') \<longrightarrow> kv w' = (if err = None then (kv w)(k \<mapsto> v) else kv w)) \<and>
     (\<forall>k w err w'. ec_Delete ec k w = (err, w') \<longrightarrow> kv w' = (if err = None then (kv w)(k := None) else kv w)) \<and>
     (\<forall>p w r w'. ec_GetPrefix ec p w = (r, w') \<longrightarrow> kv w' = kv w \<and>
        (\<forall>kvs. r = Inr kvs \<longrightarrow> distinct (map fst kvs) \<and> set kvs = {(k, v). kv w k = Some v \<and> prefix p k}))"

definition codec_laws :: "si_codec \<Rightarrow> bool" where
  "codec_laws js \<longleftrightarrow> (\<forall>si s. sj_Marshal js si = Inr s \<longrightarrow> sj_Unmarshal js s = Inr si)"

text \<open>The instances a store holds, and that it holds nothing else under the prefix of the program.\<close>

definition registered :: "si_codec \<Rightarrow> (string \<Rightarrow> string option) \<Rightarrow> ServiceInstance \<Rightarrow> bool" where
  "registered js m si \<longleftrightarrow> (\<exists>s. sj_Marshal js si = Inr s \<and> m (instanceKey si) = Some s)"

definition only_instances :: "si_codec \<Rightarrow> (string \<Rightarrow> string option) \<Rightarrow> bool" where
  "only_instances js m \<longleftrightarrow> (\<forall>k s. m k = Some s \<and> prefix ''/notification/'' k \<longrightarrow>
     (\<exists>si. k = instanceKey si \<and> sj_Marshal js si = Inr s))"

lemma unmarshal_all_map:
  "\<forall>(k, v) \<in> set kvs. \<exists>si. sj_Unmarshal js v = Inr si \<Longrightarrow>
     unmarshal_all js kvs res = Inr (res @ map (\<lambda>(k, v). projr (sj_Unmarshal js v)) kvs)"
  by (induction kvs arbitrary: res) (auto split: sum.split)

lemma ListService_set:
  assumes "etcd_laws ec kv" "codec_laws js" "only_instances js (kv w)"
    and "Registry_ListService js ec name w = (Inr (Inr instances), w')"
  shows "kv w' = kv w \<and>
     set instances = {si. registered js (kv w) si \<and> prefix name (si_Name si @ ''/'' @ si_Addr si)}"
proof -
  obtain r w0 where g: "ec_GetPrefix ec (serviceKey name) w = (r, w0)" by fastforce
  with assms(4) obtain kvs where kvs: "r = Inr kvs" "unmarshal_all js kvs [] = Inr instances" and "w0 = w'"
    by (cases r) (auto simp: Registry_ListService_def)
  with g have g: "ec_GetPrefix ec (serviceKey name) w = (r, w')" by simp
  have kv: "kv w' = kv w" "set kvs = {(k, v). kv w k = Some v \<and> prefix (serviceKey name) k}"
    using assms(1) g kvs(1) by (auto simp: etcd_laws_def)
  have codec: "sj_Unmarshal js s = Inr si" if "sj_Marshal js si = Inr s" for si s
    using assms(2) that by (simp add: codec_laws_def)
  have entry: "\<exists>si. k = instanceKey si \<and> sj_Marshal js si = Inr v" if "(k, v) \<in> set kvs" for k v
  proof -
    from that kv(2) have "kv w k = Some v" "prefix ''/notification/'' k"
      by (auto simp: serviceKey_def elim: prefix_order.trans [rotated])
    with assms(3) show ?thesis by (simp add: only_instances_def)
  qed
  then have "\<forall>(k, v) \<in> set kvs. \<exists>si. sj_Unmarshal js v = Inr si" using codec by blast
  from unmarshal_all_map [OF this, of "[]"] kvs(2)
  have i: "instances = map (\<lambda>(k, v). projr (sj_Unmarshal js v)) kvs" by simp
  have key: "prefix (serviceKey name) (instanceKey si) \<longleftrightarrow> prefix name (si_Name si @ ''/'' @ si_Addr si)" for si
    by (simp add: serviceKey_def instanceKey_def)
  have "si \<in> set instances \<longleftrightarrow> registered js (kv w) si \<and> prefix name (si_Name si @ ''/'' @ si_Addr si)" for si
  proof
    assume "si \<in> set instances"
    then obtain k v where e: "(k, v) \<in> set kvs" "si = projr (sj_Unmarshal js v)" by (auto simp: i)
    with entry codec have si: "k = instanceKey si" "sj_Marshal js si = Inr v" by force+
    with e(1) kv(2) key show "registered js (kv w) si \<and> prefix name (si_Name si @ ''/'' @ si_Addr si)"
      by (auto simp: registered_def)
  next
    assume "registered js (kv w) si \<and> prefix name (si_Name si @ ''/'' @ si_Addr si)"
    then obtain s where s: "sj_Marshal js si = Inr s" "(instanceKey si, s) \<in> set kvs"
      using kv(2) key by (auto simp: registered_def)
    with codec [OF s(1)] show "si \<in> set instances" by (force simp: i)
  qed
  with kv(1) show ?thesis by blast
qed

text \<open>A listing that succeeds returns the registered instances whose name and address, joined by a slash,
  start with the name of the service: those of the service, and also those of every service whose name the
  asked name is a proper prefix of.\<close>

theorem ListService_prefix:
  assumes "etcd_laws ec kv" "codec_laws js" "only_instances js (kv w)"
    and "Registry_ListService js ec name w = (Inr (Inr instances), w')"
  shows "kv w' = kv w \<and>
     set instances = {si. registered js (kv w) si \<and> prefix name (si_Name si @ ''/'' @ si_Addr si)}"
  by (rule ListService_set [OF assms])

text \<open>A store of etcd that is an association list.\<close>

definition list_etcd :: "(string \<times> string) list etcd" where
  "list_etcd = \<lparr>ec_Put = (\<lambda>k v w. (None, AList.update k v w)), ec_Delete = (\<lambda>k w. (None, AList.delete k w)),
     ec_GetPrefix = (\<lambda>p w. (Inr (filter (\<lambda>(k, v). prefix p k) (AList.clearjunk w)), w))\<rparr>"

lemma list_etcd_laws: "etcd_laws list_etcd map_of"
proof -
  have "distinct (map fst (filter P (AList.clearjunk w)))" for P :: "string \<times> string \<Rightarrow> bool" and w
    using distinct_clearjunk [of w] by (rule distinct_map_filter)
  moreover have "(k, v) \<in> set (AList.clearjunk w) \<longleftrightarrow> map_of w k = Some v" for k v :: string and w
    by (metis distinct_clearjunk map_of_clearjunk map_of_eq_Some_iff)
  ultimately show ?thesis
    by (auto simp: etcd_laws_def list_etcd_def update_conv' delete_conv')
qed

definition pay :: "string \<Rightarrow> ServiceInstance" where
  "pay name = \<lparr>si_Name = name, si_Addr = ''a'', si_Group = [], si_ReadWeight = 0, si_WriteWeight = 0\<rparr>"

text \<open>A codec for these instances only.\<close>

definition pay_codec :: si_codec where
  "pay_codec = \<lparr>sj_Marshal = (\<lambda>si. if si = pay (si_Name si) then Inr (si_Name si) else Inl (External 0)),
     sj_Unmarshal = (\<lambda>s. Inr (pay s))\<rparr>"

definition pay_store :: "(string \<times> string) list" where
  "pay_store = [(instanceKey (pay ''pay''), ''pay''), (instanceKey (pay ''payment''), ''payment'')]"

lemma pay_codec_laws: "codec_laws pay_codec"
  by (simp add: codec_laws_def pay_codec_def)

lemma pay_store_instances: "only_instances pay_codec (map_of pay_store)"
proof -
  have "map_of pay_store k = Some s \<Longrightarrow> \<exists>n. k = instanceKey (pay n) \<and> s = n" for k s
    by (auto simp: pay_store_def split: if_splits)
  then show ?thesis by (fastforce simp: only_instances_def pay_codec_def pay_def)
qed

lemma pay_name [simp]: "si_Name (pay n) = n" "si_Addr (pay n) = ''a''"
  by (simp_all add: pay_def)

lemma ListService_prefix_witness:
  "\<exists>instances. Registry_ListService pay_codec list_etcd ''pay'' pay_store = (Inr (Inr instances), pay_store) \<and>
     pay ''pay'' \<in> set instances \<and> pay ''payment'' \<in> set instances"
proof -
  obtain instances where l: "Registry_ListService pay_codec list_etcd ''pay'' pay_store = (Inr (Inr instances), pay_store)"
    by (simp add: Registry_ListService_def list_etcd_def pay_codec_def unmarshal_all_map)
  have "registered pay_codec (map_of pay_store) (pay ''pay'')" "registered pay_codec (map_of pay_store) (pay ''payment'')"
    by (simp_all add: registered_def pay_codec_def pay_store_def instanceKey_def)
  with ListService_prefix [OF list_etcd_laws pay_codec_laws pay_store_instances l] l show ?thesis by auto
qed



section \<open>Properties of the watch\<close>

text \<open>The end of a watch does not end its goroutine: when the canceled responses of etcd carry an error, as
  they do, the goroutine skips them, never returns, and after the channel of responses is closed sends an
  event for every zero response it receives, without end.\<close>

theorem Subscribe_never_stops:
  assumes "\<forall>r \<in> set resps. wr_Canceled r \<longrightarrow> wr_Err r \<noteq> None"
  shows "Subscribe_goroutine (map SubscribeResponse (resps @ replicate n zero_response))
     = (length (filter (\<lambda>r. wr_Err r = None) resps) + n, False)"
proof -
  have "Subscribe_goroutine (map SubscribeResponse (replicate n zero_response)) = (n, False)"
    by (induction n) (simp_all add: zero_response_def)
  with assms show ?thesis by (induction resps) auto
qed

lemma Subscribe_never_stops_witness:
  "Subscribe_goroutine (map SubscribeResponse ([\<lparr>wr_Err = None, wr_Canceled = False\<rparr>,
     \<lparr>wr_Err = Some (External 1), wr_Canceled = True\<rparr>] @ replicate 1000000 zero_response)) = (1000001, False)"
proof -
  have "\<forall>r \<in> set [\<lparr>wr_Err = None, wr_Canceled = False\<rparr>, \<lparr>wr_Err = Some (External 1), wr_Canceled = True\<rparr>].
      wr_Canceled r \<longrightarrow> wr_Err r \<noteq> None" by simp
  from Subscribe_never_stops [OF this, of 1000000] show ?thesis
    by (simp only: list.size filter.simps) simp
qed

section \<open>From the registry to a connection\<close>

text \<open>The resolver stores the weights of an instance as \<open>int\<close> where the read-write balancer asserts
  \<open>uint32\<close>: whatever the registry lists, a picker that is built for connections to the resolved addresses
  has no node, and every pick fails.\<close>

theorem resolved_addresses_unusable:
  assumes "fst ` set ads \<subseteq> address_of ` UNIV"
    and "RwWeightBalancerBuilder_Build
       (map (\<lambda>(a, cc). (cc, \<lparr>sci_Addr = ad_Addr a, sci_Attributes = ad_Attributes a\<rparr>)) ads) b = (nodes, b')"
  shows "nodes = [] \<and> fst (RwWeightBalancer_Pick ctx nodes h) = Inl ErrNoSubConnAvailable"
proof -
  have skip: "rw_attributes \<lparr>sci_Addr = ad_Addr (address_of i), sci_Attributes = ad_Attributes (address_of i)\<rparr> = None"
    for i
    by (simp add: rw_attributes_def address_of_def Attr_defs as_uint32_def)
  have "build_loop (map (\<lambda>(a, cc). (cc, \<lparr>sci_Addr = ad_Addr a, sci_Attributes = ad_Attributes a\<rparr>)) ads) ns m b
      = (ns, m, b)" for ns m
    using assms(1) skip by (induction ads) (auto simp: split: prod.split)
  with assms(2) show ?thesis
    by (simp add: RwWeightBalancerBuilder_Build_def RwWeightBalancer_Pick_def)
qed

lemma resolved_addresses_unusable_witness:
  "\<forall>h :: nat \<Rightarrow> unit rwWeightServiceNode. fst (RwWeightBalancerBuilder_Build
     (map (\<lambda>(a, cc). (cc, \<lparr>sci_Addr = ad_Addr a, sci_Attributes = ad_Attributes a\<rparr>)) [(address_of (pay ''n''), ())])
     (NewRwWeightBalancerBuilder h)) = []"
proof
  fix h :: "nat \<Rightarrow> unit rwWeightServiceNode"
  have a: "fst ` set [(address_of (pay ''n''), ())] \<subseteq> address_of ` UNIV" by simp
  obtain nodes b' where b: "RwWeightBalancerBuilder_Build
     (map (\<lambda>(a, cc). (cc, \<lparr>sci_Addr = ad_Addr a, sci_Attributes = ad_Attributes a\<rparr>)) [(address_of (pay ''n''), ())])
     (NewRwWeightBalancerBuilder h) = (nodes, b')" by fastforce
  from conjunct1 [OF resolved_addresses_unusable [OF a b]] b show "fst (RwWeightBalancerBuilder_Build
     (map (\<lambda>(a, cc). (cc, \<lparr>sci_Addr = ad_Addr a, sci_Attributes = ad_Attributes a\<rparr>)) [(address_of (pay ''n''), ())])
     (NewRwWeightBalancerBuilder h)) = []" by simp
qed

section \<open>Properties of the clients\<close>

text \<open>What the first characters of a JSON object are: a brace, a key in quotes and, after white space, a
  colon. gRPC rejects a service config that is not JSON.\<close>

definition starts_like_object :: "string \<Rightarrow> bool" where
  "starts_like_object s \<longleftrightarrow>
     (case s of
        b # q # rest \<Rightarrow> b = CHR 0x7B \<and> q = CHR 0x22 \<and>
          (case dropWhile (\<lambda>c. c \<in> {CHR 0x20, CHR 0x09, CHR 0x0A, CHR 0x0D})
                  (tl (dropWhile (\<lambda>c. c \<noteq> CHR 0x22) rest)) of
             c # _ \<Rightarrow> c = CHR 0x3A
           | [] \<Rightarrow> False)
      | _ \<Rightarrow> False)"

definition rejects_bad_config :: "(string \<Rightarrow> dial_options \<Rightarrow> go_error + 'conn) \<Rightarrow> bool" where
  "rejects_bad_config NewClient \<longleftrightarrow> (\<forall>target opts cfg. do_serviceConfig opts = Some cfg \<and> \<not> starts_like_object cfg
     \<longrightarrow> (\<exists>err. NewClient target opts = Inl err))"

text \<open>No client can be created with a balancer: the service config that a dial passes closes the quote of
  the key after the name of the balancer, which is not JSON, so gRPC refuses it and \<open>Get\<close> panics, for every
  service without a cached client and every name of a balancer that does not start with white space, a
  colon, a quote or a backslash.\<close>

theorem Clients_Get_panics:
  assumes "rejects_bad_config NewClient" "cl_balancer c = Some (x # name)"
    and "x \<notin> {CHR 0x20, CHR 0x09, CHR 0x0A, CHR 0x0D, CHR 0x22, CHR 0x3A, CHR 0x5C}"
    and "clientMap serviceName = None"
  shows "Clients_Get NewClient creator c serviceName clientMap
     = Inl (PanicMessage (''failed to create grpc client for service '' @ serviceName))"
proof -
  have "\<not> starts_like_object (service_config (x # name))"
    using assms(3) by (simp add: service_config_def quoted_def starts_like_object_def)
  with assms(1) obtain err where "NewClient (''registry:///'' @ serviceName)
      \<lparr>do_insecure = cl_insecure c, do_serviceConfig = Some (service_config (x # name))\<rparr> = Inl err"
    by (fastforce simp: rejects_bad_config_def)
  with assms(2,4) show ?thesis by (simp add: Clients_Get_def Clients_dial_def)
qed

lemma Clients_Get_panics_witness:
  "Clients_Get (\<lambda>target opts. case do_serviceConfig opts of
        Some cfg \<Rightarrow> if starts_like_object cfg then Inr () else Inl (External 7) | None \<Rightarrow> Inr ())
     (\<lambda>_. ()) \<lparr>cl_insecure = True, cl_balancer = Some ''rw''\<rparr> ''callback'' Map.empty
   = Inl (PanicMessage ''failed to create grpc client for service callback'')"
proof -
  let ?new = "\<lambda>target opts. case do_serviceConfig opts of
        Some cfg \<Rightarrow> if starts_like_object cfg then Inr () else Inl (External 7) | None \<Rightarrow> Inr ()"
  have "rejects_bad_config ?new" by (simp add: rejects_bad_config_def)
  from Clients_Get_panics [OF this, of "\<lparr>cl_insecure = True, cl_balancer = Some ''rw''\<rparr>" "CHR ''r''" "''w''"
      Map.empty "''callback''"] show ?thesis by simp
qed

end
