(* ===== verification/Interceptors.thy ===== *)
theory Interceptors
  imports Effect Ctx "HOL-Library.Log_Nat"
begin

text \<open>
  The gRPC interceptors: the one that authenticates a call with a JSON web token
  (\<open>api/grpc/interceptor/jwt\<close>), which puts the business id and key of the token into the context, and the
  chain of interceptors of \<open>ioc/grpc.go\<close>. Signing and parsing of tokens are parameters, collected in
  \<open>jwt_lib\<close>. A number of a parsed token is a \<open>float64\<close>, here its value.
\<close>

section \<open>Tokens\<close>

datatype claim = ClaimNumber rat | ClaimString string | ClaimOther

type_synonym MapClaims = "string \<Rightarrow> claim option"

datatype signing_method = SigningMethodEd25519 | OtherMethod string

text \<open>A parsed token: its claims, None when they are not \<open>MapClaims\<close>, and its flag.\<close>

record jwt_token =
  jt_Claims :: "MapClaims option"
  jt_Valid :: bool

record jwt_lib =
  jl_SignedString :: "MapClaims \<Rightarrow> go_error + string"
  jl_Parse :: "string \<Rightarrow> (signing_method \<Rightarrow> go_error option) \<Rightarrow> go_error + jwt_token"
  jl_ErrTokenExpired :: go_error
  jl_ErrTokenSignatureInvalid :: go_error
  jl_Error :: "go_error \<Rightarrow> string"

definition paramNameBizId :: string where "paramNameBizId = ''biz_id''"
definition paramNameBizKey :: string where "paramNameBizKey = ''biz_key''"

text \<open>\<open>now\<close> is the Unix time in seconds.\<close>

definition encode_claims :: "int \<Rightarrow> MapClaims \<Rightarrow> MapClaims" where
  "encode_claims now customClaims =
     (let claims = [''iat'' \<mapsto> ClaimNumber (of_int now), ''iss'' \<mapsto> ClaimString ''jotify''];
          claims = claims ++ customClaims
      in if claims ''exp'' = None then claims(''exp'' \<mapsto> ClaimNumber (of_int (now + 24 * 3600))) else claims)"

definition Interceptor_Encode :: "jwt_lib \<Rightarrow> int \<Rightarrow> MapClaims \<Rightarrow> go_error + string" where
  "Interceptor_Encode jl now customClaims = jl_SignedString jl (encode_claims now customClaims)"

definition trim_prefix :: "string \<Rightarrow> string \<Rightarrow> string" where
  "trim_prefix s p = (if take (length p) s = p then drop (length p) s else s)"

text \<open>The function that gives the parser the key refuses every other algorithm.\<close>

definition key_func :: "signing_method \<Rightarrow> go_error option" where
  "key_func m = (case m of SigningMethodEd25519 \<Rightarrow> None
     | OtherMethod alg \<Rightarrow> Some (ErrorNew (''unsupport sign algorithm: '' @ alg)))"

definition Interceptor_Decode :: "jwt_lib \<Rightarrow> string \<Rightarrow> go_error + MapClaims" where
  "Interceptor_Decode jl tokenStr =
     (let tokenStr = trim_prefix tokenStr ''Bearer ''
      in case jl_Parse jl tokenStr key_func of
           Inl err \<Rightarrow> Inl (Wrapped err ''fail to decode token'')
         | Inr token \<Rightarrow>
             (case jt_Claims token of
                Some claims \<Rightarrow> if jt_Valid token then Inr claims else Inl (ErrorNew ''invalid token'')
              | None \<Rightarrow> Inl (ErrorNew ''invalid token'')))"

section \<open>The interceptor\<close>

text \<open>\<open>uint64(f)\<close> of a float in the range of the type: the fraction is dropped.\<close>

definition uint64_of_float :: "rat \<Rightarrow> u64" where
  "uint64_of_float f = word_of_int (if f < 0 then \<lceil>f\<rceil> else \<lfloor>f\<rfloor>)"

datatype call_error = Unauthenticated string | HandlerError go_error

type_synonym ('w, 'req, 'resp) handler = "Context \<Rightarrow> 'req \<Rightarrow> ('w, call_error + 'resp) io"

definition unauthenticated_text :: "jwt_lib \<Rightarrow> go_error \<Rightarrow> string" where
  "unauthenticated_text jl err =
     (if errors_Is err (jl_ErrTokenExpired jl) then ''token expired''
      else if errors_Is err (jl_ErrTokenSignatureInvalid jl) then ''invalid signature''
      else ''invalid token: '' @ jl_Error jl err)"

definition claim_bizId :: "MapClaims \<Rightarrow> Context \<Rightarrow> Context run" where
  "claim_bizId mc ctx =
     (case mc paramNameBizId of
        None \<Rightarrow> Inr ctx
      | Some (ClaimNumber f) \<Rightarrow> Inr (WithBizId ctx (uint64_of_float f))
      | Some _ \<Rightarrow> Inl TypeAssertion)"

definition claim_bizKey :: "MapClaims \<Rightarrow> Context \<Rightarrow> Context run" where
  "claim_bizKey mc ctx =
     (case mc paramNameBizKey of
        None \<Rightarrow> Inr ctx
      | Some (ClaimString s) \<Rightarrow> Inr (WithBizKey ctx s)
      | Some _ \<Rightarrow> Inl TypeAssertion)"

text \<open>\<open>md\<close> is the metadata of the call, None when it has none, as the values of its \<open>Authorization\<close> header.\<close>

definition Interceptor_Build ::
    "jwt_lib \<Rightarrow> string list option \<Rightarrow> ('w, 'req, 'resp) handler \<Rightarrow> ('w, 'req, 'resp) handler" where
  "Interceptor_Build jl md handler ctx req =
     (case md of
        None \<Rightarrow> io_return (Inl (Unauthenticated ''missing metadata''))
      | Some authHeaders \<Rightarrow>
          (case authHeaders of
             [] \<Rightarrow> io_return (Inl (Unauthenticated ''missing authorization token''))
           | tokenStr # _ \<Rightarrow>
               (case Interceptor_Decode jl tokenStr of
                  Inl err \<Rightarrow> io_return (Inl (Unauthenticated (unauthenticated_text jl err)))
                | Inr mc \<Rightarrow>
                    io_bind (io_run (claim_bizId mc ctx)) (\<lambda>ctx.
                    io_bind (io_run (claim_bizKey mc ctx)) (\<lambda>ctx.
                    handler ctx req)))))"

text \<open>The chain wraps the handler from the last interceptor to the first.\<close>

definition InterceptorOf ::
    "(('w, 'req, 'resp) handler \<Rightarrow> ('w, 'req, 'resp) handler) list \<Rightarrow> ('w, 'req, 'resp) handler \<Rightarrow> ('w, 'req, 'resp) handler" where
  "InterceptorOf interceptors handler =
     fold (\<lambda>thisInterceptor nxt ctx req. thisInterceptor nxt ctx req) (rev interceptors) handler"

section \<open>Numbers of a token\<close>

text \<open>The \<open>float64\<close> that is nearest to a natural number, which is what JSON decoding makes of its digits: 53
  bits are kept, the rest is rounded, a tie to even.\<close>

definition float64_of_nat :: "nat \<Rightarrow> nat" where
  "float64_of_nat n =
     (if n < 2 ^ 53 then n
      else let e = floorlog 2 n - 53;
               q = n div 2 ^ e;
               r = n mod 2 ^ e;
               half = 2 ^ (e - 1)
           in (if half < r \<or> r = half \<and> odd q then q + 1 else q) * 2 ^ e)"

text \<open>What a token carries: the claims that were signed, its numbers read back as floats. A token that has not
  expired and that this program signed is parsed without an error.\<close>

definition read_claim :: "claim \<Rightarrow> claim" where
  "read_claim c = (case c of
      ClaimNumber f \<Rightarrow> if f \<in> \<nat> then ClaimNumber (of_nat (float64_of_nat (nat \<lfloor>f\<rfloor>))) else ClaimNumber f
    | _ \<Rightarrow> c)"

definition jwt_laws :: "jwt_lib \<Rightarrow> (MapClaims \<Rightarrow> bool) \<Rightarrow> bool" where
  "jwt_laws jl live \<longleftrightarrow>
     (\<forall>claims s. jl_SignedString jl claims = Inr s \<and> live claims \<longrightarrow>
        jl_Parse jl s key_func = Inr \<lparr>jt_Claims = Some (map_option read_claim \<circ> claims), jt_Valid = True\<rparr>)"


definition plain_jwt :: jwt_lib where
  "plain_jwt = \<lparr>jl_SignedString = (\<lambda>c. case c paramNameBizId of
        Some (ClaimNumber f) \<Rightarrow> if f = 7 \<and> c = encode_claims 0 [paramNameBizId \<mapsto> ClaimNumber 7, paramNameBizKey \<mapsto> ClaimString ''k'']
          then Inr ''token'' else Inl (External 0)
      | _ \<Rightarrow> Inl (External 0)),
     jl_Parse = (\<lambda>s kf. if s = ''token'' \<and> kf SigningMethodEd25519 = None
       then Inr \<lparr>jt_Claims = Some (map_option read_claim \<circ>
          encode_claims 0 [paramNameBizId \<mapsto> ClaimNumber 7, paramNameBizKey \<mapsto> ClaimString ''k'']), jt_Valid = True\<rparr>
       else Inl (External 1)),
     jl_ErrTokenExpired = External 2, jl_ErrTokenSignatureInvalid = External 3, jl_Error = (\<lambda>_. [])\<rparr>"


text \<open>A token for a business id and key that this program signed puts them into the context of the handler,
  the id as the nearest \<open>float64\<close>: an id of at most 53 bits arrives unchanged, but the greater ids do not
  all: the calls of business \<open>2 ^ 53 + 1\<close> are handled as those of business \<open>2 ^ 53\<close>.\<close>

theorem Interceptor_bizId:
  assumes "jwt_laws jl live" "Interceptor_Encode jl now custom = Inr s" "live (encode_claims now custom)"
    and "custom paramNameBizId = Some (ClaimNumber (of_nat n))" "custom paramNameBizKey = Some (ClaimString k)"
  shows "Interceptor_Build jl (Some ((''Bearer '' @ s) # hs)) handler ctx req
       = handler (WithBizKey (WithBizId ctx (of_nat (float64_of_nat n))) k) req \<and>
     (n < 2 ^ 53 \<longrightarrow> float64_of_nat n = n) \<and> float64_of_nat (2 ^ 53 + 1) = 2 ^ 53"
proof -
  let ?claims = "encode_claims now custom"
  have "Interceptor_Decode jl (''Bearer '' @ s) = Inr (map_option read_claim \<circ> ?claims)"
    using assms(1-3) by (simp add: Interceptor_Decode_def trim_prefix_def Interceptor_Encode_def jwt_laws_def)
  moreover have "?claims paramNameBizId = Some (ClaimNumber (of_nat n))" "?claims paramNameBizKey = Some (ClaimString k)"
    using assms(4,5) by (simp_all add: encode_claims_def Let_def paramNameBizId_def paramNameBizKey_def)
  moreover have "read_claim (ClaimNumber (of_nat n)) = ClaimNumber (of_nat (float64_of_nat n))"
    by (simp add: read_claim_def)
  moreover have "uint64_of_float (of_nat (float64_of_nat n)) = of_nat (float64_of_nat n)"
    by (simp add: uint64_of_float_def)
  ultimately have "Interceptor_Build jl (Some ((''Bearer '' @ s) # hs)) handler ctx req
      = handler (WithBizKey (WithBizId ctx (of_nat (float64_of_nat n))) k) req"
    by (simp add: Interceptor_Build_def claim_bizId_def claim_bizKey_def read_claim_def)
  moreover have "floorlog 2 (2 ^ 53 + 1 :: nat) = 54"
  proof (rule antisym)
    show "floorlog 2 (2 ^ 53 + 1 :: nat) \<le> 54" by (rule floorlog_leI) simp_all
    show "54 \<le> floorlog 2 (2 ^ 53 + 1 :: nat)" by (rule floorlog_geI) simp_all
  qed
  ultimately show ?thesis by (simp add: float64_of_nat_def)
qed

lemma Interceptor_bizId_witness:
  "Interceptor_Build plain_jwt (Some [''Bearer token'']) (\<lambda>ctx req w. (Inr (Inr (BizIdFromContext ctx)), w)) Background () (0 :: nat)
     = (Inr (Inr (7, True)), 0)"
proof -
  let ?custom = "[paramNameBizId \<mapsto> ClaimNumber 7, paramNameBizKey \<mapsto> ClaimString ''k'']"
  have custom: "?custom paramNameBizId = Some (ClaimNumber (of_nat 7))" "?custom paramNameBizKey = Some (ClaimString ''k'')"
    by (simp_all add: paramNameBizId_def paramNameBizKey_def)
  have "encode_claims 0 ?custom paramNameBizId = Some (ClaimNumber 7)"
    by (simp add: encode_claims_def Let_def paramNameBizId_def paramNameBizKey_def)
  then have e: "Interceptor_Encode plain_jwt 0 ?custom = Inr ''token''"
    by (simp add: Interceptor_Encode_def plain_jwt_def)
  have laws: "jwt_laws plain_jwt (\<lambda>_. True)"
    by (auto simp: jwt_laws_def plain_jwt_def key_func_def split: option.splits claim.splits if_splits)
  have n: "float64_of_nat 7 = 7" by (simp add: float64_of_nat_def)
  from fun_cong [OF conjunct1 [OF Interceptor_bizId [OF laws e TrueI custom, of "[]"
        "\<lambda>ctx req w. (Inr (Inr (BizIdFromContext ctx)), w)" Background "()"]], of "0 :: nat"]
  show ?thesis by (simp add: n context_defs)
qed

end
