(* ===== verification/Idempotent.thy ===== *)
theory Idempotent
  imports Effect
begin

text \<open>
  \<open>pkg/idempotent/redis\<close>: a key exists from the first time it is asked for until it expires. \<open>SetNX\<close> of Redis
  and the pipeline of such commands are parameters.
\<close>

record 'w redis_nx =
  rx_SetNX :: "string \<Rightarrow> Duration \<Rightarrow> 'w \<Rightarrow> (go_error + bool) \<times> 'w"
  rx_Exec :: "string list \<Rightarrow> Duration \<Rightarrow> 'w \<Rightarrow> (go_error option \<times> (go_error + bool) list) \<times> 'w"

definition idempotentKey :: "string \<Rightarrow> string" where
  "idempotentKey bizKey = ''idempotent:'' @ bizKey"

definition Strategy_Exists :: "'w redis_nx \<Rightarrow> Duration \<Rightarrow> string \<Rightarrow> ('w, go_error + bool) io" where
  "Strategy_Exists rx expires key =
     io_bind (io_call (rx_SetNX rx (idempotentKey key) expires)) (\<lambda>r.
     case r of
       Inl err \<Rightarrow> io_return (Inl err)
     | Inr res \<Rightarrow> io_return (Inr (\<not> res)))"

fun exists_loop :: "string list \<Rightarrow> (go_error + bool) list \<Rightarrow> (string \<Rightarrow> bool option) \<Rightarrow> go_error + (string \<Rightarrow> bool option)" where
  "exists_loop (key # keys) (cmd # cmds) res =
     (case cmd of
        Inl err \<Rightarrow> Inl err
      | Inr cmdRes \<Rightarrow> exists_loop keys cmds (res(key \<mapsto> \<not> cmdRes)))"
| "exists_loop _ _ res = Inr res"

definition Strategy_MultiExists ::
    "'w redis_nx \<Rightarrow> Duration \<Rightarrow> string list \<Rightarrow> ('w, go_error + (string \<Rightarrow> bool option)) io" where
  "Strategy_MultiExists rx expires keys =
     io_bind (io_call (rx_Exec rx (map idempotentKey keys) expires)) (\<lambda>(er, commands).
     case er of
       Some e \<Rightarrow> io_return (Inl e)
     | None \<Rightarrow> io_return (exists_loop keys commands Map.empty))"

record 'w idempotent_Strategy =
  is_Exists :: "string \<Rightarrow> ('w, go_error + bool) io"
  is_MultiExists :: "string list \<Rightarrow> ('w, go_error + (string \<Rightarrow> bool option)) io"

definition NewStrategy :: "'w redis_nx \<Rightarrow> Duration \<Rightarrow> 'w idempotent_Strategy" where
  "NewStrategy client expires =
     \<lparr>is_Exists = Strategy_Exists client expires, is_MultiExists = Strategy_MultiExists client expires\<rparr>"

section \<open>Properties\<close>

text \<open>What Redis promises: \<open>live\<close> is the set of keys that are set; \<open>SetNX\<close> sets the key and tells whether it was
  absent, unless it fails; a pipeline that succeeds has the results of its commands one after the other.\<close>

fun setnx_results :: "string list \<Rightarrow> string set \<Rightarrow> (go_error + bool) list" where
  "setnx_results [] live = []"
| "setnx_results (k # ks) live = Inr (k \<notin> live) # setnx_results ks (insert k live)"

definition redis_nx_laws :: "'w redis_nx \<Rightarrow> ('w \<Rightarrow> string set) \<Rightarrow> bool" where
  "redis_nx_laws rx live \<longleftrightarrow>
     (\<forall>k d w b w'. rx_SetNX rx k d w = (Inr b, w') \<longrightarrow> b = (k \<notin> live w) \<and> live w' = insert k (live w)) \<and>
     (\<forall>ks d w cmds w'. rx_Exec rx ks d w = ((None, cmds), w') \<longrightarrow>
        cmds = setnx_results ks (live w) \<and> live w' = set ks \<union> live w)"

lemma idempotentKey_eq [simp]: "idempotentKey k = idempotentKey k' \<longleftrightarrow> k = k'"
  by (simp add: idempotentKey_def)

lemma exists_loop_results:
  "\<exists>r. exists_loop keys (setnx_results (map idempotentKey keys) live) res = Inr r \<and>
     (\<forall>k. r k = (if k \<notin> set keys then res k
        else Some (idempotentKey k \<in> live \<or> count_list keys k \<ge> 2)))"
proof (induction keys arbitrary: live res)
  case (Cons key keys)
  let ?live = "insert (idempotentKey key) live" and ?res = "res(key \<mapsto> idempotentKey key \<in> live)"
  obtain r where r: "exists_loop keys (setnx_results (map idempotentKey keys) ?live) ?res = Inr r"
    "\<forall>k. r k = (if k \<notin> set keys then ?res k else Some (idempotentKey k \<in> ?live \<or> count_list keys k \<ge> 2))"
    using Cons.IH by blast
  have "r k = (if k \<notin> set (key # keys) then res k
      else Some (idempotentKey k \<in> live \<or> count_list (key # keys) k \<ge> 2))" for k
  proof -
    have "k \<in> set keys \<longleftrightarrow> count_list keys k \<ge> 1"
      using count_list_0_iff [of keys k] by (cases "count_list keys k") auto
    then show ?thesis using r(2) by auto
  qed
  with r(1) show ?case by simp
qed simp

text \<open>When the pipeline succeeds, a key of the list is reported as existing exactly when it was set before
  or occurs twice in the list, and after the call all keys are set. A new key that a batch repeats counts as
  a duplicate although no request with it has been handled.\<close>

theorem MultiExists_spec:
  assumes "redis_nx_laws rx live" "Strategy_MultiExists rx expires keys w = (Inr (Inr res), w')"
  shows "live w' = idempotentKey ` set keys \<union> live w \<and>
     (\<forall>k. res k = (if k \<in> set keys then Some (idempotentKey k \<in> live w \<or> count_list keys k \<ge> 2) else None))"
proof -
  obtain er cmds w1 where e: "rx_Exec rx (map idempotentKey keys) expires w = ((er, cmds), w1)" by (metis prod.exhaust)
  with assms(2) have "er = None" "w1 = w'" "exists_loop keys cmds Map.empty = Inr res"
    by (auto simp: Strategy_MultiExists_def split: option.splits)
  with assms(1) e exists_loop_results [of keys "live w" Map.empty] show ?thesis
    by (fastforce simp: redis_nx_laws_def)
qed

text \<open>Of two calls for the same key that both succeed, with no expiry between them, the second reports that
  the key exists, and the first whether it was there before.\<close>

theorem Exists_twice:
  assumes "redis_nx_laws rx live" "Strategy_Exists rx expires key w = (Inr (Inr b), w1)"
    and "Strategy_Exists rx expires key w1 = (Inr (Inr b'), w2)"
  shows "b = (idempotentKey key \<in> live w) \<and> b'"
proof -
  have once: "c = (idempotentKey key \<in> live v) \<and> live v' = insert (idempotentKey key) (live v)"
    if call: "Strategy_Exists rx expires key v = (Inr (Inr c), v')" for c v v'
  proof -
    obtain r v1 where r: "rx_SetNX rx (idempotentKey key) expires v = (r, v1)" by fastforce
    with call obtain res where "r = Inr res" "c = (\<not> res)" "v1 = v'"
      by (auto simp: Strategy_Exists_def split: sum.splits)
    moreover from r calculation assms(1)
    have "res = (idempotentKey key \<notin> live v) \<and> live v1 = insert (idempotentKey key) (live v)"
      unfolding redis_nx_laws_def by metis
    ultimately show ?thesis by simp
  qed
  from once [OF assms(2)] once [OF assms(3)] show ?thesis by simp
qed

definition set_nx :: "string set redis_nx" where
  "set_nx = \<lparr>rx_SetNX = (\<lambda>k d w. (Inr (k \<notin> w), insert k w)),
     rx_Exec = (\<lambda>ks d w. ((None, setnx_results ks w), set ks \<union> w))\<rparr>"

lemma set_nx_laws: "redis_nx_laws set_nx (\<lambda>w. w)"
  by (simp add: redis_nx_laws_def set_nx_def)

lemma MultiExists_spec_witness:
  "\<exists>res w. Strategy_MultiExists set_nx 1 [''a'', ''b'', ''a''] {} = (Inr (Inr res), w) \<and>
     res ''a'' = Some True \<and> res ''b'' = Some False"
proof -
  obtain res w where m: "Strategy_MultiExists set_nx 1 [''a'', ''b'', ''a''] {} = (Inr (Inr res), w)"
    by (simp add: Strategy_MultiExists_def set_nx_def)
  from MultiExists_spec [OF set_nx_laws m] m show ?thesis by simp
qed

lemma Exists_twice_witness:
  "\<exists>w1 w2. Strategy_Exists set_nx 1 ''k'' {} = (Inr (Inr False), w1) \<and>
     Strategy_Exists set_nx 1 ''k'' w1 = (Inr (Inr True), w2)"
proof -
  have some: "\<exists>b w'. Strategy_Exists set_nx 1 ''k'' w = (Inr (Inr b), w')" for w
    by (simp add: Strategy_Exists_def set_nx_def)
  obtain b w1 where 1: "Strategy_Exists set_nx 1 ''k'' {} = (Inr (Inr b), w1)" using some by blast
  obtain b' w2 where 2: "Strategy_Exists set_nx 1 ''k'' w1 = (Inr (Inr b'), w2)" using some by blast
  from Exists_twice [OF set_nx_laws 1 2] 1 2 show ?thesis by simp
qed

end
