(* ===== verification/Jobs.thy ===== *)
theory Jobs
  imports Effect Ctx "HOL-Library.Multiset"
begin

text \<open>
  \<open>internal/pkg/job\<close>: the semaphore that bounds how many tables a process works on, and the job that goes
  round the tables, takes a slot and a distributed lock for each, and runs a goroutine per table it has
  locked. The goroutines interleave, so the job is a step relation: one step is one call that can be seen
  from outside. What the lock service and the business function answer is open: every answer is a step.
\<close>

section \<open>The semaphore\<close>

record MaxCntResourceSemaphore =
  ms_maxCnt :: int
  ms_currCnt :: int

definition Semaphore_Acquire :: "MaxCntResourceSemaphore \<Rightarrow> go_error option \<times> MaxCntResourceSemaphore" where
  "Semaphore_Acquire s =
     (if ms_currCnt s \<ge> ms_maxCnt s then (Some ErrAcquireExceedLimit, s)
      else (None, s\<lparr>ms_currCnt := ms_currCnt s + 1\<rparr>))"

definition Semaphore_Release :: "MaxCntResourceSemaphore \<Rightarrow> go_error option \<times> MaxCntResourceSemaphore" where
  "Semaphore_Release s = (None, s\<lparr>ms_currCnt := ms_currCnt s - 1\<rparr>)"

definition Semaphore_UpdateMaxCnt :: "int \<Rightarrow> MaxCntResourceSemaphore \<Rightarrow> MaxCntResourceSemaphore" where
  "Semaphore_UpdateMaxCnt maxCnt s = s\<lparr>ms_maxCnt := maxCnt\<rparr>"

definition NewMaxCntResourceSemaphore :: "int \<Rightarrow> MaxCntResourceSemaphore" where
  "NewMaxCntResourceSemaphore maxCnt = \<lparr>ms_maxCnt = maxCnt, ms_currCnt = 0\<rparr>"

section \<open>The job\<close>

record 's ShardingLoopJob =
  lj_baseKey :: string
  lj_Acquire :: "'s \<Rightarrow> go_error option \<times> 's"
  lj_Release :: "'s \<Rightarrow> go_error option \<times> 's"
  lj_BroadCast :: "Dst list"

definition generateDlockKey :: "'s ShardingLoopJob \<Rightarrow> string \<Rightarrow> string \<Rightarrow> string" where
  "generateDlockKey lj db table = lj_baseKey lj @ '':'' @ db @ '':'' @ table"

definition dst_key :: "'s ShardingLoopJob \<Rightarrow> Dst \<Rightarrow> string" where
  "dst_key lj d = generateDlockKey lj (dst_DB d) (dst_Table d)"

text \<open>Where the loop of \<open>Run\<close> is: before the next table of a round, with a slot before the creation of the
  lock, and before \<open>TryLock\<close>. Where a goroutine \<open>tableLoop\<close> is: before the business function, before
  \<open>Refresh\<close>, before \<open>Unlock\<close> with the error \<open>bizLoop\<close> has returned, and before the deferred \<open>Release\<close>.\<close>

datatype run_pc =
    RunNext "Dst list"
  | RunAcquired Dst "Dst list"
  | RunCreated Dst "Dst list"

datatype table_pc = TableBiz | TableRefresh | TableUnlock go_error | TableReturn

record table_loop =
  tl_ctx :: Context
  tl_pc :: table_pc

text \<open>\<open>js_locked\<close> are the keys that \<open>TryLock\<close> has granted and \<open>Unlock\<close> has not been called for; \<open>js_ctxErr\<close> is the
  error of the context of the job.\<close>

record 's job_state =
  js_sem :: 's
  js_run :: run_pc
  js_tables :: "table_loop list"
  js_locked :: "string list"
  js_ctxErr :: "go_error option"

definition set_pc :: "nat \<Rightarrow> table_pc \<Rightarrow> 's job_state \<Rightarrow> 's job_state" where
  "set_pc i pc s = s\<lparr>js_tables := (js_tables s)[i := (js_tables s ! i)\<lparr>tl_pc := pc\<rparr>]\<rparr>"

definition at_pc :: "'s job_state \<Rightarrow> nat \<Rightarrow> table_pc \<Rightarrow> bool" where
  "at_pc s i pc \<longleftrightarrow> i < length (js_tables s) \<and> tl_pc (js_tables s ! i) = pc"

definition table_key :: "'s ShardingLoopJob \<Rightarrow> table_loop \<Rightarrow> string" where
  "table_key lj t = dst_key lj (fst (DstFromContext (tl_ctx t)))"

definition remove_nth :: "nat \<Rightarrow> 'a list \<Rightarrow> 'a list" where
  "remove_nth i xs = take i xs @ drop (Suc i) xs"

text \<open>\<open>update\<close> is the change of the limit from outside; \<open>grants held key\<close> says whether the lock service may grant
  the lock of \<open>key\<close> while the locks \<open>held\<close> are held.\<close>

inductive job_step ::
    "'s ShardingLoopJob \<Rightarrow> (int \<Rightarrow> 's \<Rightarrow> 's) \<Rightarrow> (string set \<Rightarrow> string \<Rightarrow> bool) \<Rightarrow> Context
       \<Rightarrow> 's job_state \<Rightarrow> 's job_state \<Rightarrow> bool"
  for lj update grants ctx
where
  run_round: "js_run s = RunNext [] \<Longrightarrow> job_step lj update grants ctx s (s\<lparr>js_run := RunNext (lj_BroadCast lj)\<rparr>)"
| run_exceeded: "js_run s = RunNext (d # ds) \<Longrightarrow> lj_Acquire lj (js_sem s) = (Some e, sem) \<Longrightarrow>
     job_step lj update grants ctx s (s\<lparr>js_run := RunNext ds, js_sem := sem\<rparr>)"
| run_acquired: "js_run s = RunNext (d # ds) \<Longrightarrow> lj_Acquire lj (js_sem s) = (None, sem) \<Longrightarrow>
     job_step lj update grants ctx s (s\<lparr>js_run := RunAcquired d ds, js_sem := sem\<rparr>)"
| new_lock_failed: "js_run s = RunAcquired d ds \<Longrightarrow> lj_Release lj (js_sem s) = (r, sem) \<Longrightarrow>
     job_step lj update grants ctx s (s\<lparr>js_run := RunNext ds, js_sem := sem\<rparr>)"
| new_lock: "js_run s = RunAcquired d ds \<Longrightarrow>
     job_step lj update grants ctx s (s\<lparr>js_run := RunCreated d ds\<rparr>)"
| try_lock_failed: "js_run s = RunCreated d ds \<Longrightarrow> lj_Release lj (js_sem s) = (r, sem) \<Longrightarrow>
     job_step lj update grants ctx s (s\<lparr>js_run := RunNext ds, js_sem := sem\<rparr>)"
| try_lock: "js_run s = RunCreated d ds \<Longrightarrow> grants (set (js_locked s)) (dst_key lj d) \<Longrightarrow>
     job_step lj update grants ctx s (s\<lparr>js_run := RunNext ds,
       js_tables := js_tables s @ [\<lparr>tl_ctx = ContextWitDst ctx d, tl_pc = TableBiz\<rparr>],
       js_locked := js_locked s @ [dst_key lj d]\<rparr>)"
| biz_done: "at_pc s i TableBiz \<Longrightarrow> js_ctxErr s = None \<Longrightarrow> job_step lj update grants ctx s (set_pc i TableRefresh s)"
| biz_canceled: "at_pc s i TableBiz \<Longrightarrow> js_ctxErr s = Some e \<Longrightarrow>
     job_step lj update grants ctx s (set_pc i (TableUnlock e) s)"
| refreshed: "at_pc s i TableRefresh \<Longrightarrow> job_step lj update grants ctx s (set_pc i TableBiz s)"
| refresh_failed: "at_pc s i TableRefresh \<Longrightarrow>
     job_step lj update grants ctx s
       (set_pc i (TableUnlock (Wrapped e ''[jotify] failed to refresh distributed lock'')) s)"
| unlocked: "at_pc s i (TableUnlock e) \<Longrightarrow>
     job_step lj update grants ctx s
       (set_pc i TableReturn (s\<lparr>js_locked := remove1 (table_key lj (js_tables s ! i)) (js_locked s)\<rparr>))"
| returned: "at_pc s i TableReturn \<Longrightarrow> lj_Release lj (js_sem s) = (r, sem) \<Longrightarrow>
     job_step lj update grants ctx s (s\<lparr>js_tables := remove_nth i (js_tables s), js_sem := sem\<rparr>)"
| canceled: "js_ctxErr s = None \<Longrightarrow> e \<in> {ContextCanceled, DeadlineExceeded} \<Longrightarrow>
     job_step lj update grants ctx s (s\<lparr>js_ctxErr := Some e\<rparr>)"
| updated: "job_step lj update grants ctx s (s\<lparr>js_sem := update maxCnt (js_sem s)\<rparr>)"

inductive_cases job_stepE: "job_step lj update grants ctx s s'"

definition job_start :: "'s \<Rightarrow> 's job_state" where
  "job_start sem = \<lparr>js_sem = sem, js_run = RunNext [], js_tables = [], js_locked = [], js_ctxErr = None\<rparr>"

definition job_reachable ::
    "'s ShardingLoopJob \<Rightarrow> (int \<Rightarrow> 's \<Rightarrow> 's) \<Rightarrow> (string set \<Rightarrow> string \<Rightarrow> bool) \<Rightarrow> Context \<Rightarrow> 's \<Rightarrow> 's job_state \<Rightarrow> bool" where
  "job_reachable lj update grants ctx sem = (job_step lj update grants ctx)\<^sup>*\<^sup>* (job_start sem)"

definition NewShardingLoopJob :: "string \<Rightarrow> Dst list \<Rightarrow> MaxCntResourceSemaphore ShardingLoopJob" where
  "NewShardingLoopJob baseKey dsts = \<lparr>lj_baseKey = baseKey, lj_Acquire = Semaphore_Acquire,
     lj_Release = Semaphore_Release, lj_BroadCast = dsts\<rparr>"

lemma job_induct [consumes 1, case_names start step]:
  assumes "job_reachable lj update grants ctx sem s" "P (job_start sem)"
    and "\<And>s s'. job_reachable lj update grants ctx sem s \<Longrightarrow> P s \<Longrightarrow> job_step lj update grants ctx s s' \<Longrightarrow> P s'"
  shows "P s"
  using assms(1) unfolding job_reachable_def
  by (induction rule: rtranclp_induct) (use assms(2,3) in \<open>auto simp: job_reachable_def\<close>)

section \<open>The slots of a job\<close>

text \<open>The contract of a semaphore: \<open>cnt\<close> is the number of slots taken.\<close>

locale resource_semaphore =
  fixes acquire release :: "'s \<Rightarrow> go_error option \<times> 's"
    and update :: "int \<Rightarrow> 's \<Rightarrow> 's"
    and cnt :: "'s \<Rightarrow> int"
  assumes acquired: "acquire s = (None, s') \<Longrightarrow> cnt s' = cnt s + 1"
    and refused: "acquire s = (Some e, s') \<Longrightarrow> cnt s' = cnt s"
    and released: "release s = (r, s') \<Longrightarrow> cnt s' = cnt s - 1"
    and updated: "cnt (update m s) = cnt s"
begin

definition held :: "'s job_state \<Rightarrow> int" where
  "held s = (case js_run s of RunNext _ \<Rightarrow> 0 | _ \<Rightarrow> 1) + int (length (js_tables s))"

lemma step_slots:
  assumes "job_step lj update grants ctx s s'" "lj_Acquire lj = acquire" "lj_Release lj = release"
  shows "cnt (js_sem s') - held s' = cnt (js_sem s) - held s"
proof -
  note sem = acquired [folded assms(2)] refused [folded assms(2)] released [folded assms(3)]
  show ?thesis
    using assms(1)
    by (elim job_stepE)
      (auto simp: held_def set_pc_def at_pc_def remove_nth_def updated dest: sem)
qed

lemma reachable_slots:
  assumes "job_reachable lj update grants ctx sem s" "lj_Acquire lj = acquire" "lj_Release lj = release"
  shows "cnt (js_sem s) = cnt sem + held s"
  using assms(1)
proof (induction rule: job_induct)
  case start
  then show ?case by (simp add: job_start_def held_def)
next
  case (step s s')
  from step_slots [OF step(2) assms(2,3)] step(3) show ?case by simp
qed

end

interpretation max_cnt: resource_semaphore Semaphore_Acquire Semaphore_Release Semaphore_UpdateMaxCnt ms_currCnt
  by unfold_locales (auto simp: Semaphore_Acquire_def Semaphore_Release_def Semaphore_UpdateMaxCnt_def
      split: if_splits)

section \<open>Properties\<close>

abbreviation run_slots :: "'s job_state \<Rightarrow> int" where
  "run_slots s \<equiv> (case js_run s of RunNext _ \<Rightarrow> 0 | _ \<Rightarrow> 1)"

lemma NewShardingLoopJob_simps [simp]:
  "lj_Acquire (NewShardingLoopJob k ds) = Semaphore_Acquire"
  "lj_Release (NewShardingLoopJob k ds) = Semaphore_Release"
  "lj_BroadCast (NewShardingLoopJob k ds) = ds"
  by (simp_all add: NewShardingLoopJob_def)

text \<open>C15. The count of the semaphore is, in every state the job can reach, however its goroutines interleave
  and however often the limit is changed, the number of running table loops and one more
  while \<open>Run\<close> holds a slot itself: no path leaks a slot or gives one back twice.\<close>

theorem job_slots:
  assumes "job_reachable (NewShardingLoopJob k ds) Semaphore_UpdateMaxCnt grants ctx (NewMaxCntResourceSemaphore m) s"
  shows "ms_currCnt (js_sem s) = run_slots s + int (length (js_tables s))"
  using max_cnt.reachable_slots [OF assms] by (simp add: max_cnt.held_def NewMaxCntResourceSemaphore_def)

definition raise_limit :: "int \<Rightarrow> MaxCntResourceSemaphore \<Rightarrow> MaxCntResourceSemaphore" where
  "raise_limit m s = (if ms_maxCnt s \<le> m then Semaphore_UpdateMaxCnt m s else s)"

interpretation raised: resource_semaphore Semaphore_Acquire Semaphore_Release raise_limit ms_currCnt
  by unfold_locales (auto simp: raise_limit_def Semaphore_UpdateMaxCnt_def intro: max_cnt.acquired max_cnt.refused
      max_cnt.released)

text \<open>While the limit is only ever raised, the job never runs more table loops than the limit allows.\<close>

theorem job_limit:
  assumes "job_reachable (NewShardingLoopJob k ds) raise_limit grants ctx (NewMaxCntResourceSemaphore m) s" "0 \<le> m"
  shows "run_slots s + int (length (js_tables s)) \<le> ms_maxCnt (js_sem s)"
proof -
  have "ms_currCnt (js_sem s) \<le> ms_maxCnt (js_sem s)"
    using assms(1)
  proof (induction rule: job_induct)
    case start
    then show ?case using assms(2) by (simp add: job_start_def NewMaxCntResourceSemaphore_def)
  next
    case (step s s')
    from step(2,3) show ?case
      by (elim job_stepE)
        (auto simp: Semaphore_Acquire_def Semaphore_Release_def raise_limit_def Semaphore_UpdateMaxCnt_def
          set_pc_def split: if_splits)
  qed
  with raised.reachable_slots [OF assms(1)] show ?thesis
    by (simp add: raised.held_def NewMaxCntResourceSemaphore_def)
qed

lemma table_key_pc [simp]: "table_key lj (t\<lparr>tl_pc := pc\<rparr>) = table_key lj t"
  by (simp add: table_key_def)

lemma table_key_new [simp]: "table_key lj \<lparr>tl_ctx = ContextWitDst ctx d, tl_pc = pc\<rparr> = dst_key lj d"
  by (simp add: table_key_def context_defs)

text \<open>The keys of the loops that have not called \<open>Unlock\<close>.\<close>

definition working :: "'s ShardingLoopJob \<Rightarrow> table_loop list \<Rightarrow> string multiset" where
  "working lj ts = image_mset (table_key lj) (filter_mset (\<lambda>t. tl_pc t \<noteq> TableReturn) (mset ts))"

lemma mset_remove_nth: "i < length xs \<Longrightarrow> mset (remove_nth i xs) = mset xs - {#xs ! i#}"
proof -
  assume "i < length xs"
  then have "xs = take i xs @ xs ! i # drop (Suc i) xs" by (rule id_take_nth_drop)
  then have "mset xs = add_mset (xs ! i) (mset (remove_nth i xs))"
    unfolding remove_nth_def by (metis mset_append mset.simps(2) union_mset_add_mset_right)
  then show ?thesis by simp
qed

lemma working_update:
  assumes "i < length ts"
  shows "working lj (ts[i := t]) + (if tl_pc (ts ! i) \<noteq> TableReturn then {#table_key lj (ts ! i)#} else {#})
       = working lj ts + (if tl_pc t \<noteq> TableReturn then {#table_key lj t#} else {#})"
proof -
  have "ts ! i \<in># mset ts" using assms by simp
  then obtain M where M: "mset ts = add_mset (ts ! i) M" by (metis multi_member_split)
  then have "mset (ts[i := t]) = add_mset t M" using assms by (simp add: mset_update)
  with M show ?thesis by (simp add: working_def)
qed

lemma working_remove:
  assumes "i < length ts" "tl_pc (ts ! i) = TableReturn"
  shows "working lj (remove_nth i ts) = working lj ts"
proof -
  have "ts ! i \<in># mset ts" using assms by simp
  then obtain M where M: "mset ts = add_mset (ts ! i) M" by (metis multi_member_split)
  with assms show ?thesis by (simp add: working_def mset_remove_nth)
qed

lemma locked_working:
  assumes "job_reachable lj update grants ctx sem s" "\<forall>held key. grants held key \<longrightarrow> key \<notin> held"
  shows "mset (js_locked s) = working lj (js_tables s) \<and> distinct (js_locked s)"
  using assms(1)
proof (induction rule: job_induct)
  case start
  then show ?case by (simp add: job_start_def working_def)
next
  case (step s s')
  have stay: "working lj ((js_tables s)[i := (js_tables s ! i)\<lparr>tl_pc := pc\<rparr>]) = working lj (js_tables s)"
    if "i < length (js_tables s)" "tl_pc (js_tables s ! i) \<noteq> TableReturn" "pc \<noteq> TableReturn" for i pc
    using working_update [OF that(1), of lj "(js_tables s ! i)\<lparr>tl_pc := pc\<rparr>"] that(2,3) by simp
  show ?case
    using step(2)
  proof (cases rule: job_step.cases)
    case (try_lock d ds)
    with step(3) assms(2) show ?thesis by (simp add: working_def)
  next
    case (unlocked i e)
    then have i: "i < length (js_tables s)" "tl_pc (js_tables s ! i) = TableUnlock e" by (auto simp: at_pc_def)
    have "working lj (js_tables s) = add_mset (table_key lj (js_tables s ! i)) (working lj
        ((js_tables s)[i := (js_tables s ! i)\<lparr>tl_pc := TableReturn\<rparr>]))"
      using working_update [OF i(1), of lj "(js_tables s ! i)\<lparr>tl_pc := TableReturn\<rparr>"] i(2) by simp
    with step(3) unlocked show ?thesis by (simp add: set_pc_def)
  next
    case (returned i r sem')
    with step(3) show ?thesis by (simp add: working_remove at_pc_def)
  qed (use step(3) in \<open>auto simp: set_pc_def at_pc_def stay\<close>)
qed

lemma distinct_filter_nth:
  assumes "distinct (map f (filter P xs))" "i < j" "j < length xs" "P (xs ! i)" "P (xs ! j)"
  shows "f (xs ! i) \<noteq> f (xs ! j)"
proof -
  have "xs = take j xs @ xs ! j # drop (Suc j) xs" using assms(3) by (rule id_take_nth_drop)
  then have "filter P xs = filter P (take j xs) @ xs ! j # filter P (drop (Suc j) xs)"
    using assms(5) by (metis filter_append filter.simps(2))
  with assms(1) have "f (xs ! j) \<notin> f ` set (filter P (take j xs))" by simp
  moreover have "xs ! i \<in> set (filter P (take j xs))"
    using assms(2-4) by (auto simp: in_set_conv_nth)
  ultimately show ?thesis by (metis image_eqI)
qed

definition run_dsts :: "run_pc \<Rightarrow> Dst list" where
  "run_dsts pc = (case pc of RunNext ds \<Rightarrow> ds | RunAcquired d ds \<Rightarrow> d # ds | RunCreated d ds \<Rightarrow> d # ds)"

definition names_table :: "'s ShardingLoopJob \<Rightarrow> Context \<Rightarrow> bool" where
  "names_table lj c \<longleftrightarrow> (\<exists>d \<in> set (lj_BroadCast lj). DstFromContext c = (d, True))"

lemma set_pc_ctx: "i < length (js_tables s) \<Longrightarrow> map tl_ctx (js_tables (set_pc i pc s)) = map tl_ctx (js_tables s)"
  by (simp add: set_pc_def map_update list_update_same_conv)

lemma reachable_contexts:
  assumes "job_reachable lj update grants ctx sem s"
  shows "set (run_dsts (js_run s)) \<subseteq> set (lj_BroadCast lj) \<and> (\<forall>c \<in> set (map tl_ctx (js_tables s)). names_table lj c)"
  using assms
proof (induction rule: job_induct)
  case start
  then show ?case by (simp add: job_start_def run_dsts_def)
next
  case (step s s')
  have run [simp]: "js_run (set_pc i pc s) = js_run s" for i pc and s :: "'a job_state"
    by (simp add: set_pc_def)
  from step(2) show ?case
  proof (cases rule: job_step.cases)
    case (try_lock d ds)
    with step(3) show ?thesis by (auto simp: run_dsts_def names_table_def context_defs)
  next
    case (returned i r sem')
    with step(3) show ?thesis by (auto simp: remove_nth_def dest: in_set_takeD in_set_dropD)
  next
    case (unlocked i e)
    with step(3) set_pc_ctx [of i "s\<lparr>js_locked := remove1 (table_key lj (js_tables s ! i)) (js_locked s)\<rparr>"]
    show ?thesis by (simp add: at_pc_def del: set_map)
  qed (use step(3) in \<open>auto simp: run_dsts_def at_pc_def set_pc_ctx simp del: set_map\<close>)
qed


lemma reachable_step:
  "job_reachable lj update grants ctx sem s \<Longrightarrow> job_step lj update grants ctx s s' \<Longrightarrow>
     job_reachable lj update grants ctx sem s'"
  unfolding job_reachable_def by (rule rtranclp.rtrancl_into_rtrancl)

section \<open>A sample job\<close>

definition sample_dst :: Dst where
  "sample_dst = \<lparr>dst_DBSuffix = 0, dst_TableSuffix = 1, dst_DB = ''db_0'', dst_Table = ''t_1''\<rparr>"

abbreviation sample_job :: "MaxCntResourceSemaphore ShardingLoopJob" where
  "sample_job \<equiv> NewShardingLoopJob ''job'' [sample_dst, sample_dst\<lparr>dst_Table := ''t_2''\<rparr>]"

definition table_ctx :: Context where
  "table_ctx = ContextWitDst Background sample_dst"

definition sample_state :: "MaxCntResourceSemaphore job_state" where
  "sample_state = \<lparr>js_sem = \<lparr>ms_maxCnt = 3, ms_currCnt = 1\<rparr>, js_run = RunNext [sample_dst\<lparr>dst_Table := ''t_2''\<rparr>],
     js_tables = [\<lparr>tl_ctx = table_ctx, tl_pc = TableBiz\<rparr>], js_locked = [''job:db_0:t_1''], js_ctxErr = None\<rparr>"

lemma sample_reachable:
  assumes "grants {} ''job:db_0:t_1''"
  shows "job_reachable sample_job update grants Background (NewMaxCntResourceSemaphore 3) sample_state"
proof -
  let ?d2 = "sample_dst\<lparr>dst_Table := ''t_2''\<rparr>" and ?sem1 = "\<lparr>ms_maxCnt = 3, ms_currCnt = 1\<rparr>"
  let ?s0 = "job_start (NewMaxCntResourceSemaphore 3)"
  let ?s1 = "?s0\<lparr>js_run := RunNext [sample_dst, ?d2]\<rparr>"
  let ?s2 = "?s1\<lparr>js_run := RunAcquired sample_dst [?d2], js_sem := ?sem1\<rparr>"
  let ?s3 = "?s2\<lparr>js_run := RunCreated sample_dst [?d2]\<rparr>"
  have key: "dst_key sample_job sample_dst = ''job:db_0:t_1''"
    by (simp add: dst_key_def generateDlockKey_def sample_dst_def NewShardingLoopJob_def)
  have r0: "job_reachable sample_job update grants Background (NewMaxCntResourceSemaphore 3) ?s0"
    by (simp add: job_reachable_def)
  have "job_step sample_job update grants Background ?s0 ?s1"
    using run_round [of ?s0 sample_job update grants Background] by (simp add: job_start_def)
  note r1 = reachable_step [OF r0 this]
  have "job_step sample_job update grants Background ?s1 ?s2"
    by (rule run_acquired) (simp_all add: job_start_def Semaphore_Acquire_def NewMaxCntResourceSemaphore_def)
  note r2 = reachable_step [OF r1 this]
  have "job_step sample_job update grants Background ?s2 ?s3"
    by (rule new_lock) simp
  note r3 = reachable_step [OF r2 this]
  have "job_step sample_job update grants Background ?s3 (?s3\<lparr>js_run := RunNext [?d2],
       js_tables := js_tables ?s3 @ [\<lparr>tl_ctx = ContextWitDst Background sample_dst, tl_pc = TableBiz\<rparr>],
       js_locked := js_locked ?s3 @ [dst_key sample_job sample_dst]\<rparr>)"
    by (rule try_lock) (simp_all add: assms key job_start_def)
  note r4 = reachable_step [OF r3 this]
  then show ?thesis by (simp add: key job_start_def sample_state_def table_ctx_def)
qed

lemma job_slots_witness:
  "ms_currCnt (js_sem sample_state) = 1 \<and> length (js_tables sample_state) = 1"
  using job_slots [OF sample_reachable [of "\<lambda>_ _. True"]] by (simp add: sample_state_def)

lemma job_limit_witness:
  "0 + int (length (js_tables sample_state)) \<le> 3"
  using job_limit [OF sample_reachable [of "\<lambda>_ _. True"]] by (simp add: sample_state_def)


section \<open>The end of the job\<close>

lemma run_round_reached:
  assumes "js_run s = RunNext ds"
  shows "\<exists>s'. (job_step lj update grants ctx)\<^sup>+\<^sup>+ s s' \<and> js_run s' = RunNext (lj_BroadCast lj) \<and>
     js_ctxErr s' = js_ctxErr s"
  using assms
proof (induction ds arbitrary: s)
  case Nil
  then have "job_step lj update grants ctx s (s\<lparr>js_run := RunNext (lj_BroadCast lj)\<rparr>)" by (rule run_round)
  then show ?case by (intro exI [of _ "s\<lparr>js_run := RunNext (lj_BroadCast lj)\<rparr>"]) auto
next
  case (Cons d ds)
  obtain r sem where a: "lj_Acquire lj (js_sem s) = (r, sem)" by fastforce
  have "\<exists>s'. (job_step lj update grants ctx)\<^sup>+\<^sup>+ s s' \<and> js_run s' = RunNext ds \<and> js_ctxErr s' = js_ctxErr s"
  proof (cases r)
    case None
    let ?s1 = "s\<lparr>js_run := RunAcquired d ds, js_sem := sem\<rparr>"
    obtain r' sem' where "lj_Release lj (js_sem ?s1) = (r', sem')" by fastforce
    then have "job_step lj update grants ctx ?s1 (?s1\<lparr>js_run := RunNext ds, js_sem := sem'\<rparr>)"
      by (intro new_lock_failed [of _ d ds]) simp_all
    moreover have "job_step lj update grants ctx s ?s1"
      using Cons.prems a None by (intro run_acquired) simp_all
    ultimately have "(job_step lj update grants ctx)\<^sup>+\<^sup>+ s (?s1\<lparr>js_run := RunNext ds, js_sem := sem'\<rparr>)" by simp
    then show ?thesis by (intro exI [of _ "?s1\<lparr>js_run := RunNext ds, js_sem := sem'\<rparr>"]) simp
  next
    case (Some e)
    with Cons.prems a have "job_step lj update grants ctx s (s\<lparr>js_run := RunNext ds, js_sem := sem\<rparr>)"
      by (intro run_exceeded) simp_all
    then show ?thesis by (intro exI [of _ "s\<lparr>js_run := RunNext ds, js_sem := sem\<rparr>"]) auto
  qed
  then obtain s1 where s1: "(job_step lj update grants ctx)\<^sup>+\<^sup>+ s s1" "js_run s1 = RunNext ds"
    "js_ctxErr s1 = js_ctxErr s" by blast
  from Cons.IH [OF s1(2)] s1 show ?case by (metis tranclp_trans)
qed

text \<open>\<open>Run\<close> never ends: from every state, also one whose context has been canceled, its loop can go on to the
  start of the next round over all tables; there is no state in which it has returned, and none in which it
  is stuck.\<close>

theorem Run_goes_on:
  "\<exists>s'. (job_step lj update grants ctx)\<^sup>+\<^sup>+ s s' \<and> js_run s' = RunNext (lj_BroadCast lj) \<and> js_ctxErr s' = js_ctxErr s"
proof -
  obtain r sem where rel: "lj_Release lj (js_sem s) = (r, sem)" by fastforce
  show ?thesis
  proof (cases "js_run s")
    case (RunNext ds)
    then show ?thesis by (rule run_round_reached)
  next
    case (RunAcquired d ds)
    with rel have s: "job_step lj update grants ctx s (s\<lparr>js_run := RunNext ds, js_sem := sem\<rparr>)"
      by (intro new_lock_failed)
    from run_round_reached [of "s\<lparr>js_run := RunNext ds, js_sem := sem\<rparr>" ds] s show ?thesis
      by (fastforce intro: tranclp_into_tranclp2)
  next
    case (RunCreated d ds)
    with rel have s: "job_step lj update grants ctx s (s\<lparr>js_run := RunNext ds, js_sem := sem\<rparr>)"
      by (intro try_lock_failed)
    from run_round_reached [of "s\<lparr>js_run := RunNext ds, js_sem := sem\<rparr>" ds] s show ?thesis
      by (fastforce intro: tranclp_into_tranclp2)
  qed
qed

text \<open>What a table loop has before it once the context of the job is canceled.\<close>

definition pc_rank :: "table_pc \<Rightarrow> nat" where
  "pc_rank pc = (case pc of TableRefresh \<Rightarrow> 4 | TableBiz \<Rightarrow> 3 | TableUnlock _ \<Rightarrow> 2 | TableReturn \<Rightarrow> 1)"

definition tables_rank :: "'s job_state \<Rightarrow> nat" where
  "tables_rank s = sum_list (map (\<lambda>t. pc_rank (tl_pc t)) (js_tables s))"

lemma sum_list_nth_update:
  fixes f :: "'a \<Rightarrow> nat"
  shows "i < length xs \<Longrightarrow> sum_list (map f (xs[i := x])) + f (xs ! i) = sum_list (map f xs) + f x"
proof (induction xs arbitrary: i)
  case (Cons y xs)
  show ?case
  proof (cases i)
    case (Suc j)
    with Cons.prems Cons.IH [of j] show ?thesis by simp
  qed simp
qed simp

lemma sum_list_remove_nth:
  fixes f :: "'a \<Rightarrow> nat"
  shows "i < length xs \<Longrightarrow> sum_list (map f (remove_nth i xs)) + f (xs ! i) = sum_list (map f xs)"
proof (induction xs arbitrary: i)
  case (Cons y xs)
  show ?case
  proof (cases i)
    case (Suc j)
    with Cons.prems Cons.IH [of j] show ?thesis by (simp add: remove_nth_def)
  qed (simp add: remove_nth_def)
qed simp

lemma rank_returned:
  assumes "at_pc s i TableReturn"
  shows "tables_rank (s\<lparr>js_tables := remove_nth i (js_tables s), js_sem := sem\<rparr>) < tables_rank s"
  using assms sum_list_remove_nth [of i "js_tables s" "\<lambda>t. pc_rank (tl_pc t)"]
  by (simp add: tables_rank_def at_pc_def pc_rank_def)

lemma rank_set_pc:
  assumes "at_pc s i pc'" "pc_rank pc < pc_rank pc'"
  shows "tables_rank (set_pc i pc s) < tables_rank s"
  using assms sum_list_nth_update [of i "js_tables s" "\<lambda>t. pc_rank (tl_pc t)" "(js_tables s ! i)\<lparr>tl_pc := pc\<rparr>"]
  by (simp add: tables_rank_def set_pc_def at_pc_def)

lemma tables_step:
  assumes "js_ctxErr s = Some e" "job_step lj update grants ctx s s'"
  shows "js_ctxErr s' = Some e \<and>
     (length (js_tables s') \<le> length (js_tables s) \<and> js_tables s' \<noteq> js_tables s \<longrightarrow> tables_rank s' < tables_rank s)"
proof -
  have ctx: "js_ctxErr (set_pc i pc s1) = js_ctxErr s1" for i pc and s1 :: "'a job_state"
    by (simp add: set_pc_def)
  from assms(2) show ?thesis
  proof (cases rule: job_step.cases)
    case (returned i r sem)
    with assms(1) rank_returned [of s i] show ?thesis by simp
  next
    case (unlocked i e')
    let ?s = "s\<lparr>js_locked := remove1 (table_key lj (js_tables s ! i)) (js_locked s)\<rparr>"
    have "tables_rank (set_pc i TableReturn ?s) = tables_rank (set_pc i TableReturn s)"
      by (simp add: tables_rank_def set_pc_def)
    with unlocked assms(1) rank_set_pc [of s i "TableUnlock e'" TableReturn] show ?thesis
      by (simp add: ctx pc_rank_def)
  next
    case (biz_canceled i e')
    with assms(1) rank_set_pc [of s i TableBiz "TableUnlock e'"] show ?thesis by (simp add: ctx pc_rank_def)
  next
    case (refreshed i)
    with assms(1) rank_set_pc [of s i TableRefresh TableBiz] show ?thesis by (simp add: ctx pc_rank_def)
  next
    case (refresh_failed i e')
    with assms(1) rank_set_pc [of s i TableRefresh "TableUnlock e''" for e''] show ?thesis
      by (simp add: ctx pc_rank_def)
  qed (use assms(1) in simp_all)
qed

lemma tables_step_exists:
  assumes "js_ctxErr s = Some e" "js_tables s \<noteq> []"
  shows "\<exists>s'. job_step lj update grants ctx s s' \<and> tables_rank s' < tables_rank s"
proof -
  obtain pc where pc: "at_pc s 0 pc" using assms(2) by (simp add: at_pc_def)
  show ?thesis
  proof (cases pc)
    case TableBiz
    with pc assms(1) biz_canceled [of s 0 e lj] rank_set_pc [of s 0 pc "TableUnlock e"] show ?thesis
      by (fastforce simp: pc_rank_def)
  next
    case TableRefresh
    with pc refreshed [of s 0 lj] rank_set_pc [of s 0 pc TableBiz] show ?thesis by (fastforce simp: pc_rank_def)
  next
    case (TableUnlock e')
    have "tables_rank (set_pc 0 TableReturn (s\<lparr>js_locked := ks\<rparr>)) = tables_rank (set_pc 0 TableReturn s)" for ks
      by (simp add: tables_rank_def set_pc_def)
    with pc TableUnlock unlocked [of s 0 e' lj] rank_set_pc [of s 0 pc TableReturn] show ?thesis
      by (fastforce simp: pc_rank_def)
  next
    case TableReturn
    obtain r sem where "lj_Release lj (js_sem s) = (r, sem)" by fastforce
    with pc TableReturn returned [of s 0 lj r sem] rank_returned [of s 0 sem] show ?thesis by blast
  qed
qed

text \<open>C34. Once the context of the job is canceled, every table loop ends: each of its steps brings all loops
  together nearer to their end, unless \<open>TryLock\<close> still starts a new one, and as long as there is a loop
  there is such a step.\<close>

theorem tables_drain:
  assumes "js_ctxErr s = Some e"
  shows "(\<forall>s'. job_step lj update grants ctx s s' \<longrightarrow>
       js_ctxErr s' = Some e \<and>
       (length (js_tables s') \<le> length (js_tables s) \<and> js_tables s' \<noteq> js_tables s \<longrightarrow> tables_rank s' < tables_rank s)) \<and>
     (js_tables s \<noteq> [] \<longrightarrow> (\<exists>s'. job_step lj update grants ctx s s' \<and> tables_rank s' < tables_rank s)) \<and>
     (tables_rank s = 0 \<longleftrightarrow> js_tables s = [])"
proof -
  have pos: "0 < pc_rank pc" for pc by (cases pc) (simp_all add: pc_rank_def)
  have "tables_rank s = 0 \<longleftrightarrow> js_tables s = []"
    using pos by (cases "js_tables s") (auto simp: tables_rank_def)
  then show ?thesis using tables_step [OF assms] tables_step_exists [OF assms] by blast
qed

lemma tables_drain_witness:
  "\<exists>s'. job_step sample_job Semaphore_UpdateMaxCnt (\<lambda>_ _. False) Background
       (sample_state\<lparr>js_ctxErr := Some ContextCanceled\<rparr>) s' \<and> tables_rank s' < 3"
proof -
  have c: "js_ctxErr (sample_state\<lparr>js_ctxErr := Some ContextCanceled\<rparr>) = Some ContextCanceled" by simp
  have "tables_rank (sample_state\<lparr>js_ctxErr := Some ContextCanceled\<rparr>) = 3"
    by (simp add: tables_rank_def sample_state_def pc_rank_def)
  with tables_drain [OF c, of sample_job Semaphore_UpdateMaxCnt "\<lambda>_ _. False" Background] show ?thesis
    by (simp add: sample_state_def)
qed

end
