(* ===== verification/Scheduler.thy ===== *)
theory Scheduler
  imports BitRing Adjuster Sender Jobs
begin

text \<open>
  \<open>service/schedule/sharding\<close>: the business function of the sharding job. A round of its loop finds the ready
  notifications of the table in the context, sends them, records in the ring of error events whether that
  failed, stops when the ring triggers, and otherwise asks the adjuster for the size of the next batch. The
  readings of the clock in a round are an argument, a list of rounds is what the loop has run for.
\<close>

section \<open>The scheduler\<close>

text \<open>The adjuster is an interface: \<open>'a\<close> is its state and \<open>ss_Adjust\<close> its method, with the two readings of the
  clock it may take.\<close>

record ('w, 'a) NotifShardingScheduler =
  ss_FindReady :: "int \<Rightarrow> int \<Rightarrow> ('w, Notification list \<times> go_error option) io"
  ss_BatchSend :: "Notification list \<Rightarrow> ('w, BatchSendResp \<times> go_error option) io"
  ss_loopInterval :: Duration
  ss_Adjust :: "'a \<Rightarrow> Time \<Rightarrow> Time \<Rightarrow> Duration \<Rightarrow> ('a \<times> (go_error + u64)) run"

record 'a scheduler_state =
  st_batchSize :: u64
  st_adjuster :: 'a
  st_errEvents :: BitRing

definition batchSend ::
    "('w, 'a) NotifShardingScheduler \<Rightarrow> u64 \<Rightarrow> ('w, nat \<times> go_error option) io" where
  "batchSend ss batchSize =
     io_bind (ss_FindReady ss 0 (sint batchSize)) (\<lambda>(notifications, err).
     if err \<noteq> None then io_return (0, err)
     else if length notifications = 0 then io_return (0, None)
     else io_bind (ss_BatchSend ss notifications) (\<lambda>(_, err).
       io_return (length notifications, err)))"

record round_time =
  rt_respTime :: Duration
  rt_since :: Time
  rt_now :: Time

text \<open>One round: the count and the error of the batch, the error the loop returns with (None when it goes on),
  how long it sleeps, and the state after it.\<close>

record 'a round =
  rd_cnt :: nat
  rd_sendErr :: "go_error option"
  rd_return :: "go_error option"
  rd_sleep :: Duration
  rd_state :: "'a scheduler_state"

definition loop_round ::
    "(real \<Rightarrow> real) \<Rightarrow> ('w, 'a) NotifShardingScheduler \<Rightarrow> 'a scheduler_state \<Rightarrow> round_time \<Rightarrow> ('w, 'a round) io" where
  "loop_round rnd ss st t =
     io_bind (batchSend ss (st_batchSize st)) (\<lambda>(cnt, sendErr).
     io_bind (io_run (BitRing_Add (st_errEvents st) (sendErr \<noteq> None))) (\<lambda>errEvents.
     let st = st\<lparr>st_errEvents := errEvents\<rparr> in
     io_bind (io_run (BitRing_ThresholdTriggering rnd errEvents)) (\<lambda>triggering.
     if triggering
     then io_return \<lparr>rd_cnt = cnt, rd_sendErr = sendErr, rd_return = Some ErrEventThresholdExceeded,
            rd_sleep = 0, rd_state = st\<rparr>
     else io_bind (io_run (ss_Adjust ss (st_adjuster st) (rt_since t) (rt_now t) (rt_respTime t))) (\<lambda>(a, adjusted).
       let st = st\<lparr>st_adjuster := a\<rparr>;
           st = (case adjusted of Inr newBatchSize \<Rightarrow> st\<lparr>st_batchSize := newBatchSize\<rparr> | Inl adjustErr \<Rightarrow> st)
       in io_return \<lparr>rd_cnt = cnt, rd_sendErr = sendErr, rd_return = None,
            rd_sleep = (if cnt = 0 then ss_loopInterval ss - rt_respTime t else 0), rd_state = st\<rparr>))))"

text \<open>The loop over the given rounds: the rounds it has run. It has returned when the last one says so.\<close>

fun scheduler_loop ::
    "(real \<Rightarrow> real) \<Rightarrow> ('w, 'a) NotifShardingScheduler \<Rightarrow> 'a scheduler_state \<Rightarrow> round_time list \<Rightarrow> ('w, 'a round list) io" where
  "scheduler_loop rnd ss st [] = io_return []"
| "scheduler_loop rnd ss st (t # ts) =
     io_bind (loop_round rnd ss st t) (\<lambda>r.
     if rd_return r \<noteq> None then io_return [r]
     else io_bind (scheduler_loop rnd ss (rd_state r) ts) (\<lambda>rs. io_return (r # rs)))"

definition NewNotifShardingScheduler ::
    "'w NotificationRepo \<Rightarrow> 'w Sender \<Rightarrow> Duration \<Rightarrow> u64 \<Rightarrow> SlideAdjuster \<Rightarrow> BitRing
       \<Rightarrow> ('w, SlideAdjuster) NotifShardingScheduler \<times> SlideAdjuster scheduler_state" where
  "NewNotifShardingScheduler repo sender loopInterval batchSize adjuster errEvents =
     (\<lparr>ss_FindReady = repo_FindReady repo, ss_BatchSend = snd_BatchSend sender, ss_loopInterval = loopInterval,
       ss_Adjust = (\<lambda>a since now resp. run_map (\<lambda>(a, sz). (a, Inr sz)) (SlideAdjuster_Adjust a since now resp))\<rparr>,
      \<lparr>st_batchSize = batchSize, st_adjuster = adjuster, st_errEvents = errEvents\<rparr>)"

section \<open>Properties\<close>

text \<open>With the repository over the sharded databases, the first round of the scheduler panics, whatever is in
  the databases: \<open>FindReady\<close> of the DAO is not implemented. The goroutine of the table, and with it the
  process, dies as soon as the job has locked its first table.\<close>

theorem scheduler_panics:
  "(case NewNotifShardingScheduler
       (NewDefaultNotifRepo (NewNotifShardingDAO fuel env gd dbs strategy cbStrategy) quotaCache js)
       sender loopInterval batchSize adjuster errEvents of
      (ss, st) \<Rightarrow> scheduler_loop rnd ss st (t # ts) w) = (Inl (PanicMessage ''implement me''), w)"
  by (simp add: NewNotifShardingScheduler_def NewDefaultNotifRepo_def NewNotifShardingDAO_def Let_def
      loop_round_def batchSend_def DefaultNotifRepo_FindReady_def NotifShardingDAO_FindReady_def)

text \<open>The events of the rounds that have been run, oldest first.\<close>

abbreviation send_errors :: "'a round list \<Rightarrow> bool list" where
  "send_errors rs \<equiv> map (\<lambda>r. rd_sendErr r \<noteq> None) rs"

text \<open>Whether a ring triggers after more events have been added to it.\<close>

definition ring_triggers :: "(real \<Rightarrow> real) \<Rightarrow> BitRing \<Rightarrow> bool list \<Rightarrow> bool" where
  "ring_triggers rnd br es = threshold_spec rnd (nat (br_consecutiveThreshold br)) (br_eventRateThreshold br)
     (take (nat (br_windowSize br)) (rev es @ BitRing_window br))"

lemma take_append_take: "take n (xs @ take n ys) = take n (xs @ ys)"
  by (simp add: min_def)

lemma ring_triggers_added:
  "BitRing_inv br \<Longrightarrow> ring_triggers rnd (BitRing_added br e) es = ring_triggers rnd br (e # es)"
  by (simp add: ring_triggers_def window_added min_def)

lemma loop_round_eq:
  fixes st :: "'a scheduler_state"
  assumes "BitRing_inv (st_errEvents st)" "batchSend ss (st_batchSize st) w = (Inr (cnt, sendErr), w1)"
  defines "st1 \<equiv> st\<lparr>st_errEvents := BitRing_added (st_errEvents st) (sendErr \<noteq> None)\<rparr>"
  shows "loop_round rnd ss st t w =
     (if ring_triggers rnd (st_errEvents st) [sendErr \<noteq> None]
      then (Inr \<lparr>rd_cnt = cnt, rd_sendErr = sendErr, rd_return = Some ErrEventThresholdExceeded,
             rd_sleep = 0, rd_state = st1\<rparr>, w1)
      else case ss_Adjust ss (st_adjuster st) (rt_since t) (rt_now t) (rt_respTime t) of
        Inl p \<Rightarrow> (Inl p, w1)
      | Inr (a, adjusted) \<Rightarrow>
          (Inr \<lparr>rd_cnt = cnt, rd_sendErr = sendErr, rd_return = None,
             rd_sleep = (if cnt = 0 then ss_loopInterval ss - rt_respTime t else 0),
             rd_state = (case adjusted of Inr newBatchSize \<Rightarrow> st1\<lparr>st_adjuster := a, st_batchSize := newBatchSize\<rparr>
               | Inl adjustErr \<Rightarrow> st1\<lparr>st_adjuster := a\<rparr>)\<rparr>, w1))"
proof -
  let ?br = "BitRing_added (st_errEvents st) (sendErr \<noteq> None)"
  have a: "BitRing_Add (st_errEvents st) (sendErr \<noteq> None) = Inr ?br" by (rule Add_eq [OF assms(1)])
  have t: "BitRing_ThresholdTriggering rnd ?br = Inr (ring_triggers rnd (st_errEvents st) [sendErr \<noteq> None])"
    using ThresholdTriggering_eq [OF BitRing_added_inv [OF assms(1)], of rnd "sendErr \<noteq> None"]
    by (simp add: ring_triggers_def window_added [OF assms(1)])
  show ?thesis
    unfolding loop_round_def st1_def
    by (subst io_bind_Inr, rule assms(2))
      (auto simp: a t Let_def io_bind_def simp del: not_None_eq split: sum.split prod.split)
qed

lemma loop_round_events:
  assumes "BitRing_inv (st_errEvents st)" "loop_round rnd ss st t w = (Inr r, w')"
  shows "st_errEvents (rd_state r) = BitRing_added (st_errEvents st) (rd_sendErr r \<noteq> None) \<and>
     rd_return r = (if ring_triggers rnd (st_errEvents st) [rd_sendErr r \<noteq> None]
       then Some ErrEventThresholdExceeded else None)"
proof -
  obtain cnt sendErr w1 where b: "batchSend ss (st_batchSize st) w = (Inr (cnt, sendErr), w1)"
    using assms(2) by (auto simp: loop_round_def io_bind_eq_Inr)
  from assms(2) show ?thesis
    unfolding loop_round_eq [OF assms(1) b]
    by (auto simp del: not_None_eq split: if_splits sum.splits)
qed

lemma scheduler_loop_events:
  assumes "BitRing_inv (st_errEvents st)" "scheduler_loop rnd ss st ts w = (Inr rs, w')" "rs \<noteq> []"
  shows "rd_return (last rs) = (if ring_triggers rnd (st_errEvents st) (send_errors rs)
       then Some ErrEventThresholdExceeded else None) \<and>
     (\<forall>n. 0 < n \<and> n < length rs \<longrightarrow> \<not> ring_triggers rnd (st_errEvents st) (send_errors (take n rs))) \<and>
     (rd_return (last rs) = None \<longrightarrow> length rs = length ts)"
  using assms
proof (induction ts arbitrary: st w rs)
  case Nil
  then show ?case by simp
next
  case (Cons t ts)
  let ?br = "st_errEvents st"
  obtain r w1 where r: "loop_round rnd ss st t w = (Inr r, w1)"
    using Cons.prems(2) by (auto simp: io_bind_eq_Inr)
  note ev = loop_round_events [OF Cons.prems(1) r]
  have inv: "BitRing_inv (st_errEvents (rd_state r))" using ev BitRing_added_inv [OF Cons.prems(1)] by simp
  have later: "ring_triggers rnd (st_errEvents (rd_state r)) es = ring_triggers rnd ?br ((rd_sendErr r \<noteq> None) # es)" for es
    using ev ring_triggers_added [OF Cons.prems(1)] by simp
  show ?case
  proof (cases "rd_return r")
    case (Some e)
    with Cons.prems(2) r have "rs = [r]" by (auto simp: io_bind_eq_Inr)
    with ev Some show ?thesis by (auto split: if_splits)
  next
    case None
    then obtain rs' where rs: "rs = r # rs'" "scheduler_loop rnd ss (rd_state r) ts w1 = (Inr rs', w')"
      using Cons.prems(2) r by (auto simp: io_bind_eq_Inr)
    have first: "\<not> ring_triggers rnd ?br [rd_sendErr r \<noteq> None]" using ev None by (auto split: if_splits)
    show ?thesis
    proof (cases "rs' = []")
      case True
      then have "ts = []" using rs(2) by (cases ts) (auto simp: io_bind_eq_Inr split: if_splits)
      with True rs(1) first None show ?thesis by simp
    next
      case False
      have "\<not> ring_triggers rnd ?br (send_errors (take n rs))" if n: "0 < n" "n < length rs" for n
        using Cons.IH [OF inv rs(2) False] first n later rs(1) by (cases n; cases "n - 1") auto
      with Cons.IH [OF inv rs(2) False] later rs(1) False show ?thesis by simp
    qed
  qed
qed


text \<open>A scheduler whose batches end with the error \<open>err\<close>, and the state it starts from.\<close>

definition sample_scheduler :: "go_error option \<Rightarrow> ('w, unit) NotifShardingScheduler" where
  "sample_scheduler err = \<lparr>ss_FindReady = (\<lambda>offset limit. io_return ([], err)),
     ss_BatchSend = (\<lambda>ns. io_return ([], None)), ss_loopInterval = 7,
     ss_Adjust = (\<lambda>a since now resp. Inr (a, Inr 5))\<rparr>"

definition sample_start :: "unit scheduler_state" where
  "sample_start = \<lparr>st_batchSize = 10, st_adjuster = (), st_errEvents = NewBitRing 64 3 0.9\<rparr>"

definition sample_time :: round_time where
  "sample_time = \<lparr>rt_respTime = 1, rt_since = 0, rt_now = 0\<rparr>"

lemma sample_round:
  assumes "BitRing_inv (st_errEvents st)"
  shows "\<exists>r :: unit round. loop_round rnd (sample_scheduler err) st t w = (Inr r, w) \<and> rd_sendErr r = err \<and>
     BitRing_inv (st_errEvents (rd_state r))"
proof -
  have b: "batchSend (sample_scheduler err) (st_batchSize st) w = (Inr (0, err), w)"
    by (simp add: batchSend_def sample_scheduler_def)
  show ?thesis
    using BitRing_added_inv [OF assms, of "err \<noteq> None"]
    unfolding loop_round_eq [OF assms b] by (simp add: sample_scheduler_def del: not_None_eq)
qed

lemma sample_loop:
  assumes "BitRing_inv (st_errEvents st)"
  shows "\<exists>rs :: unit round list. scheduler_loop rnd (sample_scheduler err) st ts w = (Inr rs, w) \<and>
     (\<forall>r \<in> set rs. rd_sendErr r = err)"
  using assms
proof (induction ts arbitrary: st)
  case (Cons t ts)
  from sample_round [OF Cons.prems, of rnd err t w] obtain r :: "unit round" where
    r: "loop_round rnd (sample_scheduler err) st t w = (Inr r, w)"
    "rd_sendErr r = err" "BitRing_inv (st_errEvents (rd_state r))" by blast
  from Cons.IH [OF r(3)] r show ?case
    by (cases "rd_return r") auto
qed simp

lemma loop_nonempty: "scheduler_loop rnd ss st (t # ts) w = (Inr rs, w') \<Longrightarrow> rs \<noteq> []"
  by (auto simp: io_bind_eq_Inr split: if_splits)


section \<open>Healthy and failing schedulers\<close>

lemma norm_consecutive_pos: "0 < norm_consecutive w c"
  by (auto simp: norm_consecutive_def norm_windowSize_def defaultWindowSize_def defaultMinConsecutive_def)

lemma ring_triggers_new:
  "ring_triggers rnd (NewBitRing w c r) es
     = threshold_spec rnd (norm_consecutive w c) (min r 1) (take (norm_windowSize w) (rev es))"
  unfolding ring_triggers_def NewBitRing_fields by simp

lemma no_errors_no_trigger:
  assumes "\<forall>e \<in> set es. \<not> e" "0 \<le> r" "rnd 0 = 0"
  shows "\<not> ring_triggers rnd (NewBitRing w c r) es"
proof -
  define win where "win = take (norm_windowSize w) (rev es)"
  have no: "\<forall>e \<in> set win. \<not> e"
    using assms(1) set_take_subset [of "norm_windowSize w" "rev es"] by (auto simp: win_def)
  then have "count_list win True = 0" by (auto simp: count_list_0_iff)
  then have rate: "rnd (rnd (real (count_list win True)) / x) = 0" for x by (simp add: assms(3))
  have "\<not> all_of (take (norm_consecutive w c) win)" if "win \<noteq> []"
    using that no norm_consecutive_pos [of w c]
    by (cases win; cases "norm_consecutive w c") (auto simp: all_of_def)
  with rate assms(2) show ?thesis
    unfolding ring_triggers_new threshold_spec_def win_def [symmetric] by (auto simp: not_less)
qed

lemma all_errors_trigger:
  assumes "\<forall>e \<in> set es. e" "norm_consecutive w c \<le> length es"
  shows "ring_triggers rnd (NewBitRing w c r) es"
proof -
  have len: "norm_consecutive w c \<le> length (take (norm_windowSize w) (rev es))"
    using assms(2) by (simp add: norm_consecutive_def)
  have "all_of (take (norm_consecutive w c) (take (norm_windowSize w) (rev es)))"
    using assms(1) by (auto simp: all_of_def list_all_iff dest!: in_set_takeD)
  with len norm_consecutive_pos [of w c] show ?thesis
    unfolding ring_triggers_new threshold_spec_def by (metis length_0_conv not_less)
qed



text \<open>When every batch fails, the loop of a fresh scheduler returns within as many rounds as its consecutive
  threshold.\<close>

theorem failing_loop_returns:
  assumes "st_errEvents st = NewBitRing w c r"
    and "scheduler_loop rnd ss st ts world = (Inr rs, world')" "\<forall>rd \<in> set rs. rd_sendErr rd \<noteq> None"
    and "norm_consecutive w c \<le> length ts"
  shows "rs \<noteq> [] \<and> length rs \<le> norm_consecutive w c \<and> rd_return (last rs) = Some ErrEventThresholdExceeded"
proof -
  obtain t ts' where ts: "ts = t # ts'"
    using assms(4) norm_consecutive_pos [of w c] by (cases ts) auto
  have inv: "BitRing_inv (st_errEvents st)" by (simp add: assms(1) NewBitRing_inv)
  have ne: "rs \<noteq> []" by (rule loop_nonempty [OF assms(2) [unfolded ts]])
  note ev = scheduler_loop_events [OF inv assms(2) ne]
  have trig: "ring_triggers rnd (st_errEvents st) (send_errors (take n rs))"
    if "norm_consecutive w c \<le> n" "n \<le> length rs" for n
    unfolding assms(1) using assms(3) that by (intro all_errors_trigger) (auto dest: in_set_takeD)
  have short: "length rs \<le> norm_consecutive w c"
    using ev trig [of "norm_consecutive w c"] norm_consecutive_pos [of w c] by (metis le_refl not_less less_imp_le)
  have "rd_return (last rs) \<noteq> None"
  proof
    assume none: "rd_return (last rs) = None"
    with ev assms(4) have "norm_consecutive w c \<le> length rs" by simp
    from trig [OF this le_refl] ev none show False by simp
  qed
  with ev ne short show ?thesis by (simp split: if_splits)
qed

lemma failing_loop_returns_witness:
  "\<exists>rs :: unit round list. scheduler_loop (\<lambda>x. x) (sample_scheduler (Some DeadlineExceeded)) sample_start
       (replicate 5 sample_time) () = (Inr rs, ()) \<and> length rs \<le> 3 \<and>
     rd_return (last rs) = Some ErrEventThresholdExceeded"
proof -
  have inv: "BitRing_inv (st_errEvents sample_start)" by (simp add: sample_start_def NewBitRing_inv)
  from sample_loop [OF inv, of "\<lambda>x. x" "Some DeadlineExceeded" "replicate 5 sample_time" "()"]
  obtain rs :: "unit round list" where
    l: "scheduler_loop (\<lambda>x. x) (sample_scheduler (Some DeadlineExceeded)) sample_start (replicate 5 sample_time) ()
      = (Inr rs, ())" "\<forall>r \<in> set rs. rd_sendErr r = Some DeadlineExceeded" by blast
  have ring: "st_errEvents sample_start = NewBitRing 64 3 0.9" by (simp add: sample_start_def)
  have c: "norm_consecutive 64 3 = 3" by (simp add: norm_consecutive_def norm_windowSize_def)
  have e: "\<forall>rd \<in> set rs. rd_sendErr rd \<noteq> None" using l(2) by simp
  from failing_loop_returns [OF ring l(1) e] l(1) c show ?thesis by auto
qed

section \<open>The size of the batches\<close>

definition adjuster_ok :: "u64 \<Rightarrow> u64 \<Rightarrow> u64 \<Rightarrow> SlideAdjuster \<Rightarrow> bool" where
  "adjuster_ok lo hi step a \<longleftrightarrow> RingBuffer_inv (sa_buffer a) \<and> sa_minSize a = lo \<and> sa_maxSize a = hi \<and>
     sa_adjustStep a = step \<and> lo \<le> sa_currSize a \<and> sa_currSize a \<le> hi"

lemma NewSlideAdjuster_ok:
  assumes "NewSlideAdjuster bs i lo hi step mi = Inr a" "step_fits lo hi step"
  shows "adjuster_ok lo hi step a"
proof -
  have "lo \<le> hi" using assms(2) by (simp add: step_fits_def)
  with assms(1) show ?thesis
    by (auto simp: adjuster_ok_def NewSlideAdjuster_def Let_def NewRingBuffer_inv split: sum.splits if_splits)
qed

text \<open>A scheduler with the sliding-window adjuster behind its interface.\<close>

definition slide_scheduler :: "('w, SlideAdjuster) NotifShardingScheduler \<Rightarrow> bool" where
  "slide_scheduler ss \<longleftrightarrow> ss_Adjust ss =
     (\<lambda>a since now resp. run_map (\<lambda>(a, sz). (a, Inr sz)) (SlideAdjuster_Adjust a since now resp))"

lemma slide_Adjust:
  assumes "slide_scheduler ss" "step_fits lo hi step" "adjuster_ok lo hi step a"
  shows "\<exists>a'. ss_Adjust ss a since now resp = Inr (a', Inr (sa_currSize a')) \<and> adjuster_ok lo hi step a'"
proof -
  from assms(3) have a: "RingBuffer_inv (sa_buffer a)"
    "step_fits (sa_minSize a) (sa_maxSize a) (sa_adjustStep a)"
    "sa_minSize a \<le> sa_currSize a" "sa_currSize a \<le> sa_maxSize a"
    using assms(2) by (simp_all add: adjuster_ok_def)
  from slide_adj.adjust_between [OF a, of since now resp] assms(1,3) show ?thesis
    by (auto simp: slide_scheduler_def adjuster_ok_def)
qed

lemma loop_batch_size:
  assumes "slide_scheduler ss" "step_fits lo hi step"
    and "adjuster_ok lo hi step (st_adjuster st)" "BitRing_inv (st_errEvents st)"
    and "scheduler_loop rnd ss st ts w = (Inr rs, w')" "rd \<in> set rs" "rd_return rd = None"
  shows "lo \<le> st_batchSize (rd_state rd) \<and> st_batchSize (rd_state rd) \<le> hi"
  using assms(3-6)
proof (induction ts arbitrary: st w rs)
  case (Cons t ts)
  obtain r w1 where r: "loop_round rnd ss st t w = (Inr r, w1)"
    using Cons.prems(3) by (auto simp: io_bind_eq_Inr)
  obtain cnt sendErr w0 where b: "batchSend ss (st_batchSize st) w = (Inr (cnt, sendErr), w0)"
    using r by (auto simp: loop_round_def io_bind_eq_Inr)
  from slide_Adjust [OF assms(1,2) Cons.prems(1), of "rt_since t" "rt_now t" "rt_respTime t"] obtain a' where
    a': "ss_Adjust ss (st_adjuster st) (rt_since t) (rt_now t) (rt_respTime t) = Inr (a', Inr (sa_currSize a'))"
    "adjuster_ok lo hi step a'" by blast
  have ok: "adjuster_ok lo hi step (st_adjuster (rd_state r)) \<and> lo \<le> st_batchSize (rd_state r) \<and>
      st_batchSize (rd_state r) \<le> hi" if "rd_return r = None"
    using r that a' unfolding loop_round_eq [OF Cons.prems(2) b]
    by (auto simp: adjuster_ok_def simp del: not_None_eq split: if_splits)
  have inv: "BitRing_inv (st_errEvents (rd_state r))"
    using loop_round_events [OF Cons.prems(2) r] BitRing_added_inv [OF Cons.prems(2)] by simp
  show ?case
  proof (cases "rd_return r")
    case None
    with Cons.prems(3) r obtain rs' where
      rs: "rs = r # rs'" "scheduler_loop rnd ss (rd_state r) ts w1 = (Inr rs', w')"
      by (auto simp: io_bind_eq_Inr)
    then show ?thesis
      using ok [OF None] Cons.IH [OF _ inv rs(2)] Cons.prems(4) by auto
  next
    case (Some e)
    with Cons.prems(3) r have "rs = [r]" by (auto simp: io_bind_eq_Inr)
    with Cons.prems(4) assms(7) Some show ?thesis by simp
  qed
qed simp



end
