(* ===== verification/Wiring.thy ===== *)
theory Wiring
  imports Scheduler Discovery Api Sharding
begin

text \<open>
  What \<open>internal/ioc\<close> puts together that has logic of its own: the scheduler from its configuration, and the
  watch that changes the limit of the table semaphore. The configuration is an argument, as viper has read it.
\<close>

section \<open>The limit of locked tables\<close>

text \<open>\<open>strconv.ParseInt(s, 10, 64)\<close> with its error ignored: zero for a malformed number, the nearest \<open>int64\<close>
  for one out of range.\<close>

definition ParseInt_value :: "string \<Rightarrow> int" where
  "ParseInt_value s =
     (let neg = (case s of c # _ \<Rightarrow> c = CHR 0x2D | [] \<Rightarrow> False);
          digits = (case s of c # cs \<Rightarrow> if c = CHR 0x2D \<or> c = CHR 0x2B then cs else s | [] \<Rightarrow> [])
      in if digits = [] then 0
         else case parse_digits 0 digits of
                None \<Rightarrow> 0
              | Some v \<Rightarrow> if neg then max (- (2 ^ 63)) (- int v) else min (2 ^ 63 - 1) (int v))"

text \<open>The events of the watch on the key of the limit.\<close>

datatype kv_event = EventPut string | EventDelete

fun watch_limit :: "kv_event list \<Rightarrow> MaxCntResourceSemaphore \<Rightarrow> MaxCntResourceSemaphore" where
  "watch_limit [] sem = sem"
| "watch_limit (EventPut val # evs) sem = watch_limit evs (Semaphore_UpdateMaxCnt (ParseInt_value val) sem)"
| "watch_limit (EventDelete # evs) sem = watch_limit evs sem"

section \<open>The scheduler\<close>

record AdjusterConfig =
  ac_BuffSize :: i64
  ac_InitSize :: u64
  ac_MinSize :: u64
  ac_MaxSize :: u64
  ac_AdjustStep :: u64
  ac_MinAdjustInterval :: Duration

record ErrEventConfig =
  ec_BitRingSize :: int
  ec_ConsecutiveThreshold :: int
  ec_EventRateThreshold :: real

record ShardingSchedulerConfig =
  sc_MaxLockedTableCnt :: int
  sc_MinScheduleInterval :: Duration
  sc_BatchSize :: u64
  sc_AdjusterConfig :: AdjusterConfig
  sc_ErrEventConfig :: ErrEventConfig

definition scheduler_baseKey :: string where
  "scheduler_baseKey = ''jotify_async_sharding_scheduler''"

text \<open>The scheduler with its state, the job and the semaphore it starts with. An adjuster that cannot be made is
  a panic.\<close>

definition InitNotificationScheduler ::
    "ShardingSchedulerConfig \<Rightarrow> 'w NotificationRepo \<Rightarrow> 'w Sender \<Rightarrow> HashStrategy \<Rightarrow>
       ((('w, SlideAdjuster) NotifShardingScheduler \<times> SlideAdjuster scheduler_state) \<times>
        MaxCntResourceSemaphore ShardingLoopJob \<times> MaxCntResourceSemaphore) run" where
  "InitNotificationScheduler cfg notifRepo notifSender shardingStrategy =
     (let resourceSemaphore = NewMaxCntResourceSemaphore (sc_MaxLockedTableCnt cfg);
          ac = sc_AdjusterConfig cfg;
          ee = sc_ErrEventConfig cfg
      in case NewSlideAdjuster (ac_BuffSize ac) (ac_InitSize ac) (ac_MinSize ac) (ac_MaxSize ac)
                (ac_AdjustStep ac) (ac_MinAdjustInterval ac) of
           Inl err \<Rightarrow> Inl (PanicMessage ''adjuster'')
         | Inr adjuster \<Rightarrow>
             (let errEvents = NewBitRing (ec_BitRingSize ee) (ec_ConsecutiveThreshold ee) (ec_EventRateThreshold ee)
              in Inr (NewNotifShardingScheduler notifRepo notifSender (sc_MinScheduleInterval cfg)
                        (sc_BatchSize cfg) adjuster errEvents,
                      NewShardingLoopJob scheduler_baseKey (HashStrategy_BroadCast shardingStrategy),
                      resourceSemaphore)))"

section \<open>Properties\<close>

lemma watch_limit_last:
  "watch_limit (evs @ [EventPut val]) sem = (watch_limit evs sem)\<lparr>ms_maxCnt := ParseInt_value val\<rparr> \<and>
     ms_currCnt (watch_limit evs sem) = ms_currCnt sem"
  by (induction evs sem rule: watch_limit.induct) (simp_all add: Semaphore_UpdateMaxCnt_def)

text \<open>After any events on the key of the limit and a put, the limit is the number that was put when it is the
  decimal form of one that fits; a put that is not a number is not refused but sets the limit to zero, and
  from then on no further table is locked.\<close>

theorem watch_limit_put:
  assumes "0 \<le> ms_currCnt sem"
  shows "(n < 2 ^ 63 \<longrightarrow> ms_maxCnt (watch_limit (evs @ [EventPut (format_nat n)]) sem) = int n) \<and>
     (parse_digits 0 (c # cs) = None \<and> c \<noteq> CHR 0x2D \<and> c \<noteq> CHR 0x2B \<longrightarrow>
        fst (Semaphore_Acquire (watch_limit (evs @ [EventPut (c # cs)]) sem)) = Some ErrAcquireExceedLimit)"
proof -
  have "ParseInt_value (format_nat n) = int n" if "n < 2 ^ 63"
  proof -
    have no: "CHR 0x2D \<notin> set (format_nat n)" "CHR 0x2B \<notin> set (format_nat n)"
      by (rule format_nat_not_in; simp)+
    obtain d ds where d: "format_nat n = d # ds" using format_nat_nonempty [of n] by (cases "format_nat n") auto
    with no have "d \<noteq> CHR 0x2D" "d \<noteq> CHR 0x2B" by auto
    with d that parse_format_nat [of n] show ?thesis by (simp add: ParseInt_value_def)
  qed
  moreover have "ParseInt_value (c # cs) = 0" if "parse_digits 0 (c # cs) = None" "c \<noteq> CHR 0x2D" "c \<noteq> CHR 0x2B"
    using that by (simp add: ParseInt_value_def del: parse_digits.simps)
  ultimately show ?thesis
    using assms watch_limit_last [of evs _ sem] by (auto simp: Semaphore_Acquire_def)
qed

lemma watch_limit_put_witness:
  "fst (Semaphore_Acquire (watch_limit ([EventPut ''12''] @ [EventPut ''4 tables'']) (NewMaxCntResourceSemaphore 8)))
     = Some ErrAcquireExceedLimit"
proof -
  have "0 \<le> ms_currCnt (NewMaxCntResourceSemaphore 8)" by (simp add: NewMaxCntResourceSemaphore_def)
  from watch_limit_put [OF this, of 0 "[EventPut ''12'']" "CHR ''4''" "'' tables''"] show ?thesis
    by (simp add: digit_val_def)
qed

text \<open>The locks of the wired job are different for different tables: the job goes over the eight tables of the
  notification strategy, and no two of them have the same key.\<close>

theorem scheduler_lock_keys:
  assumes "InitNotificationScheduler cfg repo sender InitNotifShardingStrategy = Inr (sched, job, sem)"
  shows "length (lj_BroadCast job) = 8 \<and> distinct (map (dst_key job) (lj_BroadCast job)) \<and>
     sem = NewMaxCntResourceSemaphore (sc_MaxLockedTableCnt cfg)"
proof -
  have job: "job = NewShardingLoopJob scheduler_baseKey (HashStrategy_BroadCast InitNotifShardingStrategy)"
    "sem = NewMaxCntResourceSemaphore (sc_MaxLockedTableCnt cfg)"
    using assms by (auto simp: InitNotificationScheduler_def Let_def split: sum.splits)
  have "length (HashStrategy_BroadCast InitNotifShardingStrategy) = 8 \<and> distinct (map
      (\<lambda>d. scheduler_baseKey @ '':'' @ dst_DB d @ '':'' @ dst_Table d) (HashStrategy_BroadCast InitNotifShardingStrategy))"
    by code_simp
  moreover have "dst_key job = (\<lambda>d. scheduler_baseKey @ '':'' @ dst_DB d @ '':'' @ dst_Table d)"
    by (simp add: fun_eq_iff job dst_key_def generateDlockKey_def NewShardingLoopJob_def)
  ultimately show ?thesis by (simp add: job(2)) (simp add: job(1))
qed

definition sample_config :: ShardingSchedulerConfig where
  "sample_config = \<lparr>sc_MaxLockedTableCnt = 4, sc_MinScheduleInterval = 1000, sc_BatchSize = 10,
     sc_AdjusterConfig = \<lparr>ac_BuffSize = 2, ac_InitSize = 10, ac_MinSize = 5, ac_MaxSize = 100, ac_AdjustStep = 6,
       ac_MinAdjustInterval = 0\<rparr>,
     sc_ErrEventConfig = \<lparr>ec_BitRingSize = 64, ec_ConsecutiveThreshold = 3, ec_EventRateThreshold = 0.5\<rparr>\<rparr>"

lemma scheduler_lock_keys_witness:
  "\<exists>sched job sem. InitNotificationScheduler sample_config (sample_repo :: unit NotificationRepo)
       \<lparr>snd_Send = (\<lambda>n. io_return (zero_SendResult, None)), snd_BatchSend = (\<lambda>ns. io_return ([], None))\<rparr>
       InitNotifShardingStrategy = Inr (sched, job, sem) \<and>
     distinct (map (dst_key job) (lj_BroadCast job)) \<and> ms_maxCnt sem = 4"
proof -
  let ?snd = "\<lparr>snd_Send = (\<lambda>n. io_return (zero_SendResult, None)), snd_BatchSend = (\<lambda>ns. io_return ([], None))\<rparr>"
  obtain sched job sem where
    i: "InitNotificationScheduler sample_config (sample_repo :: unit NotificationRepo) ?snd
      InitNotifShardingStrategy = Inr (sched, job, sem)"
    by (simp add: InitNotificationScheduler_def sample_config_def NewSlideAdjuster_def NewRingBuffer_def Let_def)
  from scheduler_lock_keys [OF i] i show ?thesis
    by (metis NewMaxCntResourceSemaphore_def MaxCntResourceSemaphore.select_convs(1) ShardingSchedulerConfig.select_convs(1)
        sample_config_def)
qed

end
