(* ===== verification/Startup.thy ===== *)
theory Startup
  imports Sms Channels Discovery Interceptors Snowflake
begin

text \<open>
  The functions of \<open>internal/ioc\<close> that make the parts of the program from its configuration. A configuration is
  an argument, the result of reading it with viper; opening a connection is a parameter. \<open>must what r\<close> is the
  pattern \<open>if err != nil { panic(err) }\<close>; the text of the panic names what failed.
\<close>

definition must :: "string \<Rightarrow> go_error + 'a \<Rightarrow> 'a run" where
  "must what r = (case r of Inl err \<Rightarrow> Inl (PanicMessage what) | Inr x \<Rightarrow> Inr x)"

lemma must_eq_Inr [simp]: "must what r = Inr x \<longleftrightarrow> r = Inr x"
  by (simp add: must_def split: sum.split)

lemma run_bind_must_eq_Inr [simp]:
  "run_bind (must what r) f = Inr y \<longleftrightarrow> (\<exists>x. r = Inr x \<and> f x = Inr y)"
  by (simp add: run_bind_eq_Inr)

section \<open>Connections\<close>

text \<open>\<open>NewProduction\<close> and \<open>NewDevelopment\<close> are the two loggers of zap.\<close>

definition InitLogger :: "go_error + 'log \<Rightarrow> go_error + 'log \<Rightarrow> go_error + string \<Rightarrow> 'log run" where
  "InitLogger NewProduction NewDevelopment cfg =
     run_bind (must ''config'' cfg) (\<lambda>env.
     must ''logger'' (if env = ''prod'' then NewProduction else NewDevelopment))"

record redis_config =
  rg_Addr :: string
  rg_Password :: string

definition InitRedis :: "(string \<Rightarrow> string \<Rightarrow> 'cmd) \<Rightarrow> go_error + redis_config \<Rightarrow> 'cmd run" where
  "InitRedis NewClient cfg = run_bind (must ''config'' cfg) (\<lambda>cfg. Inr (NewClient (rg_Addr cfg) (rg_Password cfg)))"

definition InitDClient :: "('cmd \<Rightarrow> 'lock) \<Rightarrow> 'cmd \<Rightarrow> 'lock" where
  "InitDClient Build rc = Build rc"

definition InitIdGenerator :: Generator where
  "InitIdGenerator = NewGenerator"

record etcd_config =
  eg_Username :: string
  eg_Password :: string
  eg_Endpoints :: "string list"

definition InitEtcdClient ::
    "(string \<Rightarrow> string \<Rightarrow> string list \<Rightarrow> go_error + 'etcd) \<Rightarrow> go_error + etcd_config \<Rightarrow> 'etcd run" where
  "InitEtcdClient New cfg =
     run_bind (must ''config'' cfg) (\<lambda>cfg.
     must ''etcd'' (New (eg_Username cfg) (eg_Password cfg) (eg_Endpoints cfg)))"

definition InitRegistry :: "(int \<Rightarrow> go_error + 'session) \<Rightarrow> 'session run" where
  "InitRegistry NewSession = must ''registry'' (RegistryBuilder_Build NewSession
     (RegistryBuilder_LeaseTTL 15 NewRegistryBuilder))"

definition InitBaseDB :: "(string \<Rightarrow> 'w \<Rightarrow> (go_error + 'db) \<times> 'w) \<Rightarrow> go_error + string \<Rightarrow> ('w, 'db) io" where
  "InitBaseDB Open cfg =
     io_bind (io_run (must ''config'' cfg)) (\<lambda>dsn.
     io_bind (io_call (Open dsn)) (\<lambda>r. io_run (must ''database'' r)))"

text \<open>The databases by name. The configuration is the list of its entries in the order they are visited.\<close>

fun open_databases ::
    "(string \<Rightarrow> 'w \<Rightarrow> (go_error + 'db) \<times> 'w) \<Rightarrow> (string \<times> string) list \<Rightarrow> (string \<Rightarrow> 'db option)
      \<Rightarrow> ('w, string \<Rightarrow> 'db option) io" where
  "open_databases Open [] dbs = io_return dbs"
| "open_databases Open ((key, dsn) # dbConfigs) dbs =
     io_bind (io_call (Open dsn)) (\<lambda>r.
     io_bind (io_run (must ''database'' r)) (\<lambda>db.
     open_databases Open dbConfigs (dbs(key \<mapsto> db))))"

text \<open>The \<open>sync.Once\<close> of the package is the argument and result \<open>once\<close>; it is done after its function has been
  called, whether that returned or panicked. The map it fills is a local variable of the call.\<close>

definition InitShardingDB ::
    "(string \<Rightarrow> 'w \<Rightarrow> (go_error + 'db) \<times> 'w) \<Rightarrow> go_error + (string \<times> string) list \<Rightarrow> bool \<Rightarrow> 'w
      \<Rightarrow> (string \<Rightarrow> 'db option) run \<times> bool \<times> 'w" where
  "InitShardingDB Open cfg once w =
     (case must ''config'' cfg of
        Inl p \<Rightarrow> (Inl p, once, w)
      | Inr dbConfigs \<Rightarrow>
          if once then (Inr Map.empty, True, w)
          else (case open_databases Open dbConfigs Map.empty w of (r, w') \<Rightarrow> (r, True, w')))"

section \<open>Keys and the server\<close>

text \<open>A key that x509 has parsed, of one of the types it can have.\<close>

datatype parsed_key = Ed25519PrivateKey string | Ed25519PublicKey string | OtherKey

record pem_lib =
  pl_Decode :: "string \<Rightarrow> string option"
  pl_ParsePKCS8PrivateKey :: "string \<Rightarrow> go_error + parsed_key"
  pl_ParsePKIXPublicKey :: "string \<Rightarrow> go_error + parsed_key"

definition loadJwtKeypair :: "pem_lib \<Rightarrow> string \<Rightarrow> string \<Rightarrow> (string \<times> string) run" where
  "loadJwtKeypair pl priPem pubPem =
     (case pl_Decode pl priPem of
        None \<Rightarrow> Inl (PanicMessage ''failed to decode private key PEM'')
      | Some priKeyBlock \<Rightarrow>
          run_bind (must ''private key'' (pl_ParsePKCS8PrivateKey pl priKeyBlock)) (\<lambda>priKey.
          case pl_Decode pl pubPem of
            None \<Rightarrow> Inl (PanicMessage ''failed to decode public key PEM'')
          | Some pubKeyBlock \<Rightarrow>
              run_bind (must ''public key'' (pl_ParsePKIXPublicKey pl pubKeyBlock)) (\<lambda>publicKey.
              case priKey of
                Ed25519PrivateKey pri \<Rightarrow>
                  (case publicKey of Ed25519PublicKey pub \<Rightarrow> Inr (pri, pub) | _ \<Rightarrow> Inl TypeAssertion)
              | _ \<Rightarrow> Inl TypeAssertion)))"

record jwt_config =
  jg_PriPem :: string
  jg_PubPem :: string

text \<open>The interceptor of the server that is made, for the metadata of a call; \<open>jwt_of\<close> makes the token library for
  a pair of keys.\<close>

definition InitNotificationGrpcServer ::
    "pem_lib \<Rightarrow> (string \<Rightarrow> string \<Rightarrow> jwt_lib) \<Rightarrow> go_error + jwt_config
      \<Rightarrow> (string list option \<Rightarrow> ('w, 'req, 'resp) handler \<Rightarrow> ('w, 'req, 'resp) handler) run" where
  "InitNotificationGrpcServer pl jwt_of cfg =
     run_bind (must ''config'' cfg) (\<lambda>cfg.
     run_bind (loadJwtKeypair pl (jg_PriPem cfg) (jg_PubPem cfg)) (\<lambda>(priKey, pubKey).
     Inr (\<lambda>md. InterceptorOf [Interceptor_Build (jwt_of priKey pubKey) md])))"

record load_balance_config =
  lg_Name :: string
  lg_Timeout :: int

definition NewClients :: "string option \<Rightarrow> Clients" where
  "NewClients bb = \<lparr>cl_insecure = False, cl_balancer = bb\<rparr>"

definition InitCallbackGrpcClients :: "go_error + load_balance_config \<Rightarrow> Clients run" where
  "InitCallbackGrpcClients cfg = run_bind (must ''config'' cfg) (\<lambda>cfg. Inr (NewClients (Some (lg_Name cfg))))"

record app_config =
  ag_Name :: string
  ag_Addr :: string
  ag_Group :: string
  ag_ReadWeight :: int
  ag_WriteWeight :: int
  ag_Timeout :: int

definition InitApp ::
    "(string \<Rightarrow> 'w \<Rightarrow> go_error option \<times> 'w) \<Rightarrow> ('w \<Rightarrow> 'w) \<Rightarrow> 'w app_registry option \<Rightarrow> go_error + app_config
      \<Rightarrow> 'w App run" where
  "InitApp Listen GracefulStop r cfg =
     run_bind (must ''config'' cfg) (\<lambda>cfg.
     let serviceInstance = \<lparr>si_Name = ag_Name cfg, si_Addr = ag_Addr cfg, si_Group = ag_Group cfg,
           si_ReadWeight = ag_ReadWeight cfg, si_WriteWeight = ag_WriteWeight cfg\<rparr>
     in Inr \<lparr>app_Listen = Listen, app_GracefulStop = GracefulStop, app_registry = r,
          app_serviceInstance = serviceInstance\<rparr>)"

text \<open>The hooks of the application: what runs at its start and at its stop.\<close>

record 'w fx_hook =
  fh_OnStart :: "('w, go_error option) io"
  fh_OnStop :: "('w, go_error option) io"

definition AppLifecycle :: "'w App \<Rightarrow> 'w fx_hook" where
  "AppLifecycle app = \<lparr>fh_OnStart = App_Start app, fh_OnStop = io_bind (App_Close app) (\<lambda>_. io_return None)\<rparr>"

definition LoggerLifecycle :: "('w \<Rightarrow> go_error option \<times> 'w) \<Rightarrow> 'w fx_hook" where
  "LoggerLifecycle Sync = \<lparr>fh_OnStart = io_return None, fh_OnStop = io_bind (io_call Sync) (\<lambda>_. io_return None)\<rparr>"

section \<open>Sending SMS\<close>

record tencent_config =
  tg_RegionId :: string
  tg_AppId :: string
  tg_SecretId :: string
  tg_SecretKey :: string

text \<open>\<open>new_client secretId secretKey regionId\<close> makes the client of the SDK.\<close>

type_synonym 'w tencent_sdk =
  "string \<Rightarrow> string \<Rightarrow> string \<Rightarrow> go_error + (TencentRequest \<Rightarrow> ('w, go_error + TencentResponse) io)"

definition NewTencentSmsClient ::
    "'w tencent_sdk \<Rightarrow> string \<Rightarrow> string \<Rightarrow> string \<Rightarrow> string \<Rightarrow> 'w SmsClient run" where
  "NewTencentSmsClient new_client regionId secretId secretKey appId =
     run_bind (must ''sms client'' (new_client secretId secretKey regionId)) (\<lambda>client.
     Inr (TencentSmsClient client appId))"

definition InitTencentSmsClient :: "'w tencent_sdk \<Rightarrow> go_error + tencent_config \<Rightarrow> 'w SmsClient run" where
  "InitTencentSmsClient new_client cfg =
     run_bind (must ''config'' cfg) (\<lambda>cfg.
     NewTencentSmsClient new_client (tg_RegionId cfg) (tg_AppId cfg) (tg_SecretId cfg) (tg_SecretKey cfg))"

definition InitTencentSmsProvider :: "'w SmsClient \<Rightarrow> 'w ChannelTplRepo \<Rightarrow> 'w ProviderRepo \<Rightarrow> 'w SmsProvider" where
  "InitTencentSmsProvider client tplRepo providerRepo =
     NewSmsProvider ''tencent_sms_provider'' client tplRepo providerRepo"

definition InitChannelMap ::
    "(Notification \<Rightarrow> ('w, SendResp \<times> go_error option) io)
      \<Rightarrow> Channel \<Rightarrow> (Notification \<Rightarrow> ('w, SendResp \<times> go_error option) io) option" where
  "InitChannelMap sms = [ChannelSMS \<mapsto> sms]"

section \<open>Properties\<close>

text \<open>The SMS client of the configuration has its values in the wrong places: the credential is made of the
  app id and the secret id, and every request that is sent carries the secret key of the account as its app
  id.\<close>

theorem InitTencentSmsClient_swaps:
  assumes "InitTencentSmsClient new_client (Inr cfg) = Inr client"
  shows "\<exists>sdk. new_client (tg_AppId cfg) (tg_SecretId cfg) (tg_RegionId cfg) = Inr sdk \<and>
     smsClient_Send client req =
       (if sq_PhoneNumbers req = [] then io_return (Inl (Wrapped ErrInvalidParam ''phone number should not be empty''))
        else io_bind (sdk (TencentSmsClient_request (tg_SecretKey cfg) req)) TencentSmsClient_result) \<and>
     tq_SmsSdkAppId (TencentSmsClient_request (tg_SecretKey cfg) req) = tg_SecretKey cfg"
  using assms
  by (auto simp: InitTencentSmsClient_def NewTencentSmsClient_def TencentSmsClient_def TencentSmsClient_Send_def
      TencentSmsClient_request_def)

definition recording_sdk :: "TencentRequest list tencent_sdk" where
  "recording_sdk secretId secretKey regionId = Inr (\<lambda>req w. (Inr (Inl (External 0)), w @ [req]))"

definition sample_tencent :: tencent_config where
  "sample_tencent = \<lparr>tg_RegionId = ''r'', tg_AppId = ''app'', tg_SecretId = ''id'', tg_SecretKey = ''secret''\<rparr>"

lemma InitTencentSmsClient_swaps_witness:
  "\<exists>client. InitTencentSmsClient recording_sdk (Inr sample_tencent) = Inr client \<and>
     map tq_SmsSdkAppId (snd (smsClient_Send client
       \<lparr>sq_PhoneNumbers = [''1''], sq_SignName = [], sq_TemplateId = [], sq_TemplateParams = []\<rparr> [])) = [''secret'']"
proof -
  let ?req = "\<lparr>sq_PhoneNumbers = [''1''], sq_SignName = [], sq_TemplateId = [], sq_TemplateParams = []\<rparr>"
  obtain client where c: "InitTencentSmsClient recording_sdk (Inr sample_tencent) = Inr client"
    by (simp add: InitTencentSmsClient_def NewTencentSmsClient_def recording_sdk_def must_def)
  obtain sdk where s: "recording_sdk ''app'' ''id'' ''r'' = Inr sdk"
    "smsClient_Send client ?req = io_bind (sdk (TencentSmsClient_request ''secret'' ?req)) TencentSmsClient_result"
    "tq_SmsSdkAppId (TencentSmsClient_request ''secret'' ?req) = ''secret''"
    using InitTencentSmsClient_swaps [OF c, of ?req] by (auto simp: sample_tencent_def)
  have sdk: "sdk = (\<lambda>req w. (Inr (Inl (External 0)), w @ [req]))" using s(1) by (simp add: recording_sdk_def fun_eq_iff)
  have "snd (io_bind (\<lambda>w. (Inr (Inl e), w @ [rq])) TencentSmsClient_result []) = [rq]" for e :: go_error and rq :: TencentRequest
    by (simp add: TencentSmsClient_result_def io_bind_def)
  then have "snd (smsClient_Send client ?req []) = [TencentSmsClient_request ''secret'' ?req]"
    unfolding s(2) sdk .
  then have "map tq_SmsSdkAppId (snd (smsClient_Send client ?req [])) = [''secret'']"
    using s(3) by (simp only: list.map)
  with c show ?thesis by (intro exI [of _ client] conjI)
qed

lemma open_databases_dom:
  "open_databases Open cfgs dbs w = (Inr dbs', w') \<Longrightarrow> dom dbs' = dom dbs \<union> fst ` set cfgs"
proof (induction cfgs arbitrary: dbs w)
  case (Cons c cfgs)
  obtain key dsn where c: "c = (key, dsn)" by (cases c)
  with Cons.prems obtain db w1 where "open_databases Open cfgs (dbs(key \<mapsto> db)) w1 = (Inr dbs', w')"
    by (auto simp: io_bind_eq_Inr)
  from Cons.IH [OF this, unfolded dom_fun_upd] c show ?case by simp
qed simp

text \<open>The databases are opened once: the first call returns one for every entry of the configuration, a later
  call returns a map without any, as the map is a variable of the call.\<close>

theorem InitShardingDB_once:
  assumes "InitShardingDB Open (Inr cfg) False w = (Inr dbs, once, w')"
  shows "dom dbs = fst ` set cfg \<and> InitShardingDB Open (Inr cfg) once w' = (Inr Map.empty, True, w')"
proof -
  have "open_databases Open cfg Map.empty w = (Inr dbs, w')" "once"
    using assms by (auto simp: InitShardingDB_def must_def split: prod.splits)
  from open_databases_dom [OF this(1)] this(2) show ?thesis by (simp add: InitShardingDB_def must_def)
qed

lemma InitShardingDB_once_witness:
  "\<exists>dbs. InitShardingDB (\<lambda>dsn n. (Inr dsn, Suc n)) (Inr [(''jotify_0'', ''a''), (''jotify_1'', ''b'')]) False 0 = (Inr dbs, True, 2) \<and>
     dom dbs = {''jotify_0'', ''jotify_1''}"
proof -
  obtain dbs where d: "InitShardingDB (\<lambda>dsn n. (Inr dsn, Suc n)) (Inr [(''jotify_0'', ''a''), (''jotify_1'', ''b'')]) False 0
      = (Inr dbs, True, 2)"
    by (simp add: InitShardingDB_def must_def)
  from InitShardingDB_once [OF d] d show ?thesis by simp
qed

lemma InterceptorOf_single [simp]: "InterceptorOf [i] = i"
  by (simp add: InterceptorOf_def fun_eq_iff)

text \<open>The server is made exactly when both keys of the configuration are PEM blocks of Ed25519 keys, the
  private one private and the public one public; everything else is a panic before the server starts. Its one
  interceptor is the one of the keys.\<close>

theorem InitNotificationGrpcServer_iff:
  "InitNotificationGrpcServer pl jwt_of (Inr cfg) = Inr server \<longleftrightarrow>
     (\<exists>b b' pri pub. pl_Decode pl (jg_PriPem cfg) = Some b \<and> pl_Decode pl (jg_PubPem cfg) = Some b' \<and>
        pl_ParsePKCS8PrivateKey pl b = Inr (Ed25519PrivateKey pri) \<and>
        pl_ParsePKIXPublicKey pl b' = Inr (Ed25519PublicKey pub) \<and>
        server = (\<lambda>md. Interceptor_Build (jwt_of pri pub) md))"
proof -
  have keys: "loadJwtKeypair pl priPem pubPem = Inr (pri, pub) \<longleftrightarrow>
      (\<exists>b b'. pl_Decode pl priPem = Some b \<and> pl_Decode pl pubPem = Some b' \<and>
        pl_ParsePKCS8PrivateKey pl b = Inr (Ed25519PrivateKey pri) \<and>
        pl_ParsePKIXPublicKey pl b' = Inr (Ed25519PublicKey pub))" for priPem pubPem pri pub
    by (simp add: loadJwtKeypair_def must_def run_bind_def split: option.split sum.split parsed_key.split)
  show ?thesis
    by (auto simp: InitNotificationGrpcServer_def keys run_bind_eq_Inr)
qed

text \<open>gRPC refuses to make a client without transport credentials.\<close>

definition needs_credentials :: "(string \<Rightarrow> dial_options \<Rightarrow> go_error + 'conn) \<Rightarrow> bool" where
  "needs_credentials NewClient \<longleftrightarrow> (\<forall>target opts. \<not> do_insecure opts \<longrightarrow> (\<exists>err. NewClient target opts = Inl err))"

text \<open>The clients of the callback services, as the program makes them, have no transport credentials: nothing
  sets the flag \<open>insecure\<close>. The first call of any service panics, whatever its name and the balancer.\<close>

theorem callback_clients_panic:
  assumes "needs_credentials NewClient" "InitCallbackGrpcClients cfg = Inr c"
  shows "Clients_Get NewClient creator c serviceName Map.empty
     = Inl (PanicMessage (''failed to create grpc client for service '' @ serviceName))"
proof -
  have "cl_insecure c = False"
    using assms(2) by (auto simp: InitCallbackGrpcClients_def NewClients_def)
  with assms(1) obtain err where "NewClient (''registry:///'' @ serviceName)
      \<lparr>do_insecure = cl_insecure c, do_serviceConfig = map_option service_config (cl_balancer c)\<rparr> = Inl err"
    unfolding needs_credentials_def by (metis dial_options.select_convs(1))
  then show ?thesis by (simp add: Clients_Get_def Clients_dial_def)
qed

lemma callback_clients_panic_witness:
  "\<exists>c. InitCallbackGrpcClients (Inr \<lparr>lg_Name = ''rw'', lg_Timeout = 100\<rparr>) = Inr c \<and>
     Clients_Get (\<lambda>_ opts. if do_insecure opts then Inr () else Inl (External 0)) (\<lambda>_. ()) c ''pay'' Map.empty
       = Inl (PanicMessage ''failed to create grpc client for service pay'')"
proof -
  let ?new = "\<lambda>(_ :: string) opts. if do_insecure opts then Inr () else Inl (External 0)"
  have l: "needs_credentials ?new" by (simp add: needs_credentials_def)
  obtain c where c: "InitCallbackGrpcClients (Inr \<lparr>lg_Name = ''rw'', lg_Timeout = 100\<rparr>) = Inr c"
    by (simp add: InitCallbackGrpcClients_def must_def)
  from callback_clients_panic [OF l c, of "\<lambda>_. ()" "''pay''"] c show ?thesis by simp
qed

text \<open>The registry of a server that runs over etcd.\<close>

definition etcd_app_registry :: "si_codec \<Rightarrow> 'w etcd \<Rightarrow> ('w \<Rightarrow> go_error option \<times> 'w) \<Rightarrow> 'w app_registry" where
  "etcd_app_registry js ec close =
     \<lparr>ar_Register = Registry_Register js ec, ar_Unregister = Registry_Unregister ec, ar_Close = io_call close\<rparr>"

text \<open>While a started server runs it is registered with the name, address, group and weights of its configuration,
  and after its stop it is no longer, unless etcd refused the deletion; the hook of the stop reports no error
  either way.\<close>

theorem AppLifecycle_registered:
  assumes "etcd_laws ec kv" "\<And>w. kv (snd (Listen addr w)) = kv w" "\<And>w. kv (snd (close w)) = kv w" "\<And>w. kv (stop w) = kv w"
    and "InitApp Listen stop (Some (etcd_app_registry js ec close)) (Inr cfg) = Inr app" "addr = ag_Addr cfg"
    and "fh_OnStart (AppLifecycle app) w = (Inr None, w1)" "fh_OnStop (AppLifecycle app) w1 = (r, w2)"
  defines "si \<equiv> \<lparr>si_Name = ag_Name cfg, si_Addr = ag_Addr cfg, si_Group = ag_Group cfg,
     si_ReadWeight = ag_ReadWeight cfg, si_WriteWeight = ag_WriteWeight cfg\<rparr>"
  shows "registered js (kv w1) si \<and> r = Inr None \<and>
     kv w2 = (if fst (ec_Delete ec (instanceKey si) w1) = None then (kv w1)(instanceKey si := None) else kv w1)"
proof -
  have app: "app = \<lparr>app_Listen = Listen, app_GracefulStop = stop, app_registry = Some (etcd_app_registry js ec close),
      app_serviceInstance = si\<rparr>"
    using assms(5) by (simp add: InitApp_def must_def si_def)
  have "fst (Listen addr w) = None" "Registry_Register js ec si (snd (Listen addr w)) = (Inr None, w1)"
    using assms(6,7) by (auto simp: AppLifecycle_def App_Start_def app si_def etcd_app_registry_def split: option.splits)
  moreover from this(2) obtain s where "sj_Marshal js si = Inr s" "ec_Put ec (instanceKey si) s (snd (Listen addr w)) = (None, w1)"
    by (auto simp: Registry_Register_def prod_eq_iff split: sum.splits)
  ultimately have "registered js (kv w1) si" using assms(1,2) by (auto simp: etcd_laws_def registered_def)
  obtain err w3 where d: "ec_Delete ec (instanceKey si) w1 = (err, w3)" by fastforce
  with assms(8) have r: "r = Inr None" "w2 = stop (snd (close w3))"
    by (auto simp: AppLifecycle_def App_Close_def app etcd_app_registry_def Registry_Unregister_def)
  from d assms(1) have "kv w3 = (if err = None then (kv w1)(instanceKey si := None) else kv w1)"
    by (auto simp: etcd_laws_def)
  with r d assms(3,4) \<open>registered js (kv w1) si\<close> show ?thesis by simp
qed

lemma AppLifecycle_registered_witness:
  "\<exists>app w1 r w2. InitApp (\<lambda>_ w. (None, w)) (\<lambda>w. w) (Some (etcd_app_registry pay_codec list_etcd (\<lambda>w. (None, w))))
       (Inr \<lparr>ag_Name = ''new'', ag_Addr = ''a'', ag_Group = [], ag_ReadWeight = 0, ag_WriteWeight = 0, ag_Timeout = 9\<rparr>) = Inr app \<and>
     fh_OnStart (AppLifecycle app) pay_store = (Inr None, w1) \<and> registered pay_codec (map_of w1) (pay ''new'') \<and>
     fh_OnStop (AppLifecycle app) w1 = (r, w2) \<and> map_of w2 (instanceKey (pay ''new'')) = None"
proof -
  let ?cfg = "\<lparr>ag_Name = ''new'', ag_Addr = ''a'', ag_Group = [], ag_ReadWeight = 0, ag_WriteWeight = 0, ag_Timeout = 9\<rparr>"
  let ?reg = "etcd_app_registry pay_codec list_etcd (\<lambda>w. (None, w))"
  obtain app where app: "InitApp (\<lambda>_ w. (None, w)) (\<lambda>w. w) (Some ?reg) (Inr ?cfg) = Inr app"
    by (simp add: InitApp_def must_def)
  obtain w1 where start: "fh_OnStart (AppLifecycle app) pay_store = (Inr None, w1)"
    using app by (auto simp: InitApp_def must_def AppLifecycle_def App_Start_def etcd_app_registry_def
        Registry_Register_def pay_codec_def pay_def list_etcd_def)
  obtain r w2 where stop: "fh_OnStop (AppLifecycle app) w1 = (r, w2)" by fastforce
  from AppLifecycle_registered [OF list_etcd_laws _ _ _ app refl start stop]
  have "registered pay_codec (map_of w1) (pay ''new'')" "map_of w2 (instanceKey (pay ''new'')) = None"
    by (simp_all add: pay_def list_etcd_def)
  with app start stop show ?thesis by (intro exI conjI)
qed

end
