(* ===== verification/Assembly.thy ===== *)
theory Assembly
  imports Prelude
begin

text \<open>
  How the program is put together: the options that \<open>internal/ioc\<close> gives to the library \<open>fx\<close> and \<open>cmd/main.go\<close>
  collects. An option lists constructors; \<open>fx\<close> calls a constructor when a value it makes is required and can be
  built, and calls the invoked functions at the start. A constructor is listed with the types of its Go
  signature, written as in Go with the name of their package.
\<close>

section \<open>Options\<close>

datatype go_type = Ty string | SliceOf go_type

datatype fx_tag = NameTag string | GroupTag string

text \<open>A constructor: its name, the types of its parameters and of its result.\<close>

datatype constructor = Func string "go_type list" go_type

text \<open>\<open>fx.As\<close>, \<open>fx.ParamTags\<close> and \<open>fx.ResultTags\<close> of an \<open>fx.Annotate\<close>.\<close>

datatype fx_annotation = As go_type | ParamTags "fx_tag list" | ResultTags "fx_tag list"

datatype provided = Annotate constructor "fx_annotation list"

abbreviation Plain :: "constructor \<Rightarrow> provided" where
  "Plain f \<equiv> Annotate f []"

text \<open>The type and the tag a value is known by.\<close>

type_synonym fx_key = "go_type \<times> fx_tag option"

text \<open>Tags belong to the parameters by position; parameters beyond the tags have none.\<close>

fun tagged :: "go_type list \<Rightarrow> fx_tag list \<Rightarrow> fx_key list" where
  "tagged [] _ = []"
| "tagged (t # ts) [] = (t, None) # tagged ts []"
| "tagged (t # ts) (g # gs) = (t, Some g) # tagged ts gs"

fun ctor_name :: "provided \<Rightarrow> string" where
  "ctor_name (Annotate (Func name _ _) _) = name"

fun provided_params :: "provided \<Rightarrow> fx_key list" where
  "provided_params (Annotate (Func _ params _) anns) =
     tagged params (concat (map (\<lambda>a. case a of ParamTags gs \<Rightarrow> gs | _ \<Rightarrow> []) anns))"

text \<open>The result is known as the interface of \<open>As\<close> when there is one.\<close>

fun provided_result :: "provided \<Rightarrow> fx_key" where
  "provided_result (Annotate (Func _ _ result) anns) =
     (case concat (map (\<lambda>a. case a of As t \<Rightarrow> [t] | _ \<Rightarrow> []) anns) of t # _ \<Rightarrow> t | [] \<Rightarrow> result,
      case concat (map (\<lambda>a. case a of ResultTags gs \<Rightarrow> gs | _ \<Rightarrow> []) anns) of g # _ \<Rightarrow> Some g | [] \<Rightarrow> None)"

section \<open>The options of the packages\<close>

definition tLogger :: go_type where "tLogger = Ty ''*zap.Logger''"
definition tCmdable :: go_type where "tCmdable = Ty ''redis.Cmdable''"
definition tDB :: go_type where "tDB = Ty ''*gorm.DB''"
definition tEtcd :: go_type where "tEtcd = Ty ''*clientv3.Client''"
definition tIdGenerator :: go_type where "tIdGenerator = Ty ''*snowflake.Generator''"
definition tStrategy :: go_type where "tStrategy = Ty ''sharding.Strategy''"
definition tDBs :: go_type where "tDBs = Ty ''*xsync.Map[string, *gorm.DB]''"
definition tBizConfCache :: go_type where "tBizConfCache = Ty ''cache.BizConfCache''"
definition tNotifRepo :: go_type where "tNotifRepo = Ty ''repository.NotificationRepo''"
definition tBizConfRepo :: go_type where "tBizConfRepo = Ty ''repository.BizConfRepo''"
definition tSendStrategy :: go_type where "tSendStrategy = Ty ''sendstrategy.SendStrategy''"
definition tProvider :: go_type where "tProvider = Ty ''provider.Provider''"
definition tClients :: go_type where "tClients = Ty ''*grpc.Clients[clientv1.CallbackServiceClient]''"
definition tServer :: go_type where "tServer = Ty ''*grpc.Server''"
definition tNotificationServer :: go_type where "tNotificationServer = Ty ''*grpc.NotificationServer''"
definition tRegistry :: go_type where "tRegistry = Ty ''registry.Registry''"
definition tApp :: go_type where "tApp = Ty ''*ioc.App''"
definition tLifecycle :: go_type where "tLifecycle = Ty ''fx.Lifecycle''"
definition tSender :: go_type where "tSender = Ty ''sender.Sender''"
definition tSendService :: go_type where "tSendService = Ty ''notification.SendService''"
definition tCallbackService :: go_type where "tCallbackService = Ty ''callback.Service''"
definition tNotifScheduler :: go_type where "tNotifScheduler = Ty ''schedule.NotifScheduler''"

lemmas type_defs = tLogger_def tCmdable_def tDB_def tEtcd_def tIdGenerator_def tStrategy_def tDBs_def
  tBizConfCache_def tNotifRepo_def tBizConfRepo_def tSendStrategy_def tProvider_def tClients_def tServer_def
  tNotificationServer_def tRegistry_def tApp_def tLifecycle_def tSender_def tSendService_def
  tCallbackService_def tNotifScheduler_def

definition LoggerFxOpt :: "provided list" where
  "LoggerFxOpt = [Plain (Func ''InitLogger'' [] tLogger)]"

definition IdFxOpt :: "provided list" where
  "IdFxOpt = [Plain (Func ''InitIdGenerator'' [] tIdGenerator)]"

definition RedisFxOpt :: "provided list" where
  "RedisFxOpt =
     [Plain (Func ''InitRedis'' [] tCmdable),
      Plain (Func ''InitDClient'' [tCmdable] (Ty ''dlock.Dclient''))]"

definition DBFxOpt :: "provided list" where
  "DBFxOpt =
     [Plain (Func ''InitBaseDB'' [] tDB),
      Plain (Func ''InitShardingDB'' [] tDBs),
      Annotate (Func ''InitNotifShardingStrategy'' [] tStrategy)
        [As tStrategy, ResultTags [NameTag ''notification_sharding_strategy'']],
      Annotate (Func ''InitCbLogShardingStrategy'' [] tStrategy)
        [As tStrategy, ResultTags [NameTag ''callback_log_sharding_strategy'']]]"

definition EtcdFxOpt :: "provided list" where
  "EtcdFxOpt = [Plain (Func ''InitEtcdClient'' [] tEtcd)]"

definition RepoFxOpt :: "provided list" where
  "RepoFxOpt =
     [Annotate (Func ''local.NewBizConfLocalCache'' [tCmdable, Ty ''*gcache.Cache'', tLogger]
          (Ty ''*local.BizConfLocalCache''))
        [As tBizConfCache, ResultTags [NameTag ''biz_conf_local_cache'']],
      Annotate (Func ''redis.NewBizConfRedisCache'' [tCmdable, tLogger] (Ty ''*redis.BizConfRedisCache''))
        [As tBizConfCache, ResultTags [NameTag ''biz_conf_redis_cache'']],
      Annotate (Func ''redis.NewQuotaRedisCache'' [tCmdable, tLogger] (Ty ''*redis.QuotaRedisCache''))
        [As (Ty ''cache.QuotaCache''), ResultTags [NameTag ''quota_redis_cache'']],
      Annotate (Func ''dao.NewDefaultBizConfDAO'' [tDB] (Ty ''*dao.DefaultBizConfDAO'')) [As (Ty ''dao.BizConfDAO'')],
      Annotate (Func ''dao.NewNotifShardingDAO'' [tDBs, tStrategy, tStrategy, tIdGenerator] (Ty ''*dao.NotifShardingDAO''))
        [As (Ty ''dao.NotificationDAO''),
         ParamTags [NameTag ''notification_sharding_strategy'', NameTag ''callback_log_sharding_strategy'']],
      Annotate (Func ''dao.NewDefaultChannelTplDAO'' [tDB] (Ty ''*dao.DefaultChannelTplDAO'')) [As (Ty ''dao.ChannelTplDAO'')],
      Annotate (Func ''dao.NewDefaultProviderDAO'' [tDB] (Ty ''*dao.DefaultProviderDAO'')) [As (Ty ''dao.ProviderDAO'')],
      Annotate (Func ''dao.NewDefaultCallbackLogDAO'' [tDB] (Ty ''*dao.DefaultCallbackLogDAO'')) [As (Ty ''dao.CallbackLogDAO'')],
      Annotate (Func ''repository.NewDefaultBizConfRepo'' [Ty ''dao.BizConfDAO'', tBizConfCache, tBizConfCache, tLogger]
          (Ty ''*repository.DefaultBizConfRepo''))
        [As tBizConfRepo],
      Annotate (Func ''repository.NewDefaultNotifRepo'' [Ty ''dao.NotificationDAO'', Ty ''*redis.QuotaRedisCache'', tLogger]
          (Ty ''*repository.DefaultNotifRepo''))
        [As tNotifRepo],
      Annotate (Func ''repository.NewDefaultChannelTplRepo'' [Ty ''dao.ChannelTplDAO''] (Ty ''*repository.DefaultChannelTplRepo''))
        [As (Ty ''repository.ChannelTplRepo'')],
      Annotate (Func ''repository.NewDefaultProviderRepo'' [Ty ''dao.ProviderDAO''] (Ty ''*repository.DefaultProviderRepo''))
        [As (Ty ''repository.ProviderRepo'')],
      Annotate (Func ''repository.NewDefaultCallbackLogRepo'' [Ty ''dao.NotificationDAO'', Ty ''dao.CallbackLogDAO'']
          (Ty ''*repository.DefaultCallbackLogRepo''))
        [As (Ty ''repository.CallbackLogRepo'')]]"

definition ServiceFxOpt :: "provided list" where
  "ServiceFxOpt =
     [Annotate (Func ''conf.NewDefaultBizConfService'' [tBizConfRepo] (Ty ''*conf.DefaultBizConfService''))
        [As (Ty ''conf.BizConfService'')],
      Annotate (Func ''sendstrategy.NewDefaultSendStrategy'' [tNotifRepo, tBizConfRepo, tLogger]
          (Ty ''*sendstrategy.DefaultSendStrategy''))
        [As tSendStrategy, ResultTags [NameTag ''default_send_strategy'']],
      Annotate (Func ''sendstrategy.NewImmediateSendStrategy'' [tNotifRepo, tSender] (Ty ''*sendstrategy.ImmediateSendStrategy''))
        [As tSendStrategy, ResultTags [NameTag ''immediate_send_strategy'']],
      Annotate (Func ''sendstrategy.NewDispatcher''
          [Ty ''*sendstrategy.DefaultSendStrategy'', Ty ''*sendstrategy.ImmediateSendStrategy''] (Ty ''*sendstrategy.Dispatcher''))
        [As tSendStrategy, ParamTags [NameTag ''default_send_strategy'', NameTag ''immediate_send_strategy''],
         ResultTags [NameTag ''send_strategy_dispatcher'']],
      Annotate (Func ''notification.NewDefaultSendService'' [tIdGenerator, tSendStrategy] (Ty ''*notification.DefaultSendService''))
        [As tSendService, ParamTags [NameTag ''send_strategy_dispatcher'']],
      Annotate (Func ''callback.NewDefaultService'' [tClients, tBizConfRepo, Ty ''repository.CallbackLogRepo'', tLogger]
          (Ty ''*callback.DefaultService''))
        [As tCallbackService],
      Plain (Func ''InitTencentSmsClient'' [] (Ty ''*client.TencentSmsClient'')),
      Annotate (Func ''InitTencentSmsProvider''
          [Ty ''client.SmsClient'', Ty ''repository.ChannelTplRepo'', Ty ''repository.ProviderRepo''] (Ty ''*sms.Provider''))
        [As tProvider, ResultTags [GroupTag ''sms_provider'']],
      Annotate (Func ''selector.NewSeqSelectorBuilder'' [SliceOf tProvider] (Ty ''*selector.SeqSelectorBuilder''))
        [As (Ty ''provider.SelectorBuilder''), ParamTags [GroupTag ''sms_provider'']],
      Plain (Func ''channel.NewSmsChannel'' [Ty ''provider.SelectorBuilder''] (Ty ''*channel.SmsChannel'')),
      Plain (Func ''InitChannelMap'' [Ty ''*channel.SmsChannel''] (Ty ''map[domain.Channel]channel.Channel'')),
      Plain (Func ''channel.NewDispatcher'' [Ty ''map[domain.Channel]channel.Channel''] (Ty ''*channel.Dispatcher'')),
      Annotate (Func ''sender.NewDefaultSender''
          [Ty ''channel.Channel'', tNotifRepo, tBizConfRepo, tCallbackService, tLogger] (Ty ''*sender.DefaultSender''))
        [As tSender]]"

definition SchedulerFxOpt :: "provided list" where
  "SchedulerFxOpt =
     [Annotate (Func ''InitNotificationScheduler'' [Ty ''dlock.Dclient'', tNotifRepo, tSender, tStrategy, tEtcd, tLogger]
          tNotifScheduler)
        [As tNotifScheduler, ParamTags [NameTag ''notification_sharding_strategy'']]]"

definition RegistryFxOpt :: "provided list" where
  "RegistryFxOpt = [Annotate (Func ''InitRegistry'' [tEtcd] (Ty ''*etcd.Registry'')) [As tRegistry]]"

definition GrpcFxOpt :: "provided list" where
  "GrpcFxOpt =
     [Plain (Func ''InitNotificationGrpcServer'' [tNotificationServer] tServer),
      Plain (Func ''InitCallbackGrpcClients'' [tRegistry] tClients),
      Plain (Func ''grpcapi.NewNotificationServer'' [] tNotificationServer)]"

definition AppFxOpt :: "provided list" where
  "AppFxOpt = [Plain (Func ''InitApp'' [tServer, tRegistry, tLogger] tApp)]"

text \<open>The options of \<open>main\<close>, and what its invoked functions and the logger of \<open>fx\<close> take.\<close>

definition main_provides :: "provided list" where
  "main_provides = LoggerFxOpt @ IdFxOpt @ RedisFxOpt @ DBFxOpt @ EtcdFxOpt @ RepoFxOpt @ ServiceFxOpt @
     SchedulerFxOpt @ RegistryFxOpt @ GrpcFxOpt @ AppFxOpt"

definition WithLogger_params :: "fx_key list" where
  "WithLogger_params = [(tLogger, None)]"

definition AppFxInvoke :: "fx_key list" where
  "AppFxInvoke = [(tLifecycle, None), (tApp, None)]"

definition LoggerFxInvoke :: "fx_key list" where
  "LoggerFxInvoke = [(tLifecycle, None), (tLogger, None)]"

definition main_invokes :: "fx_key list" where
  "main_invokes = WithLogger_params @ AppFxInvoke @ LoggerFxInvoke"

lemmas option_defs = LoggerFxOpt_def IdFxOpt_def RedisFxOpt_def DBFxOpt_def EtcdFxOpt_def RepoFxOpt_def
  ServiceFxOpt_def SchedulerFxOpt_def RegistryFxOpt_def GrpcFxOpt_def AppFxOpt_def main_provides_def

section \<open>What fx builds\<close>

text \<open>What \<open>fx\<close> is documented to do with the constructors \<open>ps\<close>: it builds a value from any constructor whose
  result it is and whose parameters it can build, it has its own \<open>fx.Lifecycle\<close>, and a slice with the tag of a
  group takes the results of all constructors of the group.\<close>

fun group_members :: "provided list \<Rightarrow> fx_key \<Rightarrow> provided list option" where
  "group_members ps (SliceOf t, Some (GroupTag g)) = Some (filter (\<lambda>p. provided_result p = (t, Some (GroupTag g))) ps)"
| "group_members ps _ = None"

definition buildable :: "provided list \<Rightarrow> (fx_key \<Rightarrow> bool) \<Rightarrow> fx_key \<Rightarrow> bool" where
  "buildable ps built k \<longleftrightarrow>
     (case group_members ps k of
        Some members \<Rightarrow> list_all (\<lambda>p. list_all built (provided_params p)) members
      | None \<Rightarrow> k = (tLifecycle, None) \<or>
          list_ex (\<lambda>p. provided_result p = k \<and> list_all built (provided_params p)) ps)"

definition fx_laws :: "provided list \<Rightarrow> (fx_key \<Rightarrow> bool) \<Rightarrow> bool" where
  "fx_laws ps built \<longleftrightarrow> (\<forall>k. built k \<longleftrightarrow> buildable ps built k)"

text \<open>The values \<open>fx\<close> needs for the parameters \<open>invokes\<close> of the functions it calls.\<close>

inductive required :: "provided list \<Rightarrow> fx_key list \<Rightarrow> fx_key \<Rightarrow> bool" for ps invokes where
  invoked: "k \<in> set invokes \<Longrightarrow> required ps invokes k"
| param: "required ps invokes (provided_result p) \<Longrightarrow> p \<in> set ps \<Longrightarrow> k \<in> set (provided_params p)
    \<Longrightarrow> required ps invokes k"
| member: "required ps invokes k \<Longrightarrow> group_members ps k = Some members \<Longrightarrow> p \<in> set members
    \<Longrightarrow> required ps invokes (provided_result p)"

text \<open>A list that contains what is invoked and is closed contains everything that is required.\<close>

definition closed_under :: "provided list \<Rightarrow> fx_key list \<Rightarrow> bool" where
  "closed_under ps ks \<longleftrightarrow>
     list_all (\<lambda>p. provided_result p \<in> set ks \<longrightarrow> list_all (\<lambda>k. k \<in> set ks) (provided_params p)) ps \<and>
     list_all (\<lambda>k. case group_members ps k of None \<Rightarrow> True
       | Some members \<Rightarrow> list_all (\<lambda>p. provided_result p \<in> set ks) members) ks"

lemma required_closed:
  assumes "required ps invokes k" "set invokes \<subseteq> set ks" "closed_under ps ks"
  shows "k \<in> set ks"
  using assms(1)
proof (induction rule: required.induct)
  case (invoked k)
  with assms(2) show ?case by blast
next
  case (param p k)
  with assms(3) show ?case by (auto simp: closed_under_def list_all_iff)
next
  case (member k members p)
  with assms(3) show ?case by (fastforce simp: closed_under_def list_all_iff)
qed

text \<open>Nothing is built that no constructor makes, or whose constructors all miss a parameter.\<close>

lemma not_built:
  assumes "fx_laws ps built" "group_members ps k = None" "k \<noteq> (tLifecycle, None)"
    and "list_all (\<lambda>p. provided_result p = k \<longrightarrow> list_ex (\<lambda>q. q \<in> set missing) (provided_params p)) ps"
    and "\<forall>q \<in> set missing. \<not> built q"
  shows "\<not> built k"
proof
  assume "built k"
  then have "buildable ps built k" using assms(1) by (simp only: fx_laws_def)
  then obtain p where "p \<in> set ps" "provided_result p = k" "list_all built (provided_params p)"
    using assms(2,3) by (auto simp: buildable_def list_ex_iff)
  with assms(4,5) show False by (fastforce simp: list_all_iff list_ex_iff)
qed

lemma built_by:
  assumes "fx_laws ps built" "group_members ps k = None"
    and "list_ex (\<lambda>p. provided_result p = k \<and> list_all (\<lambda>q. q \<in> set ks) (provided_params p)) ps"
    and "\<forall>q \<in> set ks. built q"
  shows "built k"
proof -
  from assms(2-4) have "buildable ps built k"
    by (fastforce simp: buildable_def list_ex_iff list_all_iff)
  with assms(1) show ?thesis by (simp only: fx_laws_def)
qed

text \<open>One round of building from the values \<open>ks\<close>; a list that a round does not change is what can be built.\<close>

definition built_from :: "provided list \<Rightarrow> fx_key list \<Rightarrow> fx_key \<Rightarrow> bool" where
  "built_from ps ks k =
     (case group_members ps k of
        Some members \<Rightarrow> list_all (\<lambda>p. list_all (\<lambda>q. q \<in> set ks) (provided_params p)) members
      | None \<Rightarrow> k \<in> set ks)"

definition build_round :: "provided list \<Rightarrow> fx_key list \<Rightarrow> fx_key list" where
  "build_round ps ks =
     (tLifecycle, None) # map provided_result (filter (\<lambda>p. list_all (built_from ps ks) (provided_params p)) ps)"

lemma fx_laws_fixpoint:
  assumes "build_round ps ks = ks"
    and "list_all (\<lambda>p. group_members ps (provided_result p) = None) ps"
    and "list_all (\<lambda>p. list_all (\<lambda>q. group_members ps q = None) (provided_params p) \<or>
       (case provided_result p of (_, Some (GroupTag _)) \<Rightarrow> False | _ \<Rightarrow> True)) ps"
  shows "fx_laws ps (built_from ps ks)"
  unfolding fx_laws_def
proof
  fix k
  show "built_from ps ks k \<longleftrightarrow> buildable ps (built_from ps ks) k"
  proof (cases "group_members ps k")
    case None
    have "k \<in> set ks \<longleftrightarrow> k \<in> set (build_round ps ks)" by (simp only: assms(1))
    also have "\<dots> \<longleftrightarrow> k = (tLifecycle, None) \<or>
        (\<exists>p \<in> set ps. provided_result p = k \<and> list_all (built_from ps ks) (provided_params p))"
      by (auto simp: build_round_def)
    finally show ?thesis using None by (auto simp: built_from_def [of ps ks k] buildable_def list_ex_iff)
  next
    case (Some members)
    then obtain t g where k: "k = (SliceOf t, Some (GroupTag g))"
      by (cases "(ps, k)" rule: group_members.cases) auto
    have "built_from ps ks q \<longleftrightarrow> q \<in> set ks" if "p \<in> set members" "q \<in> set (provided_params p)" for p q
      using that Some k assms(3) by (fastforce simp: built_from_def list_all_iff)
    with Some show ?thesis by (auto simp: built_from_def [of ps ks k] buildable_def list_all_iff)
  qed
qed

section \<open>Properties\<close>

text \<open>What the start of the program requires.\<close>

definition started :: "fx_key list" where
  "started = [(tLifecycle, None), (tLogger, None), (tApp, None), (tServer, None), (tRegistry, None),
     (tNotificationServer, None), (tEtcd, None)]"

lemma started_closed: "closed_under main_provides started"
  by code_simp

lemma required_by:
  assumes "required ps invokes k" "list_ex (\<lambda>p. provided_result p = k \<and> k' \<in> set (provided_params p)) ps"
  shows "required ps invokes k'"
proof -
  obtain p where p: "p \<in> set ps" "provided_result p = k" "k' \<in> set (provided_params p)"
    using assms(2) by (auto simp: list_ex_iff)
  with assms(1) have "required ps invokes (provided_result p)" by simp
  from required.param [OF this p(1,3)] show ?thesis .
qed

lemma started_required: "k \<in> set started \<Longrightarrow> required main_provides main_invokes k"
proof -
  let ?r = "required main_provides main_invokes"
  have app: "?r (tApp, None)" "?r (tLifecycle, None)" "?r (tLogger, None)"
    by (rule required.invoked; simp add: main_invokes_def WithLogger_params_def AppFxInvoke_def LoggerFxInvoke_def)+
  have server: "?r (tServer, None)" by (rule required_by [OF app(1)]) code_simp
  have registry: "?r (tRegistry, None)" by (rule required_by [OF app(1)]) code_simp
  have ns: "?r (tNotificationServer, None)" by (rule required_by [OF server]) code_simp
  have etcd: "?r (tEtcd, None)" by (rule required_by [OF registry]) code_simp
  show "k \<in> set started \<Longrightarrow> ?r k"
    using app server registry ns etcd by (auto simp: started_def)
qed

definition started_ctors :: "string list" where
  "started_ctors = [''InitLogger'', ''InitEtcdClient'', ''InitRegistry'', ''grpcapi.NewNotificationServer'',
     ''InitNotificationGrpcServer'', ''InitApp'']"

lemma started_names:
  "list_all (\<lambda>p. provided_result p \<in> set started \<longrightarrow> ctor_name p \<in> set started_ctors) main_provides"
  "list_all (\<lambda>n. list_ex (\<lambda>p. ctor_name p = n \<and> provided_result p \<in> set started) main_provides) started_ctors"
  by code_simp+

text \<open>The program that \<open>main\<close> starts consists of the logger, the etcd client, the registry and a gRPC server
  with the generated methods: these are the only constructors whose result the invoked functions need, directly
  or through others, so the send service, the sender, the callback service and the scheduler never come to
  exist.\<close>

theorem main_requires:
  "{ctor_name p |p. p \<in> set main_provides \<and> required main_provides main_invokes (provided_result p)}
     = {''InitLogger'', ''InitEtcdClient'', ''InitRegistry'', ''grpcapi.NewNotificationServer'',
        ''InitNotificationGrpcServer'', ''InitApp''}"
proof -
  have "set main_invokes \<subseteq> set started"
    by (simp add: main_invokes_def WithLogger_params_def AppFxInvoke_def LoggerFxInvoke_def started_def)
  then have "required main_provides main_invokes k \<longleftrightarrow> k \<in> set started" for k
    using required_closed [OF _ _ started_closed] started_required by blast
  then have "{ctor_name p |p. p \<in> set main_provides \<and> required main_provides main_invokes (provided_result p)}
      = set started_ctors"
    using started_names by (auto simp: list_all_iff list_ex_iff)
  then show ?thesis by (simp add: started_ctors_def insert_commute)
qed

text \<open>Parameters that no constructor provides: a type that is only provided under a name or as an interface, or
  a name that went to the wrong parameter.\<close>

definition not_provided :: "fx_key list" where
  "not_provided = [(Ty ''*gcache.Cache'', None), (tBizConfCache, None), (Ty ''*redis.QuotaRedisCache'', None),
     (tDBs, Some (NameTag ''notification_sharding_strategy'')),
     (Ty ''*sendstrategy.DefaultSendStrategy'', Some (NameTag ''default_send_strategy'')),
     (tIdGenerator, Some (NameTag ''send_strategy_dispatcher'')), (Ty ''client.SmsClient'', None),
     (Ty ''channel.Channel'', None), (Ty ''dlock.Dclient'', Some (NameTag ''notification_sharding_strategy''))]"

definition not_buildable :: "fx_key list" where
  "not_buildable = [(tBizConfRepo, None), (tNotifRepo, None), (Ty ''dao.NotificationDAO'', None),
     (tSendStrategy, Some (NameTag ''send_strategy_dispatcher'')), (tSendService, None), (tSender, None),
     (tNotifScheduler, None)]"

lemma not_buildable_round:
  assumes "fx_laws ps built" "list_all (\<lambda>k. group_members ps k = None \<and> k \<noteq> (tLifecycle, None) \<and>
      list_all (\<lambda>p. provided_result p = k \<longrightarrow> list_ex (\<lambda>q. q \<in> set missing) (provided_params p)) ps) ks"
    and "\<forall>q \<in> set missing. \<not> built q"
  shows "\<forall>k \<in> set ks. \<not> built k"
  using not_built [OF assms(1) _ _ _ assms(3)] assms(2) by (auto simp: list_all_iff)

text \<open>Even where something required them, no send service, sender, scheduler, callback service,
  notification DAO, notification or configuration repository and no dispatcher of the send strategies could be
  built from the options of \<open>main\<close>: each misses a parameter that no constructor provides. The application
  itself can be built.\<close>

theorem services_not_buildable:
  assumes "fx_laws main_provides built"
  shows "built (tApp, None) \<and> \<not> built (tSendService, None) \<and> \<not> built (tSender, None) \<and>
     \<not> built (tNotifScheduler, None) \<and> \<not> built (tCallbackService, None) \<and> \<not> built (Ty ''dao.NotificationDAO'', None) \<and>
     \<not> built (tNotifRepo, None) \<and> \<not> built (tBizConfRepo, None) \<and>
     \<not> built (tSendStrategy, Some (NameTag ''send_strategy_dispatcher''))"
proof -
  have "\<forall>k \<in> set []. \<not> built k" by simp
  from not_buildable_round [OF assms _ this] have m: "\<forall>k \<in> set not_provided. \<not> built k"
    by this code_simp
  have n: "\<forall>k \<in> set not_buildable. \<not> built k"
    by (rule not_buildable_round [OF assms _ m]) code_simp
  have "\<forall>k \<in> set [(tCallbackService, None)]. \<not> built k"
    by (rule not_buildable_round [OF assms _ n]) code_simp
  with n have "\<forall>k \<in> set (not_buildable @ [(tCallbackService, None)]). \<not> built k" by auto
  moreover have "built (tApp, None)"
  proof -
    have "built (tLogger, None)" by (rule built_by [OF assms, of _ "[]"]) (code_simp, code_simp, simp)
    moreover have "built (tNotificationServer, None)" by (rule built_by [OF assms, of _ "[]"]) (code_simp, code_simp, simp)
    moreover have "built (tEtcd, None)" by (rule built_by [OF assms, of _ "[]"]) (code_simp, code_simp, simp)
    ultimately have k: "\<forall>q \<in> set [(tLogger, None), (tNotificationServer, None), (tEtcd, None)]. built q" by simp
    have "built (tServer, None)" by (rule built_by [OF assms _ _ k]) code_simp+
    moreover have "built (tRegistry, None)" by (rule built_by [OF assms _ _ k]) code_simp+
    ultimately have k': "\<forall>q \<in> set [(tLogger, None), (tServer, None), (tRegistry, None)]. built q" using k by simp
    show ?thesis by (rule built_by [OF assms _ _ k']) code_simp+
  qed
  ultimately show ?thesis by (simp add: not_buildable_def started_def)
qed

text \<open>What \<open>fx\<close> can build from the options of \<open>main\<close>.\<close>

definition main_buildable :: "fx_key list" where
  "main_buildable =
     [(tLifecycle, None), (tLogger, None), (tIdGenerator, None), (tCmdable, None), (Ty ''dlock.Dclient'', None),
      (tDB, None), (tDBs, None), (tStrategy, Some (NameTag ''notification_sharding_strategy'')),
      (tStrategy, Some (NameTag ''callback_log_sharding_strategy'')), (tEtcd, None),
      (tBizConfCache, Some (NameTag ''biz_conf_redis_cache'')),
      (Ty ''cache.QuotaCache'', Some (NameTag ''quota_redis_cache'')), (Ty ''dao.BizConfDAO'', None),
      (Ty ''dao.ChannelTplDAO'', None), (Ty ''dao.ProviderDAO'', None), (Ty ''dao.CallbackLogDAO'', None),
      (Ty ''repository.ChannelTplRepo'', None), (Ty ''repository.ProviderRepo'', None),
      (Ty ''*client.TencentSmsClient'', None), (tRegistry, None), (tServer, None), (tClients, None),
      (tNotificationServer, None), (tApp, None)]"

lemma services_not_buildable_witness:
  "built_from main_provides main_buildable (tApp, None) \<and>
     \<not> built_from main_provides main_buildable (tSendService, None)"
proof -
  have "fx_laws main_provides (built_from main_provides main_buildable)"
    by (rule fx_laws_fixpoint) code_simp+
  from services_not_buildable [OF this] show ?thesis by blast
qed

end
