(* ===== verification/QuotaRaces.thy ===== *)
theory QuotaRaces
  imports NotifRepoProps
begin

text \<open>
  Creations that run at the same time: the calls of \<open>repository/notification.go\<close> that charge the quota, call the
  DAO and give the quota back when it fails, one step per call, interleaved in any order. A step is the call
  itself, as the repository makes it; the first lemmas show that an operation of the repository that runs alone
  is a sequence of these steps.
\<close>

section \<open>Requests and their steps\<close>

datatype quota_request = OneRequest Notification | BatchRequest "Notification list"

fun requested :: "quota_request \<Rightarrow> Notification list" where
  "requested (OneRequest n) = [n]"
| "requested (BatchRequest ns) = ns"

fun charge :: "'w DefaultNotifRepo \<Rightarrow> quota_request \<Rightarrow> ('w, go_error option) io" where
  "charge d (OneRequest n) = QuotaRedisCache_Decr (dr_quotaCache d) (quotaParam_of n)"
| "charge d (BatchRequest ns) = QuotaRedisCache_BatchDecr (dr_quotaCache d) (buildQuotaParams ns)"

fun refund :: "'w DefaultNotifRepo \<Rightarrow> quota_request \<Rightarrow> ('w, go_error option) io" where
  "refund d (OneRequest n) = QuotaRedisCache_Incr (dr_quotaCache d) (quotaParam_of n)"
| "refund d (BatchRequest ns) = QuotaRedisCache_BatchIncr (dr_quotaCache d) (buildQuotaParams ns)"

text \<open>The call of the DAO, with its error only.\<close>

fun store_request ::
    "'w DefaultNotifRepo \<Rightarrow> (NotifEntity \<Rightarrow> ('w, NotifEntity \<times> go_error option) io)
      \<Rightarrow> (NotifEntity list \<Rightarrow> ('w, NotifEntity list \<times> go_error option) io) \<Rightarrow> quota_request \<Rightarrow> ('w, go_error option) io" where
  "store_request d f g (OneRequest n) = io_bind (f (toEntity (dr_json d) n)) (\<lambda>(_, err). io_return err)"
| "store_request d f g (BatchRequest ns) = io_bind (g (toEntities (dr_json d) ns)) (\<lambda>(_, err). io_return err)"

datatype quota_pc =
    Waiting quota_request
  | Charged quota_request
  | Unstored quota_request
  | Stored quota_request
  | Ended

inductive quota_step ::
    "'w DefaultNotifRepo \<Rightarrow> (NotifEntity \<Rightarrow> ('w, NotifEntity \<times> go_error option) io)
      \<Rightarrow> (NotifEntity list \<Rightarrow> ('w, NotifEntity list \<times> go_error option) io)
      \<Rightarrow> quota_pc list \<times> 'w \<Rightarrow> quota_pc list \<times> 'w \<Rightarrow> bool"
  for d f g
where
  arrives: "length (requested r) < 2 ^ 31 \<Longrightarrow> quota_step d f g (ps, w) (ps @ [Waiting r], w)"
| charged: "i < length ps \<Longrightarrow> ps ! i = Waiting r \<Longrightarrow> charge d r w = (Inr err, w') \<Longrightarrow>
     quota_step d f g (ps, w) (ps[i := if err = None then Charged r else Ended], w')"
| stored: "i < length ps \<Longrightarrow> ps ! i = Charged r \<Longrightarrow> store_request d f g r w = (Inr err, w') \<Longrightarrow>
     quota_step d f g (ps, w) (ps[i := if err = None then Stored r else Unstored r], w')"
| refunded: "i < length ps \<Longrightarrow> ps ! i = Unstored r \<Longrightarrow> refund d r w = (Inr err, w') \<Longrightarrow>
     quota_step d f g (ps, w) (ps[i := Ended], w')"

definition quota_reachable where
  "quota_reachable d f g w0 = (quota_step d f g)\<^sup>*\<^sup>* ([], w0)"

lemma quota_induct [consumes 1, case_names start step]:
  assumes "quota_reachable d f g w0 s" "P ([], w0)"
    and "\<And>s s'. quota_reachable d f g w0 s \<Longrightarrow> P s \<Longrightarrow> quota_step d f g s s' \<Longrightarrow> P s'"
  shows "P s"
  using assms(1) unfolding quota_reachable_def
  by (induction rule: rtranclp_induct) (use assms(2,3) in \<open>auto simp: quota_reachable_def\<close>)

text \<open>A request that is served alone, and the steps this takes.\<close>

definition serve where
  "serve d f g r =
     io_bind (charge d r) (\<lambda>err.
     if err \<noteq> None then io_return Ended
     else io_bind (store_request d f g r) (\<lambda>err.
       if err = None then io_return (Stored r)
       else io_bind (refund d r) (\<lambda>_. io_return Ended)))"

lemma last_charged:
  "charge d r w = (Inr err, w') \<Longrightarrow>
   quota_step d f g (ps @ [Waiting r], w) (ps @ [if err = None then Charged r else Ended], w')"
  using quota_step.charged [of "length ps" "ps @ [Waiting r]" r d w err w' f g] by simp

lemma last_stored:
  "store_request d f g r w = (Inr err, w') \<Longrightarrow>
   quota_step d f g (ps @ [Charged r], w) (ps @ [if err = None then Stored r else Unstored r], w')"
  using quota_step.stored [of "length ps" "ps @ [Charged r]" r d f g w err w'] by simp

lemma last_refunded:
  "refund d r w = (Inr err, w') \<Longrightarrow> quota_step d f g (ps @ [Unstored r], w) (ps @ [Ended], w')"
  using quota_step.refunded [of "length ps" "ps @ [Unstored r]" r d w err w' f g] by simp

lemma serve_steps:
  assumes "serve d f g r w = (Inr pc, w')" "length (requested r) < 2 ^ 31"
  shows "(quota_step d f g)\<^sup>*\<^sup>* (ps, w) (ps @ [pc], w')"
proof -
  let ?s = "quota_step d f g"
  from assms(1) obtain e1 w1 where c: "charge d r w = (Inr e1, w1)"
    "(if e1 \<noteq> None then io_return Ended else io_bind (store_request d f g r) (\<lambda>err.
       if err = None then io_return (Stored r) else io_bind (refund d r) (\<lambda>_. io_return Ended))) w1 = (Inr pc, w')"
    unfolding serve_def io_bind_eq_Inr by blast
  have s1: "?s\<^sup>*\<^sup>* (ps, w) (ps @ [if e1 = None then Charged r else Ended], w1)"
    by (rule rtranclp.rtrancl_into_rtrancl [OF r_into_rtranclp [of ?s, OF quota_step.arrives [OF assms(2)]] last_charged [OF c(1)]])
  show ?thesis
  proof (cases "e1 = None")
    case False
    with c(2) s1 show ?thesis by simp
  next
    case True
    with c(2) obtain e2 w2 where st: "store_request d f g r w1 = (Inr e2, w2)"
      "(if e2 = None then io_return (Stored r) else io_bind (refund d r) (\<lambda>_. io_return Ended)) w2 = (Inr pc, w')"
      by (auto simp: io_bind_eq_Inr)
    have s2: "?s\<^sup>*\<^sup>* (ps, w) (ps @ [if e2 = None then Stored r else Unstored r], w2)"
      by (rule rtranclp.rtrancl_into_rtrancl [of ?s, OF _ last_stored [OF st(1)]]) (use s1 True in simp)
    show ?thesis
    proof (cases "e2 = None")
      case True
      with st(2) s2 show ?thesis by simp
    next
      case False
      with st(2) obtain e3 where r: "refund d r w2 = (Inr e3, w')" "pc = Ended"
        by (auto simp: io_bind_eq_Inr)
      show ?thesis
        by (unfold r(2), rule rtranclp.rtrancl_into_rtrancl [of ?s, OF _ last_refunded [OF r(1)]])
          (use s2 False in simp)
    qed
  qed
qed

text \<open>The operations of the repository serve one request, and return an error exactly when its quota was not
  charged or, for a single notification, when it was not stored.\<close>

lemma create_serve:
  "DefaultNotifRepo_create d f n w = (Inr (res, err), w') \<Longrightarrow>
     \<exists>pc. serve d f g (OneRequest n) w = (Inr pc, w') \<and> (err = None \<longleftrightarrow> pc = Stored (OneRequest n))"
  by (auto simp: DefaultNotifRepo_create_def serve_def io_bind_def split: prod.splits sum.splits if_splits)

lemma batchCreate_serve:
  "DefaultNotifRepo_batchCreate d g ns w = (Inr (res, err), w') \<Longrightarrow> ns \<noteq> [] \<Longrightarrow>
     \<exists>pc. serve d f g (BatchRequest ns) w = (Inr pc, w') \<and> (pc = Stored (BatchRequest ns) \<longrightarrow> err = None)"
  by (auto simp: DefaultNotifRepo_batchCreate_def serve_def io_bind_def Let_def split: prod.splits sum.splits if_splits)

section \<open>What the calls do to the counters\<close>

text \<open>Whatever the calls answer: a call that reports an error may have run or not.\<close>

lemma Decr_bound:
  assumes "redis_laws rd cnt" "QuotaRedisCache_Decr rd p w = (Inr err, w')" "0 \<le> sint (qp_Quota p)"
  shows "cnt w' k \<le> cnt w k \<and>
     (err = None \<longrightarrow> sint (qp_Quota p) \<le> cnt w (param_key p) \<and>
        cnt w' k = cnt w k - (if k = param_key p then sint (qp_Quota p) else 0))"
proof -
  let ?q = "sint (qp_Quota p)"
  note decr = redis_DECRBY [OF assms(1), of "param_key p" ?q w]
  show ?thesis
  proof (cases "rd_DecrBy rd (param_key p) ?q w")
    case (Pair r w1)
    show ?thesis
    proof (cases r)
      case (Inl e)
      with Pair assms(1) have "w1 = w \<or> w1 = snd (rd_DECRBY rd (param_key p) ?q w)" by (simp add: redis_laws_def)
      with Inl Pair assms(2,3) decr show ?thesis
        by (auto simp: QuotaRedisCache_Decr_def simp flip: param_key_def)
    next
      case (Inr v)
      with Pair redis_DecrBy_Inr [OF assms(1)] have "rd_DECRBY rd (param_key p) ?q w = (v, w1)" by blast
      with Inr Pair assms(2,3) decr show ?thesis
        by (auto simp: QuotaRedisCache_Decr_def simp flip: param_key_def split: if_splits)
    qed
  qed
qed

text \<open>A call of a script that answers has run it, one that does not may have.\<close>

lemma Eval_cases:
  assumes "redis_laws rd cnt" "rd_Eval rd s w = (r, w')"
  obtains v where "r = Inr v" "s w = (v, w')" | e where "r = Inl e" "w' = w \<or> w' = snd (s w)"
  using assms by (cases r) (auto simp: redis_laws_def)

lemma Incr_bound:
  assumes "redis_laws rd cnt" "QuotaRedisCache_Incr rd p w = (Inr err, w')" "0 \<le> sint (qp_Quota p)"
  shows "cnt w' k \<le> (if k = param_key p then max 0 (cnt w k) + sint (qp_Quota p) else cnt w k)"
proof -
  let ?s = "quotaIncrLua rd (param_key p) (sint (qp_Quota p))"
  have run: "cnt (snd (?s w)) k \<le> (if k = param_key p then max 0 (cnt w k) + sint (qp_Quota p) else cnt w k)"
    using redis_INCRBY [OF assms(1), of "param_key p" "sint (qp_Quota p)" w]
    by (auto simp: quotaIncrLua_def redis_GET [OF assms(1)] redis_SET [OF assms(1)] split: prod.splits)
  obtain r where e: "rd_Eval rd ?s w = (r, w')"
    using assms(2) by (auto simp: QuotaRedisCache_Incr_def eval_error_def split: prod.splits sum.splits simp flip: param_key_def)
  show ?thesis
    by (rule Eval_cases [OF assms(1) e]) (use run assms(3) in auto)
qed

lemma BatchIncr_loop_bound:
  assumes "redis_laws rd cnt" "\<forall>(k, v) \<in> set kas. 0 \<le> v"
  shows "cnt (quotaBatchIncr_loop rd kas w) k
     \<le> (if k \<in> fst ` set kas then max 0 (cnt w k) + amount_of kas k else cnt w k)"
  using assms(2)
proof (induction kas arbitrary: w)
  case (Cons ka kas)
  obtain k' v where ka: "ka = (k', v)" by (cases ka)
  let ?w = "if lua_current rd k' w < 0 then rd_SET rd k' v w else snd (rd_INCRBY rd k' v w)"
  have c: "cnt ?w = (cnt w)(k' := max 0 (cnt w k') + v)"
    using redis_INCRBY [OF assms(1), of k' v w] redis_SET [OF assms(1), of k' v w]
    by (auto simp: redis_GET [OF assms(1)] fun_eq_iff)
  from Cons.IH [of ?w] Cons.prems ka
  have IH: "cnt (quotaBatchIncr_loop rd kas ?w) k
      \<le> (if k \<in> fst ` set kas then max 0 (cnt ?w k) + amount_of kas k else cnt ?w k)" by auto
  have "0 \<le> v" using Cons.prems ka by simp
  with IH show ?case unfolding c by (auto simp: ka amount_of_notin split: if_splits)
qed simp

lemma BatchIncr_bound:
  assumes "redis_laws rd cnt" "QuotaRedisCache_BatchIncr rd ps w = (Inr err, w')"
    and "\<forall>p \<in> set ps. 0 \<le> sint (qp_Quota p)"
  shows "cnt w' k \<le> (if k \<in> param_key ` set ps then max 0 (cnt w k) + amount_of (key_amounts ps) k else cnt w k)"
proof (cases "ps = []")
  case True
  with assms(2) show ?thesis by (simp add: QuotaRedisCache_BatchIncr_def)
next
  case False
  obtain keys args where ka: "redisKeysAndArgs ps = (keys, args)" by fastforce
  let ?s = "quotaBatchIncrLua rd keys args"
  have pos: "\<forall>(k, v) \<in> set (key_amounts ps). 0 \<le> v" using assms(3) by (auto simp: key_amounts_def)
  have keys: "fst ` set (key_amounts ps) = param_key ` set ps" by (force simp: key_amounts_def)
  have "0 \<le> amount_of (key_amounts ps) k"
    using pos by (fastforce simp: amount_of_def intro!: sum_list_nonneg)
  moreover have "cnt (snd (?s w)) k
      \<le> (if k \<in> param_key ` set ps then max 0 (cnt w k) + amount_of (key_amounts ps) k else cnt w k)"
    using BatchIncr_loop_bound [OF assms(1) pos, of w k]
    by (simp add: quotaBatchIncrLua_def zip_redisKeysAndArgs [OF ka] keys)
  moreover obtain r where e: "rd_Eval rd ?s w = (r, w')"
    using assms(2) False ka by (auto simp: QuotaRedisCache_BatchIncr_def eval_error_def split: prod.splits sum.splits)
  ultimately show ?thesis
    by (cases rule: Eval_cases [OF assms(1) e]) auto
qed

lemma BatchDecr_bound:
  assumes "redis_laws rd cnt" "QuotaRedisCache_BatchDecr rd ps w = (Inr err, w')"
    and "\<forall>p \<in> set ps. 0 \<le> sint (qp_Quota p)"
  shows "cnt w' k \<le> cnt w k \<and>
     (err = None \<longrightarrow> (\<forall>p \<in> set ps. sint (qp_Quota p) \<le> cnt w (param_key p)) \<and>
        cnt w' k = cnt w k - amount_of (key_amounts ps) k)"
proof (cases "ps = []")
  case True
  with assms(2) show ?thesis by (simp add: QuotaRedisCache_BatchDecr_def key_amounts_def)
next
  case False
  obtain keys args where ka: "redisKeysAndArgs ps = (keys, args)" by fastforce
  note kas = zip_redisKeysAndArgs [OF ka]
  let ?s = "quotaBatchDecrLua rd keys args"
  have nn: "0 \<le> amount_of (key_amounts ps) k"
    using assms(3) by (auto simp: amount_of_def key_amounts_def intro!: sum_list_nonneg)
  have run: "cnt (snd (?s w)) k \<le> cnt w k"
    using BatchDecr_loop [OF assms(1), of "key_amounts ps" w] nn
    by (auto simp: quotaBatchDecrLua_def kas split: option.splits)
  obtain r where e: "rd_Eval rd ?s w = (r, w')"
    using assms(2) False ka by (auto simp: QuotaRedisCache_BatchDecr_def split: prod.splits sum.splits lua_value.splits)
  show ?thesis
  proof (cases rule: Eval_cases [OF assms(1) e])
    case (2 er)
    with assms(2) False ka e run show ?thesis by (auto simp: QuotaRedisCache_BatchDecr_def)
  next
    case (1 v)
    show ?thesis
    proof (cases "quotaBatchDecr_check rd (key_amounts ps) w")
      case None
      then have "\<forall>p \<in> set ps. sint (qp_Quota p) \<le> cnt w (param_key p)"
        using BatchDecr_check_None [OF assms(1), of "key_amounts ps" w] by (auto simp: key_amounts_def)
      moreover have "w' = quotaBatchDecr_loop rd (key_amounts ps) w"
        using 1 None by (simp add: quotaBatchDecrLua_def kas)
      ultimately show ?thesis using BatchDecr_loop [OF assms(1), of "key_amounts ps" w] nn by simp
    next
      case (Some key)
      then obtain q where "(key, q) \<in> set (key_amounts ps)"
        using BatchDecr_check_Some [OF assms(1)] by blast
      then have "key \<noteq> []" by (auto simp: key_amounts_def param_key_def redisKey_nonempty)
      moreover have "v = LuaString key" "w' = w" using 1 Some by (simp_all add: quotaBatchDecrLua_def kas)
      ultimately show ?thesis
        using assms(2) False ka e 1 by (auto simp: QuotaRedisCache_BatchDecr_def)
    qed
  qed
qed

lemma request_demand:
  assumes "length ns < 2 ^ 31"
  shows "\<forall>p \<in> set (buildQuotaParams ns). 0 \<le> sint (qp_Quota p)"
    and "amount_of (key_amounts (buildQuotaParams ns)) = demand ns"
    and "k \<in> param_key ` set (buildQuotaParams ns) \<longleftrightarrow> 0 < demand ns k"
proof -
  show "\<forall>p \<in> set (buildQuotaParams ns). 0 \<le> sint (qp_Quota p)"
    using buildQuotaParams_spec(2) [OF assms] by simp
  show "amount_of (key_amounts (buildQuotaParams ns)) = demand ns" by (rule amount_demand [OF assms])
  have "0 < demand ns k \<longleftrightarrow> (\<exists>n \<in> set ns. notif_key n = k)"
    by (auto simp: demand_def filter_empty_conv)
  also have "\<dots> \<longleftrightarrow> k \<in> param_key ` set (buildQuotaParams ns)"
  proof
    assume "\<exists>n \<in> set ns. notif_key n = k"
    then show "k \<in> param_key ` set (buildQuotaParams ns)"
      using buildQuotaParams_spec(3) [OF assms] by (metis image_eqI)
  next
    assume "k \<in> param_key ` set (buildQuotaParams ns)"
    then show "\<exists>n \<in> set ns. notif_key n = k" using buildQuotaParams_has_source by blast
  qed
  finally show "k \<in> param_key ` set (buildQuotaParams ns) \<longleftrightarrow> 0 < demand ns k" ..
qed

lemma charge_bound:
  assumes "redis_laws (dr_quotaCache d) cnt" "charge d r w = (Inr err, w')" "length (requested r) < 2 ^ 31"
  shows "cnt w' k \<le> cnt w k \<and>
     (err = None \<longrightarrow> demand (requested r) k \<le> max 0 (cnt w k) \<and> cnt w' k = cnt w k - demand (requested r) k)"
proof (cases r)
  case (OneRequest n)
  with assms(2) have "QuotaRedisCache_Decr (dr_quotaCache d) (quotaParam_of n) w = (Inr err, w')" by simp
  from Decr_bound [OF assms(1) this, of k] OneRequest show ?thesis by (auto simp: sint_defaultQuota)
next
  case (BatchRequest ns)
  with assms(3) have len: "length ns < 2 ^ 31" by simp
  note req = request_demand [OF len]
  from BatchRequest assms(2) have "QuotaRedisCache_BatchDecr (dr_quotaCache d) (buildQuotaParams ns) w = (Inr err, w')"
    by simp
  note b = BatchDecr_bound [OF assms(1) this req(1), of k]
  have "demand ns k \<le> max 0 (cnt w k)" if "err = None"
  proof (cases "0 < demand ns k")
    case True
    then obtain p where "p \<in> set (buildQuotaParams ns)" "k = param_key p" using req(3) by blast
    with b that buildQuotaParams_spec(2) [OF len] show ?thesis by fastforce
  qed simp
  with b BatchRequest show ?thesis by (simp add: req(2))
qed

lemma refund_bound:
  assumes "redis_laws (dr_quotaCache d) cnt" "refund d r w = (Inr err, w')" "length (requested r) < 2 ^ 31"
  shows "cnt w' k \<le> (if 0 < demand (requested r) k then max 0 (cnt w k) + demand (requested r) k else cnt w k)"
proof (cases r)
  case (OneRequest n)
  with assms(2) have "QuotaRedisCache_Incr (dr_quotaCache d) (quotaParam_of n) w = (Inr err, w')" by simp
  from Incr_bound [OF assms(1) this, of k] OneRequest show ?thesis by (auto simp: sint_defaultQuota)
next
  case (BatchRequest ns)
  with assms(3) have len: "length ns < 2 ^ 31" by simp
  from BatchRequest assms(2) have "QuotaRedisCache_BatchIncr (dr_quotaCache d) (buildQuotaParams ns) w = (Inr err, w')"
    by simp
  from BatchIncr_bound [OF assms(1) this request_demand(1) [OF len], of k] BatchRequest show ?thesis
    by (auto simp: request_demand(2) [OF len] request_demand(3) [OF len] split: if_splits)
qed

section \<open>The quota under any interleaving\<close>

text \<open>What a request holds of the quota: its demand, from the charge until it is given back, for good when it is
  stored.\<close>

fun pc_held :: "quota_pc \<Rightarrow> string \<Rightarrow> int" where
  "pc_held (Charged r) k = demand (requested r) k"
| "pc_held (Unstored r) k = demand (requested r) k"
| "pc_held (Stored r) k = demand (requested r) k"
| "pc_held _ k = 0"

fun pc_ok :: "quota_pc \<Rightarrow> bool" where
  "pc_ok (Charged r) = (length (requested r) < 2 ^ 31)"
| "pc_ok (Unstored r) = (length (requested r) < 2 ^ 31)"
| "pc_ok (Stored r) = (length (requested r) < 2 ^ 31)"
| "pc_ok (Waiting r) = (length (requested r) < 2 ^ 31)"
| "pc_ok Ended = True"

definition quota_held :: "quota_pc list \<Rightarrow> string \<Rightarrow> int" where
  "quota_held ps k = sum_list (map (\<lambda>pc. pc_held pc k) ps)"

lemma quota_held_append [simp]: "quota_held (ps @ [pc]) k = quota_held ps k + pc_held pc k"
  by (simp add: quota_held_def)

lemma quota_held_update:
  "i < length ps \<Longrightarrow> quota_held (ps[i := pc]) k = quota_held ps k - pc_held (ps ! i) k + pc_held pc k"
proof (induction ps arbitrary: i)
  case (Cons p ps)
  then show ?case by (cases i) (simp_all add: quota_held_def)
qed simp

definition keeps_quota :: "('w \<Rightarrow> string \<Rightarrow> int) \<Rightarrow> ('a \<Rightarrow> ('w, 'b) io) \<Rightarrow> bool" where
  "keeps_quota cnt f \<longleftrightarrow> (\<forall>x w. cnt (snd (f x w)) = cnt w)"

lemma store_keeps:
  assumes "keeps_quota cnt f" "keeps_quota cnt g" "store_request d f g r w = (Inr err, w')"
  shows "cnt w' = cnt w"
proof (cases r)
  case (OneRequest n)
  with assms(3) obtain e where "f (toEntity (dr_json d) n) w = (Inr (e, err), w')" by (auto simp: io_bind_eq_Inr)
  with assms(1) show ?thesis unfolding keeps_quota_def by (metis snd_conv)
next
  case (BatchRequest ns)
  with assms(3) obtain e where "g (toEntities (dr_json d) ns) w = (Inr (e, err), w')" by (auto simp: io_bind_eq_Inr)
  with assms(2) show ?thesis unfolding keeps_quota_def by (metis snd_conv)
qed

lemma list_all_update: "list_all P xs \<Longrightarrow> P x \<Longrightarrow> list_all P (xs[i := x])"
  by (auto simp: list_all_iff dest: set_update_subset_insert [THEN subsetD])

definition quota_inv :: "('w \<Rightarrow> string \<Rightarrow> int) \<Rightarrow> (string \<Rightarrow> int) \<Rightarrow> quota_pc list \<times> 'w \<Rightarrow> bool" where
  "quota_inv cnt q s \<longleftrightarrow> list_all pc_ok (fst s) \<and>
     (\<forall>k. quota_held (fst s) k \<le> q k \<and> cnt (snd s) k + quota_held (fst s) k \<le> q k)"

lemma quota_inv_step:
  assumes "redis_laws (dr_quotaCache d) cnt" "keeps_quota cnt f" "keeps_quota cnt g"
    and "quota_inv cnt q s" "quota_step d f g s s'"
  shows "quota_inv cnt q s'"
  using assms(5)
proof cases
  case (arrives r ps w)
  with assms(4) show ?thesis by (simp add: quota_inv_def)
next
  case (charged i ps r w err w')
  then have ok: "length (requested r) < 2 ^ 31"
    using assms(4) unfolding quota_inv_def list_all_length by (metis fst_conv pc_ok.simps(4))
  have "quota_held ps k + (if err = None then demand (requested r) k else 0) \<le> q k \<and>
      cnt w' k + (quota_held ps k + (if err = None then demand (requested r) k else 0)) \<le> q k" for k
    using charge_bound [OF assms(1) charged(5) ok, of k] assms(4) charged(1) demand_nonneg [of "requested r" k]
    by (cases err) (auto simp: quota_inv_def max_def split: if_splits dest: spec [of _ k])
  with charged assms(4) ok show ?thesis
    by (auto simp: quota_inv_def quota_held_update list_all_update)
next
  case (stored i ps r w err w')
  then have ok: "length (requested r) < 2 ^ 31"
    using assms(4) unfolding quota_inv_def list_all_length by (metis fst_conv pc_ok.simps(1))
  have "cnt w' = cnt w" by (rule store_keeps [OF assms(2,3) stored(5)])
  with stored assms(4) ok show ?thesis
    by (cases err) (auto simp: quota_inv_def quota_held_update list_all_update)
next
  case (refunded i ps r w err w')
  then have ok: "length (requested r) < 2 ^ 31"
    using assms(4) unfolding quota_inv_def list_all_length by (metis fst_conv pc_ok.simps(2))
  have "quota_held ps k - demand (requested r) k \<le> q k \<and>
      cnt w' k + (quota_held ps k - demand (requested r) k) \<le> q k" for k
  proof -
    have "quota_held ps k \<le> q k" "cnt w k + quota_held ps k \<le> q k"
      using assms(4) refunded(1) by (simp_all add: quota_inv_def)
    with refund_bound [OF assms(1) refunded(5) ok, of k] demand_nonneg [of "requested r" k] show ?thesis
      by (auto simp: max_def simp del: demand_nonneg split: if_splits)
  qed
  with refunded assms(4) show ?thesis
    by (auto simp: quota_inv_def quota_held_update list_all_update)
qed

text \<open>C14. The quota is never oversold: however many creations and batches run at the same time, in whatever
  order their calls interleave and whatever of the calls of Redis and of the DAO fail, the notifications of a
  business and channel that are stored or on their way never exceed the quota there was, nor the counter the
  quota that is left.\<close>

theorem quota_never_oversold:
  assumes "redis_laws (dr_quotaCache d) cnt" "keeps_quota cnt f" "keeps_quota cnt g"
    and "quota_reachable d f g w0 (ps, w)" "\<forall>k. 0 \<le> cnt w0 k"
  shows "quota_held ps k \<le> cnt w0 k \<and> cnt w k \<le> cnt w0 k - quota_held ps k"
proof -
  from assms(4) have "quota_inv cnt (cnt w0) (ps, w)"
  proof (induction rule: quota_induct)
    case start
    with assms(5) show ?case by (simp add: quota_inv_def quota_held_def)
  next
    case (step s s')
    from quota_inv_step [OF assms(1-3) step(3,2)] show ?case .
  qed
  then show ?thesis by (auto simp: quota_inv_def add_le_imp_le_diff dest: spec [of _ k])
qed

text \<open>A batch of two that is stored while the quota is three.\<close>

lemma quota_never_oversold_witness:
  "\<exists>w. quota_reachable \<lparr>dr_notifDAO = sample_dao None, dr_quotaCache = mem_redis, dr_json = sample_json\<rparr>
       (\<lambda>e. io_return (e, None)) (\<lambda>es. io_return (es, None)) (\<lambda>_. 3)
       ([Stored (BatchRequest [zero_Notification, zero_Notification])], w) \<and>
     w (notif_key zero_Notification) \<le> 3 - quota_held [Stored (BatchRequest [zero_Notification, zero_Notification])]
       (notif_key zero_Notification)"
proof -
  let ?d = "\<lparr>dr_notifDAO = sample_dao None, dr_quotaCache = mem_redis, dr_json = sample_json\<rparr>"
  let ?f = "\<lambda>e :: NotifEntity. io_return (e, None)" and ?g = "\<lambda>es :: NotifEntity list. io_return (es, None)"
  let ?ns = "[zero_Notification, zero_Notification]" and ?w0 = "\<lambda>_ :: string. 3 :: int"
  have len: "length ?ns < 2 ^ 31" by simp
  have "\<forall>n \<in> set ?ns. demand ?ns (notif_key n) \<le> ?w0 (notif_key n)" by simp
  moreover obtain r w where "QuotaRedisCache_BatchDecr mem_redis (buildQuotaParams ?ns) ?w0 = (Inr r, w)"
    "if \<forall>n \<in> set ?ns. demand ?ns (notif_key n) \<le> ?w0 (notif_key n)
     then r = None \<and> w = (\<lambda>k. ?w0 k - demand ?ns k) else r \<noteq> None \<and> w = ?w0"
    by (rule BatchDecr_demand [OF mem_redis_laws len])
  ultimately have "QuotaRedisCache_BatchDecr mem_redis (buildQuotaParams ?ns) ?w0 = (Inr None, w)" by simp
  then have "serve ?d ?f ?g (BatchRequest ?ns) ?w0 = (Inr (Stored (BatchRequest ?ns)), w)"
    by (simp add: serve_def)
  then have r: "quota_reachable ?d ?f ?g ?w0 ([Stored (BatchRequest ?ns)], w)"
    using serve_steps [of ?d ?f ?g "BatchRequest ?ns" ?w0 _ w "[]"] by (simp add: quota_reachable_def)
  have keeps: "keeps_quota (\<lambda>w. w) ?f" "keeps_quota (\<lambda>w. w) ?g" by (simp_all add: keeps_quota_def)
  have "redis_laws (dr_quotaCache ?d) (\<lambda>w. w)" using mem_redis_laws(1) by simp
  from quota_never_oversold [OF this keeps r] r show ?thesis by (intro exI [of _ w] conjI) simp_all
qed

section \<open>Batches only\<close>

fun batch_pc :: "quota_pc \<Rightarrow> bool" where
  "batch_pc (Waiting (OneRequest n)) = False"
| "batch_pc (Charged (OneRequest n)) = False"
| "batch_pc (Unstored (OneRequest n)) = False"
| "batch_pc (Stored (OneRequest n)) = False"
| "batch_pc _ = True"

definition batches_reachable where
  "batches_reachable d f g w0 = (\<lambda>s s'. quota_step d f g s s' \<and> list_all batch_pc (fst s'))\<^sup>*\<^sup>* ([], w0)"

definition batch_inv :: "('w \<Rightarrow> string \<Rightarrow> int) \<Rightarrow> (string \<Rightarrow> int) \<Rightarrow> quota_pc list \<times> 'w \<Rightarrow> bool" where
  "batch_inv cnt q s \<longleftrightarrow> list_all pc_ok (fst s) \<and> list_all batch_pc (fst s) \<and>
     (\<forall>k. cnt (snd s) k + quota_held (fst s) k = q k \<and> 0 \<le> cnt (snd s) k)"

lemma batch_request:
  assumes "list_all pc_ok ps" "list_all batch_pc ps" "i < length ps" "ps ! i \<in> {Waiting r, Charged r, Unstored r, Stored r}"
  obtains ns where "r = BatchRequest ns" "length ns < 2 ^ 31"
proof -
  have "pc_ok (ps ! i)" "batch_pc (ps ! i)" using assms(1-3) by (simp_all add: list_all_length)
  with assms(4) that show ?thesis by (cases r) auto
qed

lemma batch_inv_step:
  assumes "redis_laws (dr_quotaCache d) cnt" "redis_up (dr_quotaCache d)" "keeps_quota cnt f" "keeps_quota cnt g"
    and "batch_inv cnt q s" "quota_step d f g s s'" "list_all batch_pc (fst s')"
  shows "batch_inv cnt q s'"
  using assms(6)
proof cases
  case (arrives r ps w)
  with assms(5,7) show ?thesis by (simp add: batch_inv_def)
next
  case (charged i ps r w err w')
  with assms(5) obtain ns where ns: "r = BatchRequest ns" "length ns < 2 ^ 31"
    using batch_request [of ps i r] by (auto simp: batch_inv_def)
  obtain r' w1 where "QuotaRedisCache_BatchDecr (dr_quotaCache d) (buildQuotaParams ns) w = (Inr r', w1)"
    "if \<forall>n \<in> set ns. demand ns (notif_key n) \<le> cnt w (notif_key n)
     then r' = None \<and> cnt w1 = (\<lambda>k. cnt w k - demand ns k) else r' \<noteq> None \<and> cnt w1 = cnt w"
    by (rule BatchDecr_demand [OF assms(1,2) ns(2)])
  with charged(5) ns have r: "if \<forall>n \<in> set ns. demand ns (notif_key n) \<le> cnt w (notif_key n)
     then err = None \<and> cnt w' = (\<lambda>k. cnt w k - demand ns k) else err \<noteq> None \<and> cnt w' = cnt w" by (auto split: if_splits)
  have "0 \<le> cnt w k - demand ns k" if "err = None" for k
  proof (cases "0 < demand ns k")
    case True
    then obtain n where "n \<in> set ns" "notif_key n = k" by (auto simp: demand_def filter_empty_conv)
    with r that show ?thesis by (auto split: if_splits)
  next
    case False
    with assms(5) charged(1) show ?thesis using demand_nonneg [of ns k] by (simp add: batch_inv_def)
  qed
  moreover have "cnt w' = (\<lambda>k. cnt w k - (if err = None then demand ns k else 0))"
    using r by (cases err) (auto simp: fun_eq_iff split: if_splits)
  ultimately show ?thesis using charged assms(5,7) ns
    by (cases err) (auto simp: batch_inv_def quota_held_update list_all_update)
next
  case (stored i ps r w err w')
  have "cnt w' = cnt w" by (rule store_keeps [OF assms(3,4) stored(5)])
  moreover obtain ns where "r = BatchRequest ns" "length ns < 2 ^ 31"
    using stored assms(5) batch_request [of ps i r] by (auto simp: batch_inv_def)
  ultimately show ?thesis using stored assms(5,7)
    by (cases err) (auto simp: batch_inv_def quota_held_update list_all_update)
next
  case (refunded i ps r w err w')
  with assms(5) obtain ns where ns: "r = BatchRequest ns" "length ns < 2 ^ 31"
    using batch_request [of ps i r] by (auto simp: batch_inv_def)
  have "\<forall>p \<in> set (buildQuotaParams ns). 0 \<le> sint (qp_Quota p) \<and> 0 \<le> cnt w (param_key p)"
    using request_demand(1) [OF ns(2)] assms(5) refunded(1) by (simp add: batch_inv_def)
  from BatchIncr_result [OF assms(1,2) this] refunded(5) ns have "cnt w' = (\<lambda>k. cnt w k + demand ns k)"
    by (auto simp: request_demand(2))
  with refunded assms(5,7) ns show ?thesis
    by (auto simp: batch_inv_def quota_held_update list_all_update)
qed

text \<open>Batches lose nothing of the quota: while only batches run and Redis answers, the counter and what the
  stored and running batches hold add up to the quota there was at every moment, and the counter is never
  negative.\<close>

theorem batches_conserve_quota:
  assumes "redis_laws (dr_quotaCache d) cnt" "redis_up (dr_quotaCache d)" "keeps_quota cnt f" "keeps_quota cnt g"
    and "batches_reachable d f g w0 (ps, w)" "\<forall>k. 0 \<le> cnt w0 k"
  shows "cnt w k + quota_held ps k = cnt w0 k \<and> 0 \<le> cnt w k"
proof -
  from assms(5) have "batch_inv cnt (cnt w0) (ps, w)"
    unfolding batches_reachable_def
  proof (induction rule: rtranclp_induct)
    case base
    with assms(6) show ?case by (simp add: batch_inv_def quota_held_def)
  next
    case (step s s')
    with batch_inv_step [OF assms(1-4), of "cnt w0" s s'] show ?case by blast
  qed
  then show ?thesis by (simp add: batch_inv_def)
qed

lemma batches_conserve_quota_witness:
  "\<exists>w. batches_reachable \<lparr>dr_notifDAO = sample_dao None, dr_quotaCache = mem_redis, dr_json = sample_json\<rparr>
       (\<lambda>e. io_return (e, None)) (\<lambda>es. io_return (es, None)) (\<lambda>_. 3) ([Waiting (BatchRequest [zero_Notification])], w) \<and>
     w (notif_key zero_Notification) = 3"
proof -
  let ?d = "\<lparr>dr_notifDAO = sample_dao None, dr_quotaCache = mem_redis, dr_json = sample_json\<rparr>"
  let ?f = "\<lambda>e :: NotifEntity. io_return (e, None)" and ?g = "\<lambda>es :: NotifEntity list. io_return (es, None)"
  let ?w0 = "\<lambda>_ :: string. 3 :: int"
  have "quota_step ?d ?f ?g ([], ?w0) ([] @ [Waiting (BatchRequest [zero_Notification])], ?w0)"
    by (rule quota_step.arrives) simp
  then have r: "batches_reachable ?d ?f ?g ?w0 ([Waiting (BatchRequest [zero_Notification])], ?w0)"
    unfolding batches_reachable_def by (intro r_into_rtranclp) simp
  have keeps: "keeps_quota (\<lambda>w. w) ?f" "keeps_quota (\<lambda>w. w) ?g" by (simp_all add: keeps_quota_def)
  have laws: "redis_laws (dr_quotaCache ?d) (\<lambda>w. w)" "redis_up (dr_quotaCache ?d)" using mem_redis_laws by simp_all
  from batches_conserve_quota [OF laws keeps r, of "notif_key zero_Notification"] r show ?thesis
    by (intro exI [of _ ?w0] conjI) (simp_all add: quota_held_def)
qed

end
