(* ===== verification/EndToEnd.thy ===== *)
theory EndToEnd
  imports SendService NotifDaoBatch
begin

text \<open>
  The way of a notification through the whole program: the send service over the dispatcher, the
  default send strategy, the notification repository with its quota, and the DAO over the sharded
  databases, composed as the constructors compose them. \<open>send_world\<close> collects what is assumed of the
  libraries: the laws of the database and of Redis, and that each of them leaves alone what the others
  keep. Two end-to-end statements follow: what \<open>AsyncSend\<close> has stored and charged when it returns, and
  which rows the ids returned by \<open>BatchAsyncSend\<close> name.
\<close>

section \<open>The world of the send path\<close>

definition leaves :: "('w \<Rightarrow> 'v) \<Rightarrow> ('w \<Rightarrow> 'a \<times> 'w) \<Rightarrow> bool" where
  "leaves view f \<longleftrightarrow> (\<forall>w. view (snd (f w)) = view w)"

text \<open>Redis commands that leave \<open>view\<close> alone, and database statements that do: a transaction does if
  its closure does.\<close>

definition redis_leaves :: "('w \<Rightarrow> 'v) \<Rightarrow> 'w redis \<Rightarrow> bool" where
  "redis_leaves view rd \<longleftrightarrow> (\<forall>k v w. view (rd_SET rd k v w) = view w) \<and>
     (\<forall>k v. leaves view (rd_INCRBY rd k v)) \<and> (\<forall>k v. leaves view (rd_DECRBY rd k v))"

definition gorm_leaves :: "('w \<Rightarrow> 'v) \<Rightarrow> 'w gorm \<Rightarrow> bool" where
  "gorm_leaves view gd \<longleftrightarrow> (\<forall>db t n. leaves view (g_Create gd db t n)) \<and>
     (\<forall>db t c. leaves view (g_CreateCb gd db t c)) \<and> (\<forall>db ss. leaves view (g_ExecInserts gd db ss)) \<and>
     (\<forall>db f n. (\<forall>m. leaves view (f m)) \<longrightarrow> leaves view (g_Transaction gd db f n))"

text \<open>A configuration repository that answers and leaves \<open>view\<close> alone.\<close>

definition conf_reads :: "('w \<Rightarrow> 'v) \<Rightarrow> 'w BizConfRepo \<Rightarrow> bool" where
  "conf_reads view conf \<longleftrightarrow> (\<forall>b w. \<exists>r w'. bcr_GetById conf b w = (Inr r, w') \<and> view w' = view w)"

definition send_world ::
    "'w env \<Rightarrow> 'w gorm \<Rightarrow> 'w redis \<Rightarrow> 'w BizConfRepo \<Rightarrow> ('w \<Rightarrow> NotifEntity tables)
      \<Rightarrow> ('w \<Rightarrow> CallbackLogEntity tables) \<Rightarrow> ('w \<Rightarrow> string \<Rightarrow> int) \<Rightarrow> bool" where
  "send_world env gd rd conf rows cbs cnt \<longleftrightarrow>
     gorm_laws env gd rows cbs \<and> redis_laws rd cnt \<and> redis_up rd \<and> generator_laws env \<and>
     (\<forall>g w. cnt (ev_set_gen env g w) = cnt w) \<and> gorm_leaves cnt gd \<and>
     redis_leaves (\<lambda>w. (rows w, cbs w, ev_gen env w)) rd \<and>
     conf_reads (\<lambda>w. (rows w, cbs w, cnt w, ev_gen env w)) conf"

lemma leavesD: "leaves view f \<Longrightarrow> f w = (r, w') \<Longrightarrow> view w' = view w"
  unfolding leaves_def by (metis snd_conv)

lemma Eval_leaves:
  assumes "redis_laws rd cnt" "leaves view s" "rd_Eval rd s w = (r, w')"
  shows "view w' = view w"
proof (cases r)
  case (Inl e)
  with assms(1,3) have "w' = w \<or> w' = snd (s w)" unfolding redis_laws_def by blast
  with assms(2) show ?thesis by (auto simp: leaves_def)
next
  case (Inr v)
  with redis_Eval_Inr [OF assms(1)] assms(3) have "s w = (v, w')" by blast
  with assms(2) show ?thesis by (rule leavesD)
qed

lemma quotaIncrLua_leaves: "redis_leaves view rd \<Longrightarrow> leaves view (quotaIncrLua rd k v)"
  by (auto simp: redis_leaves_def leaves_def quotaIncrLua_def split: prod.splits) (metis snd_conv)

lemma quotaBatchIncr_loop_leaves: "redis_leaves view rd \<Longrightarrow> view (quotaBatchIncr_loop rd kas w) = view w"
  by (induction rd kas w rule: quotaBatchIncr_loop.induct) (simp_all add: redis_leaves_def leaves_def)

lemma quotaBatchDecr_loop_leaves: "redis_leaves view rd \<Longrightarrow> view (quotaBatchDecr_loop rd kas w) = view w"
  by (induction rd kas w rule: quotaBatchDecr_loop.induct) (simp_all add: redis_leaves_def leaves_def)

lemma quota_calls_leave:
  assumes "redis_laws rd cnt" "redis_leaves view rd"
  shows "leaves view (QuotaRedisCache_Incr rd p)" "leaves view (QuotaRedisCache_Decr rd p)"
    "leaves view (QuotaRedisCache_BatchIncr rd ps)" "leaves view (QuotaRedisCache_BatchDecr rd ps)"
proof -
  note ev = Eval_leaves [OF assms(1)]
  have err: "view (snd (eval_error (rd_Eval rd s w))) = view w" if "leaves view s" for s w
    using ev [OF that] by (auto simp: eval_error_def split: prod.splits sum.splits)
  show "leaves view (QuotaRedisCache_Incr rd p)"
    unfolding leaves_def QuotaRedisCache_Incr_def
    by (intro allI err quotaIncrLua_leaves assms)
  have "leaves view (quotaBatchIncrLua rd keys args)" for keys args
    by (simp add: leaves_def quotaBatchIncrLua_def quotaBatchIncr_loop_leaves [OF assms(2)])
  then show "leaves view (QuotaRedisCache_BatchIncr rd ps)"
    by (auto simp: leaves_def QuotaRedisCache_BatchIncr_def err split: prod.splits)
  have "leaves view (quotaBatchDecrLua rd keys args)" for keys args
    by (auto simp: leaves_def quotaBatchDecrLua_def quotaBatchDecr_loop_leaves [OF assms(2)] split: option.splits)
  from ev [OF this] show "leaves view (QuotaRedisCache_BatchDecr rd ps)"
    by (auto simp: leaves_def QuotaRedisCache_BatchDecr_def split: prod.splits sum.splits lua_value.splits)
  have "view w' = view w" if "rd_DecrBy rd k v w = (r, w')" for k v r w w'
  proof -
    have d: "view (snd (rd_DECRBY rd k v w)) = view w" using assms(2) by (simp add: redis_leaves_def leaves_def)
    show ?thesis
    proof (cases r)
      case (Inl e)
      with that assms(1) have "w' = w \<or> w' = snd (rd_DECRBY rd k v w)" unfolding redis_laws_def by blast
      with d show ?thesis by auto
    next
      case (Inr x)
      with that redis_DecrBy_Inr [OF assms(1)] have "rd_DECRBY rd k v w = (x, w')" by blast
      with d show ?thesis by simp
    qed
  qed
  then show "leaves view (QuotaRedisCache_Decr rd p)"
    by (auto simp: leaves_def QuotaRedisCache_Decr_def split: prod.splits sum.splits)
qed

section \<open>One notification through the repository\<close>

text \<open>The notification \<open>n\<close> is stored as the row \<open>row\<close>: stamped, with version 1, under a fresh id made for
  its business key, in the database and table of this key, with its callback log in the same
  database exactly when \<open>cb\<close> asks for one; nothing else has changed.\<close>

definition stored_as ::
    "'w env \<Rightarrow> NotifShardingDAO \<Rightarrow> ('w \<Rightarrow> NotifEntity tables) \<Rightarrow> ('w \<Rightarrow> CallbackLogEntity tables) \<Rightarrow> bool
      \<Rightarrow> NotifEntity \<Rightarrow> NotifEntity \<Rightarrow> 'w \<Rightarrow> 'w \<Rightarrow> bool" where
  "stored_as env nd rows cbs cb n row w w' \<longleftrightarrow>
     (let d = row_dst env nd (ne_BizId n) (ne_BizKey n);
          cd = cb_dst env nd (ne_BizId n) (ne_BizKey n)
      in \<exists>now. row = n\<lparr>ne_CreatedAt := now, ne_UpdatedAt := now, ne_Version := 1, ne_Id := ne_Id row\<rparr> \<and>
        generated_id (ev_xxh env) (ne_BizId n) (ne_BizKey n) (ne_Id row) \<and>
        rows w (dst_DB d) (dst_Table d) (ne_Id row) = None \<and>
        rows w' = put_row (dst_DB d) (dst_Table d) (ne_Id row) row (rows w) \<and>
        cbs w' = (if cb then put_row (dst_DB d) (dst_Table cd) (ne_Id row) (initial_cbLog (ne_Id row) now) (cbs w)
                  else cbs w))"

lemma create_stored_as:
  assumes "gorm_laws env gd rows cbs" "dao_ok nd"
    and "NotifShardingDAO_create env gd nd n cb w = (Inr (row, None), w')"
  shows "stored_as env nd rows cbs cb n row w w'"
  using create_None [OF assms]
  by (auto simp: stored_as_def Let_def stamped_def intro!: exI [of _ "Time_UnixMilli (ev_now env w)"])

lemma stored_as_cong:
  assumes "stored_as env nd rows cbs cb n row w1 w2" "same_rows rows cbs w w1" "same_rows rows cbs w2 w'"
  shows "stored_as env nd rows cbs cb n row w w'"
  using assms by (cases cb) (simp_all add: stored_as_def same_rows_def)

lemma stored_as_id: "stored_as env nd rows cbs cb n row w w' \<Longrightarrow> dao_ok nd \<Longrightarrow>
    HashStrategy_ShardWithId (nd_notifShardingStrategy nd) (ne_Id row)
      = Inr (row_dst env nd (ne_BizId n) (ne_BizKey n))"
  by (auto simp: stored_as_def Let_def dao_ok_Shard(4))

lemma stored_as_status: "stored_as env nd rows cbs cb n row w w' \<Longrightarrow> ne_Status row = ne_Status n"
  by (auto simp: stored_as_def Let_def) (metis NotifEntity.select_convs(9) NotifEntity.surjective
    NotifEntity.update_convs(1) NotifEntity.update_convs(12) NotifEntity.update_convs(13)
    NotifEntity.update_convs(14))

lemma stored_as_new_id:
  "stored_as env nd rows cbs cb (n\<lparr>ne_Id := i\<rparr>) row w w' = stored_as env nd rows cbs cb n row w w'"
  by (simp add: stored_as_def)

lemma create_leaves:
  assumes "\<forall>g w. cnt (ev_set_gen env g w) = cnt w" "gorm_leaves cnt gd" "dao_ok nd"
  shows "\<exists>r w'. NotifShardingDAO_create env gd nd n cb w = (Inr r, w') \<and> cnt w' = cnt w"
proof -
  have gen: "cnt (snd (nextId env b k w)) = cnt w" for b k w
    using assms(1) by (simp add: nextId_def split: prod.splits)
  have "leaves cnt (create_closure env gd d cd now cb n)" for d cd now n
    unfolding leaves_def
  proof
    fix w
    obtain iden w1 where id: "nextId env (ne_BizId n) (ne_BizKey n) w = (iden, w1)" by fastforce
    obtain e w2 where c: "g_Create gd (dst_DB d) (dst_Table d) (n\<lparr>ne_Id := iden\<rparr>) w1 = (e, w2)" by fastforce
    obtain e' w3 where l: "g_CreateCb gd (dst_DB d) (dst_Table cd) (initial_cbLog iden now) w2 = (e', w3)" by fastforce
    have "cnt w1 = cnt w" using gen [of "ne_BizId n" "ne_BizKey n" w] id by simp
    moreover from assms(2) have "leaves cnt (g_Create gd (dst_DB d) (dst_Table d) (n\<lparr>ne_Id := iden\<rparr>))"
      "leaves cnt (g_CreateCb gd (dst_DB d) (dst_Table cd) (initial_cbLog iden now))"
      by (simp_all add: gorm_leaves_def)
    then have "cnt w2 = cnt w1" "cnt w3 = cnt w2" using leavesD c l by metis+
    ultimately show "cnt (snd (create_closure env gd d cd now cb n w)) = cnt w"
      using id c l by (auto simp: create_closure_def Let_def initial_cbLog_def split: option.splits)
  qed
  with assms(2) have t: "leaves cnt (g_Transaction gd db (create_closure env gd d cd now cb) n)" for db d cd now n
    by (simp add: gorm_leaves_def)
  show ?thesis
    using leavesD [OF t] by (auto simp: create_eq [OF assms(3)] Let_def split: prod.splits)
qed

lemma create_leaves_quota:
  assumes "send_world env gd rd conf rows cbs cnt" "dao_ok nd"
  shows "leaves_quota cnt (\<lambda>n. NotifShardingDAO_create env gd nd n cb)"
  unfolding leaves_quota_def using assms by (intro allI create_leaves) (simp_all add: send_world_def)

text \<open>What the repository does with one notification: the counters and the rows at once.\<close>

lemma repo_create_stored:
  assumes "send_world env gd (dr_quotaCache d) conf rows cbs cnt" "dao_ok nd"
  shows "\<exists>r err w'. DefaultNotifRepo_create d (\<lambda>n. NotifShardingDAO_create env gd nd n cb) n w
       = (Inr (r, err), w') \<and>
     (case err of
        Some e \<Rightarrow> rows w' = rows w \<and> cbs w' = cbs w \<and>
          cnt w' = (if cnt w (notif_key n) < 1 then (cnt w)(notif_key n := cnt w (notif_key n) - 1) else cnt w)
      | None \<Rightarrow> 1 \<le> cnt w (notif_key n) \<and> cnt w' = (cnt w)(notif_key n := cnt w (notif_key n) - 1) \<and>
          (\<exists>row. r = toDomain (dr_json d) row \<and>
             stored_as env nd rows cbs cb (toEntity (dr_json d) n) row w w'))"
proof -
  let ?f = "\<lambda>n. NotifShardingDAO_create env gd nd n cb" and ?rd = "dr_quotaCache d"
  from assms(1) have laws: "gorm_laws env gd rows cbs" "redis_laws ?rd cnt" "redis_up ?rd"
    "redis_leaves (\<lambda>w. (rows w, cbs w, ev_gen env w)) ?rd"
    by (simp_all add: send_world_def)
  from create_quota [OF laws(2,3) create_leaves_quota [OF assms, of cb], of n w]
  obtain r err w' where r: "DefaultNotifRepo_create d ?f n w = (Inr (r, err), w')"
    and q: "if cnt w (notif_key n) < 1
      then err = Some ErrInsufficientQuota \<and> cnt w' = (cnt w)(notif_key n := cnt w (notif_key n) - 1)
      else if err = None then cnt w' = (cnt w)(notif_key n := cnt w (notif_key n) - 1) else cnt w' = cnt w"
    by blast
  note q_calls = quota_calls_leave(1,2) [OF laws(2,4)]
  obtain e1 w1 where d: "QuotaRedisCache_Decr ?rd (quotaParam_of n) w = (Inr e1, w1)" "same_rows rows cbs w w1"
    using Decr_result [OF laws(2,3), of "quotaParam_of n" w] leavesD [OF q_calls(2)]
    by (fastforce simp: same_rows_def)
  have rows: "case err of Some _ \<Rightarrow> same_rows rows cbs w w'
    | None \<Rightarrow> \<exists>row. r = toDomain (dr_json d) row \<and> stored_as env nd rows cbs cb (toEntity (dr_json d) n) row w w'"
  proof (cases e1)
    case (Some e)
    with r d show ?thesis by (auto simp: DefaultNotifRepo_create_def)
  next
    case None
    obtain row e2 w2 where c: "?f (toEntity (dr_json d) n) w1 = (Inr (row, e2), w2)"
      using create_leaves_quota [OF assms, of cb] unfolding leaves_quota_def by (metis prod.collapse)
    show ?thesis
    proof (cases e2)
      case None
      with \<open>e1 = None\<close> r d c have "err = None" "r = toDomain (dr_json d) row" "w' = w2"
        by (simp_all add: DefaultNotifRepo_create_def)
      moreover from c None have "stored_as env nd rows cbs cb (toEntity (dr_json d) n) row w1 w2"
        using create_stored_as [OF laws(1) assms(2)] by blast
      ultimately show ?thesis using stored_as_cong d(2) by (fastforce simp: same_rows_def)
    next
      case (Some e)
      obtain w3 where i: "QuotaRedisCache_Incr ?rd (quotaParam_of n) w2 = (Inr None, w3)"
        using Incr_result [OF laws(2,3), of "quotaParam_of n" w2] by blast
      have "same_rows rows cbs w1 w2" using create_Some [OF laws(1) assms(2)] c Some by blast
      moreover have "same_rows rows cbs w2 w3" using leavesD [OF q_calls(1) i] by (simp add: same_rows_def)
      ultimately show ?thesis
        using \<open>e1 = None\<close> r d c Some i by (auto simp: DefaultNotifRepo_create_def same_rows_def)
    qed
  qed
  with r q show ?thesis by (cases err) (auto simp: same_rows_def split: if_splits)
qed

section \<open>Asynchronous sending, end to end\<close>

lemma AsyncSend_valid:
  assumes "generator_laws env" "Notification_Validate n (ev_now env w) = None"
    and "nextId env (n_BizId n) (n_BizKey n) w = (iden, w1)"
  shows "DefaultSendService_AsyncSend env (NewDispatcher env ds iss) n w
    = DefaultSendStrategy_Send env ds (Notification_ReplaceAsyncImmediate (n\<lparr>n_Id := iden\<rparr>) (ev_now env w)) w1"
proof -
  have "\<not> Notification_IsImmediate (Notification_ReplaceAsyncImmediate (n\<lparr>n_Id := iden\<rparr>) (ev_now env w))"
    by (simp add: Notification_ReplaceAsyncImmediate_def Notification_IsImmediate_def SendStrategy_defs)
  with assms nextId_generator(3) [OF assms(1,3)] show ?thesis
    by (simp add: DefaultSendService_AsyncSend_def io_nextId_def Let_def NewDispatcher_Send)
qed

text \<open>The notification the default strategy stores: the caller's, with the window of its send strategy,
  after an immediate one has become a deadline of one minute.\<close>

definition deferred :: "Notification \<Rightarrow> Time \<Rightarrow> Notification" where
  "deferred n now = Notification_SetSendTime (Notification_ReplaceAsyncImmediate n now) now"

lemma deferred_keys:
  "n_BizId (deferred n now) = n_BizId n" "n_BizKey (deferred n now) = n_BizKey n"
  "n_Status (deferred n now) = n_Status n" "n_Channel (deferred n now) = n_Channel n"
  "notif_key (deferred n now) = notif_key n" "deferred (n\<lparr>n_Id := i\<rparr>) now = (deferred n now)\<lparr>n_Id := i\<rparr>"
  by (simp_all add: deferred_def Notification_SetSendTime_def Notification_ReplaceAsyncImmediate_def
      Notification_IsImmediate_def notif_key_def split: prod.splits)

lemma toEntity_id: "toEntity js (n\<lparr>n_Id := i\<rparr>) = (toEntity js n)\<lparr>ne_Id := i\<rparr>"
  by (simp add: toEntity_def Let_def Notification_MarshalTemplateParams_def Notification_MarshalReceivers_def)

lemma toEntity_keys: "ne_BizId (toEntity js n) = n_BizId n" "ne_BizKey (toEntity js n) = n_BizKey n"
    "ne_Status (toEntity js n) = n_Status n" "n_Id (toDomain js e) = ne_Id e" "n_Status (toDomain js e) = ne_Status e"
  by (simp_all add: toEntity_def toDomain_def Let_def)

lemma needCallbackLog_reads:
  assumes "conf_reads view (dss_bizConfRepo ds)"
  obtains cb w' where "needCallbackLog ds n w = (Inr cb, w')" "view w' = view w"
proof -
  obtain r w' where "bcr_GetById (dss_bizConfRepo ds) (n_BizId n) w = (Inr r, w')" "view w' = view w"
    using assms unfolding conf_reads_def by blast
  then show ?thesis
    by (cases r) (auto intro!: that simp: needCallbackLog_def)
qed

lemma needCallbackLog_cong: "n_BizId m = n_BizId n \<Longrightarrow> needCallbackLog ds m = needCallbackLog ds n"
  by (simp add: needCallbackLog_def)

text \<open>The repository over the sharded DAO, as the constructors build it.\<close>

definition sharded_repo ::
    "nat \<Rightarrow> 'w env \<Rightarrow> 'w gorm \<Rightarrow> NotifShardingDAO \<Rightarrow> 'w redis \<Rightarrow> json_codec \<Rightarrow> 'w NotificationRepo" where
  "sharded_repo fuel env gd nd rd js = NewDefaultNotifRepo
     (NewNotifShardingDAO fuel env gd (nd_dbs nd) (nd_notifShardingStrategy nd) (nd_cbLogShardingStrategy nd)) rd js"

lemma sharded_repo_create:
  "(if cb then repo_CreateWithCallback (sharded_repo fuel env gd nd rd js) n
    else repo_Create (sharded_repo fuel env gd nd rd js) n)
   = DefaultNotifRepo_create \<lparr>dr_notifDAO = NewNotifShardingDAO fuel env gd (nd_dbs nd)
        (nd_notifShardingStrategy nd) (nd_cbLogShardingStrategy nd), dr_quotaCache = rd, dr_json = js\<rparr>
      (\<lambda>n. NotifShardingDAO_create env gd nd n cb) n"
  by (cases nd; cases cb) (simp_all add: sharded_repo_def NewDefaultNotifRepo_def NewNotifShardingDAO_def Let_def
      DefaultNotifRepo_Create_def DefaultNotifRepo_CreateWithCallback_def
      NotifShardingDAO_Create_def [abs_def] NotifShardingDAO_CreateWithCallback_def [abs_def])

text \<open>The asynchronous send of a valid notification is the repository's create of it, with its identifier
  and its window.\<close>

lemma AsyncSend_to_repo:
  assumes "generator_laws env" "Notification_Validate n (ev_now env w) = None"
    and "nextId env (n_BizId n) (n_BizKey n) w = (iden, w1)" "needCallbackLog ds n w1 = (Inr cb, w2)"
    and "dss_notifRepo ds = sharded_repo fuel env gd nd rd js"
    and "DefaultNotifRepo_create \<lparr>dr_notifDAO = NewNotifShardingDAO fuel env gd (nd_dbs nd)
        (nd_notifShardingStrategy nd) (nd_cbLogShardingStrategy nd), dr_quotaCache = rd, dr_json = js\<rparr>
      (\<lambda>n. NotifShardingDAO_create env gd nd n cb) ((deferred n (ev_now env w))\<lparr>n_Id := iden\<rparr>) w2 = (Inr (r, err), w')"
  shows "DefaultSendService_AsyncSend env (NewDispatcher env ds iss) n w = (case err of
      Some e \<Rightarrow> (Inr (zero_SendResult, Some (Wrapped e ''[jotify] create delayed notification error'')), w')
    | None \<Rightarrow> (Inr (\<lparr>sr_NotificationId = n_Id r, sr_Status = n_Status r\<rparr>, None), w'))"
proof -
  let ?m = "(deferred n (ev_now env w))\<lparr>n_Id := iden\<rparr>"
  have "DefaultSendStrategy_create ds ?m w1 = (Inr (r, err), w')"
    using assms(4,6) sharded_repo_create [of cb fuel env gd nd rd js ?m]
    by (cases cb) (simp_all add: DefaultSendStrategy_create_def assms(5) deferred_keys needCallbackLog_cong [of ?m n])
  then show ?thesis
    using nextId_generator(3) [OF assms(1,3)]
    by (auto simp: AsyncSend_valid [OF assms(1-3)] DefaultSendStrategy_Send_def Let_def
        deferred_keys(6) simp flip: deferred_def split: option.splits)
qed

text \<open>Asynchronous sending, end to end, over the repository and the sharded databases: the call of a
  valid notification returns. With an error nothing is stored and the quota is what it was (one lower
  when it was used up); without one exactly one row is stored, in the database and table of the
  business key, under the returned id, which leads back there, holding the notification with the
  window of its strategy, its callback log beside it exactly when the business has a callback
  configuration; and its quota, which sufficed, is one lower.\<close>

theorem AsyncSend_stored:
  assumes "send_world env gd rd (dss_bizConfRepo ds) rows cbs cnt" "dao_ok nd"
    and "dss_notifRepo ds = sharded_repo fuel env gd nd rd js"
    and "Notification_Validate n (ev_now env w) = None"
  shows "\<exists>resp err w'. DefaultSendService_AsyncSend env (NewDispatcher env ds iss) n w = (Inr (resp, err), w') \<and>
     (case err of
        Some e \<Rightarrow> rows w' = rows w \<and> cbs w' = cbs w \<and>
          cnt w' = (if cnt w (notif_key n) < 1 then (cnt w)(notif_key n := cnt w (notif_key n) - 1) else cnt w)
      | None \<Rightarrow> 1 \<le> cnt w (notif_key n) \<and> cnt w' = (cnt w)(notif_key n := cnt w (notif_key n) - 1) \<and>
          (\<exists>row cb. fst (needCallbackLog ds n (snd (nextId env (n_BizId n) (n_BizKey n) w))) = Inr cb \<and>
             stored_as env nd rows cbs cb (toEntity js (deferred n (ev_now env w))) row w w' \<and>
             resp = \<lparr>sr_NotificationId = ne_Id row, sr_Status = n_Status n\<rparr> \<and>
             HashStrategy_ShardWithId (nd_notifShardingStrategy nd) (ne_Id row)
               = Inr (row_dst env nd (n_BizId n) (n_BizKey n))))"
proof -
  obtain iden w1 where i: "nextId env (n_BizId n) (n_BizKey n) w = (iden, w1)" by fastforce
  let ?now = "ev_now env w"
  let ?m = "(deferred n ?now)\<lparr>n_Id := iden\<rparr>"
  let ?k = "notif_key n"
  let ?d = "\<lparr>dr_notifDAO = NewNotifShardingDAO fuel env gd (nd_dbs nd) (nd_notifShardingStrategy nd)
      (nd_cbLogShardingStrategy nd), dr_quotaCache = rd, dr_json = js\<rparr>"
  from assms(1) have laws: "gorm_laws env gd rows cbs" "generator_laws env"
    "conf_reads (\<lambda>w. (rows w, cbs w, cnt w, ev_gen env w)) (dss_bizConfRepo ds)"
    "\<And>g w. cnt (ev_set_gen env g w) = cnt w"
    by (simp_all add: send_world_def)
  obtain cb w2 where c: "needCallbackLog ds n w1 = (Inr cb, w2)" "(rows w2, cbs w2, cnt w2, ev_gen env w2)
      = (rows w1, cbs w1, cnt w1, ev_gen env w1)"
    by (rule needCallbackLog_reads [OF laws(3)])
  from c(2) nextId_rows [OF laws(1) i] laws(4) i
  have w2: "same_rows rows cbs w w2" "cnt w2 = cnt w"
    by (auto simp: same_rows_def nextId_def split: prod.splits)
  have key: "notif_key ?m = ?k" by (simp add: deferred_keys notif_key_def)
  obtain r err w' where r: "DefaultNotifRepo_create ?d (\<lambda>n. NotifShardingDAO_create env gd nd n cb) ?m w2
      = (Inr (r, err), w')"
    and s: "case err of
        Some e \<Rightarrow> rows w' = rows w2 \<and> cbs w' = cbs w2 \<and>
          cnt w' = (if cnt w2 ?k < 1 then (cnt w2)(?k := cnt w2 ?k - 1) else cnt w2)
      | None \<Rightarrow> 1 \<le> cnt w2 ?k \<and> cnt w' = (cnt w2)(?k := cnt w2 ?k - 1) \<and>
          (\<exists>row. r = toDomain js row \<and> stored_as env nd rows cbs cb (toEntity js ?m) row w2 w')"
    using repo_create_stored [of env gd ?d "dss_bizConfRepo ds" rows cbs cnt nd cb ?m w2,
      unfolded key DefaultNotifRepo.select_convs, OF assms(1,2)] by blast
  note send = AsyncSend_to_repo [OF laws(2) assms(4) i c(1) assms(3) r]
  show ?thesis
  proof (cases err)
    case (Some e)
    with send s w2 show ?thesis by (auto simp: same_rows_def)
  next
    case None
    with s obtain row where row: "r = toDomain js row" "stored_as env nd rows cbs cb (toEntity js ?m) row w2 w'" by auto
    from stored_as_cong [OF row(2) w2(1) same_rows_refl]
    have st: "stored_as env nd rows cbs cb (toEntity js (deferred n ?now)) row w w'"
      by (simp add: toEntity_id stored_as_new_id)
    have "HashStrategy_ShardWithId (nd_notifShardingStrategy nd) (ne_Id row)
        = Inr (row_dst env nd (n_BizId n) (n_BizKey n))"
      using stored_as_id [OF st assms(2)] by (simp add: toEntity_keys deferred_keys)
    moreover have "n_Status r = n_Status n"
      using stored_as_status [OF st] by (simp add: row(1) toEntity_keys deferred_keys)
    ultimately show ?thesis
      using None send s w2 row(1) st c(1) i by (auto simp: toEntity_keys)
  qed
qed

section \<open>The send path in memory\<close>

text \<open>The rows, the generator and the quota in one state.\<close>

record send_mem = mem_world +
  sm_quota :: "string \<Rightarrow> int"

definition send_redis :: "send_mem redis" where
  "send_redis = \<lparr>rd_GET = (\<lambda>k w. Some (sm_quota w k)), rd_SET = (\<lambda>k v w. w\<lparr>sm_quota := (sm_quota w)(k := v)\<rparr>),
     rd_INCRBY = (\<lambda>k v w. (sm_quota w k + v, w\<lparr>sm_quota := (sm_quota w)(k := sm_quota w k + v)\<rparr>)),
     rd_DECRBY = (\<lambda>k v w. (sm_quota w k - v, w\<lparr>sm_quota := (sm_quota w)(k := sm_quota w k - v)\<rparr>)),
     rd_Eval = (\<lambda>s w. case s w of (v, w') \<Rightarrow> (Inr v, w')),
     rd_DecrBy = (\<lambda>k v w. (Inr (sm_quota w k - v), w\<lparr>sm_quota := (sm_quota w)(k := sm_quota w k - v)\<rparr>))\<rparr>"

definition send_conf :: "send_mem BizConfRepo" where
  "send_conf = \<lparr>bcr_GetById = (\<lambda>b. io_return (Inr (zero_BizConf\<lparr>bc_Id := b,
     bc_CallbackConf := Some \<lparr>cb_ServiceName = ''s'', cb_RetryPolicy = None\<rparr>\<rparr>)))\<rparr>"

lemma mem_exec_quota: "sm_quota (snd (mem_exec db ss w)) = sm_quota w"
  by (induction db ss w rule: mem_exec.induct) simp_all

lemma send_mem_world: "send_world mem_env mem_gorm send_redis send_conf mw_rows mw_cbs sm_quota"
proof -
  have "redis_laws send_redis sm_quota" "redis_up send_redis"
    by (auto simp: redis_laws_def redis_up_def send_redis_def split: prod.splits)
  moreover have "gorm_leaves sm_quota (mem_gorm :: send_mem gorm)"
    unfolding gorm_leaves_def
  proof (intro conjI allI impI)
    fix db t ss and c :: CallbackLogEntity and n :: NotifEntity
      and f :: "NotifEntity \<Rightarrow> send_mem \<Rightarrow> (NotifEntity \<times> go_error option) \<times> send_mem"
    show "leaves sm_quota (g_Create mem_gorm db t n)" "leaves sm_quota (g_CreateCb mem_gorm db t c)"
      "leaves sm_quota (g_ExecInserts mem_gorm db ss)"
      by (simp_all add: leaves_def mem_gorm_def mem_exec_quota)
    assume *: "\<forall>m. leaves sm_quota (f m)"
    show "leaves sm_quota (g_Transaction mem_gorm db f n)"
      unfolding leaves_def
    proof
      fix w
      obtain m e w' where f: "f n w = ((m, e), w')" by (metis prod.collapse)
      with * have "sm_quota w' = sm_quota w" by (metis leavesD)
      with f show "sm_quota (snd (g_Transaction mem_gorm db f n w)) = sm_quota w"
        by (cases e) (simp_all add: mem_gorm_def)
    qed
  qed
  moreover have "generator_laws mem_env" by (rule mem_env_generator)
  ultimately show ?thesis
    by (simp add: send_world_def mem_gorm_laws redis_leaves_def leaves_def conf_reads_def send_conf_def)
      (simp add: send_redis_def mem_env_def)
qed

definition send_start :: "(string \<Rightarrow> int) \<Rightarrow> send_mem" where
  "send_start q = \<lparr>mw_rows = (\<lambda>_ _ _. None), mw_cbs = (\<lambda>_ _ _. None), mw_gen = NewGenerator, sm_quota = q\<rparr>"

definition send_default :: "send_mem DefaultSendStrategy" where
  "send_default = \<lparr>dss_notifRepo = sharded_repo 1 mem_env mem_gorm mem_dao send_redis mark_codec,
     dss_bizConfRepo = send_conf\<rparr>"

lemma send_start_AsyncSend:
  "\<exists>resp w'. DefaultSendService_AsyncSend mem_env (NewDispatcher mem_env send_default iss)
     sample_notification (send_start (\<lambda>_. 1)) = (Inr (resp, None), w')"
proof -
  let ?w = "send_start (\<lambda>_. 1)" and ?n = sample_notification
  obtain iden w1 where i: "nextId mem_env (n_BizId ?n) (n_BizKey ?n) ?w = (iden, w1)" by fastforce
  let ?m = "(deferred ?n (ev_now mem_env ?w))\<lparr>n_Id := iden\<rparr>"
  have now: "ev_now mem_env w1 = ev_now mem_env ?w" by (simp add: mem_env_def)
  have w1: "mw_rows w1 = (\<lambda>_ _ _. None)" "sm_quota w1 = (\<lambda>_. 1)"
    using i by (auto simp: nextId_def mem_env_def send_start_def split: prod.splits)
  define w2 where "w2 = w1\<lparr>sm_quota := (\<lambda>_. 1)(notif_key ?n := 0)\<rparr>"
  have k: "notif_key ?m = notif_key ?n" by (simp add: deferred_keys notif_key_def)
  have d: "QuotaRedisCache_Decr send_redis (quotaParam_of ?m) w1 = (Inr None, w2)"
    using w1(2) k by (simp add: QuotaRedisCache_Decr_def send_redis_def w2_def sint_defaultQuota
        flip: param_key_def)
  obtain row w3 where c: "NotifShardingDAO_create mem_env mem_gorm mem_dao (toEntity mark_codec ?m) True w2
      = (Inr (row, None), w3)"
    using mem_create_empty [of w2 "toEntity mark_codec ?m" True] w1(1) by (auto simp: w2_def)
  have "repo_CreateWithCallback (sharded_repo 1 mem_env mem_gorm mem_dao send_redis mark_codec) ?m w1
      = (Inr (toDomain mark_codec row, None), w3)"
    using sharded_repo_create [of True 1 mem_env mem_gorm mem_dao send_redis mark_codec ?m] d c
    by (simp add: DefaultNotifRepo_create_def)
  then show ?thesis
    using now by (simp add: AsyncSend_valid [OF mem_env_generator sample_notification_valid i]
        DefaultSendStrategy_Send_def Let_def deferred_keys(6) DefaultSendStrategy_create_def
        needCallbackLog_def send_default_def send_conf_def flip: deferred_def)
qed

end
