(* ===== verification/ReturnedIds.thy ===== *)
theory ReturnedIds
  imports EndToEnd
begin

text \<open>
  Which ids a batch draws from the generator, and which rows they name. \<open>drew K w w'\<close> says that on the
  way from \<open>w\<close> to \<open>w'\<close> at most \<open>K\<close> ids were drawn and that every row that changed has the sequence
  number of one of them. It composes along the send path, from the insert loop of one database
  to \<open>BatchAsyncSend\<close>, which draws an id for each notification, returns it, and then has the DAO
  draw others for the rows.
\<close>

section \<open>Drawing ids\<close>

definition seq_of :: "'w env \<Rightarrow> 'w \<Rightarrow> u64" where
  "seq_of env w = gen_sequence (ev_gen env w)"

definition drawn :: "u64 \<Rightarrow> nat \<Rightarrow> u64 \<Rightarrow> bool" where
  "drawn s k i \<longleftrightarrow> (\<exists>j < k. ExtractSequence i = take_bit 12 (s + word_of_nat j))"

definition drew :: "'w env \<Rightarrow> ('w \<Rightarrow> NotifEntity tables) \<Rightarrow> nat \<Rightarrow> 'w \<Rightarrow> 'w \<Rightarrow> bool" where
  "drew env rows K w w' \<longleftrightarrow> (\<exists>k \<le> K. seq_of env w' = seq_of env w + word_of_nat k \<and>
     (\<forall>d t i. rows w' d t i \<noteq> rows w d t i \<longrightarrow> drawn (seq_of env w) k i))"

lemma drawn_mono: "drawn s k i \<Longrightarrow> k \<le> k' \<Longrightarrow> drawn s k' i"
  by (auto simp: drawn_def intro: less_le_trans)

lemma drawn_later: "drawn (s + word_of_nat k) l i \<Longrightarrow> drawn s (k + l) i"
  unfolding drawn_def
proof (elim exE conjE)
  fix j assume "j < l" "ExtractSequence i = take_bit 12 (s + word_of_nat k + word_of_nat j)"
  then show "\<exists>j < k + l. ExtractSequence i = take_bit 12 (s + word_of_nat j)"
    by (intro exI [of _ "k + j"]) (simp add: add.assoc)
qed

lemma drew_trans:
  assumes "drew env rows K w w1" "drew env rows L w1 w'"
  shows "drew env rows (K + L) w w'"
proof -
  obtain k where k: "k \<le> K" "seq_of env w1 = seq_of env w + word_of_nat k"
    "\<And>d t i. rows w1 d t i \<noteq> rows w d t i \<Longrightarrow> drawn (seq_of env w) k i"
    using assms(1) unfolding drew_def by blast
  obtain l where l: "l \<le> L" "seq_of env w' = seq_of env w1 + word_of_nat l"
    "\<And>d t i. rows w' d t i \<noteq> rows w1 d t i \<Longrightarrow> drawn (seq_of env w1) l i"
    using assms(2) unfolding drew_def by blast
  have "drawn (seq_of env w) (k + l) i" if "rows w' d t i \<noteq> rows w d t i" for d t i
  proof (cases "rows w' d t i = rows w1 d t i")
    case True
    with that k(3) have "drawn (seq_of env w) k i" by metis
    then show ?thesis by (rule drawn_mono) simp
  next
    case False
    with l(3) k(2) show ?thesis by (metis drawn_later)
  qed
  with k(1,2) l(1,2) show ?thesis unfolding drew_def by (intro exI [of _ "k + l"]) simp
qed

lemma drew_mono: "drew env rows K w w' \<Longrightarrow> K \<le> L \<Longrightarrow> drew env rows L w w'"
  unfolding drew_def using order.trans by blast

lemma drew_same: "rows w' = rows w \<Longrightarrow> ev_gen env w' = ev_gen env w \<Longrightarrow> drew env rows K w w'"
  by (auto simp: drew_def seq_of_def intro: exI [of _ 0])

lemma drew_refl [simp]: "drew env rows K w w"
  by (rule drew_same) simp_all

definition draws :: "'w env \<Rightarrow> ('w \<Rightarrow> NotifEntity tables) \<Rightarrow> nat \<Rightarrow> ('w, 'a) io \<Rightarrow> bool" where
  "draws env rows K c \<longleftrightarrow> (\<forall>w r w'. c w = (Inr r, w') \<longrightarrow> drew env rows K w w')"

lemma drawsD: "draws env rows K c \<Longrightarrow> c w = (Inr r, w') \<Longrightarrow> drew env rows K w w'"
  by (simp add: draws_def)

lemma draws_return [simp]: "draws env rows K (io_return x)"
  by (simp add: draws_def)

lemma draws_Pair [simp]: "draws env rows K (Pair (Inr x))"
  by (simp add: draws_def)

lemma draws_panic [simp]: "draws env rows K (io_panic p)"
  by (simp add: draws_def)

lemma draws_run [simp]: "draws env rows K (io_run r)"
  by (auto simp: draws_def)

lemma draws_get [simp]: "draws env rows K (io_get f)"
  by (auto simp: draws_def)

lemma draws_bind:
  assumes "draws env rows K c" "\<And>x. draws env rows L (f x)"
  shows "draws env rows (K + L) (io_bind c f)"
  unfolding draws_def io_bind_eq_Inr
proof (intro allI impI, elim exE conjE)
  fix w r w' x w1 assume "c w = (Inr x, w1)" "f x w1 = (Inr r, w')"
  with drawsD [OF assms(1)] drawsD [OF assms(2)] show "drew env rows (K + L) w w'" by (metis drew_trans)
qed

lemma draws_bind0: "draws env rows 0 c \<Longrightarrow> (\<And>x. draws env rows L (f x)) \<Longrightarrow> draws env rows L (io_bind c f)"
  by (rule draws_bind [where K = 0, unfolded add_0])

lemma draws_mono: "draws env rows K c \<Longrightarrow> K \<le> L \<Longrightarrow> draws env rows L c"
  by (auto simp: draws_def intro: drew_mono)

lemma draws_leaves: "leaves (\<lambda>w. (rows w, cbs w, ev_gen env w)) c \<Longrightarrow> draws env rows K c"
  by (auto simp: draws_def intro!: drew_same dest: leavesD)

section \<open>The insert loops\<close>

text \<open>Executing inserts changes no other rows than those inserted, and not the generator.\<close>

definition inserts_own :: "'w env \<Rightarrow> 'w gorm \<Rightarrow> ('w \<Rightarrow> NotifEntity tables) \<Rightarrow> bool" where
  "inserts_own env gd rows \<longleftrightarrow> (\<forall>db ss w e w'. g_ExecInserts gd db ss w = (e, w') \<longrightarrow>
     ev_gen env w' = ev_gen env w \<and>
     (\<forall>d t i. rows w' d t i \<noteq> rows w d t i \<longrightarrow> (\<exists>t' n. InsertNotification t' n \<in> set ss \<and> ne_Id n = i)))"

lemma nextId_draws:
  assumes "generator_laws env" "nextId env b k w = (iden, w')"
  shows "seq_of env w' = seq_of env w + 1" "ExtractSequence iden = take_bit 12 (seq_of env w)"
  using nextId_generator [OF assms] by (simp_all add: seq_of_def NextId_eq Extract_make_id)

lemma drawn_first: "ExtractSequence i = take_bit 12 s \<Longrightarrow> drawn s (Suc k) i"
  by (auto simp: drawn_def intro: exI [of _ 0])

lemma drawn_next: "drawn (s + 1) k i \<Longrightarrow> drawn s (Suc k) i"
  using drawn_later [of s 1 k i] by simp

lemma sqlGenerate_loop_draws:
  assumes "gorm_laws env gd rows cbs" "generator_laws env" "dao_ok nd"
    and "sqlGenerate_loop env nd cb now ps es w = (Inr (es', sqls, ids), w')"
  shows "seq_of env w' = seq_of env w + word_of_nat (length ps) \<and> rows w' = rows w \<and>
     (\<forall>t n. InsertNotification t n \<in> set sqls \<longrightarrow> drawn (seq_of env w) (length ps) (ne_Id n))"
  using assms(4)
proof (induction ps arbitrary: es es' sqls ids w)
  case Nil
  then show ?case by simp
next
  case (Cons i ps)
  let ?n = "es ! i"
  obtain iden w1 where id: "nextId env (ne_BizId ?n) (ne_BizKey ?n) w = (iden, w1)" by fastforce
  note g = nextId_draws [OF assms(2) id]
  have r1: "rows w1 = rows w" using nextId_rows [OF assms(1) id] by (simp add: same_rows_def)
  obtain sqls1 ids1 where r: "sqlGenerate_loop env nd cb now ps (es[i := ?n\<lparr>ne_Id := iden\<rparr>]) w1
      = (Inr (es', sqls1, ids1), w')"
    and s: "\<forall>t n. InsertNotification t n \<in> set sqls \<longrightarrow> ne_Id n = iden \<or> InsertNotification t n \<in> set sqls1"
    using Cons.prems id dao_ok_Shard [OF assms(3), of env "ne_BizId ?n" "ne_BizKey ?n"]
    by (cases cb) (auto simp: Let_def io_bind_eq_Inr)
  note IH = Cons.IH [OF r]
  have "drawn (seq_of env w) (Suc (length ps)) (ne_Id n)" if "InsertNotification t n \<in> set sqls" for t n
    using that s IH g by (metis drawn_next drawn_first)
  with IH g(1) r1 show ?case by (simp add: add.assoc)
qed

lemma insert_group_draws:
  assumes "gorm_laws env gd rows cbs" "generator_laws env" "dao_ok nd" "inserts_own env gd rows"
  shows "draws env rows (fuel * length ps) (insert_group fuel env gd nd cb db ps es)"
proof (induction fuel arbitrary: es)
  case 0
  then show ?case by (simp add: draws_def)
next
  case (Suc fuel)
  show ?case
    unfolding draws_def
  proof (intro allI impI)
    fix w r w' assume run: "insert_group (Suc fuel) env gd nd cb db ps es w = (Inr r, w')"
    then obtain es1 sqls ids w1 where g: "sqlGenerate_loop env nd cb (Time_UnixMilli (ev_now env w)) ps es w
        = (Inr (es1, sqls, ids), w1)"
      by (auto simp: NotifShardingDAO_sqlGenerate_def io_NowMilli_def io_bind_eq_Inr)
    obtain e w2 where x: "g_ExecInserts gd db sqls w1 = (e, w2)" by fastforce
    note gs = sqlGenerate_loop_draws [OF assms(1-3) g]
    have "seq_of env w2 = seq_of env w1" "\<forall>d t i. rows w2 d t i \<noteq> rows w1 d t i \<longrightarrow>
        (\<exists>t' n. InsertNotification t' n \<in> set sqls \<and> ne_Id n = i)"
      using assms(4) x unfolding inserts_own_def seq_of_def by metis+
    with gs have d: "drew env rows (length ps) w w2" "drew env rows (length ps) w w1"
      by (auto simp: drew_def intro!: exI [of _ "length ps"]) metis
    consider "w' = w1" | "w' = w2" | "insert_group fuel env gd nd cb db ps es1 w2 = (Inr r, w')"
      using run g x by (auto simp: NotifShardingDAO_sqlGenerate_def io_NowMilli_def io_bind_eq_Inr
          split: if_splits option.splits)
    then show "drew env rows (Suc fuel * length ps) w w'"
    proof cases
      case 3
      from drew_trans [OF d(1) drawsD [OF Suc.IH this]] show ?thesis by simp
    qed (use d in \<open>auto intro: drew_mono\<close>)
  qed
qed

definition group_sizes :: "('k \<times> 'a list) list \<Rightarrow> nat" where
  "group_sizes m = sum_list (map (\<lambda>g. length (snd g)) m)"

lemma group_sizes_update:
  "group_sizes (AList.update k ((case map_of m k of None \<Rightarrow> [] | Some ps \<Rightarrow> ps) @ [x]) m) = Suc (group_sizes m)"
  by (induction m) (auto simp: group_sizes_def)

lemma group_by_db_sizes: "group_by_db xxh h ns i m = Inr m' \<Longrightarrow> group_sizes m' = group_sizes m + length ns"
  by (induction ns arbitrary: i m) (auto simp: run_bind_eq_Inr group_sizes_update)

lemma insert_groups_draws:
  assumes "gorm_laws env gd rows cbs" "generator_laws env" "dao_ok nd" "inserts_own env gd rows"
  shows "draws env rows (fuel * group_sizes m) (insert_groups fuel env gd nd cb m es err)"
proof (induction m arbitrary: es err)
  case Nil
  then show ?case by (simp add: group_sizes_def)
next
  case (Cons g m)
  obtain db ps where g: "g = (db, ps)" by (cases g)
  have "draws env rows (fuel * length ps + fuel * group_sizes m) (insert_groups fuel env gd nd cb (g # m) es err)"
    using insert_group_draws [OF assms] Cons.IH
    by (auto simp: g intro!: draws_bind split: option.splits)
  then show ?case by (simp add: g group_sizes_def distrib_left)
qed

lemma batchCreate_draws:
  assumes "gorm_laws env gd rows cbs" "generator_laws env" "dao_ok nd" "inserts_own env gd rows"
  shows "draws env rows (fuel * length ns) (NotifShardingDAO_batchCreate fuel env gd nd ns cb)"
proof -
  have "draws env rows (fuel * length es) (NotifShardingDAO_tryBatchInsert fuel env gd nd es cb)" for es
  proof (cases "group_by_db (ev_xxh env) (nd_notifShardingStrategy nd) es 0 []")
    case (Inl p)
    then show ?thesis by (simp add: NotifShardingDAO_tryBatchInsert_def draws_def io_bind_eq_Inr)
  next
    case (Inr m)
    have "group_sizes m = length es" using group_by_db_sizes [OF Inr] by (simp add: group_sizes_def)
    with Inr insert_groups_draws [OF assms, of fuel m cb es None] show ?thesis
      by (simp add: NotifShardingDAO_tryBatchInsert_def)
  qed
  from this [of "map _ ns"] show ?thesis
    by (auto simp: NotifShardingDAO_batchCreate_def io_NowMilli_def intro!: draws_bind0)
qed

lemma io_returns_draws: "draws env rows K c \<Longrightarrow> draws env rows K (io_returns c)"
  unfolding io_returns_def
  by (auto simp: draws_def io_bind_eq_Inr split: option.splits)

section \<open>The batches of the send path\<close>

lemma repo_batchCreate_draws:
  assumes "redis_laws (dr_quotaCache d) cnt" "redis_leaves (\<lambda>w. (rows w, cbs w, ev_gen env w)) (dr_quotaCache d)"
    and "\<And>es. draws env rows (fuel * length es) (f es)"
  shows "draws env rows (fuel * length ns) (DefaultNotifRepo_batchCreate d f ns)"
proof -
  note q = quota_calls_leave(3,4) [OF assms(1,2), THEN draws_leaves [where cbs = cbs]]
  have "draws env rows (fuel * length ns + 0) (io_bind (f (toEntities (dr_json d) ns)) (\<lambda>(entities, err).
          io_bind (if err \<noteq> None then QuotaRedisCache_BatchIncr (dr_quotaCache d) (buildQuotaParams ns)
                   else io_return None) (\<lambda>refundErr.
          io_return (map (toDomain (dr_json d)) entities, None))))"
    using assms(3) [of "toEntities (dr_json d) ns"] q(1)
    by (intro draws_bind) (auto simp: toEntities_def intro!: draws_bind0)
  with q(2) show ?thesis
    by (auto simp: DefaultNotifRepo_batchCreate_def Let_def simp del: not_None_eq intro!: draws_bind0 [OF q(2)])
qed

lemma default_BatchSend_draws:
  assumes "send_world env gd rd (dss_bizConfRepo ds) rows cbs cnt" "inserts_own env gd rows" "dao_ok nd"
    and "dss_notifRepo ds = sharded_repo fuel env gd nd rd js"
  shows "draws env rows (fuel * length ns) (DefaultSendStrategy_BatchSend ds ns)"
proof -
  from assms(1) have laws: "gorm_laws env gd rows cbs" "generator_laws env" "redis_laws rd cnt"
    "redis_leaves (\<lambda>w. (rows w, cbs w, ev_gen env w)) rd"
    "conf_reads (\<lambda>w. (rows w, cbs w, cnt w, ev_gen env w)) (dss_bizConfRepo ds)"
    by (simp_all add: send_world_def)
  have need: "draws env rows 0 (needCallbackLog ds n)" for n
    unfolding draws_def
  proof (intro allI impI)
    fix w r w' assume "needCallbackLog ds n w = (Inr r, w')"
    moreover obtain cb w1 where "needCallbackLog ds n w = (Inr cb, w1)"
      "(rows w1, cbs w1, cnt w1, ev_gen env w1) = (rows w, cbs w, cnt w, ev_gen env w)"
      by (rule needCallbackLog_reads [OF laws(5)])
    ultimately show "drew env rows 0 w w'" by (intro drew_same) auto
  qed
  have dao: "draws env rows (fuel * length es) (io_returns (NotifShardingDAO_batchCreate fuel env gd nd es cb))" for es cb
    by (intro io_returns_draws batchCreate_draws [OF laws(1,2) assms(3,2)])
  have "draws env rows (fuel * length ns)
      (if cb then repo_BatchCreateWithCallback (dss_notifRepo ds) ns else repo_BatchCreate (dss_notifRepo ds) ns)" for cb
    using repo_batchCreate_draws [of "\<lparr>dr_notifDAO = NewNotifShardingDAO fuel env gd (nd_dbs nd)
        (nd_notifShardingStrategy nd) (nd_cbLogShardingStrategy nd), dr_quotaCache = rd, dr_json = js\<rparr>",
      where f = "\<lambda>es. io_returns (NotifShardingDAO_batchCreate fuel env gd nd es cb)", OF _ _ dao] laws(3,4)
    by (cases nd; cases cb) (simp_all add: assms(4) sharded_repo_def NewDefaultNotifRepo_def NewNotifShardingDAO_def
      Let_def DefaultNotifRepo_BatchCreate_def DefaultNotifRepo_BatchCreateWithCallback_def
      NotifShardingDAO_BatchCreate_def [abs_def] NotifShardingDAO_BatchCreateWithCallback_def [abs_def])
  then have "draws env rows (fuel * length ns) (DefaultSendStrategy_batchCreate ds ns)"
    unfolding DefaultSendStrategy_batchCreate_def by (intro draws_bind0 need draws_run)
  note bind = draws_bind [OF this, where L = 0, unfolded add_0_right]
  show ?thesis
    by (auto simp: DefaultSendStrategy_BatchSend_def split: option.splits intro!: bind)
qed

section \<open>The ids a batch returns\<close>

lemma io_each_draws:
  "(\<And>x. x \<in> set xs \<Longrightarrow> draws env rows (K * length x) (f x)) \<Longrightarrow>
   draws env rows (K * sum_list (map length xs)) (io_each f xs)"
proof (induction xs)
  case Nil
  then show ?case by simp
next
  case (Cons x xs)
  have "draws env rows (K * length x + (K * sum_list (map length xs) + 0)) (io_each f (x # xs))"
    unfolding io_each.simps using Cons by (intro draws_bind) simp_all
  then show ?case by (simp add: distrib_left)
qed

lemma of_type_sizes: "distinct order \<Longrightarrow> sum_list (map (\<lambda>k. length (of_type k ns)) order) \<le> length ns"
proof (induction order arbitrary: ns)
  case Nil
  then show ?case by simp
next
  case (Cons k order)
  let ?rest = "filter (\<lambda>n. ss_Type (n_StrategyConfig n) \<noteq> k) ns"
  have "of_type j ns = of_type j ?rest" if "j \<in> set order" for j
    using that Cons.prems by (auto simp: of_type_def intro: filter_cong)
  then have "sum_list (map (\<lambda>j. length (of_type j ns)) order) = sum_list (map (\<lambda>j. length (of_type j ?rest)) order)"
    by (intro arg_cong [where f = sum_list] map_cong) simp_all
  with Cons.IH [of ?rest] Cons.prems have "sum_list (map (\<lambda>j. length (of_type j ns)) order) \<le> length ?rest"
    by simp
  then show ?case
    using sum_length_filter_compl [of "\<lambda>n. ss_Type (n_StrategyConfig n) = k" ns] by (simp add: of_type_def)
qed

lemma BatchAsyncSend_loop_draws:
  assumes "gorm_laws env gd rows cbs" "generator_laws env"
    and "BatchAsyncSend_loop env ns ids w = (Inr (Inr ids'), w')"
  shows "seq_of env w' = seq_of env w + word_of_nat (length ns) \<and> rows w' = rows w \<and>
     (\<exists>new. ids' = ids @ new \<and> length new = length ns \<and> (\<forall>i \<in> set new. drawn (seq_of env w) (length ns) i))"
  using assms(3)
proof (induction ns arbitrary: ids w)
  case Nil
  then show ?case by simp
next
  case (Cons n ns)
  obtain iden w1 where i: "nextId env (n_BizId n) (n_BizKey n) w = (iden, w1)" by fastforce
  note g = nextId_draws [OF assms(2) i] and r1 = nextId_rows [OF assms(1) i]
  from Cons.prems i have "BatchAsyncSend_loop env ns (ids @ [iden]) w1 = (Inr (Inr ids'), w')"
    by (auto simp: io_nextId_def Let_def split: option.splits)
  from Cons.IH [OF this] obtain new where new: "seq_of env w' = seq_of env w1 + word_of_nat (length ns)"
    "rows w' = rows w1" "ids' = ids @ [iden] @ new" "length new = length ns"
    "\<And>i. i \<in> set new \<Longrightarrow> drawn (seq_of env w1) (length ns) i" by auto
  have "drawn (seq_of env w) (Suc (length ns)) i" if "i \<in> set (iden # new)" for i
    using that new(5) g by (auto intro: drawn_next drawn_first)
  with new g(1) r1 show ?case
    by (intro conjI exI [of _ "iden # new"]) (simp_all add: same_rows_def add.assoc)
qed

lemma drawn_disjoint:
  assumes "drawn s k i" "drawn (s + word_of_nat k) l i"
  shows "4096 < k + l"
proof (rule ccontr)
  assume *: "\<not> 4096 < k + l"
  from assms(1) obtain j where j: "j < k" "ExtractSequence i = take_bit 12 (s + word_of_nat j)"
    by (auto simp: drawn_def)
  from assms(2) obtain m where m: "m < l" "ExtractSequence i = take_bit 12 (s + word_of_nat (k + m))"
    by (auto simp: drawn_def add.assoc)
  from j m have "take_bit 12 (s + word_of_nat j) = take_bit 12 (s + word_of_nat (k + m))" by simp
  from take_bit_12_inj [OF this] j(1) m(1) * show False by simp
qed

text \<open>The dispatcher draws ids for a group of deferred notifications only, and as many as its repository may.\<close>

lemma dispatcher_group_draws:
  assumes "send_world env gd rd (dss_bizConfRepo ds) rows cbs cnt" "inserts_own env gd rows" "dao_ok nd"
    and "dss_notifRepo ds = sharded_repo fuel env gd nd rd js"
    and "\<forall>n \<in> set g. \<not> Notification_IsImmediate n"
  shows "draws env rows (fuel * length g) (st_BatchSend (NewDispatcher env ds iss) g)"
proof (cases g)
  case Nil
  then show ?thesis by (simp add: NewDispatcher_def Dispatcher_BatchSend_def Let_def)
next
  case (Cons n g')
  with assms(5) have "\<not> Notification_IsImmediate n" by simp
  with Cons default_BatchSend_draws [OF assms(1-4), of g] show ?thesis
    by (simp add: NewDispatcher_def Dispatcher_BatchSend_first Let_def)
qed

text \<open>The ids \<open>BatchAsyncSend\<close> returns name none of the rows it stores: for a batch without immediate
  notifications, over the repository and the sharded databases, no row under a returned id is
  changed by the call, so an id that was free is still free; the DAO has given the rows other ids. The
  bound keeps all ids of the call within one turn of the sequence number.\<close>

theorem BatchAsyncSend_ids_unstored:
  assumes "send_world env gd rd (dss_bizConfRepo ds) rows cbs cnt" "inserts_own env gd rows" "dao_ok nd"
    and "dss_notifRepo ds = sharded_repo fuel env gd nd rd js"
    and "\<forall>n \<in> set ns. \<not> Notification_IsImmediate n" "distinct order" "set order = send_types ns"
    and "length ns + fuel * length ns \<le> 4096"
    and "DefaultSendService_BatchAsyncSend env (NewDispatcher env ds iss) order ns w = (Inr (ids, None), w')"
  shows "length ids = length ns \<and> (\<forall>i \<in> set ids. \<forall>db t. rows w' db t i = rows w db t i)"
proof -
  let ?st = "NewDispatcher env ds iss"
  from assms(1) have laws: "gorm_laws env gd rows cbs" "generator_laws env" by (simp_all add: send_world_def)
  from assms(9) obtain r w1 where r: "ns \<noteq> []" "BatchAsyncSend_loop env ns [] w = (Inr r, w1)"
    "(case r of Inl e \<Rightarrow> io_return ([], Some e)
      | Inr ids \<Rightarrow> io_bind (send_groups ?st (strategyGroup_loop ns []) order None) (\<lambda>err.
          if err \<noteq> None then io_return ([], err) else io_return (ids, None))) w1 = (Inr (ids, None), w')"
    by (auto simp: DefaultSendService_BatchAsyncSend_def io_bind_eq_Inr split: if_splits)
  then have l: "BatchAsyncSend_loop env ns [] w = (Inr (Inr ids), w1)"
    "send_groups ?st (strategyGroup_loop ns []) order None w1 = (Inr None, w')"
    by (cases r; auto simp: io_bind_eq_Inr split: if_splits)+
  from BatchAsyncSend_loop_draws [OF laws l(1)]
  have ids: "seq_of env w1 = seq_of env w + word_of_nat (length ns)" "rows w1 = rows w" "length ids = length ns"
    "\<forall>i \<in> set ids. drawn (seq_of env w) (length ns) i" by auto
  from send_groups_ok [OF l(2), unfolded groups_of_types [OF assms(7)]] obtain rs where
    rs: "io_each (st_BatchSend ?st) (map (\<lambda>k. of_type k ns) order) w1 = (Inr rs, w')" by blast
  have "draws env rows (fuel * length g) (st_BatchSend ?st g)" if "g \<in> set (map (\<lambda>k. of_type k ns) order)" for g
    using that assms(5) by (intro dispatcher_group_draws [OF assms(1-4)]) (auto simp: of_type_def)
  from drawsD [OF io_each_draws [OF this] rs]
  have "drew env rows (fuel * sum_list (map (\<lambda>k. length (of_type k ns)) order)) w1 w'"
    by (simp add: comp_def)
  from drew_mono [OF this, of "fuel * length ns"] of_type_sizes [OF assms(6), of ns]
  have "drew env rows (fuel * length ns) w1 w'" by simp
  then obtain k where k: "k \<le> fuel * length ns"
    "\<And>d t i. rows w' d t i \<noteq> rows w1 d t i \<Longrightarrow> drawn (seq_of env w1) k i" unfolding drew_def by blast
  have "rows w' db t i = rows w db t i" if "i \<in> set ids" for db t i
  proof (rule ccontr)
    assume "rows w' db t i \<noteq> rows w db t i"
    with k(2) ids(1,2) have "drawn (seq_of env w + word_of_nat (length ns)) k i" by simp
    with drawn_disjoint ids(4) that have "4096 < length ns + k" by blast
    with k(1) assms(8) show False by simp
  qed
  with ids(3) show ?thesis by simp
qed

lemma mem_exec_own:
  "mem_exec db ss w = (e, w') \<Longrightarrow> mw_gen w' = mw_gen w \<and>
   (\<forall>d t i. mw_rows w' d t i \<noteq> mw_rows w d t i \<longrightarrow> (\<exists>t' n. InsertNotification t' n \<in> set ss \<and> ne_Id n = i))"
proof (induction db ss w rule: mem_exec.induct)
  case (2 db t' n' ss w)
  show ?case
  proof (cases "mw_rows w db t' (ne_Id n')")
    case None
    with 2 have IH: "mw_gen w' = mw_gen w" "\<And>d t i. mw_rows w' d t i \<noteq> put_row db t' (ne_Id n') n' (mw_rows w) d t i
        \<Longrightarrow> \<exists>t' n. InsertNotification t' n \<in> set ss \<and> ne_Id n = i" by auto
    have "\<exists>t n. InsertNotification t n \<in> set (InsertNotification t' n' # ss) \<and> ne_Id n = i"
      if "mw_rows w' d t i \<noteq> mw_rows w d t i" for d t i
    proof (cases "i = ne_Id n'")
      case False
      then have "put_row db t' (ne_Id n') n' (mw_rows w) d t i = mw_rows w d t i" by (simp add: put_row_def)
      with that IH(2) [of d t i] show ?thesis by auto
    qed auto
    with IH(1) show ?thesis by blast
  qed (use 2 in auto)
qed auto

lemma mem_inserts_own: "inserts_own mem_env mem_gorm mw_rows"
proof -
  have "ev_gen mem_env = mw_gen" "g_ExecInserts mem_gorm = mem_exec" by (simp_all add: mem_env_def mem_gorm_def)
  then show ?thesis using mem_exec_own unfolding inserts_own_def by metis
qed

definition delayed_notification :: Notification where
  "delayed_notification = sample_notification
     \<lparr>n_StrategyConfig := zero_StrategyConf\<lparr>ss_Type := SendStrategyDelayed, ss_Delay := 5\<rparr>\<rparr>"

lemma delayed_notification: "Notification_Validate delayed_notification now = None"
  "\<not> Notification_IsImmediate delayed_notification" "send_types [delayed_notification] = {SendStrategyDelayed}"
  "ss_Type (n_StrategyConfig delayed_notification) = SendStrategyDelayed"
proof -
  have "SendStrategyConf_Validate (zero_StrategyConf\<lparr>ss_Type := SendStrategyDelayed, ss_Delay := 5\<rparr>) now = None"
    by (simp add: SendStrategyConf_Validate_def SendStrategy_defs zero_StrategyConf_def word_sle_eq)
  then show "Notification_Validate delayed_notification now = None"
    unfolding delayed_notification_def
    by (rule Notification_Validate_with_strategy [OF sample_notification_valid])
qed (simp_all add: delayed_notification_def Notification_IsImmediate_def send_types_def SendStrategy_defs)

lemma send_start_BatchAsyncSend:
  "\<exists>ids w'. DefaultSendService_BatchAsyncSend mem_env (NewDispatcher mem_env send_default iss)
     [SendStrategyDelayed] [delayed_notification] (send_start (\<lambda>_. 1)) = (Inr (ids, None), w')"
proof -
  let ?w = "send_start (\<lambda>_. 1)" and ?n = delayed_notification
  let ?d = "\<lparr>dr_notifDAO = NewNotifShardingDAO 1 mem_env mem_gorm (nd_dbs mem_dao)
        (nd_notifShardingStrategy mem_dao) (nd_cbLogShardingStrategy mem_dao), dr_quotaCache = send_redis,
        dr_json = mark_codec\<rparr>"
  from send_mem_world have laws: "redis_laws send_redis sm_quota" "redis_up send_redis"
    "redis_leaves (\<lambda>w. (mw_rows w, mw_cbs w, ev_gen mem_env w)) send_redis"
    by (simp_all add: send_world_def)
  obtain iden w1 where i: "nextId mem_env (n_BizId ?n) (n_BizKey ?n) ?w = (iden, w1)" by fastforce
  have w1: "mw_rows w1 = (\<lambda>_ _ _. None)" "sm_quota w1 = (\<lambda>_. 1)"
    using i by (auto simp: nextId_def mem_env_def send_start_def split: prod.splits)
  have loop: "BatchAsyncSend_loop mem_env [?n] [] ?w = (Inr (Inr [iden]), w1)"
    using i by (simp add: delayed_notification(1) io_nextId_def Let_def)
  obtain w2 where d: "QuotaRedisCache_BatchDecr send_redis (buildQuotaParams [?n]) w1 = (Inr None, w2)"
    using w1(2) by (auto intro: BatchDecr_demand [OF laws(1,2), of "[?n]" w1])
  have "mw_rows w2 = (\<lambda>_ _ _. None)"
    using leavesD [OF quota_calls_leave(4) [OF laws(1,3)] d] w1(1) by simp
  from mem_batchCreate_empty [OF this, of "toEntity mark_codec ?n" True] obtain es w3 where
    c: "NotifShardingDAO_batchCreate 1 mem_env mem_gorm mem_dao (toEntities mark_codec [?n]) True w2
      = (Inr (Some (es, None)), w3)" by (auto simp: toEntities_def)
  have "dao_BatchCreateWithCallback (dr_notifDAO ?d)
      = (\<lambda>es. io_returns (NotifShardingDAO_batchCreate 1 mem_env mem_gorm mem_dao es True))"
    by (simp add: NewNotifShardingDAO_def Let_def mem_dao_def NotifShardingDAO_BatchCreateWithCallback_def [abs_def])
  with d c have "DefaultNotifRepo_BatchCreateWithCallback ?d [?n] w1 = (Inr (map (toDomain mark_codec) es, None), w3)"
    by (simp add: DefaultNotifRepo_BatchCreateWithCallback_def DefaultNotifRepo_batchCreate_def Let_def io_returns_def)
  moreover have "repo_BatchCreateWithCallback (dss_notifRepo send_default) = DefaultNotifRepo_BatchCreateWithCallback ?d"
    by (simp add: send_default_def sharded_repo_def NewDefaultNotifRepo_def Let_def)
  moreover have "needCallbackLog send_default ?n w1 = (Inr True, w1)"
    by (simp add: needCallbackLog_def send_default_def send_conf_def)
  ultimately have "\<exists>r. DefaultSendStrategy_BatchSend send_default [?n] w1 = (Inr (r, None), w3)"
    by (simp add: DefaultSendStrategy_BatchSend_def DefaultSendStrategy_batchCreate_def)
  with loop show ?thesis
    by (auto simp: DefaultSendService_BatchAsyncSend_def delayed_notification NewDispatcher_def
        Dispatcher_BatchSend_first Let_def)
qed

end
