(* ===== verification/Lookup.thy ===== *)
theory Lookup
  imports NotifDaoProps
begin

text \<open>
  Looking up notifications by their ids (\<open>GetMapByIds\<close> of \<open>repository/dao/notification.go\<close>): the ids are
  grouped by the database and table they lead to, every group is looked up in its table, and what was
  found is merged into one map. The groups are looked up by goroutines of their own, over a Go map of
  groups, so the lemmas hold for any order of the groups.
\<close>

text \<open>What the lookup asks of the store: a query changes no row, and without an error it has found exactly
  the rows under the ids. Rows are stored under their ids.\<close>

definition find_laws ::
    "'w gorm \<Rightarrow> ('w \<Rightarrow> NotifEntity tables) \<Rightarrow> ('w \<Rightarrow> CallbackLogEntity tables) \<Rightarrow> bool" where
  "find_laws gd rows cbs \<longleftrightarrow> (\<forall>db t ids w ns e w'. g_FindIn gd db t ids w = ((ns, e), w') \<longrightarrow>
     same_rows rows cbs w w' \<and> (e = None \<longrightarrow> set ns = {n. \<exists>i \<in> set ids. rows w db t i = Some n}))"

definition keyed :: "NotifEntity tables \<Rightarrow> bool" where
  "keyed rs \<longleftrightarrow> (\<forall>db t i n. rs db t i = Some n \<longrightarrow> ne_Id n = i)"

lemma keyed_put_row: "keyed rs \<Longrightarrow> keyed (put_row db t (ne_Id n) n rs)"
  by (auto simp: keyed_def put_row_def)

section \<open>Groups\<close>

definition id_table :: "HashStrategy \<Rightarrow> u64 \<Rightarrow> (string \<times> string) option" where
  "id_table h i = (case HashStrategy_ShardWithId h i of Inl _ \<Rightarrow> None | Inr d \<Rightarrow> Some (dst_DB d, dst_Table d))"

definition ids_at :: "(string \<times> string) \<Rightarrow> ((string \<times> string) \<times> u64 list) list \<Rightarrow> u64 list" where
  "ids_at key idMap = (case map_of idMap key of Some val \<Rightarrow> val | None \<Rightarrow> [])"

lemma group_ids_groups:
  assumes "group_ids h ids idMap = Inr idMap'" "distinct (map fst idMap)"
  shows "distinct (map fst idMap') \<and>
     (\<forall>key. ids_at key idMap' = ids_at key idMap @ filter (\<lambda>i. id_table h i = Some key) ids) \<and>
     (\<forall>i \<in> set ids. id_table h i \<noteq> None)"
  using assms
proof (induction ids arbitrary: idMap)
  case Nil
  then show ?case by simp
next
  case (Cons i ids)
  from Cons.prems(1) obtain d where d: "HashStrategy_ShardWithId h i = Inr d"
    by (auto simp: run_bind_eq_Inr)
  let ?key = "(dst_DB d, dst_Table d)"
  let ?m = "AList.update ?key (ids_at ?key idMap @ [i]) idMap"
  have "group_ids h ids ?m = Inr idMap'"
    using Cons.prems(1) d by (auto simp: ids_at_def Let_def split: option.splits)
  moreover have "distinct (map fst ?m)" using Cons.prems(2) by (rule distinct_update)
  ultimately have IH: "distinct (map fst idMap')"
    "\<And>key. ids_at key idMap' = ids_at key ?m @ filter (\<lambda>i. id_table h i = Some key) ids"
    "\<forall>i \<in> set ids. id_table h i \<noteq> None"
    using Cons.IH by blast+
  have "ids_at key ?m = (if key = ?key then ids_at ?key idMap @ [i] else ids_at key idMap)" for key
    by (simp add: ids_at_def update_conv')
  with IH d show ?case by (auto simp: id_table_def)
qed

lemma merged_rows:
  assumes "\<forall>n \<in> set ns. f (ne_Id n) = Some n"
  shows "map_of (fold (\<lambda>n m. AList.update (ne_Id n) n m) ns m) i
     = (if i \<in> ne_Id ` set ns then f i else map_of m i)"
  using assms
proof (induction ns arbitrary: m)
  case Nil
  then show ?case by simp
next
  case (Cons n ns)
  then show ?case by (auto simp: update_conv')
qed

definition row_of :: "HashStrategy \<Rightarrow> NotifEntity tables \<Rightarrow> u64 \<Rightarrow> NotifEntity option" where
  "row_of h rs i = (case id_table h i of None \<Rightarrow> None | Some (db, t) \<Rightarrow> rs db t i)"

text \<open>Merging what one \<open>IN\<close> query found for the ids \<open>ids\<close> of the table \<open>t\<close>.\<close>

lemma merged_group:
  assumes "keyed rs" "\<forall>i \<in> set ids. id_table h i = Some (db, t)"
    and ns: "set ns = {n. \<exists>i \<in> set ids. rs db t i = Some n}"
  shows "map_of (fold (\<lambda>n m. AList.update (ne_Id n) n m) ns m) i =
    (if i \<in> set ids \<and> row_of h rs i \<noteq> None then row_of h rs i else map_of m i)"
proof -
  have keys: "\<forall>n \<in> set ns. rs db t (ne_Id n) = Some n" using ns assms(1) by (auto simp: keyed_def)
  have row: "row_of h rs i = rs db t i" if "i \<in> set ids" for i
    using that assms(2) by (simp add: row_of_def)
  have "i \<in> ne_Id ` set ns \<longleftrightarrow> i \<in> set ids \<and> rs db t i \<noteq> None"
    using ns assms(1) by (force simp: keyed_def)
  with merged_rows [where f = "rs db t", OF keys, of m i] row show ?thesis by auto
qed

lemma find_groups_rows:
  assumes "find_laws gd rows cbs" "keyed (rows w)"
    and "\<forall>((db, t), ids) \<in> set groups. \<forall>i \<in> set ids. id_table h i = Some (db, t)"
  shows "\<exists>m' err' w'. find_groups gd nd groups m err w = (Inr (m', err'), w') \<and> same_rows rows cbs w w' \<and>
     (err' = None \<longrightarrow> err = None \<and> (\<forall>i. map_of m' i =
        (if i \<in> \<Union> (set ` snd ` set groups) \<and> row_of h (rows w) i \<noteq> None then row_of h (rows w) i else map_of m i)))"
  using assms(2,3)
proof (induction groups arbitrary: m err w)
  case Nil
  then show ?case by simp
next
  case (Cons g groups)
  obtain db t ids where g: "g = ((db, t), ids)" by (metis prod.collapse)
  with Cons.prems(2) have ids: "\<forall>i \<in> set ids. id_table h i = Some (db, t)"
    and rest: "\<forall>((db, t), ids) \<in> set groups. \<forall>i \<in> set ids. id_table h i = Some (db, t)" by auto
  show ?case
  proof (cases "nd_dbs nd db")
    case False
    from Cons.IH [OF Cons.prems(1) rest, of m "if err = None then Some failed_to_load else err"] obtain m' err' w'
      where "find_groups gd nd groups m (if err = None then Some failed_to_load else err) w = (Inr (m', err'), w')"
        "same_rows rows cbs w w'" "err' \<noteq> None" by (auto split: if_splits)
    with g False show ?thesis by (intro exI [of _ m'] exI [of _ err'] exI [of _ w']) (simp del: not_None_eq)
  next
    case True
    obtain ns e w1 where f: "g_FindIn gd db t ids w = ((ns, e), w1)" by (metis prod.collapse)
    with assms(1) have w1: "same_rows rows cbs w w1"
      and ns: "e = None \<Longrightarrow> set ns = {n. \<exists>i \<in> set ids. rows w db t i = Some n}"
      unfolding find_laws_def by blast+
    let ?m = "fold (\<lambda>n m. AList.update (ne_Id n) n m) ns m"
    let ?e = "if err = None then e else err"
    from w1 Cons.prems(1) have "keyed (rows w1)" by (simp add: same_rows_def)
    from Cons.IH [OF this rest, of ?m ?e] obtain m' err' w' where
      r: "find_groups gd nd groups ?m ?e w1 = (Inr (m', err'), w')" "same_rows rows cbs w1 w'"
      "err' = None \<longrightarrow> ?e = None \<and> (\<forall>i. map_of m' i = (if i \<in> \<Union> (set ` snd ` set groups) \<and>
          row_of h (rows w1) i \<noteq> None then row_of h (rows w1) i else map_of ?m i))" by blast
    have "map_of m' i = (if i \<in> \<Union> (set ` snd ` set (g # groups)) \<and> row_of h (rows w) i \<noteq> None
        then row_of h (rows w) i else map_of m i)" if "err' = None" for i
    proof -
      from that r(3) have "e = None" by (auto split: if_splits)
      from merged_group [OF Cons.prems(1) ids ns [OF this], of m i] that r(3) w1 g show ?thesis
        by (auto simp: same_rows_def)
    qed
    with f r w1 g True show ?thesis
      by (intro exI [of _ m'] exI [of _ err'] exI [of _ w']) (auto intro: same_rows_trans split: if_splits)
  qed
qed

lemma group_ids_total: "(\<And>i. \<exists>d. HashStrategy_ShardWithId h i = Inr d) \<Longrightarrow> \<exists>m'. group_ids h ids m = Inr m'"
proof (induction ids arbitrary: m)
  case (Cons i ids)
  obtain d where "HashStrategy_ShardWithId h i = Inr d" using Cons.prems by blast
  with Cons show ?case by (simp add: Let_def)
qed simp

text \<open>A lookup of ids changes no row, and without an error its map holds exactly the rows stored under the
  ids in the tables they lead to: each of them, and nothing else, however many ids share a table, are
  repeated or name no row.\<close>

lemma GetMapByIds_rows:
  assumes "find_laws gd rows cbs" "keyed (rows w)"
    and "\<And>i. \<exists>d. HashStrategy_ShardWithId (nd_notifShardingStrategy nd) i = Inr d"
  shows "\<exists>m err w'. NotifShardingDAO_GetMapByIds gd nd ids w = (Inr (m, err), w') \<and> same_rows rows cbs w w' \<and>
     (err = None \<longrightarrow> (\<forall>i. map_of m i =
        (if i \<in> set ids then row_of (nd_notifShardingStrategy nd) (rows w) i else None)))"
proof -
  let ?h = "nd_notifShardingStrategy nd"
  obtain idMap where m: "group_ids ?h ids [] = Inr idMap" using group_ids_total [OF assms(3)] by blast
  from group_ids_groups [OF this] have d: "distinct (map fst idMap)"
    and g: "\<And>key. ids_at key idMap = filter (\<lambda>i. id_table ?h i = Some key) ids"
    and t: "\<forall>i \<in> set ids. id_table ?h i \<noteq> None"
    by (simp_all add: ids_at_def [of _ "[]"] del: split_paired_All not_None_eq)
  have at: "ids_at key idMap = val" if "(key, val) \<in> set idMap" for key val
    using that d by (simp add: ids_at_def)
  have "\<forall>((db, t), val) \<in> set idMap. \<forall>i \<in> set val. id_table ?h i = Some (db, t)"
    using at g by fastforce
  from find_groups_rows [OF assms(1,2) this, of nd "[]" None] obtain m' err' w' where
    f: "find_groups gd nd idMap [] None w = (Inr (m', err'), w')" "same_rows rows cbs w w'"
    "err' = None \<longrightarrow> (\<forall>i. map_of m' i = (if i \<in> \<Union> (set ` snd ` set idMap) \<and> row_of ?h (rows w) i \<noteq> None
       then row_of ?h (rows w) i else None))" by auto
  have "i \<in> \<Union> (set ` snd ` set idMap)" if i: "i \<in> set ids" for i
  proof -
    from t i obtain key where key: "id_table ?h i = Some key" by blast
    with i have "i \<in> set (ids_at key idMap)" by (simp add: g)
    then have "map_of idMap key = Some (ids_at key idMap)"
      by (cases "map_of idMap key") (simp_all add: ids_at_def)
    then have "(key, ids_at key idMap) \<in> set idMap" by (rule map_of_SomeD)
    with \<open>i \<in> set (ids_at key idMap)\<close> show ?thesis by force
  qed
  moreover have "i \<in> set ids" if "i \<in> \<Union> (set ` snd ` set idMap)" for i
    using that at g by fastforce
  ultimately have ids: "\<Union> (set ` snd ` set idMap) = set ids" by blast
  have "map_of m' i = (if i \<in> set ids then row_of ?h (rows w) i else None)" if "err' = None" for i
  proof -
    from f(3) that have "map_of m' i = (if i \<in> set ids \<and> row_of ?h (rows w) i \<noteq> None
        then row_of ?h (rows w) i else None)" unfolding ids by blast
    then show ?thesis by (cases "row_of ?h (rows w) i") simp_all
  qed
  with m f(1,2) show ?thesis by (simp add: NotifShardingDAO_GetMapByIds_def)
qed

text \<open>The memory obeys the laws.\<close>

lemma set_map_filter: "set (List.map_filter f xs) = {y. \<exists>x \<in> set xs. f x = Some y}"
  by (induction xs) (auto simp: map_filter_simps split: option.splits)

lemma mem_find_laws: "find_laws mem_gorm mw_rows mw_cbs"
  by (simp add: find_laws_def mem_gorm_def same_rows_def set_map_filter)

lemma ShardWithId_total: "dao_ok nd \<Longrightarrow> \<exists>d. HashStrategy_ShardWithId (nd_notifShardingStrategy nd) i = Inr d"
  using dvd_nonzero by (auto simp: dao_ok_def ShardWithId_eq)

end
