(* ===== verification/RowInvariants.thy ===== *)
theory RowInvariants
  imports BatchRun Lookup
begin

text \<open>
  What every operation of the notification DAO keeps of the rows: a stored row is in the database and table
  its business key and its id lead to, and never leaves it; only its status, its version and the time of its
  last update change. The operations of any number of callers follow one another in any order
  (\<open>dao_call\<close>); a transaction is one step of the store.
\<close>

definition placed :: "'w env \<Rightarrow> NotifShardingDAO \<Rightarrow> NotifEntity tables \<Rightarrow> bool" where
  "placed env nd rs \<longleftrightarrow> (\<forall>db t i n. rs db t i = Some n \<longrightarrow> placed_row env nd db t i n)"

text \<open>Rows that agree but for the status, the version and the time of the last update.\<close>

definition content :: "NotifEntity \<Rightarrow> NotifEntity" where
  "content n = n\<lparr>ne_Status := [], ne_Version := 0, ne_UpdatedAt := 0\<rparr>"

definition same_content :: "NotifEntity \<Rightarrow> NotifEntity \<Rightarrow> bool" where
  "same_content n n' \<longleftrightarrow> content n' = content n"

definition evolves :: "'w env \<Rightarrow> NotifShardingDAO \<Rightarrow> NotifEntity tables \<Rightarrow> NotifEntity tables \<Rightarrow> bool" where
  "evolves env nd rs rs' \<longleftrightarrow> (\<forall>db t i.
     (\<forall>n. rs db t i = Some n \<longrightarrow> (\<exists>n'. rs' db t i = Some n' \<and> same_content n n')) \<and>
     (\<forall>n'. rs db t i = None \<longrightarrow> rs' db t i = Some n' \<longrightarrow> placed_row env nd db t i n'))"

lemma same_content_refl [simp]: "same_content n n"
  by (simp add: same_content_def)

lemma same_content_fields:
  assumes "same_content n n'"
  shows "ne_Id n' = ne_Id n" "ne_BizId n' = ne_BizId n" "ne_BizKey n' = ne_BizKey n"
  using arg_cong [OF assms [unfolded same_content_def], of ne_Id] arg_cong [OF assms [unfolded same_content_def], of ne_BizId]
    arg_cong [OF assms [unfolded same_content_def], of ne_BizKey]
  by (simp_all add: content_def)

lemma same_content_trans: "same_content n n1 \<Longrightarrow> same_content n1 n2 \<Longrightarrow> same_content n n2"
  by (simp add: same_content_def)

lemma same_content_update: "same_content n (n\<lparr>ne_Status := s, ne_Version := v, ne_UpdatedAt := u\<rparr>)"
  by (simp add: same_content_def content_def)

lemma placed_row_content: "placed_row env nd db t i n \<Longrightarrow> same_content n n' \<Longrightarrow> placed_row env nd db t i n'"
  by (simp add: placed_row_def same_content_fields)

lemma evolves_refl [simp]: "evolves env nd rs rs"
  by (simp add: evolves_def)

lemma evolves_Some: "evolves env nd rs rs' \<Longrightarrow> rs db t i = Some n \<Longrightarrow> \<exists>n'. rs' db t i = Some n' \<and> same_content n n'"
  by (simp add: evolves_def)

lemma evolves_None: "evolves env nd rs rs' \<Longrightarrow> rs db t i = None \<Longrightarrow> rs' db t i = Some n \<Longrightarrow> placed_row env nd db t i n"
  by (simp add: evolves_def)

lemma evolves_trans:
  assumes "evolves env nd rs rs1" "evolves env nd rs1 rs2"
  shows "evolves env nd rs rs2"
  unfolding evolves_def
proof (intro allI conjI impI)
  fix db t i n assume "rs db t i = Some n"
  from evolves_Some [OF assms(1) this] obtain n1 where n1: "rs1 db t i = Some n1" "same_content n n1" by blast
  from evolves_Some [OF assms(2) n1(1)] n1(2) show "\<exists>n'. rs2 db t i = Some n' \<and> same_content n n'"
    by (blast intro: same_content_trans)
next
  fix db t i n assume n: "rs db t i = None" "rs2 db t i = Some n"
  show "placed_row env nd db t i n"
  proof (cases "rs1 db t i")
    case None
    with evolves_None [OF assms(2)] n(2) show ?thesis by blast
  next
    case (Some n1)
    from evolves_Some [OF assms(2) Some] n(2) evolves_None [OF assms(1) n(1) Some] show ?thesis
      by (auto intro: placed_row_content)
  qed
qed

lemma evolves_placed:
  assumes "evolves env nd rs rs'" "placed env nd rs"
  shows "placed env nd rs'"
  unfolding placed_def
proof (intro allI impI)
  fix db t i n assume n: "rs' db t i = Some n"
  show "placed_row env nd db t i n"
  proof (cases "rs db t i")
    case None
    with evolves_None [OF assms(1)] n show ?thesis by blast
  next
    case (Some m)
    with assms(2) have "placed_row env nd db t i m" by (simp add: placed_def)
    with evolves_Some [OF assms(1) Some] n show ?thesis by (auto intro: placed_row_content)
  qed
qed

lemma evolves_put_new: "rs db t i = None \<Longrightarrow> placed_row env nd db t i n \<Longrightarrow> evolves env nd rs (put_row db t i n rs)"
  by (auto simp: evolves_def put_row_def)

lemma evolves_put_changed: "rs db t i = Some n \<Longrightarrow> same_content n n' \<Longrightarrow> evolves env nd rs (put_row db t i n' rs)"
  by (auto simp: evolves_def put_row_def)

section \<open>What the store does in an insert and an update\<close>

definition write_laws :: "'w gorm \<Rightarrow> ('w \<Rightarrow> NotifEntity tables) \<Rightarrow> bool" where
  "write_laws gd rows \<longleftrightarrow>
     (\<forall>db ss w e w' d t i n. g_ExecInserts gd db ss w = (e, w') \<longrightarrow> rows w d t i = None \<longrightarrow> rows w' d t i = Some n \<longrightarrow>
        d = db \<and> ne_Id n = i \<and> InsertNotification t n \<in> set ss) \<and>
     (\<forall>db t i s now w e w'. g_UpdateStatus gd db t i s now w = (e, w') \<longrightarrow> rows w' = rows w \<or>
        (\<exists>n. rows w db t i = Some n \<and> rows w' = put_row db t i
           (n\<lparr>ne_Status := s, ne_Version := ne_Version n + 1, ne_UpdatedAt := now\<rparr>) (rows w))) \<and>
     (\<forall>db t i s now w e w'. g_UpdateCbStatus gd db t i s now w = (e, w') \<longrightarrow> rows w' = rows w) \<and>
     (\<forall>db t b k w r w'. g_FirstByKey gd db t b k w = (r, w') \<longrightarrow> rows w' = rows w)"

lemma write_insert: "write_laws gd rows \<Longrightarrow> g_ExecInserts gd db ss w = (e, w') \<Longrightarrow> rows w d t i = None \<Longrightarrow>
    rows w' d t i = Some n \<Longrightarrow> d = db \<and> ne_Id n = i \<and> InsertNotification t n \<in> set ss"
  unfolding write_laws_def by metis

lemma write_status: "write_laws gd rows \<Longrightarrow> g_UpdateStatus gd db t i s now w = (e, w') \<Longrightarrow> rows w' = rows w \<or>
    (\<exists>n. rows w db t i = Some n \<and> rows w' = put_row db t i
       (n\<lparr>ne_Status := s, ne_Version := ne_Version n + 1, ne_UpdatedAt := now\<rparr>) (rows w))"
  by (simp add: write_laws_def)

lemma write_none: "write_laws gd rows \<Longrightarrow> g_UpdateCbStatus gd db t i s now w = (e, w') \<Longrightarrow> rows w' = rows w"
    "write_laws gd rows \<Longrightarrow> g_FirstByKey gd db t b k w = (r, w') \<Longrightarrow> rows w' = rows w"
  by (simp_all add: write_laws_def)

lemma UpdateStatus_evolves:
  assumes "write_laws gd rows" "g_UpdateStatus gd db t i s now w = (e, w')"
  shows "evolves env nd (rows w) (rows w')"
proof -
  from write_status [OF assms] consider "rows w' = rows w" | n where "rows w db t i = Some n"
      "rows w' = put_row db t i (n\<lparr>ne_Status := s, ne_Version := ne_Version n + 1, ne_UpdatedAt := now\<rparr>) (rows w)"
    by blast
  then show ?thesis
  proof cases
    case (2 n)
    then show ?thesis by (metis evolves_put_changed same_content_update)
  qed simp
qed

lemma transaction_keeps:
  assumes "gorm_laws env gd rows cbs" "\<And>w e w'. f w = (e, w') \<Longrightarrow> I w \<Longrightarrow> I w'"
    and "\<And>w w'. same_rows rows cbs w w' \<Longrightarrow> I w \<Longrightarrow> I w'" "I w" "transaction gd db f w = (r, w')"
  shows "I w'"
proof -
  let ?f = "\<lambda>n w. case f w of (err, w') \<Rightarrow> ((n, err), w')"
  obtain n e where g: "g_Transaction gd db ?f zero_NotifEntity w = ((n, e), w')"
    using assms(5) by (auto simp: transaction_def split: prod.splits) (metis prod.collapse)
  show ?thesis
  proof (cases e)
    case None
    from gorm_Transaction [OF assms(1) g [unfolded None]] obtain w0 w1 where
      t: "same_rows rows cbs w w0" "?f zero_NotifEntity w0 = ((n, None), w1)" "same_rows rows cbs w1 w'" by blast
    from t(2) have "f w0 = (None, w1)" by (auto split: prod.splits)
    with assms(2-4) t(1,3) show ?thesis by blast
  next
    case (Some err)
    with gorm_Rollback [OF assms(1)] g have "same_rows rows cbs w w'" by blast
    with assms(3,4) show ?thesis by blast
  qed
qed

lemma transaction_evolves:
  assumes "gorm_laws env gd rows cbs" "\<And>w e w'. f w = (e, w') \<Longrightarrow> evolves env nd (rows w) (rows w')"
    and "transaction gd db f w = (r, w')"
  shows "evolves env nd (rows w) (rows w')"
  by (rule transaction_keeps [where I = "\<lambda>w1. evolves env nd (rows w) (rows w1)", OF assms(1) _ _ _ assms(3)])
    (auto simp: same_rows_def intro: evolves_trans [OF _ assms(2)])

section \<open>The batch\<close>

text \<open>What the insertion of notifications \<open>es\<close> does to the rows, however it ends: it keeps them, and every new
  row is a copy of one of \<open>es\<close> under an id of its own, in its place.\<close>

definition grows :: "'w env \<Rightarrow> NotifShardingDAO \<Rightarrow> NotifEntity list \<Rightarrow> NotifEntity tables \<Rightarrow> NotifEntity tables \<Rightarrow> bool" where
  "grows env nd es rs rs' \<longleftrightarrow> (\<forall>db t i n. rs db t i = Some n \<longrightarrow> rs' db t i = Some n) \<and>
     (\<forall>db t i n. rs db t i = None \<longrightarrow> rs' db t i = Some n \<longrightarrow> placed_row env nd db t i n \<and> copy_of es n)"

lemma grows_refl [simp]: "grows env nd es rs rs"
  by (simp add: grows_def)

lemma grows_Some: "grows env nd es rs rs' \<Longrightarrow> rs db t i = Some n \<Longrightarrow> rs' db t i = Some n"
  by (simp add: grows_def)

lemma grows_None: "grows env nd es rs rs' \<Longrightarrow> rs db t i = None \<Longrightarrow> rs' db t i = Some n \<Longrightarrow>
    placed_row env nd db t i n \<and> copy_of es n"
  by (simp add: grows_def)

lemma grows_trans:
  assumes "grows env nd es rs rs1" "grows env nd es rs1 rs2"
  shows "grows env nd es rs rs2"
  unfolding grows_def
proof (rule conjI; intro allI impI)
  fix db t i n assume "rs db t i = Some n"
  from grows_Some [OF assms(2) grows_Some [OF assms(1) this]] show "rs2 db t i = Some n" .
next
  fix db t i n assume n: "rs db t i = None" "rs2 db t i = Some n"
  show "placed_row env nd db t i n \<and> copy_of es n"
  proof (cases "rs1 db t i")
    case None
    from grows_None [OF assms(2) None n(2)] show ?thesis .
  next
    case (Some m)
    with grows_Some [OF assms(2) Some] n(2) have "rs1 db t i = Some n" by simp
    from grows_None [OF assms(1) n(1) this] show ?thesis .
  qed
qed

lemma grows_evolves: "grows env nd es rs rs' \<Longrightarrow> evolves env nd rs rs'"
  by (auto simp: grows_def evolves_def)

lemma batchCreate_grows:
  assumes "gorm_laws env gd rows cbs" "write_laws gd rows" "dao_ok nd"
    and "NotifShardingDAO_batchCreate fuel env gd nd ns cb w = (r, w')"
  shows "grows env nd (stamped_batch env w ns) (rows w) (rows w') \<and> (\<exists>r'. r = Inr r')"
proof (rule batchCreate_keeps [where I = "\<lambda>w1. grows env nd (stamped_batch env w ns) (rows w) (rows w1)", OF assms(1,3) _ _ _ assms(4)]; (intro allI impI)?)
  fix db sqls w1 e w2
  assume g: "grows env nd (stamped_batch env w ns) (rows w) (rows w1)"
    and b: "batch_stmts env nd db (stamped_batch env w ns) sqls" and x: "g_ExecInserts gd db sqls w1 = (e, w2)"
  from b have "grows env nd (stamped_batch env w ns) (rows w1) (rows w2)"
    using gorm_ExecInserts [OF assms(1) x] write_insert [OF assms(2) x] unfolding grows_def batch_stmts_def by blast
  with g show "grows env nd (stamped_batch env w ns) (rows w) (rows w2)" by (rule grows_trans)
qed (simp_all add: same_rows_def)

lemmas batchCreate_evolves = grows_evolves [OF conjunct1 [OF batchCreate_grows]]

section \<open>Every operation\<close>

lemma create_evolves:
  assumes "gorm_laws env gd rows cbs" "dao_ok nd" "NotifShardingDAO_create env gd nd n cb w = (r, w')"
  shows "evolves env nd (rows w) (rows w')"
proof -
  from assms(3) obtain n' e where r: "r = Inr (n', e)" by (auto simp: create_eq [OF assms(2)] Let_def split: prod.splits)
  show ?thesis
  proof (cases e)
    case None
    with create_None [OF assms(1,2)] assms(3) r have
      *: "n' = (stamped env w n)\<lparr>ne_Id := ne_Id n'\<rparr>" "generated_id (ev_xxh env) (ne_BizId n) (ne_BizKey n) (ne_Id n')"
        "rows w (dst_DB (row_dst env nd (ne_BizId n) (ne_BizKey n)))
          (dst_Table (row_dst env nd (ne_BizId n) (ne_BizKey n))) (ne_Id n') = None"
        "rows w' = put_row (dst_DB (row_dst env nd (ne_BizId n) (ne_BizKey n)))
          (dst_Table (row_dst env nd (ne_BizId n) (ne_BizKey n))) (ne_Id n') n' (rows w)" by blast+
    have "ne_BizId n' = ne_BizId n" "ne_BizKey n' = ne_BizKey n" by (subst *(1), simp add: stamped_def)+
    with * show ?thesis by (simp add: evolves_put_new placed_row_def)
  next
    case (Some err)
    with create_Some [OF assms(1,2)] assms(3) r show ?thesis by (simp add: same_rows_def)
  qed
qed

text \<open>The transaction of both marks; that of a success goes on with the callback log in the table \<open>t'\<close>.\<close>

definition mark_tx ::
    "'w gorm \<Rightarrow> string \<Rightarrow> string \<Rightarrow> string option \<Rightarrow> NotifEntity \<Rightarrow> i64 \<Rightarrow> 'w \<Rightarrow> go_error option \<times> 'w" where
  "mark_tx gd db t cb n now w = (case g_UpdateStatus gd db t (ne_Id n) (ne_Status n) now w of
      (Some err, w') \<Rightarrow> (Some err, w')
    | (None, w') \<Rightarrow> (case cb of None \<Rightarrow> (None, w')
        | Some t' \<Rightarrow> g_UpdateCbStatus gd db t' (ne_Id n) CallbackStatusPending now w'))"

lemma mark_tx_Some: "mark_tx gd db t (Some t') n now = (\<lambda>w. case g_UpdateStatus gd db t (ne_Id n) (ne_Status n) now w of
      (Some err, w') \<Rightarrow> (Some err, w')
    | (None, w') \<Rightarrow> g_UpdateCbStatus gd db t' (ne_Id n) CallbackStatusPending now w')"
  by (simp add: mark_tx_def fun_eq_iff split: prod.splits option.splits)

lemma mark_tx_None: "mark_tx gd db t None n now = g_UpdateStatus gd db t (ne_Id n) (ne_Status n) now"
  by (simp add: mark_tx_def fun_eq_iff split: prod.splits option.splits)

lemma Mark_cases:
  shows "NotifShardingDAO_MarkSuccess env gd nd n w = (r, w') \<Longrightarrow> w' = w \<and> r \<noteq> Inr None \<or>
    (\<exists>db t c. id_table (nd_notifShardingStrategy nd) (ne_Id n) = Some (db, t) \<and>
       HashStrategy_ShardWithId (nd_cbLogShardingStrategy nd) (ne_Id n) = Inr c \<and>
       transaction gd db (mark_tx gd db t (Some (dst_Table c)) n (Time_UnixMilli (ev_now env w))) w = (r, w'))"
    and "NotifShardingDAO_MarkFailure env gd nd n w = (r, w') \<Longrightarrow> w' = w \<and> r \<noteq> Inr None \<or>
    (\<exists>db t. id_table (nd_notifShardingStrategy nd) (ne_Id n) = Some (db, t) \<and>
       transaction gd db (mark_tx gd db t None n (Time_UnixMilli (ev_now env w))) w = (r, w'))"
  by (auto simp: NotifShardingDAO_MarkSuccess_def NotifShardingDAO_MarkFailure_def io_NowMilli_def io_bind_def id_table_def
      mark_tx_Some mark_tx_None split: sum.splits if_splits)

lemma Mark_evolves:
  assumes "gorm_laws env gd rows cbs" "write_laws gd rows"
  shows "NotifShardingDAO_MarkSuccess env gd nd n w = (r, w') \<Longrightarrow> evolves env nd (rows w) (rows w')"
    and "NotifShardingDAO_MarkFailure env gd nd n w = (r, w') \<Longrightarrow> evolves env nd (rows w) (rows w')"
proof -
  have "evolves env nd (rows w) (rows w')" if c: "mark_tx gd db t cb n now w = (e, w')" for db t cb now w e w'
  proof -
    obtain e1 w1 where u: "g_UpdateStatus gd db t (ne_Id n) (ne_Status n) now w = (e1, w1)" by fastforce
    from c u have "rows w' = rows w1"
      by (cases e1; cases cb) (auto simp: mark_tx_def dest: write_none(1) [OF assms(2)])
    with UpdateStatus_evolves [OF assms(2) u] show ?thesis by simp
  qed
  then have tx: "evolves env nd (rows w) (rows w')" if "transaction gd db (mark_tx gd db t cb n now) w = (r, w')"
    for db t cb now
    by (rule transaction_evolves [OF assms(1) _ that])
  show "NotifShardingDAO_MarkSuccess env gd nd n w = (r, w') \<Longrightarrow> evolves env nd (rows w) (rows w')"
    and "NotifShardingDAO_MarkFailure env gd nd n w = (r, w') \<Longrightarrow> evolves env nd (rows w) (rows w')"
    using tx by (auto dest: Mark_cases)
qed

lemma CompareAndSwap_evolves:
  assumes "gorm_laws env gd rows cbs" "NotifShardingDAO_CompareAndSwapStatus env gd nd n w = (r, w')"
  shows "evolves env nd (rows w) (rows w')"
proof -
  let ?u = "\<lambda>db t. g_UpdateStatusVersion gd db t (ne_Id n) (ne_Version n) (ne_Status n) (Time_UnixMilli (ev_now env w)) w"
  have u: "evolves env nd (rows w) (rows (snd (?u db t)))" for db t
  proof -
    obtain e k w1 where x: "?u db t = ((e, k), w1)" by (metis prod.collapse)
    from gorm_UpdateStatusVersion [OF assms(1) x] show ?thesis
      by (auto simp: x intro: evolves_put_changed same_content_update split: if_splits)
  qed
  from assms(2) consider "w' = w" | db t where "w' = snd (?u db t)"
    by (auto simp: NotifShardingDAO_CompareAndSwapStatus_def io_NowMilli_def io_bind_def
        split: sum.splits if_splits prod.splits)
  then show ?thesis by cases (use u in simp_all)
qed

text \<open>A lookup leaves alone what the queries leave alone.\<close>

lemma find_groups_leaves:
  "(\<And>db t ids w. v (snd (g_FindIn gd db t ids w)) = v w) \<Longrightarrow> v (snd (find_groups gd nd groups m err w)) = v w"
proof (induction groups arbitrary: m err w)
  case (Cons g groups)
  obtain db t ids where g: "g = ((db, t), ids)" by (metis prod.collapse)
  obtain ns e w1 where f: "g_FindIn gd db t ids w = ((ns, e), w1)" by (metis prod.collapse)
  with Cons.prems [of db t ids w] have "v w1 = v w" by simp
  with Cons f g show ?case by simp
qed simp

lemma lookup_leaves_view:
  assumes "\<And>db t i w. v (snd (g_First gd db t i w)) = v w" "\<And>db t b k w. v (snd (g_FirstByKey gd db t b k w)) = v w"
    and "\<And>db t ids w. v (snd (g_FindIn gd db t ids w)) = v w"
  shows "v (snd (NotifShardingDAO_GetById gd nd i w)) = v w"
    and "v (snd (NotifShardingDAO_GetByKey env gd nd b k w)) = v w"
    and "v (snd (NotifShardingDAO_GetMapByIds gd nd ids w)) = v w"
  by (simp_all add: NotifShardingDAO_GetById_def NotifShardingDAO_GetByKey_def NotifShardingDAO_GetMapByIds_def
      io_bind_def assms(1,2) find_groups_leaves [of v, OF assms(3)] split: sum.splits prod.splits)

lemma lookup_leaves:
  assumes "gorm_laws env gd rows cbs" "write_laws gd rows" "find_laws gd rows cbs"
  shows "rows (snd (NotifShardingDAO_GetById gd nd i w)) = rows w"
    and "rows (snd (NotifShardingDAO_GetByKey env gd nd b k w)) = rows w"
    and "rows (snd (NotifShardingDAO_GetMapByIds gd nd ids w)) = rows w"
proof -
  have "rows (snd (g_First gd db t i w)) = rows w" "rows (snd (g_FirstByKey gd db t b k w)) = rows w"
    "rows (snd (g_FindIn gd db t ids w)) = rows w" for db t i b k ids w
    using gorm_First [OF assms(1), of db t i w] write_none(2) [OF assms(2), of db t b k w] assms(3)
    by (auto simp: same_rows_def find_laws_def) (metis prod.collapse)+
  note view = lookup_leaves_view [of rows gd, OF this]
  show "rows (snd (NotifShardingDAO_GetById gd nd i w)) = rows w"
    "rows (snd (NotifShardingDAO_GetByKey env gd nd b k w)) = rows w"
    "rows (snd (NotifShardingDAO_GetMapByIds gd nd ids w)) = rows w" by (rule view)+
qed

section \<open>Any sequence of calls\<close>

text \<open>A call of an operation by anyone, with any arguments and any outcome; between the calls the state
  changes as it likes, but for what \<open>view\<close> sees of it: the rows.\<close>

inductive dao_call ::
    "'w env \<Rightarrow> 'w gorm \<Rightarrow> NotifShardingDAO \<Rightarrow> ('w \<Rightarrow> 'v) \<Rightarrow> 'w \<Rightarrow> 'w \<Rightarrow> bool"
  for env gd nd view where
  create_called: "NotifShardingDAO_create env gd nd n cb w = (r, w') \<Longrightarrow> dao_call env gd nd view w w'"
| batchCreate_called: "NotifShardingDAO_batchCreate fuel env gd nd ns cb w = (r, w') \<Longrightarrow> dao_call env gd nd view w w'"
| BatchUpdateStatus_called: "NotifShardingDAO_BatchUpdateStatus env gd nd good bad w = (r, w') \<Longrightarrow>
     dao_call env gd nd view w w'"
| MarkSuccess_called: "NotifShardingDAO_MarkSuccess env gd nd n w = (r, w') \<Longrightarrow> dao_call env gd nd view w w'"
| MarkFailure_called: "NotifShardingDAO_MarkFailure env gd nd n w = (r, w') \<Longrightarrow> dao_call env gd nd view w w'"
| CompareAndSwap_called: "NotifShardingDAO_CompareAndSwapStatus env gd nd n w = (r, w') \<Longrightarrow>
     dao_call env gd nd view w w'"
| GetById_called: "dao_call env gd nd view w (snd (NotifShardingDAO_GetById gd nd i w))"
| GetByKey_called: "dao_call env gd nd view w (snd (NotifShardingDAO_GetByKey env gd nd b k w))"
| GetMapByIds_called: "dao_call env gd nd view w (snd (NotifShardingDAO_GetMapByIds gd nd ids w))"
| between_calls: "view w' = view w \<Longrightarrow> dao_call env gd nd view w w'"

lemma dao_call_evolves:
  assumes "gorm_laws env gd rows cbs" "write_laws gd rows" "find_laws gd rows cbs" "dao_ok nd"
    and "dao_call env gd nd rows w w'"
  shows "evolves env nd (rows w) (rows w')"
  using assms(5)
proof cases
  case (BatchUpdateStatus_called good bad r)
  with BatchUpdateStatus_updates_nothing [OF assms(1) this] show ?thesis by simp
qed (auto simp: lookup_leaves [OF assms(1-3)] create_evolves [OF assms(1,4)] batchCreate_evolves [OF assms(1,2,4)]
    Mark_evolves [OF assms(1,2)] CompareAndSwap_evolves [OF assms(1)])

lemma dao_calls_evolve:
  assumes "gorm_laws env gd rows cbs" "write_laws gd rows" "find_laws gd rows cbs" "dao_ok nd"
    and "(dao_call env gd nd rows)\<^sup>*\<^sup>* w w'"
  shows "evolves env nd (rows w) (rows w')"
  using assms(5)
proof (induction rule: rtranclp_induct)
  case (step w1 w2)
  with dao_call_evolves [OF assms(1-4) step(2)] show ?case by (blast intro: evolves_trans)
qed simp

lemma placed_once:
  assumes "placed env nd rs" "dao_ok nd" "rs db t i = Some n" "rs db' t' i = Some n'"
  shows "db = db' \<and> t = t'"
proof -
  from assms(1,3,4) have p: "placed_row env nd db t i n" "placed_row env nd db' t' i n'" by (simp_all add: placed_def)
  with dao_ok_Shard(4) [OF assms(2)] have
    "HashStrategy_ShardWithId (nd_notifShardingStrategy nd) i = Inr (row_dst env nd (ne_BizId n) (ne_BizKey n))"
    "HashStrategy_ShardWithId (nd_notifShardingStrategy nd) i = Inr (row_dst env nd (ne_BizId n') (ne_BizKey n'))"
    by (auto simp: placed_row_def)
  with p show ?thesis by (simp add: placed_row_def)
qed

text \<open>C7. The rows of the sharded tables under any sequence of operations of the DAO, whatever their callers pass
  and however they end: every row stays in the database and table that its business key leads to, under
  its id, which was made for that key and leads there as well; no row is lost, and of a stored row only the
  status, the version and the time of the last update ever change; and an id names at most one row in all
  databases and tables.\<close>

theorem dao_rows_placed:
  assumes "gorm_laws env gd rows cbs" "write_laws gd rows" "find_laws gd rows cbs" "dao_ok nd"
    and "placed env nd (rows w)" "(dao_call env gd nd rows)\<^sup>*\<^sup>* w w'"
  shows "placed env nd (rows w') \<and>
     (\<forall>db t i n. rows w db t i = Some n \<longrightarrow> (\<exists>n'. rows w' db t i = Some n' \<and> same_content n n')) \<and>
     (\<forall>db t db' t' i n n'. rows w' db t i = Some n \<longrightarrow> rows w' db' t' i = Some n' \<longrightarrow> db = db' \<and> t = t')"
proof -
  note ev = dao_calls_evolve [OF assms(1-4,6)]
  note p = evolves_placed [OF ev assms(5)]
  from p evolves_Some [OF ev] placed_once [OF p assms(4)] show ?thesis by blast
qed

text \<open>The memory, in which one notification is created and marked as sent.\<close>

lemma mem_exec_new:
  "mem_exec db ss w = (e, w') \<Longrightarrow> mw_rows w d t i = None \<Longrightarrow> mw_rows w' d t i = Some n \<Longrightarrow>
   d = db \<and> ne_Id n = i \<and> InsertNotification t n \<in> set ss"
proof (induction db ss w rule: mem_exec.induct)
  case (2 db t' n' ss w)
  show ?case
  proof (cases "d = db \<and> t = t' \<and> i = ne_Id n'")
    case True
    with 2(2-4) have "mem_exec db ss (w\<lparr>mw_rows := put_row db t' (ne_Id n') n' (mw_rows w)\<rparr>) = (e, w')" by simp
    from mem_exec_keeps [OF this, of d t i n'] True 2(4) show ?thesis by (simp add: put_row_def)
  next
    case False
    with 2(3) have none: "put_row db t' (ne_Id n') n' (mw_rows w) d t i = None" by (auto simp: put_row_def)
    from 2(2,4) 2(3) have run: "mw_rows w db t' (ne_Id n') = None"
      "mem_exec db ss (w\<lparr>mw_rows := put_row db t' (ne_Id n') n' (mw_rows w)\<rparr>) = (e, w')" by (simp_all split: if_splits)
    from 2(1) [OF _ run(2)] run(1) none 2(4) show ?thesis by simp
  qed
qed auto

lemma mem_write_laws: "write_laws mem_gorm mw_rows"
  unfolding write_laws_def
proof (intro conjI allI impI)
  fix db ss d t i n e and w w' :: "'x mem_world_scheme"
  assume "g_ExecInserts mem_gorm db ss w = (e, w')" "mw_rows w d t i = None" "mw_rows w' d t i = Some n"
  then show "d = db" "ne_Id n = i" "InsertNotification t n \<in> set ss"
    using mem_exec_new [of db ss w e w' d t i n] by (simp_all add: mem_gorm_def)
qed (auto simp: mem_gorm_def split: option.splits)

lemma dao_rows_placed_witness:
  "\<exists>n w1 w2. NotifShardingDAO_create mem_env mem_gorm mem_dao zero_NotifEntity False mem_empty = (Inr (n, None), w1) \<and>
     w2 = snd (NotifShardingDAO_MarkSuccess mem_env mem_gorm mem_dao n w1) \<and> placed (mem_env :: mem_world env) mem_dao (mw_rows w2)"
proof -
  have "mw_rows mem_empty = (\<lambda>_ _ _. None)" by (simp add: mem_empty_def)
  from mem_create_empty [OF this] obtain n w1 where
    c: "NotifShardingDAO_create mem_env mem_gorm mem_dao zero_NotifEntity False mem_empty = (Inr (n, None), w1)" by blast
  let ?w2 = "snd (NotifShardingDAO_MarkSuccess mem_env mem_gorm mem_dao n w1)"
  let ?call = "dao_call mem_env mem_gorm mem_dao mw_rows"
  have "?call mem_empty w1" using c by (rule create_called)
  moreover have "?call w1 ?w2" by (rule MarkSuccess_called [OF prod.collapse [symmetric]])
  ultimately have s: "?call\<^sup>*\<^sup>* mem_empty ?w2" by simp
  have "placed (mem_env :: mem_world env) mem_dao (mw_rows mem_empty)" by (simp add: placed_def mem_empty_def)
  from dao_rows_placed [OF mem_gorm_laws mem_write_laws mem_find_laws mem_dao_ok this s]
  have "placed (mem_env :: mem_world env) mem_dao (mw_rows ?w2)" by (rule conjunct1)
  with c show ?thesis by (intro exI conjI) (assumption, rule refl, assumption)
qed

end
