(* ===== verification/FlatStore.thy ===== *)
theory FlatStore
  imports RowInvariants
begin

text \<open>
  What a store of notifications promises: what its callers see is a list of events, the calls and their outcomes,
  and \<open>flat_step\<close> says what each event means for one map from ids to notifications. The locale
  \<open>store_simulation\<close> is the simulation of one relation by another, \<open>notification_store\<close> a store that behaves
  as the map, with what its clients may rely on.
\<close>

section \<open>Runs and simulations\<close>

fun runs :: "('s \<Rightarrow> 'e \<Rightarrow> 's \<Rightarrow> bool) \<Rightarrow> 's \<Rightarrow> 'e list \<Rightarrow> 's \<Rightarrow> bool" where
  "runs step s [] s' \<longleftrightarrow> s' = s"
| "runs step s (e # es) s' \<longleftrightarrow> (\<exists>s1. step s e s1 \<and> runs step s1 es s')"

lemma runs_append: "runs step s (xs @ ys) s' \<longleftrightarrow> (\<exists>s1. runs step s xs s1 \<and> runs step s1 ys s')"
  by (induction xs arbitrary: s) auto

locale store_simulation =
  fixes step :: "'s \<Rightarrow> 'e \<Rightarrow> 's \<Rightarrow> bool"
    and astep :: "'a \<Rightarrow> 'e \<Rightarrow> 'a \<Rightarrow> bool"
    and abs :: "'s \<Rightarrow> 'a"
    and inv :: "'s \<Rightarrow> bool"
  assumes simulates: "inv s \<Longrightarrow> step s e s' \<Longrightarrow> astep (abs s) e (abs s')"
    and keeps: "inv s \<Longrightarrow> step s e s' \<Longrightarrow> inv s'"
begin

lemma runs_simulated: "inv s \<Longrightarrow> runs step s es s' \<Longrightarrow> runs astep (abs s) es (abs s') \<and> inv s'"
  by (induction es arbitrary: s) (auto dest: simulates keeps)

end

section \<open>The flat store\<close>

type_synonym flat_store = "u64 \<Rightarrow> NotifEntity option"

datatype dao_event =
    Created NotifEntity
  | BatchStored "NotifEntity list" "NotifEntity list"
  | BatchFailed "NotifEntity list"
  | Marked u64 string i64
  | Swapped u64 i32 string i64
  | Found u64 NotifEntity
  | Missing u64
  | FoundKey u64 string NotifEntity
  | MissingKey u64 string
  | FoundMap "u64 list" "(u64 \<times> NotifEntity) list"
  | NoEffect

definition with_status :: "NotifEntity \<Rightarrow> string \<Rightarrow> i64 \<Rightarrow> NotifEntity" where
  "with_status n s now = n\<lparr>ne_Status := s, ne_Version := ne_Version n + 1, ne_UpdatedAt := now\<rparr>"

text \<open>A batch keeps what is stored and adds copies of its notifications.\<close>

definition flat_grows :: "NotifEntity list \<Rightarrow> flat_store \<Rightarrow> flat_store \<Rightarrow> bool" where
  "flat_grows ns m m' \<longleftrightarrow> (\<forall>i n. m i = Some n \<longrightarrow> m' i = Some n) \<and>
     (\<forall>i n. m i = None \<longrightarrow> m' i = Some n \<longrightarrow> ne_Id n = i \<and> copy_of ns n)"

fun flat_step :: "flat_store \<Rightarrow> dao_event \<Rightarrow> flat_store \<Rightarrow> bool" where
  "flat_step m (Created n) m' \<longleftrightarrow> m (ne_Id n) = None \<and> m' = m(ne_Id n \<mapsto> n)"
| "flat_step m (BatchStored ns es) m' \<longleftrightarrow> flat_grows ns m m' \<and> same_but_id es ns \<and>
     (\<forall>n \<in> set es. m' (ne_Id n) = Some n)"
| "flat_step m (BatchFailed ns) m' \<longleftrightarrow> flat_grows ns m m'"
| "flat_step m (Marked i s now) m' \<longleftrightarrow>
     m' = (case m i of None \<Rightarrow> m | Some n \<Rightarrow> m(i \<mapsto> with_status n s now))"
| "flat_step m (Swapped i v s now) m' \<longleftrightarrow>
     m' = (case m i of None \<Rightarrow> m | Some n \<Rightarrow> if ne_Version n = v then m(i \<mapsto> with_status n s now) else m)"
| "flat_step m (Found i n) m' \<longleftrightarrow> m' = m \<and> m i = Some n"
| "flat_step m (Missing i) m' \<longleftrightarrow> m' = m \<and> m i = None"
| "flat_step m (FoundKey b k n) m' \<longleftrightarrow> m' = m \<and> m (ne_Id n) = Some n \<and> ne_BizId n = b \<and> ne_BizKey n = k"
| "flat_step m (MissingKey b k) m' \<longleftrightarrow> m' = m \<and> \<not> (\<exists>i n. m i = Some n \<and> ne_BizId n = b \<and> ne_BizKey n = k)"
| "flat_step m (FoundMap ids ps) m' \<longleftrightarrow> m' = m \<and> (\<forall>i. map_of ps i = (if i \<in> set ids then m i else None))"
| "flat_step m NoEffect m' \<longleftrightarrow> m' = m"

text \<open>What an event may not say once the notification \<open>n\<close> has been stored.\<close>

fun agrees :: "NotifEntity \<Rightarrow> dao_event \<Rightarrow> bool" where
  "agrees n (Created n') \<longleftrightarrow> ne_Id n' \<noteq> ne_Id n"
| "agrees n (Found i n') \<longleftrightarrow> i = ne_Id n \<longrightarrow> same_content n n'"
| "agrees n (Missing i) \<longleftrightarrow> i \<noteq> ne_Id n"
| "agrees n (FoundKey b k n') \<longleftrightarrow> ne_Id n' = ne_Id n \<longrightarrow> same_content n n'"
| "agrees n (MissingKey b k) \<longleftrightarrow> (b, k) \<noteq> (ne_BizId n, ne_BizKey n)"
| "agrees n (FoundMap ids ps) \<longleftrightarrow> ne_Id n \<in> set ids \<longrightarrow> (\<exists>n'. map_of ps (ne_Id n) = Some n' \<and> same_content n n')"
| "agrees n e \<longleftrightarrow> True"

text \<open>The notifications that an event says are stored now.\<close>

fun made_by :: "dao_event \<Rightarrow> NotifEntity list" where
  "made_by (Created n) = [n]"
| "made_by (BatchStored ns es) = es"
| "made_by e = []"

definition holds_copy :: "flat_store \<Rightarrow> NotifEntity \<Rightarrow> bool" where
  "holds_copy m n \<longleftrightarrow> (\<exists>n'. m (ne_Id n) = Some n' \<and> same_content n n')"

lemma same_content_status: "same_content n (with_status n s now)"
  unfolding with_status_def by (rule same_content_update)

lemma flat_step_holds:
  assumes "holds_copy m n" "flat_step m e m'"
  shows "holds_copy m' n \<and> agrees n e"
proof -
  from assms(1) obtain n' where n': "m (ne_Id n) = Some n'" "same_content n n'" by (auto simp: holds_copy_def)
  note same = same_content_fields [OF n'(2)]
  from assms(2) n' same show ?thesis
    by (cases e) (auto simp: holds_copy_def flat_grows_def split: option.splits if_splits
        intro: same_content_trans same_content_status)
qed

lemma flat_runs_hold: "holds_copy m n \<Longrightarrow> runs flat_step m es m' \<Longrightarrow> \<forall>e \<in> set es. agrees n e"
  by (induction es arbitrary: m) (auto dest: flat_step_holds)

locale notification_store = store_simulation step flat_step abs inv
  for step :: "'s \<Rightarrow> dao_event \<Rightarrow> 's \<Rightarrow> bool" and abs :: "'s \<Rightarrow> flat_store" and inv :: "'s \<Rightarrow> bool"
begin

lemma behaves_flat: "inv s \<Longrightarrow> runs step s es s' \<Longrightarrow> runs flat_step (abs s) es (abs s')"
  using runs_simulated by blast

text \<open>What the calls after the creation of a notification say agrees with it.\<close>

lemma made_stays:
  assumes "inv s" "runs step s (xs @ e # ys) s'" "n \<in> set (made_by e)"
  shows "\<forall>e \<in> set ys. agrees n e"
proof -
  from behaves_flat [OF assms(1,2)] obtain m m1 where s: "flat_step m e m1" "runs flat_step m1 ys (abs s')"
    by (auto simp: runs_append)
  from s(1) assms(3) have "holds_copy m1 n" by (cases e) (auto simp: holds_copy_def)
  from flat_runs_hold [OF this s(2)] show ?thesis .
qed

end

end
