(* ===== verification/DaoRefines.thy ===== *)
theory DaoRefines
  imports FlatStore
begin

text \<open>
  The sharded tables are one map from ids to notifications: every call of the DAO with its outcome is an event
  (\<open>dao_does\<close>), and over any database that obeys the laws the DAO is a \<open>notification_store\<close>.
\<close>

section \<open>The calls of the DAO as events\<close>

inductive dao_does ::
    "'w env \<Rightarrow> 'w gorm \<Rightarrow> NotifShardingDAO \<Rightarrow> ('w \<Rightarrow> NotifEntity tables) \<Rightarrow> 'w \<Rightarrow> dao_event \<Rightarrow> 'w \<Rightarrow> bool"
  for env gd nd rows where
  created: "NotifShardingDAO_create env gd nd n cb w = (Inr (n', None), w') \<Longrightarrow>
     dao_does env gd nd rows w (Created n') w'"
| create_failed: "NotifShardingDAO_create env gd nd n cb w = (Inr (n', Some e), w') \<Longrightarrow>
     dao_does env gd nd rows w NoEffect w'"
| batch_stored: "NotifShardingDAO_batchCreate fuel env gd nd ns cb w = (Inr (Some (es, None)), w') \<Longrightarrow>
     dao_does env gd nd rows w (BatchStored (stamped_batch env w ns) es) w'"
| batch_failed: "NotifShardingDAO_batchCreate fuel env gd nd ns cb w = (Inr r, w') \<Longrightarrow>
     \<not> (\<exists>es. r = Some (es, None)) \<Longrightarrow> dao_does env gd nd rows w (BatchFailed (stamped_batch env w ns)) w'"
| batch_updated: "NotifShardingDAO_BatchUpdateStatus env gd nd good bad w = (Inr r, w') \<Longrightarrow>
     dao_does env gd nd rows w NoEffect w'"
| success_marked: "NotifShardingDAO_MarkSuccess env gd nd n w = (Inr None, w') \<Longrightarrow>
     dao_does env gd nd rows w (Marked (ne_Id n) (ne_Status n) (Time_UnixMilli (ev_now env w))) w'"
| success_failed: "NotifShardingDAO_MarkSuccess env gd nd n w = (Inr (Some e), w') \<Longrightarrow>
     dao_does env gd nd rows w NoEffect w'"
| failure_marked: "NotifShardingDAO_MarkFailure env gd nd n w = (Inr None, w') \<Longrightarrow>
     dao_does env gd nd rows w (Marked (ne_Id n) (ne_Status n) (Time_UnixMilli (ev_now env w))) w'"
| failure_failed: "NotifShardingDAO_MarkFailure env gd nd n w = (Inr (Some e), w') \<Longrightarrow>
     dao_does env gd nd rows w NoEffect w'"
| swapped: "NotifShardingDAO_CompareAndSwapStatus env gd nd n w = (Inr None, w') \<Longrightarrow>
     dao_does env gd nd rows w (Swapped (ne_Id n) (ne_Version n) (ne_Status n) (Time_UnixMilli (ev_now env w))) w'"
| swap_failed: "NotifShardingDAO_CompareAndSwapStatus env gd nd n w = (Inr (Some e), w') \<Longrightarrow>
     dao_does env gd nd rows w NoEffect w'"
| found: "NotifShardingDAO_GetById gd nd i w = (Inr (n, None), w') \<Longrightarrow> dao_does env gd nd rows w (Found i n) w'"
| not_found: "NotifShardingDAO_GetById gd nd i w = (Inr (n, Some e), w') \<Longrightarrow> errors_Is e ErrNotificationNotFound \<Longrightarrow>
     dao_does env gd nd rows w (Missing i) w'"
| get_failed: "NotifShardingDAO_GetById gd nd i w = (Inr (n, Some e), w') \<Longrightarrow> \<not> errors_Is e ErrNotificationNotFound \<Longrightarrow>
     dao_does env gd nd rows w NoEffect w'"
| key_found: "NotifShardingDAO_GetByKey env gd nd b k w = (Inr (n, None), w') \<Longrightarrow>
     dao_does env gd nd rows w (FoundKey b k n) w'"
| key_not_found: "NotifShardingDAO_GetByKey env gd nd b k w = (Inr (n, Some e), w') \<Longrightarrow> errors_Is e ErrRecordNotFound \<Longrightarrow>
     dao_does env gd nd rows w (MissingKey b k) w'"
| key_failed: "NotifShardingDAO_GetByKey env gd nd b k w = (Inr (n, Some e), w') \<Longrightarrow> \<not> errors_Is e ErrRecordNotFound \<Longrightarrow>
     dao_does env gd nd rows w NoEffect w'"
| map_found: "NotifShardingDAO_GetMapByIds gd nd ids w = (Inr (ps, None), w') \<Longrightarrow>
     dao_does env gd nd rows w (FoundMap ids ps) w'"
| map_failed: "NotifShardingDAO_GetMapByIds gd nd ids w = (Inr (ps, Some e), w') \<Longrightarrow>
     dao_does env gd nd rows w NoEffect w'"
| idle: "rows w' = rows w \<Longrightarrow> dao_does env gd nd rows w NoEffect w'"

text \<open>What the flat view asks of the store beyond the laws so far: an update of a status without an error has
  changed the row if there is one; a lookup never fails with the platform's own error; a lookup by key
  gives a row with that key, or says that the table has none.\<close>

definition flat_laws :: "'w gorm \<Rightarrow> ('w \<Rightarrow> NotifEntity tables) \<Rightarrow> bool" where
  "flat_laws gd rows \<longleftrightarrow>
     (\<forall>db t i s now w w'. g_UpdateStatus gd db t i s now w = (None, w') \<longrightarrow>
        rows w' = (case rows w db t i of None \<Rightarrow> rows w | Some n \<Rightarrow> put_row db t i (with_status n s now) (rows w))) \<and>
     (\<forall>db t i w e w'. g_First gd db t i w = (Inl e, w') \<longrightarrow> \<not> errors_Is e ErrNotificationNotFound) \<and>
     (\<forall>db t b k w n w'. g_FirstByKey gd db t b k w = (Inr n, w') \<longrightarrow>
        (\<exists>i. rows w db t i = Some n) \<and> ne_BizId n = b \<and> ne_BizKey n = k) \<and>
     (\<forall>db t b k w e w'. g_FirstByKey gd db t b k w = (Inl e, w') \<longrightarrow> errors_Is e ErrRecordNotFound \<longrightarrow>
        \<not> (\<exists>i n. rows w db t i = Some n \<and> ne_BizId n = b \<and> ne_BizKey n = k))"

lemma flat_UpdateStatus: "flat_laws gd rows \<Longrightarrow> g_UpdateStatus gd db t i s now w = (None, w') \<Longrightarrow>
    rows w' = (case rows w db t i of None \<Rightarrow> rows w | Some n \<Rightarrow> put_row db t i (with_status n s now) (rows w))"
  by (simp add: flat_laws_def)

lemma flat_First: "flat_laws gd rows \<Longrightarrow> g_First gd db t i w = (Inl e, w') \<Longrightarrow> \<not> errors_Is e ErrNotificationNotFound"
  unfolding flat_laws_def by metis

lemma flat_FirstByKey: "flat_laws gd rows \<Longrightarrow> g_FirstByKey gd db t b k w = (Inr n, w') \<Longrightarrow>
    (\<exists>i. rows w db t i = Some n) \<and> ne_BizId n = b \<and> ne_BizKey n = k"
  unfolding flat_laws_def by metis

lemma flat_FirstByKey_missing: "flat_laws gd rows \<Longrightarrow> g_FirstByKey gd db t b k w = (Inl e, w') \<Longrightarrow>
    errors_Is e ErrRecordNotFound \<Longrightarrow> \<not> (\<exists>i n. rows w db t i = Some n \<and> ne_BizId n = b \<and> ne_BizKey n = k)"
  unfolding flat_laws_def by metis

section \<open>The flat view\<close>

lemma row_of_put_row: "id_table h i = Some (db, t) \<Longrightarrow> row_of h (put_row db t i n rs) = (row_of h rs)(i \<mapsto> n)"
  by (auto simp: row_of_def put_row_def fun_eq_iff split: option.splits)

lemma placed_row_id_table:
  "dao_ok nd \<Longrightarrow> placed_row env nd db t i n \<Longrightarrow> id_table (nd_notifShardingStrategy nd) i = Some (db, t)"
  using dao_ok_Shard(4) [of nd env "ne_BizId n" "ne_BizKey n" i]
  by (simp add: placed_row_def id_table_def)

lemma row_of_placed:
  assumes "dao_ok nd" "placed env nd rs"
  shows "row_of (nd_notifShardingStrategy nd) rs i = Some n \<longleftrightarrow> (\<exists>db t. rs db t i = Some n)"
proof
  assume "\<exists>db t. rs db t i = Some n"
  then obtain db t where n: "rs db t i = Some n" by blast
  with assms(2) have "placed_row env nd db t i n" by (simp add: placed_def)
  from placed_row_id_table [OF assms(1) this] n show "row_of (nd_notifShardingStrategy nd) rs i = Some n"
    by (simp add: row_of_def)
qed (auto simp: row_of_def split: option.splits)

lemma row_of_key:
  assumes "dao_ok nd" "placed env nd rs" "row_of (nd_notifShardingStrategy nd) rs i = Some n"
  shows "rs (dst_DB (row_dst env nd (ne_BizId n) (ne_BizKey n))) (dst_Table (row_dst env nd (ne_BizId n) (ne_BizKey n))) i
     = Some n \<and> ne_Id n = i"
proof -
  from assms row_of_placed obtain db t where n: "rs db t i = Some n" by blast
  with assms(2) have "placed_row env nd db t i n" by (simp add: placed_def)
  with n show ?thesis by (simp add: placed_row_def)
qed

lemma grows_flat:
  assumes "dao_ok nd" "placed env nd rs" "grows env nd ns rs rs'"
  shows "flat_grows ns (row_of (nd_notifShardingStrategy nd) rs) (row_of (nd_notifShardingStrategy nd) rs')"
  unfolding flat_grows_def
proof (rule conjI; intro allI impI)
  note p' = evolves_placed [OF grows_evolves [OF assms(3)] assms(2)]
  note row = row_of_placed [OF assms(1,2)] and row' = row_of_placed [OF assms(1) p']
  fix i n
  show "row_of (nd_notifShardingStrategy nd) rs' i = Some n" if "row_of (nd_notifShardingStrategy nd) rs i = Some n"
    using that grows_Some [OF assms(3)] unfolding row row' by blast
  assume none: "row_of (nd_notifShardingStrategy nd) rs i = None" and "row_of (nd_notifShardingStrategy nd) rs' i = Some n"
  then obtain db t where n: "rs' db t i = Some n" using row' by blast
  have "rs db t i = None" using none row [of i] by (cases "rs db t i") auto
  from grows_None [OF assms(3) this n] show "ne_Id n = i \<and> copy_of ns n" by (simp add: placed_row_def)
qed

section \<open>The DAO simulates the flat store\<close>

lemma create_simulates:
  assumes "gorm_laws env gd rows cbs" "dao_ok nd" "NotifShardingDAO_create env gd nd n cb w = (Inr (n', e), w')"
  shows "flat_step (row_of (nd_notifShardingStrategy nd) (rows w)) (if e = None then Created n' else NoEffect)
     (row_of (nd_notifShardingStrategy nd) (rows w'))"
proof (cases e)
  case None
  let ?d = "row_dst env nd (ne_BizId n) (ne_BizKey n)"
  from create_None [OF assms(1,2) assms(3) [unfolded None]] have
    c: "generated_id (ev_xxh env) (ne_BizId n) (ne_BizKey n) (ne_Id n')"
      "rows w (dst_DB ?d) (dst_Table ?d) (ne_Id n') = None"
      "rows w' = put_row (dst_DB ?d) (dst_Table ?d) (ne_Id n') n' (rows w)" by blast+
  have "id_table (nd_notifShardingStrategy nd) (ne_Id n') = Some (dst_DB ?d, dst_Table ?d)"
    by (simp add: id_table_def dao_ok_Shard(4) [OF assms(2) c(1)])
  from row_of_put_row [OF this] c(2) this None show ?thesis by (simp add: c(3) row_of_def)
next
  case (Some err)
  with create_Some [OF assms(1,2)] assms(3) show ?thesis by (simp add: same_rows_def)
qed

lemma mark_tx_simulates:
  assumes "gorm_laws env gd rows cbs" "write_laws gd rows" "flat_laws gd rows" "id_table h (ne_Id n) = Some (db, t)"
    and "transaction gd db (mark_tx gd db t cb n now) w = (Inr e, w')"
  shows "flat_step (row_of h (rows w)) (if e = None then Marked (ne_Id n) (ne_Status n) now else NoEffect)
    (row_of h (rows w'))"
proof -
  let ?f = "\<lambda>n' w. case mark_tx gd db t cb n now w of (err, w') \<Rightarrow> ((n', err), w')"
  obtain n' where g: "g_Transaction gd db ?f zero_NotifEntity w = ((n', e), w')"
    using assms(5) by (auto simp: transaction_def split: prod.splits) (metis prod.collapse)
  show ?thesis
  proof (cases e)
    case None
    from gorm_Transaction [OF assms(1) g [unfolded None]] obtain w0 w1 where
      t: "same_rows rows cbs w w0" "?f zero_NotifEntity w0 = ((n', None), w1)" "same_rows rows cbs w1 w'" by blast
    from t(2) have "mark_tx gd db t cb n now w0 = (None, w1)" by (auto split: prod.splits)
    then obtain w2 where "g_UpdateStatus gd db t (ne_Id n) (ne_Status n) now w0 = (None, w2)" "rows w1 = rows w2"
      by (cases cb) (auto simp: mark_tx_def split: prod.splits option.splits dest: write_none(1) [OF assms(2)])
    with flat_UpdateStatus [OF assms(3) this(1)] t(1,3) None assms(4) show ?thesis
      by (auto simp: same_rows_def row_of_put_row split: option.splits) (simp_all add: row_of_def)
  next
    case (Some err)
    with gorm_Rollback [OF assms(1)] g show ?thesis by (auto simp: same_rows_def)
  qed
qed

lemma Mark_simulates:
  fixes env :: "'w env" and nd :: NotifShardingDAO and rows :: "'w \<Rightarrow> NotifEntity tables"
  assumes "gorm_laws env gd rows cbs" "write_laws gd rows" "flat_laws gd rows"
  defines "view w \<equiv> row_of (nd_notifShardingStrategy nd) (rows w)"
  defines "ev w n e \<equiv> (if e = None then Marked (ne_Id n) (ne_Status n) (Time_UnixMilli (ev_now env w)) else NoEffect)"
  shows "NotifShardingDAO_MarkSuccess env gd nd n w = (Inr e, w') \<Longrightarrow> flat_step (view w) (ev w n e) (view w')"
    and "NotifShardingDAO_MarkFailure env gd nd n w = (Inr e, w') \<Longrightarrow> flat_step (view w) (ev w n e) (view w')"
  using mark_tx_simulates [OF assms(1-3), of "nd_notifShardingStrategy nd" n _ _ _ "Time_UnixMilli (ev_now env w)" w e w']
  unfolding view_def ev_def by (auto dest: Mark_cases)

lemma CompareAndSwap_simulates:
  assumes "gorm_laws env gd rows cbs" "dao_ok nd" "NotifShardingDAO_CompareAndSwapStatus env gd nd n w = (Inr e, w')"
  shows "flat_step (row_of (nd_notifShardingStrategy nd) (rows w))
     (if e = None then Swapped (ne_Id n) (ne_Version n) (ne_Status n) (Time_UnixMilli (ev_now env w)) else NoEffect)
     (row_of (nd_notifShardingStrategy nd) (rows w'))"
proof -
  let ?now = "Time_UnixMilli (ev_now env w)"
  obtain d where d: "HashStrategy_ShardWithId (nd_notifShardingStrategy nd) (ne_Id n) = Inr d"
    using ShardWithId_total [OF assms(2)] by blast
  let ?db = "dst_DB d" and ?t = "dst_Table d"
  have t: "id_table (nd_notifShardingStrategy nd) (ne_Id n) = Some (?db, ?t)" using d by (simp add: id_table_def)
  obtain err k w1 where u: "g_UpdateStatusVersion gd ?db ?t (ne_Id n) (ne_Version n) (ne_Status n) ?now w = ((err, k), w1)"
    by (metis prod.collapse)
  note law = gorm_UpdateStatusVersion [OF assms(1) u]
  show ?thesis
  proof (cases "nd_dbs nd ?db")
    case True
    with assms(3) d u law have "w' = w1" "e = err"
      by (auto simp: NotifShardingDAO_CompareAndSwapStatus_def io_NowMilli_def split: if_splits)
    with law t show ?thesis
      by (cases "rows w ?db ?t (ne_Id n)")
        (auto simp: row_of_put_row row_of_def [of _ _ "ne_Id n"] with_status_def split: if_splits)
  qed (use assms(3) d in \<open>auto simp: NotifShardingDAO_CompareAndSwapStatus_def\<close>)
qed

lemma GetById_simulates:
  assumes "gorm_laws env gd rows cbs" "flat_laws gd rows" "dao_ok nd" "placed env nd (rows w)"
    and "NotifShardingDAO_GetById gd nd i w = (Inr (n, e), w')"
  shows "rows w' = rows w \<and> (e = None \<longrightarrow> row_of (nd_notifShardingStrategy nd) (rows w) i = Some n) \<and>
     (\<forall>err. e = Some err \<longrightarrow> errors_Is err ErrNotificationNotFound \<longrightarrow>
        row_of (nd_notifShardingStrategy nd) (rows w) i = None)"
proof -
  obtain d where d: "HashStrategy_ShardWithId (nd_notifShardingStrategy nd) i = Inr d"
    using ShardWithId_total [OF assms(3)] by blast
  then have t: "id_table (nd_notifShardingStrategy nd) i = Some (dst_DB d, dst_Table d)" by (simp add: id_table_def)
  obtain r w1 where f: "g_First gd (dst_DB d) (dst_Table d) i w = (r, w1)" by fastforce
  show ?thesis
  proof (cases "nd_dbs nd (dst_DB d)")
    case False
    with assms(5) d show ?thesis
      by (auto simp: NotifShardingDAO_GetById_def failed_to_load_def)
  next
    case True
    with assms(5) d f have "w' = w1" "(n, e) = (case r of Inl err \<Rightarrow> (zero_NotifEntity,
        Some (if errors_Is err ErrRecordNotFound then Wrapped ErrNotificationNotFound ''id'' else err)) | Inr n \<Rightarrow> (n, None))"
      by (auto simp: NotifShardingDAO_GetById_def split: sum.splits)
    with gorm_First [OF assms(1) f] flat_First [OF assms(2), of "dst_DB d" "dst_Table d" i w] f t show ?thesis
      by (cases r) (auto simp: same_rows_def row_of_def split: if_splits)
  qed
qed

lemma GetByKey_simulates:
  assumes "write_laws gd rows" "flat_laws gd rows" "dao_ok nd" "placed env nd (rows w)"
    and "NotifShardingDAO_GetByKey env gd nd b k w = (Inr (n, e), w')"
  shows "rows w' = rows w \<and>
     (e = None \<longrightarrow> row_of (nd_notifShardingStrategy nd) (rows w) (ne_Id n) = Some n \<and> ne_BizId n = b \<and> ne_BizKey n = k) \<and>
     (\<forall>err. e = Some err \<longrightarrow> errors_Is err ErrRecordNotFound \<longrightarrow>
        \<not> (\<exists>i n. row_of (nd_notifShardingStrategy nd) (rows w) i = Some n \<and> ne_BizId n = b \<and> ne_BizKey n = k))"
proof -
  let ?d = "row_dst env nd b k"
  obtain r w1 where f: "g_FirstByKey gd (dst_DB ?d) (dst_Table ?d) b k w = (r, w1)" by fastforce
  with assms(5) dao_ok_Shard(1,3) [OF assms(3), of env b k] have
    r: "g_FirstByKey gd (dst_DB ?d) (dst_Table ?d) b k w = (r, w')"
      "(n, e) = (case r of Inl err \<Rightarrow> (zero_NotifEntity, Some (Wrapped err ''failed to get notification''))
         | Inr n \<Rightarrow> (n, None))"
    by (auto simp: NotifShardingDAO_GetByKey_def split: sum.splits)
  note leaves = write_none(2) [OF assms(1) r(1)]
  show ?thesis
  proof (cases r)
    case (Inr m)
    with flat_FirstByKey [OF assms(2)] r obtain i where
      m: "rows w (dst_DB ?d) (dst_Table ?d) i = Some m" "ne_BizId m = b" "ne_BizKey m = k" by blast
    with assms(4) have "ne_Id m = i" by (simp add: placed_def placed_row_def)
    moreover from m(1) row_of_placed [OF assms(3,4)] have "row_of (nd_notifShardingStrategy nd) (rows w) i = Some m" by blast
    ultimately show ?thesis using Inr r(2) leaves m(2,3) by simp
  next
    case (Inl err)
    have "\<not> (\<exists>i n. row_of (nd_notifShardingStrategy nd) (rows w) i = Some n \<and> ne_BizId n = b \<and> ne_BizKey n = k)"
      if "errors_Is err ErrRecordNotFound"
      using flat_FirstByKey_missing [OF assms(2) r(1) [unfolded Inl] that] row_of_key [OF assms(3,4)] by blast
    with Inl r(2) leaves show ?thesis by simp
  qed
qed

lemma batchCreate_simulates:
  assumes "gorm_laws env gd rows cbs" "write_laws gd rows" "dao_ok nd" "placed env nd (rows w)"
    and "NotifShardingDAO_batchCreate fuel env gd nd ns cb w = (r, w')"
  shows "flat_step (row_of (nd_notifShardingStrategy nd) (rows w)) (BatchFailed (stamped_batch env w ns))
      (row_of (nd_notifShardingStrategy nd) (rows w'))"
    and "r = Inr (Some (es, None)) \<Longrightarrow> flat_step (row_of (nd_notifShardingStrategy nd) (rows w))
      (BatchStored (stamped_batch env w ns) es) (row_of (nd_notifShardingStrategy nd) (rows w'))"
proof -
  note g = batchCreate_grows [OF assms(1-3,5), THEN conjunct1]
  note flat = grows_flat [OF assms(3,4) g]
  then show "flat_step (row_of (nd_notifShardingStrategy nd) (rows w)) (BatchFailed (stamped_batch env w ns))
      (row_of (nd_notifShardingStrategy nd) (rows w'))" by simp
  assume r: "r = Inr (Some (es, None))"
  note e = batchCreate_entries [OF assms(1,3) assms(5) [unfolded r]]
  then have same: "same_but_id es (stamped_batch env w ns)"
    by (simp add: same_but_id_def stamped_batch_def stamped_def)
  have "\<exists>db t. rows w' db t (ne_Id n) = Some n" if "n \<in> set es" for n
    using that e unfolding in_set_conv_nth entry_ok_def by metis
  with same flat row_of_placed [OF assms(3) evolves_placed [OF grows_evolves [OF g] assms(4)]]
  show "flat_step (row_of (nd_notifShardingStrategy nd) (rows w)) (BatchStored (stamped_batch env w ns) es)
      (row_of (nd_notifShardingStrategy nd) (rows w'))" by simp
qed

text \<open>One call, whichever it is.\<close>

lemma dao_does_flat_step:
  assumes "gorm_laws env gd rows cbs" "write_laws gd rows" "find_laws gd rows cbs" "flat_laws gd rows" "dao_ok nd"
    and "placed env nd (rows w)" "dao_does env gd nd rows w ev w'"
  shows "flat_step (row_of (nd_notifShardingStrategy nd) (rows w)) ev (row_of (nd_notifShardingStrategy nd) (rows w'))"
  using assms(7)
proof cases
  case (created n cb n')
  from create_simulates [OF assms(1,5) created(2)] show ?thesis unfolding created(1) by simp
next
  case (create_failed n cb n' e)
  from create_simulates [OF assms(1,5) create_failed(2)] show ?thesis unfolding create_failed(1) by simp
next
  case (batch_stored fuel ns cb es)
  from batchCreate_simulates(2) [OF assms(1,2,5,6) batch_stored(2)] show ?thesis unfolding batch_stored(1) by simp
next
  case (batch_failed fuel ns cb r)
  from batchCreate_simulates(1) [OF assms(1,2,5,6) batch_failed(2)] show ?thesis unfolding batch_failed(1) by simp
next
  case (batch_updated good bad r)
  with BatchUpdateStatus_updates_nothing [OF assms(1) batch_updated(2)] show ?thesis by simp
next
  case (success_marked n)
  from Mark_simulates(1) [OF assms(1,2,4) success_marked(2)] show ?thesis unfolding success_marked(1) by simp
next
  case (success_failed n e)
  from Mark_simulates(1) [OF assms(1,2,4) success_failed(2)] show ?thesis unfolding success_failed(1) by simp
next
  case (failure_marked n)
  from Mark_simulates(2) [OF assms(1,2,4) failure_marked(2)] show ?thesis unfolding failure_marked(1) by simp
next
  case (failure_failed n e)
  from Mark_simulates(2) [OF assms(1,2,4) failure_failed(2)] show ?thesis unfolding failure_failed(1) by simp
next
  case (swapped n)
  from CompareAndSwap_simulates [OF assms(1,5) swapped(2)] show ?thesis unfolding swapped(1) by simp
next
  case (swap_failed n e)
  from CompareAndSwap_simulates [OF assms(1,5) swap_failed(2)] show ?thesis unfolding swap_failed(1) by simp
next
  case (found i n)
  from GetById_simulates [OF assms(1,4,5,6) found(2)] show ?thesis unfolding found(1) by simp
next
  case (not_found i n e)
  from GetById_simulates [OF assms(1,4,5,6) not_found(2)] show ?thesis unfolding not_found(1) using not_found(3) by simp
next
  case (get_failed i n e)
  from GetById_simulates [OF assms(1,4,5,6) get_failed(2)] show ?thesis unfolding get_failed(1) by simp
next
  case (key_found b k n)
  from GetByKey_simulates [OF assms(2,4,5,6) key_found(2)] show ?thesis unfolding key_found(1) by simp
next
  case (key_not_found b k n e)
  from GetByKey_simulates [OF assms(2,4,5,6) key_not_found(2)] show ?thesis unfolding key_not_found(1) using key_not_found(3) by simp
next
  case (key_failed b k n e)
  from GetByKey_simulates [OF assms(2,4,5,6) key_failed(2)] show ?thesis unfolding key_failed(1) by simp
next
  case (map_found ids ps)
  have "keyed (rows w)" using assms(6) by (simp add: keyed_def placed_def placed_row_def)
  from GetMapByIds_rows [OF assms(3) this ShardWithId_total [OF assms(5)], of ids] map_found show ?thesis
    by (auto simp: same_rows_def)
next
  case (map_failed ids ps e)
  with lookup_leaves(3) [OF assms(1-3), of nd ids w] show ?thesis by simp
next
  case idle
  show ?thesis unfolding idle(1) using idle(2) by simp
qed

lemma dao_does_call:
  assumes "dao_does env gd nd rows w e w'"
  shows "dao_call env gd nd rows w w'"
proof -
  have get: "dao_call env gd nd rows w w'" if "NotifShardingDAO_GetById gd nd i w = (r, w')" for i r
    using GetById_called [of env gd nd rows w i] that by simp
  have key: "dao_call env gd nd rows w w'" if "NotifShardingDAO_GetByKey env gd nd b k w = (r, w')" for b k r
    using GetByKey_called [of env gd nd rows w b k] that by simp
  have ids: "dao_call env gd nd rows w w'" if "NotifShardingDAO_GetMapByIds gd nd ids w = (r, w')" for ids r
    using GetMapByIds_called [of env gd nd rows w ids] that by simp
  from assms show ?thesis
    by cases (assumption | rule get key ids dao_call.intros(1-6) between_calls)+
qed

lemma dao_notification_store:
  assumes "gorm_laws env gd rows cbs" "write_laws gd rows" "find_laws gd rows cbs" "flat_laws gd rows" "dao_ok nd"
  shows "notification_store (dao_does env gd nd rows) (\<lambda>w. row_of (nd_notifShardingStrategy nd) (rows w))
     (\<lambda>w. placed env nd (rows w))"
proof
  fix w e w' assume step: "placed env nd (rows w)" "dao_does env gd nd rows w e w'"
  from dao_does_flat_step [OF assms step]
  show "flat_step (row_of (nd_notifShardingStrategy nd) (rows w)) e (row_of (nd_notifShardingStrategy nd) (rows w'))" .
  from dao_call_evolves [OF assms(1-3,5) dao_does_call [OF step(2)]] step(1) show "placed env nd (rows w')"
    by (rule evolves_placed)
qed

text \<open>No call panics, so every call is one of the events.\<close>

lemma no_panic_call: "no_panic (io_call f)"
  by (simp add: no_panic_def)

lemma no_panic_run: "\<exists>x. r = Inr x \<Longrightarrow> no_panic (io_run r)"
  by (auto simp: no_panic_def)

lemma no_panic_now: "no_panic (io_NowMilli env)"
  by (simp add: no_panic_def io_NowMilli_def)

lemma no_panic_transaction: "no_panic (transaction gd db f)"
  unfolding transaction_def by (rule no_panic_bind [OF no_panic_call]) (simp split: prod.splits)

lemma ShardWithId_total_cbLog:
  "dao_ok nd \<Longrightarrow> \<exists>d. HashStrategy_ShardWithId (nd_cbLogShardingStrategy nd) i = Inr d"
  using dvd_nonzero by (auto simp: dao_ok_def ShardWithId_eq)

lemma collect_total:
  assumes "dao_ok nd"
  shows "\<exists>m'. collect_success nd ns m = Inr m'" "\<exists>m'. collect_failure nd ns m = Inr m'"
proof -
  have "\<exists>m'. collect_success nd ns m = Inr m'" for m
  proof (induction ns arbitrary: m)
    case (Cons n ns)
    with ShardWithId_total [OF assms, of "ne_Id n"] ShardWithId_total_cbLog [OF assms, of "ne_Id n"] show ?case by auto
  qed simp
  then show "\<exists>m'. collect_success nd ns m = Inr m'" .
  have "\<exists>m'. collect_failure nd ns m = Inr m'" for m
  proof (induction ns arbitrary: m)
    case (Cons n ns)
    with ShardWithId_total [OF assms, of "ne_Id n"] ShardWithId_total_cbLog [OF assms, of "ne_Id n"] show ?case by auto
  qed simp
  then show "\<exists>m'. collect_failure nd ns m = Inr m'" .
qed

lemma batchMark_groups_no_panic: "no_panic (batchMark_groups env gd nd m err)"
  by (induction m arbitrary: err) (auto intro!: no_panic_bind no_panic_transaction)

lemma dao_no_panic:
  assumes "dao_ok nd"
  shows "no_panic (NotifShardingDAO_BatchUpdateStatus env gd nd good bad)"
    and "no_panic (NotifShardingDAO_MarkSuccess env gd nd n)"
    and "no_panic (NotifShardingDAO_MarkFailure env gd nd n)"
    and "no_panic (NotifShardingDAO_CompareAndSwapStatus env gd nd n)"
    and "no_panic (NotifShardingDAO_GetById gd nd i)"
    and "no_panic (NotifShardingDAO_GetByKey env gd nd b k)"
proof -
  note run = no_panic_run [OF ShardWithId_total [OF assms]] no_panic_run [OF ShardWithId_total_cbLog [OF assms]]
    no_panic_run [OF collect_total(1) [OF assms]] no_panic_run [OF collect_total(2) [OF assms]]
  note intros = no_panic_bind no_panic_call no_panic_now no_panic_transaction batchMark_groups_no_panic run
  show "no_panic (NotifShardingDAO_BatchUpdateStatus env gd nd good bad)"
    unfolding NotifShardingDAO_BatchUpdateStatus_def by (auto intro!: intros)
  show "no_panic (NotifShardingDAO_MarkSuccess env gd nd n)"
    unfolding NotifShardingDAO_MarkSuccess_def by (auto intro!: intros)
  show "no_panic (NotifShardingDAO_MarkFailure env gd nd n)"
    unfolding NotifShardingDAO_MarkFailure_def by (auto intro!: intros)
  show "no_panic (NotifShardingDAO_CompareAndSwapStatus env gd nd n)"
    unfolding NotifShardingDAO_CompareAndSwapStatus_def by (auto intro!: intros split: prod.splits)
  show "no_panic (NotifShardingDAO_GetById gd nd i)"
    unfolding NotifShardingDAO_GetById_def by (auto intro!: intros split: sum.splits)
  have "no_panic (io_run (HashStrategy_Shard (ev_xxh env) (nd_notifShardingStrategy nd) b k))"
    by (rule no_panic_run) (simp add: dao_ok_Shard [OF assms])
  then show "no_panic (NotifShardingDAO_GetByKey env gd nd b k)"
    unfolding NotifShardingDAO_GetByKey_def by (auto intro!: intros split: sum.splits)
qed

lemma no_panic_result: "no_panic c \<Longrightarrow> c w = (r, w') \<Longrightarrow> \<exists>x. r = Inr x"
  by (metis no_panicE prod.inject)

lemma dao_call_does:
  assumes "gorm_laws env gd rows cbs" "write_laws gd rows" "find_laws gd rows cbs" "dao_ok nd" "placed env nd (rows w)"
    and "dao_call env gd nd rows w w'"
  shows "\<exists>e. dao_does env gd nd rows w e w'"
  using assms(6)
proof cases
  case (create_called n cb r)
  obtain n' e where "r = Inr (n', e)" using create_called by (auto simp: create_eq [OF assms(4)] Let_def split: prod.splits)
  with create_called show ?thesis by (cases e) (blast intro: created create_failed)+
next
  case (batchCreate_called fuel ns cb r)
  with batchCreate_grows [OF assms(1,2,4)] obtain r' where "r = Inr r'" by blast
  with batchCreate_called show ?thesis by (cases "\<exists>es. r' = Some (es, None)") (blast intro: batch_stored batch_failed)+
next
  case (BatchUpdateStatus_called good bad r)
  from no_panic_result [OF dao_no_panic(1) [OF assms(4)] this] obtain e where "r = Inr e" by blast
  with BatchUpdateStatus_called show ?thesis by (blast intro: batch_updated)
next
  case (MarkSuccess_called n r)
  from no_panic_result [OF dao_no_panic(2) [OF assms(4)] this] obtain e where "r = Inr e" by blast
  with MarkSuccess_called show ?thesis by (cases e) (blast intro: success_marked success_failed)+
next
  case (MarkFailure_called n r)
  from no_panic_result [OF dao_no_panic(3) [OF assms(4)] this] obtain e where "r = Inr e" by blast
  with MarkFailure_called show ?thesis by (cases e) (blast intro: failure_marked failure_failed)+
next
  case (CompareAndSwap_called n r)
  from no_panic_result [OF dao_no_panic(4) [OF assms(4)] this] obtain e where "r = Inr e" by blast
  with CompareAndSwap_called show ?thesis by (cases e) (blast intro: swapped swap_failed)+
next
  case (GetById_called i)
  obtain n e w1 where g: "NotifShardingDAO_GetById gd nd i w = (Inr (n, e), w1)"
    using dao_no_panic(5) [OF assms(4)] by (metis no_panicE surj_pair no_panic_def)
  with GetById_called show ?thesis
    by (cases e; cases "errors_Is (the e) ErrNotificationNotFound") (auto intro: found not_found get_failed)
next
  case (GetByKey_called b k)
  obtain n e w1 where g: "NotifShardingDAO_GetByKey env gd nd b k w = (Inr (n, e), w1)"
    using dao_no_panic(6) [OF assms(4)] by (metis no_panicE surj_pair no_panic_def)
  with GetByKey_called show ?thesis
    by (cases e; cases "errors_Is (the e) ErrRecordNotFound") (auto intro: key_found key_not_found key_failed)
next
  case (GetMapByIds_called ids)
  have "keyed (rows w)" using assms(5) by (simp add: keyed_def placed_def placed_row_def)
  from GetMapByIds_rows [OF assms(3) this ShardWithId_total [OF assms(4)], of ids] obtain m e w1 where
    "NotifShardingDAO_GetMapByIds gd nd ids w = (Inr (m, e), w1)" by blast
  with GetMapByIds_called show ?thesis by (cases e) (auto intro: map_found map_failed)
qed (blast intro: idle)

lemma dao_calls_run:
  assumes "gorm_laws env gd rows cbs" "write_laws gd rows" "find_laws gd rows cbs" "dao_ok nd" "placed env nd (rows w)"
    and "(dao_call env gd nd rows)\<^sup>*\<^sup>* w w'"
  shows "\<exists>es. runs (dao_does env gd nd rows) w es w'"
  using assms(6)
proof (induction rule: rtranclp_induct)
  case base
  show ?case by (rule exI [of _ "[]"]) simp
next
  case (step w1 w2)
  then obtain es where es: "runs (dao_does env gd nd rows) w es w1" by blast
  from evolves_placed [OF dao_calls_evolve [OF assms(1-4) step(1)] assms(5)] have "placed env nd (rows w1)" .
  from dao_call_does [OF assms(1-4) this step(2)] obtain e where "dao_does env gd nd rows w1 e w2" by blast
  with es have "runs (dao_does env gd nd rows) w (es @ [e]) w2" by (auto simp: runs_append)
  then show ?case by blast
qed

section \<open>The store in memory\<close>

lemma mem_first_key_Some: "mem_first_key rs db t b k = Some n \<Longrightarrow>
    (\<exists>i. rs db t i = Some n) \<and> ne_BizId n = b \<and> ne_BizKey n = k"
  using nth_mem by (fastforce simp: mem_first_key_def find_Some_iff set_map_filter)

lemma in_all_ids: "i \<in> set all_ids"
proof -
  have "unat i \<in> set [0..<2 ^ 64]" using unsigned_less [of i] by simp
  then have "word_of_nat (unat i) \<in> set all_ids" unfolding all_ids_def set_map by (rule imageI)
  then show ?thesis by simp
qed

lemma mem_first_key_None: "mem_first_key rs db t b k = None \<Longrightarrow>
    \<not> (\<exists>i n. rs db t i = Some n \<and> ne_BizId n = b \<and> ne_BizKey n = k)"
  using in_all_ids by (auto simp: mem_first_key_def find_None_iff set_map_filter)

lemma mem_flat_laws: "flat_laws mem_gorm mw_rows"
  unfolding flat_laws_def
proof (intro conjI allI impI)
  fix db t b k e and n :: NotifEntity and w w' :: "'x mem_world_scheme"
  assume "g_FirstByKey mem_gorm db t b k w = (Inr n, w')"
  then have "mem_first_key (mw_rows w) db t b k = Some n"
    by (simp add: mem_gorm_def split: option.splits)
  from mem_first_key_Some [OF this]
  show "\<exists>i. mw_rows w db t i = Some n" "ne_BizId n = b" "ne_BizKey n = k" by blast+
next
  fix db t b k e and w w' :: "'x mem_world_scheme"
  assume "g_FirstByKey mem_gorm db t b k w = (Inl e, w')"
  then have "mem_first_key (mw_rows w) db t b k = None"
    by (simp add: mem_gorm_def split: option.splits)
  from mem_first_key_None [OF this]
  show "\<not> (\<exists>i n. mw_rows w db t i = Some n \<and> ne_BizId n = b \<and> ne_BizKey n = k)" .
qed (auto simp: mem_gorm_def with_status_def split: option.splits)

lemma mem_dao_strategy [simp]: "nd_notifShardingStrategy mem_dao = InitNotifShardingStrategy"
  by (simp add: mem_dao_def)

interpretation mem_store: notification_store "dao_does (mem_env :: mem_world env) mem_gorm mem_dao mw_rows"
  "\<lambda>w. row_of InitNotifShardingStrategy (mw_rows w)" "\<lambda>w. placed (mem_env :: mem_world env) mem_dao (mw_rows w)"
  by (rule dao_notification_store [OF mem_gorm_laws mem_write_laws mem_find_laws mem_flat_laws mem_dao_ok,
      unfolded mem_dao_strategy])

section \<open>The sharded tables are one store\<close>


text \<open>In the memory: a notification is created and found.\<close>

lemma mem_create_event:
  "\<exists>n w1. runs (dao_does (mem_env :: mem_world env) mem_gorm mem_dao mw_rows) mem_empty [Created n, Found (ne_Id n) n] w1"
proof -
  have "mw_rows mem_empty = (\<lambda>_ _ _. None)" by (simp add: mem_empty_def)
  from mem_create_empty [OF this] obtain n w1 where
    c: "NotifShardingDAO_create mem_env mem_gorm mem_dao zero_NotifEntity False mem_empty = (Inr (n, None), w1)" by blast
  have first: "g_First mem_gorm db t i w1 = (r, w2) \<Longrightarrow> r = Inl e \<Longrightarrow> errors_Is e ErrRecordNotFound" for db t i r w2 e
    by (auto simp: mem_gorm_def split: option.splits)
  from create_then_GetById [OF mem_gorm_laws mem_dao_ok c] first obtain w2 where
    g: "NotifShardingDAO_GetById mem_gorm mem_dao (ne_Id n) w1 = (Inr (n, None), w2)" by (metis prod.collapse)
  let ?does = "dao_does (mem_env :: mem_world env) mem_gorm mem_dao mw_rows"
  have "?does mem_empty (Created n) w1" "?does w1 (Found (ne_Id n) n) w2" by (rule created [OF c], rule found [OF g])
  then show ?thesis by auto
qed

lemma mem_empty_placed: "placed (mem_env :: mem_world env) mem_dao (mw_rows mem_empty)"
  by (simp add: placed_def mem_empty_def)




end
