(* ===== verification/CallbackRows.thy ===== *)
theory CallbackRows
  imports DaoRefines
begin

text \<open>
  The callback logs beside the rows: every callback log belongs to a stored notification and is in the database
  of that notification, in the table its id leads to, whatever calls of the DAO are made and however they end. A
  batch is not a transaction, so this rests on the order of its statements: the log of a notification comes
  after the notification.
\<close>

section \<open>What the store does to the logs\<close>

text \<open>The statements of a batch are executed in their order, up to the first that fails.\<close>

fun exec_stmt ::
    "string \<Rightarrow> insert_stmt \<Rightarrow> NotifEntity tables \<times> CallbackLogEntity tables \<Rightarrow> NotifEntity tables \<times> CallbackLogEntity tables" where
  "exec_stmt db (InsertNotification t n) (rs, cs) = (put_row db t (ne_Id n) n rs, cs)"
| "exec_stmt db (InsertCallbackLog t c) (rs, cs) = (rs, put_row db t (ce_NotificationId c) c cs)"

definition log_laws ::
    "'w gorm \<Rightarrow> ('w \<Rightarrow> NotifEntity tables) \<Rightarrow> ('w \<Rightarrow> CallbackLogEntity tables) \<Rightarrow> bool" where
  "log_laws gd rows cbs \<longleftrightarrow>
     (\<forall>db ss w e w'. g_ExecInserts gd db ss w = (e, w') \<longrightarrow>
        (\<exists>k. (rows w', cbs w') = fold (exec_stmt db) (take k ss) (rows w, cbs w))) \<and>
     (\<forall>db t i s now w e w'. g_UpdateStatus gd db t i s now w = (e, w') \<longrightarrow> cbs w' = cbs w) \<and>
     (\<forall>db t i s now w e w'. g_UpdateCbStatus gd db t i s now w = (e, w') \<longrightarrow> cbs w' = cbs w \<or>
        (\<exists>c. cbs w db t i = Some c \<and> cbs w' = put_row db t i (c\<lparr>ce_Status := s, ce_UpdatedAt := now\<rparr>) (cbs w))) \<and>
     (\<forall>db t b k w r w'. g_FirstByKey gd db t b k w = (r, w') \<longrightarrow> cbs w' = cbs w)"

lemma log_ExecInserts: "log_laws gd rows cbs \<Longrightarrow> g_ExecInserts gd db ss w = (e, w') \<Longrightarrow>
    \<exists>k. (rows w', cbs w') = fold (exec_stmt db) (take k ss) (rows w, cbs w)"
  unfolding log_laws_def by metis

lemma log_UpdateStatus: "log_laws gd rows cbs \<Longrightarrow> g_UpdateStatus gd db t i s now w = (e, w') \<Longrightarrow> cbs w' = cbs w"
  unfolding log_laws_def by metis

lemma log_UpdateCbStatus: "log_laws gd rows cbs \<Longrightarrow> g_UpdateCbStatus gd db t i s now w = (e, w') \<Longrightarrow> cbs w' = cbs w \<or>
    (\<exists>c. cbs w db t i = Some c \<and> cbs w' = put_row db t i (c\<lparr>ce_Status := s, ce_UpdatedAt := now\<rparr>) (cbs w))"
  unfolding log_laws_def by metis

lemma log_FirstByKey: "log_laws gd rows cbs \<Longrightarrow> g_FirstByKey gd db t b k w = (r, w') \<Longrightarrow> cbs w' = cbs w"
  unfolding log_laws_def by metis

section \<open>Logs in their place\<close>

text \<open>The place of a callback log: the database of its notification and the table its id leads to.\<close>

definition log_place :: "NotifShardingDAO \<Rightarrow> u64 \<Rightarrow> string \<Rightarrow> string \<Rightarrow> bool" where
  "log_place nd i db t \<longleftrightarrow> (\<exists>d c. HashStrategy_ShardWithId (nd_notifShardingStrategy nd) i = Inr d \<and>
     HashStrategy_ShardWithId (nd_cbLogShardingStrategy nd) i = Inr c \<and> db = dst_DB d \<and> t = dst_Table c)"

definition logs_owned :: "NotifShardingDAO \<Rightarrow> NotifEntity tables \<Rightarrow> CallbackLogEntity tables \<Rightarrow> bool" where
  "logs_owned nd rs cs \<longleftrightarrow> (\<forall>db t i c. cs db t i = Some c \<longrightarrow> ce_NotificationId c = i \<and> log_place nd i db t \<and>
     row_of (nd_notifShardingStrategy nd) rs i \<noteq> None)"

definition keeps_logs :: "CallbackLogEntity tables \<Rightarrow> CallbackLogEntity tables \<Rightarrow> bool" where
  "keeps_logs cs cs' \<longleftrightarrow> (\<forall>db t i c. cs db t i = Some c \<longrightarrow> cs' db t i \<noteq> None)"

lemma keeps_logs_refl [simp]: "keeps_logs cs cs"
  by (simp add: keeps_logs_def)

lemma keeps_logs_trans: "keeps_logs cs cs1 \<Longrightarrow> keeps_logs cs1 cs2 \<Longrightarrow> keeps_logs cs cs2"
  unfolding keeps_logs_def by (metis not_None_eq)

lemma row_of_evolves: "evolves env nd rs rs' \<Longrightarrow> row_of h rs i \<noteq> None \<Longrightarrow> row_of h rs' i \<noteq> None"
  by (auto simp: row_of_def split: option.splits dest: evolves_Some)

lemma logs_owned_evolves: "logs_owned nd rs cs \<Longrightarrow> evolves env nd rs rs' \<Longrightarrow> logs_owned nd rs' cs"
  unfolding logs_owned_def using row_of_evolves by blast

lemma logs_owned_put:
  assumes "logs_owned nd rs cs" "ce_NotificationId c = i" "log_place nd i db t" "row_of (nd_notifShardingStrategy nd) rs i \<noteq> None"
  shows "logs_owned nd rs (put_row db t i c cs)"
  using assms by (auto simp: logs_owned_def put_row_def simp del: not_None_eq split: if_splits)

lemma generated_log_place:
  assumes "dao_ok nd" "generated_id (ev_xxh env) b k i"
  shows "log_place nd i (dst_DB (row_dst env nd b k)) (dst_Table (cb_dst env nd b k))"
proof -
  have "HashStrategy_ShardWithId (nd_cbLogShardingStrategy nd) i = Inr (cb_dst env nd b k)"
    using assms dao_ok_Shard(2) [OF assms(1), of env b k] by (simp add: dao_ok_def ShardWithId_generated)
  with dao_ok_Shard(4) [OF assms] show ?thesis by (auto simp: log_place_def)
qed

lemma generated_row_of:
  assumes "dao_ok nd" "generated_id (ev_xxh env) b k i"
  shows "row_of (nd_notifShardingStrategy nd) rs i = rs (dst_DB (row_dst env nd b k)) (dst_Table (row_dst env nd b k)) i"
  using dao_ok_Shard(4) [OF assms] by (simp add: row_of_def id_table_def)

section \<open>The statements of a batch\<close>

lemma exec_stmts_row: "InsertNotification t n \<in> set ss \<Longrightarrow> fst (fold (exec_stmt db) ss (rs, cs)) db t (ne_Id n) \<noteq> None"
proof (induction ss rule: rev_induct)
  case (snoc s ss)
  obtain rs1 cs1 where f: "fold (exec_stmt db) ss (rs, cs) = (rs1, cs1)" by fastforce
  with snoc show ?case by (cases s) (auto simp: put_row_def)
qed simp

lemma exec_stmts_log:
  assumes "snd (fold (exec_stmt db) ss (rs, cs)) d t i = Some c"
  shows "cs d t i = Some c \<or> d = db \<and> ce_NotificationId c = i \<and> InsertCallbackLog t c \<in> set ss"
  using assms
proof (induction ss rule: rev_induct)
  case (snoc s ss)
  obtain rs1 cs1 where f: "fold (exec_stmt db) ss (rs, cs) = (rs1, cs1)" by fastforce
  with snoc show ?case by (cases s) (auto simp: put_row_def split: if_splits)
qed simp

lemma exec_stmts_keep: "cs d t i \<noteq> None \<Longrightarrow> snd (fold (exec_stmt db) ss (rs, cs)) d t i \<noteq> None"
proof (induction ss rule: rev_induct)
  case (snoc s ss)
  obtain rs1 cs1 where f: "fold (exec_stmt db) ss (rs, cs) = (rs1, cs1)" by fastforce
  with snoc show ?case by (cases s) (auto simp: put_row_def)
qed simp


text \<open>An execution of the statements of a batch keeps the logs in their place, however far it gets.\<close>

lemma ExecInserts_owned:
  assumes "gorm_laws env gd rows cbs" "log_laws gd rows cbs" "dao_ok nd" "batch_stmts env nd db es sqls"
    and "g_ExecInserts gd db sqls w = (e, w')" "logs_owned nd (rows w) (cbs w)"
  shows "logs_owned nd (rows w') (cbs w') \<and> keeps_logs (cbs w) (cbs w')"
proof -
  from log_ExecInserts [OF assms(2,5)] obtain k where
    k: "(rows w', cbs w') = fold (exec_stmt db) (take k sqls) (rows w, cbs w)" by blast
  then have rs: "rows w' = fst (fold (exec_stmt db) (take k sqls) (rows w, cbs w))"
    and cs: "cbs w' = snd (fold (exec_stmt db) (take k sqls) (rows w, cbs w))" by (metis fst_conv, metis snd_conv)
  have "ce_NotificationId c = i \<and> log_place nd i d t \<and> row_of (nd_notifShardingStrategy nd) (rows w') i \<noteq> None"
    if c: "cbs w' d t i = Some c" for d t i c
  proof (cases "cbs w d t i = Some c")
    case True
    moreover have "row_of (nd_notifShardingStrategy nd) (rows w') i \<noteq> None"
      if "row_of (nd_notifShardingStrategy nd) (rows w) i \<noteq> None"
      using that gorm_ExecInserts [OF assms(1,5)] by (auto simp: row_of_def split: option.splits)
    ultimately show ?thesis using assms(6) unfolding logs_owned_def by blast
  next
    case False
    with exec_stmts_log [OF c [unfolded cs]] have new: "d = db" "ce_NotificationId c = i"
      "InsertCallbackLog t c \<in> set (take k sqls)" by auto
    with assms(4) obtain n where n:
      "InsertNotification (dst_Table (row_dst env nd (ne_BizId n) (ne_BizKey n))) n \<in> set (take k sqls)"
      "ne_Id n = i" "t = dst_Table (cb_dst env nd (ne_BizId n) (ne_BizKey n))"
      unfolding batch_stmts_def owners_first_def by blast
    then have "placed_row env nd db (dst_Table (row_dst env nd (ne_BizId n) (ne_BizKey n))) i n"
      using assms(4) in_set_takeD unfolding batch_stmts_def by metis
    then have p: "generated_id (ev_xxh env) (ne_BizId n) (ne_BizKey n) i" "db = dst_DB (row_dst env nd (ne_BizId n) (ne_BizKey n))"
      by (simp_all add: placed_row_def)
    from exec_stmts_row [OF n(1), of db "rows w" "cbs w"] n(2) p
    have "row_of (nd_notifShardingStrategy nd) (rows w') i \<noteq> None"
      by (simp add: generated_row_of [OF assms(3) p(1)] rs)
    with new generated_log_place [OF assms(3) p(1)] n(3) p(2) show ?thesis by simp
  qed
  moreover have "keeps_logs (cbs w) (cbs w')" using exec_stmts_keep unfolding keeps_logs_def cs by blast
  ultimately show ?thesis by (simp add: logs_owned_def)
qed

section \<open>Every call keeps the logs in their place\<close>

definition logs_kept :: "NotifShardingDAO \<Rightarrow> NotifEntity tables \<times> CallbackLogEntity tables
    \<Rightarrow> NotifEntity tables \<times> CallbackLogEntity tables \<Rightarrow> bool" where
  "logs_kept nd v v' \<longleftrightarrow> (logs_owned nd (fst v) (snd v) \<longrightarrow> logs_owned nd (fst v') (snd v')) \<and> keeps_logs (snd v) (snd v')"

lemma logs_kept_refl [simp]: "logs_kept nd v v"
  by (simp add: logs_kept_def)

lemma logs_kept_trans: "logs_kept nd v v1 \<Longrightarrow> logs_kept nd v1 v2 \<Longrightarrow> logs_kept nd v v2"
  unfolding logs_kept_def by (blast intro: keeps_logs_trans)

lemma logs_kept_evolves: "evolves env nd rs rs' \<Longrightarrow> logs_kept nd (rs, cs) (rs', cs)"
  by (auto simp: logs_kept_def intro: logs_owned_evolves)

lemma create_logs:
  assumes "gorm_laws env gd rows cbs" "dao_ok nd" "NotifShardingDAO_create env gd nd n cb w = (r, w')"
  shows "logs_kept nd (rows w, cbs w) (rows w', cbs w')"
proof -
  from assms(3) obtain n' e where r: "r = Inr (n', e)" by (auto simp: create_eq [OF assms(2)] Let_def split: prod.splits)
  show ?thesis
  proof (cases e)
    case None
    let ?d = "row_dst env nd (ne_BizId n) (ne_BizKey n)" and ?c = "cb_dst env nd (ne_BizId n) (ne_BizKey n)"
    note ev = create_evolves [OF assms]
    from create_None [OF assms(1,2)] assms(3) r None have c:
      "generated_id (ev_xxh env) (ne_BizId n) (ne_BizKey n) (ne_Id n')"
      "rows w' (dst_DB ?d) (dst_Table ?d) (ne_Id n') = Some n'"
      "cbs w' = cbs w \<or> cbs w' = put_row (dst_DB ?d) (dst_Table ?c) (ne_Id n')
         (initial_cbLog (ne_Id n') (Time_UnixMilli (ev_now env w))) (cbs w)"
      by (auto simp: put_row_def split: if_splits)
    from generated_row_of [OF assms(2) c(1), of "rows w'"] c(2)
    have "row_of (nd_notifShardingStrategy nd) (rows w') (ne_Id n') \<noteq> None" by simp
    with c(3) logs_owned_put [of nd "rows w'" "cbs w", OF _ _ generated_log_place [OF assms(2) c(1)]]
      logs_owned_evolves [OF _ ev] show ?thesis
      by (auto simp: logs_kept_def keeps_logs_def initial_cbLog_def put_row_def)
  next
    case (Some err)
    with create_Some [OF assms(1,2)] assms(3) r show ?thesis by (simp add: same_rows_def)
  qed
qed

lemma Mark_logs:
  assumes "gorm_laws env gd rows cbs" "write_laws gd rows" "log_laws gd rows cbs"
  shows "NotifShardingDAO_MarkSuccess env gd nd n w = (r, w') \<Longrightarrow> logs_kept nd (rows w, cbs w) (rows w', cbs w')"
    and "NotifShardingDAO_MarkFailure env gd nd n w = (r, w') \<Longrightarrow> logs_kept nd (rows w, cbs w) (rows w', cbs w')"
proof -
  have cb: "logs_kept nd (rows w, cbs w) (rows w', cbs w')" if "g_UpdateCbStatus gd db t i s now w = (e, w')" for db t i s now w e w'
    using write_none(1) [OF assms(2) that] log_UpdateCbStatus [OF assms(3) that]
    by (auto simp: logs_kept_def logs_owned_def keeps_logs_def put_row_def split: if_splits)
  have st: "logs_kept nd (rows w, cbs w) (rows w', cbs w')" if "g_UpdateStatus gd db t i s now w = (e, w')" for db t i s now w e w'
    using logs_kept_evolves [OF UpdateStatus_evolves [OF assms(2) that, of env nd]] log_UpdateStatus [OF assms(3) that] by simp
  have mark: "logs_kept nd (rows w, cbs w) (rows w', cbs w')" if "mark_tx gd db t cb n now w = (e, w')" for db t cb now w e w'
    using that by (auto simp: mark_tx_def split: prod.splits option.splits intro: st cb logs_kept_trans [OF st cb])
  have tx: "logs_kept nd (rows w, cbs w) (rows w', cbs w')" if "transaction gd db (mark_tx gd db t cb n now) w = (r, w')"
    for db t cb now
  proof (rule transaction_keeps [where I = "\<lambda>w1. logs_kept nd (rows w, cbs w) (rows w1, cbs w1)", OF assms(1) _ _ _ that])
    fix w1 e w2 assume "mark_tx gd db t cb n now w1 = (e, w2)" "logs_kept nd (rows w, cbs w) (rows w1, cbs w1)"
    then show "logs_kept nd (rows w, cbs w) (rows w2, cbs w2)" by (blast intro: logs_kept_trans mark)
  qed (simp_all add: same_rows_def)
  show "NotifShardingDAO_MarkSuccess env gd nd n w = (r, w') \<Longrightarrow> logs_kept nd (rows w, cbs w) (rows w', cbs w')"
    and "NotifShardingDAO_MarkFailure env gd nd n w = (r, w') \<Longrightarrow> logs_kept nd (rows w, cbs w) (rows w', cbs w')"
    using tx by (auto dest: Mark_cases)
qed

lemma lookup_logs:
  assumes "gorm_laws env gd rows cbs" "log_laws gd rows cbs" "find_laws gd rows cbs"
  shows "cbs (snd (NotifShardingDAO_GetById gd nd i w)) = cbs w"
    and "cbs (snd (NotifShardingDAO_GetByKey env gd nd b k w)) = cbs w"
    and "cbs (snd (NotifShardingDAO_GetMapByIds gd nd ids w)) = cbs w"
proof -
  have "cbs (snd (g_First gd db t i w)) = cbs w" "cbs (snd (g_FirstByKey gd db t b k w)) = cbs w"
    "cbs (snd (g_FindIn gd db t ids w)) = cbs w" for db t i b k ids w
    using gorm_First [OF assms(1), of db t i w] log_FirstByKey [OF assms(2), of db t b k w] assms(3)
    by (auto simp: same_rows_def find_laws_def) (metis prod.collapse)+
  note view = lookup_leaves_view [of cbs gd, OF this]
  show "cbs (snd (NotifShardingDAO_GetById gd nd i w)) = cbs w"
    "cbs (snd (NotifShardingDAO_GetByKey env gd nd b k w)) = cbs w"
    "cbs (snd (NotifShardingDAO_GetMapByIds gd nd ids w)) = cbs w" by (rule view)+
qed

lemma dao_call_logs:
  assumes "gorm_laws env gd rows cbs" "write_laws gd rows" "find_laws gd rows cbs" "log_laws gd rows cbs" "dao_ok nd"
    and "logs_owned nd (rows w) (cbs w)" "dao_call env gd nd (\<lambda>w. (rows w, cbs w)) w w'"
  shows "logs_owned nd (rows w') (cbs w') \<and> keeps_logs (cbs w) (cbs w')"
  using assms(7)
proof cases
  case (create_called n cb r)
  from create_logs [OF assms(1,5) this] assms(6) show ?thesis by (simp add: logs_kept_def)
next
  case (batchCreate_called fuel ns cb r)
  let ?I = "\<lambda>w1. logs_owned nd (rows w1) (cbs w1) \<and> keeps_logs (cbs w) (cbs w1)"
  have exec: "\<forall>db sqls w1 e w2. ?I w1 \<longrightarrow> batch_stmts env nd db (stamped_batch env w ns) sqls \<longrightarrow>
      g_ExecInserts gd db sqls w1 = (e, w2) \<longrightarrow> ?I w2"
    using ExecInserts_owned [OF assms(1,4,5)] by (blast intro: keeps_logs_trans)
  have same: "\<forall>w1 w2. ?I w1 \<longrightarrow> same_rows rows cbs w1 w2 \<longrightarrow> ?I w2" by (simp add: same_rows_def)
  have "?I w" using assms(6) by simp
  from batchCreate_keeps [where I = ?I, OF assms(1,5) same exec this batchCreate_called] show ?thesis by blast
next
  case (BatchUpdateStatus_called good bad r)
  with BatchUpdateStatus_updates_nothing [OF assms(1) this] assms(6) show ?thesis by simp
next
  case (CompareAndSwap_called n r)
  let ?u = "\<lambda>db t. g_UpdateStatusVersion gd db t (ne_Id n) (ne_Version n) (ne_Status n) (Time_UnixMilli (ev_now env w)) w"
  from CompareAndSwap_called consider "w' = w" | db t where "w' = snd (?u db t)"
    by (auto simp: NotifShardingDAO_CompareAndSwapStatus_def io_NowMilli_def io_bind_def split: sum.splits if_splits prod.splits)
  then have "cbs w' = cbs w"
  proof cases
    case (2 db t)
    then obtain e k where "?u db t = ((e, k), w')" by (metis prod.collapse)
    from gorm_UpdateStatusVersion [OF assms(1) this] show ?thesis by blast
  qed simp
  with logs_owned_evolves [OF assms(6) CompareAndSwap_evolves [OF assms(1) CompareAndSwap_called]]
  show ?thesis by simp
next
  case (MarkSuccess_called n r)
  from Mark_logs(1) [OF assms(1,2,4) this] assms(6) show ?thesis by (simp add: logs_kept_def)
next
  case (MarkFailure_called n r)
  from Mark_logs(2) [OF assms(1,2,4) this] assms(6) show ?thesis by (simp add: logs_kept_def)
qed (use assms(6) in \<open>auto simp: lookup_leaves [OF assms(1-3)] lookup_logs [OF assms(1,4,3)]\<close>)

text \<open>C11. No callback log is an orphan: under any sequence of calls of the DAO, whatever they are passed and however
  they end, each callback log is in the database of its notification and in the table the id leads to under
  the strategy of the callback logs, and its notification is stored; and no log is lost.\<close>

theorem callback_logs_owned:
  assumes "gorm_laws env gd rows cbs" "write_laws gd rows" "find_laws gd rows cbs" "log_laws gd rows cbs" "dao_ok nd"
    and "logs_owned nd (rows w) (cbs w)" "(dao_call env gd nd (\<lambda>w. (rows w, cbs w)))\<^sup>*\<^sup>* w w'"
  shows "logs_owned nd (rows w') (cbs w') \<and> keeps_logs (cbs w) (cbs w')"
  using assms(7)
proof (induction rule: rtranclp_induct)
  case base
  with assms(6) show ?case by simp
next
  case (step w1 w2)
  with dao_call_logs [OF assms(1-5) _ step(2)] show ?case by (blast intro: keeps_logs_trans)
qed

text \<open>The memory obeys the laws; in it a notification is created with its callback log.\<close>

lemma mem_exec_prefix: "mem_exec db ss w = (e, w') \<Longrightarrow>
    \<exists>k. (mw_rows w', mw_cbs w') = fold (exec_stmt db) (take k ss) (mw_rows w, mw_cbs w)"
proof (induction db ss w rule: mem_exec.induct)
  case (1 db w)
  then show ?case by simp
next
  case (2 db t n ss w)
  show ?case
  proof (cases "mw_rows w db t (ne_Id n) = None")
    case True
    with 2 obtain k where "(mw_rows w', mw_cbs w')
        = fold (exec_stmt db) (take k ss) (put_row db t (ne_Id n) n (mw_rows w), mw_cbs w)" by auto
    then show ?thesis by (intro exI [of _ "Suc k"]) simp
  next
    case False
    with 2(2) show ?thesis by (intro exI [of _ 0]) auto
  qed
next
  case (3 db t c ss w)
  then obtain k where "(mw_rows w', mw_cbs w')
      = fold (exec_stmt db) (take k ss) (mw_rows w, put_row db t (ce_NotificationId c) c (mw_cbs w))" by auto
  then show ?case by (intro exI [of _ "Suc k"]) simp
qed

lemma mem_log_laws: "log_laws mem_gorm mw_rows mw_cbs"
  unfolding log_laws_def
  by (intro conjI allI impI) (auto simp: mem_gorm_def mem_exec_prefix split: option.splits)

lemma callback_logs_owned_witness:
  "\<exists>n w1. NotifShardingDAO_create mem_env mem_gorm mem_dao zero_NotifEntity True mem_empty = (Inr (n, None), w1) \<and>
     logs_owned mem_dao (mw_rows w1) (mw_cbs (w1 :: mem_world))"
proof -
  have "mw_rows mem_empty = (\<lambda>_ _ _. None)" by (simp add: mem_empty_def)
  from mem_create_empty [OF this] obtain n w1 where
    c: "NotifShardingDAO_create mem_env mem_gorm mem_dao zero_NotifEntity True mem_empty = (Inr (n, None), w1)" by blast
  have s: "(dao_call mem_env mem_gorm mem_dao (\<lambda>w. (mw_rows w, mw_cbs w)))\<^sup>*\<^sup>* mem_empty w1"
    by (rule r_into_rtranclp) (rule create_called [OF c])
  have "logs_owned mem_dao (mw_rows mem_empty) (mw_cbs mem_empty)" by (simp add: logs_owned_def mem_empty_def)
  from callback_logs_owned [OF mem_gorm_laws mem_write_laws mem_find_laws mem_log_laws mem_dao_ok this s] c
  show ?thesis by blast
qed

end
