(* ===== verification/RowQuota.thy ===== *)
theory RowQuota
  imports QuotaRaces EndToEnd DaoRefines
begin

text \<open>
  The quota and the rows together: creations of single notifications that interleave in any order, each over the
  counters of Redis and the sharded tables. However they run and whatever fails, the tables hold no more new
  notifications of a business and channel than there was quota.
\<close>

section \<open>Single creations\<close>

fun single_pc :: "quota_pc \<Rightarrow> bool" where
  "single_pc (Waiting (BatchRequest ns)) = False"
| "single_pc (Charged (BatchRequest ns)) = False"
| "single_pc (Unstored (BatchRequest ns)) = False"
| "single_pc (Stored (BatchRequest ns)) = False"
| "single_pc _ = True"

definition singles_reachable where
  "singles_reachable d f g w0 = (\<lambda>s s'. quota_step d f g s s' \<and> list_all single_pc (fst s'))\<^sup>*\<^sup>* ([], w0)"

text \<open>The quota of the stored requests.\<close>

fun pc_stored :: "quota_pc \<Rightarrow> string \<Rightarrow> int" where
  "pc_stored (Stored r) k = demand (requested r) k"
| "pc_stored _ k = 0"

definition quota_stored :: "quota_pc list \<Rightarrow> string \<Rightarrow> int" where
  "quota_stored ps k = sum_list (map (\<lambda>pc. pc_stored pc k) ps)"

lemma quota_stored_append [simp]: "quota_stored (ps @ [pc]) k = quota_stored ps k + pc_stored pc k"
  by (simp add: quota_stored_def)

lemma quota_stored_update:
  "i < length ps \<Longrightarrow> quota_stored (ps[i := pc]) k = quota_stored ps k - pc_stored (ps ! i) k + pc_stored pc k"
proof (induction ps arbitrary: i)
  case (Cons p ps)
  then show ?case by (cases i) (simp_all add: quota_stored_def)
qed simp

lemma stored_le_held: "quota_stored ps k \<le> quota_held ps k"
proof -
  have "pc_stored pc k \<le> pc_held pc k" for pc by (cases pc) simp_all
  then show ?thesis unfolding quota_stored_def quota_held_def by (intro sum_list_mono)
qed

section \<open>New rows\<close>

text \<open>The ids under which the tables hold a notification of the key \<open>k\<close> that they did not hold at the start.\<close>

definition new_rows :: "HashStrategy \<Rightarrow> NotifEntity tables \<Rightarrow> NotifEntity tables \<Rightarrow> string \<Rightarrow> u64 set" where
  "new_rows h rs0 rs k = {i. row_of h rs0 i = None \<and>
     (\<exists>n. row_of h rs i = Some n \<and> redisKey (ne_BizId n) (ne_Channel n) = k)}"

lemma finite_new_rows [simp]: "finite (new_rows h rs0 rs k)"
  by (rule finite_subset [OF subset_UNIV]) simp

lemma new_rows_created:
  assumes "flat_step (row_of h rs) (Created n) (row_of h rs')"
  shows "card (new_rows h rs0 rs' k) \<le> card (new_rows h rs0 rs k) + (if redisKey (ne_BizId n) (ne_Channel n) = k then 1 else 0)"
proof -
  let ?new = "if redisKey (ne_BizId n) (ne_Channel n) = k then {ne_Id n} else {}"
  have "new_rows h rs0 rs' k \<subseteq> new_rows h rs0 rs k \<union> ?new"
    using assms by (auto simp: new_rows_def split: if_splits)
  then have "card (new_rows h rs0 rs' k) \<le> card (new_rows h rs0 rs k \<union> ?new)" by (rule card_mono [rotated]) simp
  also have "\<dots> \<le> card (new_rows h rs0 rs k) + card ?new" by (rule card_Un_le)
  finally show ?thesis by (simp split: if_splits)
qed

text \<open>What the rows and the counters ask of each other: the commands of Redis leave the rows alone, the statements
  of the database the counters.\<close>

definition apart :: "'w env \<Rightarrow> 'w gorm \<Rightarrow> 'w redis \<Rightarrow> ('w \<Rightarrow> NotifEntity tables) \<Rightarrow> ('w \<Rightarrow> string \<Rightarrow> int) \<Rightarrow> bool" where
  "apart env gd rd rows cnt \<longleftrightarrow> redis_leaves rows rd \<and> gorm_leaves cnt gd \<and>
     (\<forall>g w. cnt (ev_set_gen env g w) = cnt w)"

definition rows_inv ::
    "HashStrategy \<Rightarrow> ('w \<Rightarrow> NotifEntity tables) \<Rightarrow> 'w \<Rightarrow> quota_pc list \<times> 'w \<Rightarrow> bool" where
  "rows_inv h rows w0 s \<longleftrightarrow> list_all single_pc (fst s) \<and>
     (\<forall>k. int (card (new_rows h (rows w0) (rows (snd s)) k)) \<le> quota_stored (fst s) k)"

lemma single_request: "list_all single_pc ps \<Longrightarrow> i < length ps \<Longrightarrow> ps ! i = Charged r \<Longrightarrow> \<exists>n. r = OneRequest n"
  by (cases r) (auto simp: list_all_length)

lemma charge_leaves:
  assumes "redis_laws (dr_quotaCache d) cnt" "redis_leaves rows (dr_quotaCache d)"
  shows "charge d r w = (x, w') \<Longrightarrow> rows w' = rows w" "refund d r w = (x, w') \<Longrightarrow> rows w' = rows w"
  using leavesD [OF quota_calls_leave(2) [OF assms]] leavesD [OF quota_calls_leave(1) [OF assms]]
    leavesD [OF quota_calls_leave(3) [OF assms]] leavesD [OF quota_calls_leave(4) [OF assms]]
  by (cases r; auto)+

lemma rows_inv_step:
  assumes "gorm_laws env gd rows cbs" "redis_laws (dr_quotaCache d) cnt" "redis_leaves rows (dr_quotaCache d)" "dao_ok nd"
    and "rows_inv (nd_notifShardingStrategy nd) rows w0 s"
    and "quota_step d (\<lambda>e. NotifShardingDAO_create env gd nd e cb) g s s'" "list_all single_pc (fst s')"
  shows "rows_inv (nd_notifShardingStrategy nd) rows w0 s'"
  using assms(6)
proof cases
  case (arrives r ps w)
  with assms(5,7) show ?thesis by (simp add: rows_inv_def)
next
  case (charged i ps r w err w')
  with assms(5,7) charge_leaves(1) [OF assms(2,3) charged(5)] show ?thesis
    by (auto simp: rows_inv_def quota_stored_update)
next
  case (stored i ps r w err w')
  from assms(5) stored(1) single_request [OF _ stored(3,4)] obtain n where r: "r = OneRequest n"
    by (auto simp: rows_inv_def)
  let ?h = "nd_notifShardingStrategy nd" and ?n = "toEntity (dr_json d) n"
  from stored(5) r obtain n' where c: "NotifShardingDAO_create env gd nd ?n cb w = (Inr (n', err), w')"
    by (auto simp: io_bind_eq_Inr)
  note sim = create_simulates [OF assms(1,4) c]
  have new: "int (card (new_rows ?h (rows w0) (rows w') k)) \<le> int (card (new_rows ?h (rows w0) (rows w) k)) +
      (if err = None then demand [n] k else 0)" for k
  proof (cases "err = None")
    case True
    with create_None [OF assms(1,4)] c have n': "n' = (stamped env w ?n)\<lparr>ne_Id := ne_Id n'\<rparr>" by blast
    have "ne_BizId n' = n_BizId n" "ne_Channel n' = n_Channel n"
      using arg_cong [OF n', of ne_BizId] arg_cong [OF n', of ne_Channel] by (simp_all add: stamped_def toEntity_def Let_def)
    with new_rows_created [of ?h "rows w" n' "rows w'" "rows w0" k] sim True show ?thesis
      by (auto simp: demand_def notif_key_def split: if_splits)
  next
    case False
    with sim have "row_of ?h (rows w') = row_of ?h (rows w)" by simp
    then show ?thesis using False by (simp add: new_rows_def)
  qed
  have "int (card (new_rows ?h (rows w0) (rows w') k)) \<le> quota_stored (fst s') k" for k
  proof -
    from assms(5) stored(1) have "int (card (new_rows ?h (rows w0) (rows w) k)) \<le> quota_stored ps k" by (simp add: rows_inv_def)
    with new [of k] show ?thesis by (simp add: stored(2-4) r quota_stored_update split: if_splits)
  qed
  with assms(7) stored(2) show ?thesis by (simp add: rows_inv_def)
next
  case (refunded i ps r w err w')
  with assms(5,7) charge_leaves(2) [OF assms(2,3) refunded(5)] show ?thesis
    by (auto simp: rows_inv_def quota_stored_update)
qed

section \<open>The quota bounds the rows\<close>

lemma single_step_any:
  assumes "quota_step d f g s s'" "list_all single_pc (fst s)"
  shows "quota_step d f g' s s'"
  using assms(1)
proof cases
  case (stored i ps r w err w')
  from assms(2) stored(1) single_request [OF _ stored(3,4)] obtain n where "r = OneRequest n" by auto
  with stored(5) have "store_request d f g' r w = (Inr err, w')" by simp
  from quota_step.stored [OF stored(3,4) this] stored(1,2) show ?thesis by simp
next
  case (charged i ps r w err w')
  from quota_step.charged [OF charged(3-5)] charged(1,2) show ?thesis by simp
qed (auto intro: quota_step.arrives quota_step.refunded)

definition singles_inv where
  "singles_inv h rows cnt w0 s \<longleftrightarrow> rows_inv h rows w0 s \<and> quota_inv cnt (cnt w0) s"

text \<open>C8. The quota bounds what is stored: however many creations of single notifications run at the same time, in
  whatever order their calls of Redis and of the databases interleave and whatever of them fails, the tables
  hold at most as many new notifications of a business and channel as the quota was, and the counter
  is at most what they have left of it.\<close>

theorem rows_within_quota:
  assumes "gorm_laws env gd rows cbs" "redis_laws (dr_quotaCache d) cnt" "apart env gd (dr_quotaCache d) rows cnt" "dao_ok nd"
    and "singles_reachable d (\<lambda>e. NotifShardingDAO_create env gd nd e cb) g w0 (ps, w)" "\<forall>k. 0 \<le> cnt w0 k"
  shows "int (card (new_rows (nd_notifShardingStrategy nd) (rows w0) (rows w) k)) \<le> cnt w0 k \<and>
     cnt w k + int (card (new_rows (nd_notifShardingStrategy nd) (rows w0) (rows w) k)) \<le> cnt w0 k"
proof -
  let ?f = "\<lambda>e. NotifShardingDAO_create env gd nd e cb" and ?g = "\<lambda>es :: NotifEntity list. io_return (es, None :: go_error option)"
  let ?inv = "singles_inv (nd_notifShardingStrategy nd) rows cnt w0"
  from assms(3) have apart: "redis_leaves rows (dr_quotaCache d)" "gorm_leaves cnt gd" "\<forall>g w. cnt (ev_set_gen env g w) = cnt w"
    by (simp_all add: apart_def)
  have "cnt (snd (?f e w)) = cnt w" for e w
    using create_leaves [OF apart(3,2) assms(4), of e cb w] by auto
  then have keeps: "keeps_quota cnt ?f" "keeps_quota cnt ?g" by (simp_all add: keeps_quota_def)
  have "?inv (ps, w)"
    using assms(5) unfolding singles_reachable_def
  proof (induction rule: rtranclp_induct)
    case base
    with assms(6) show ?case
      by (auto simp: singles_inv_def rows_inv_def quota_inv_def quota_held_def quota_stored_def new_rows_def)
  next
    case (step s s')
    then have s: "rows_inv (nd_notifShardingStrategy nd) rows w0 s" "quota_inv cnt (cnt w0) s" by (simp_all add: singles_inv_def)
    then have "list_all single_pc (fst s)" by (simp add: rows_inv_def)
    then have "quota_step d ?f ?g s s'" using step(2) by (blast intro: single_step_any)
    from rows_inv_step [OF assms(1,2) apart(1) assms(4) s(1) this] quota_inv_step [OF assms(2) keeps s(2) this] step(2)
    show ?case by (simp add: singles_inv_def)
  qed
  then have "int (card (new_rows (nd_notifShardingStrategy nd) (rows w0) (rows w) k)) \<le> quota_held ps k"
    "quota_held ps k \<le> cnt w0 k" "cnt w k + quota_held ps k \<le> cnt w0 k"
    using order_trans [OF _ stored_le_held [of ps k]] by (auto simp: singles_inv_def rows_inv_def quota_inv_def)
  then show ?thesis by linarith
qed

text \<open>In the memory: one notification is stored while the quota is three.\<close>

lemma send_mem_apart: "apart mem_env mem_gorm send_redis mw_rows sm_quota"
  using send_mem_world by (auto simp: apart_def send_world_def redis_leaves_def leaves_def)

lemma rows_within_quota_witness:
  "\<exists>ps w. singles_reachable \<lparr>dr_notifDAO = sample_dao None, dr_quotaCache = send_redis, dr_json = sample_json\<rparr>
       (\<lambda>e. NotifShardingDAO_create mem_env mem_gorm mem_dao e True) (\<lambda>es. io_return (es, None))
       (send_start (\<lambda>_. 3)) (ps, w) \<and> ps = [Stored (OneRequest zero_Notification)] \<and>
     int (card (new_rows InitNotifShardingStrategy (\<lambda>_ _ _. None) (mw_rows w) (notif_key zero_Notification))) \<le> 3"
proof -
  let ?d = "\<lparr>dr_notifDAO = sample_dao None, dr_quotaCache = send_redis, dr_json = sample_json\<rparr>"
  let ?f = "\<lambda>e. NotifShardingDAO_create mem_env mem_gorm mem_dao e True" and ?r = "OneRequest zero_Notification"
  let ?g = "\<lambda>es :: NotifEntity list. io_return (es, None)" and ?w0 = "send_start (\<lambda>_. 3)"
  let ?step = "\<lambda>s s'. quota_step ?d ?f ?g s s' \<and> list_all single_pc (fst s')"
  have laws: "redis_laws send_redis sm_quota" "redis_up send_redis" "redis_leaves mw_rows send_redis"
    using send_mem_world send_mem_apart by (simp_all add: send_world_def apart_def)
  from Decr_result [OF laws(1,2), of "quotaParam_of zero_Notification" ?w0] obtain w1 where
    c: "charge ?d ?r ?w0 = (Inr None, w1)" by (auto simp: sint_defaultQuota send_start_def)
  have "mw_rows w1 = (\<lambda>_ _ _. None)" using charge_leaves(1) [of ?d sm_quota mw_rows, OF _ _ c] laws
    by (simp add: send_start_def)
  from mem_create_empty [OF this, of "toEntity sample_json zero_Notification" True] obtain e w2 where
    "?f (toEntity sample_json zero_Notification) w1 = (Inr (e, None), w2)" by blast
  then have s: "store_request ?d ?f ?g ?r w1 = (Inr None, w2)" by simp
  have t1: "?step ([], ?w0) ([Waiting ?r], ?w0)" using quota_step.arrives [of ?r ?d ?f ?g "[]" ?w0] by simp
  have t2: "?step ([Waiting ?r], ?w0) ([Charged ?r], w1)" using last_charged [OF c, of ?f ?g "[]"] by simp
  have t3: "?step ([Charged ?r], w1) ([Stored ?r], w2)" using last_stored [OF s, of "[]"] by simp
  have r: "singles_reachable ?d ?f ?g ?w0 ([Stored ?r], w2)"
    unfolding singles_reachable_def
    by (rule converse_rtranclp_into_rtranclp [of ?step, OF t1 converse_rtranclp_into_rtranclp [of ?step, OF t2 r_into_rtranclp [of ?step, OF t3]]])
  from rows_within_quota [OF mem_gorm_laws _ _ mem_dao_ok r, of sm_quota "notif_key zero_Notification"] laws send_mem_apart r
  show ?thesis by (intro exI [of _ "[Stored ?r]"] exI [of _ w2]) (simp add: send_start_def)
qed

end
