(* ===== verification/BatchFaults.thy ===== *)
theory BatchFaults
  imports RowQuota
begin

text \<open>
  What goes wrong when the insertion of a batch meets an error: the text of the library's duplicate error
  names no id, so the loop that makes new ids never turns; and when one of the databases fails, the rows in
  the others stay although the quota of the whole batch is given back.
\<close>

section \<open>Duplicate ids\<close>

text \<open>The error the library gives for a duplicate key, if it translates the errors of the driver at all, has a
  fixed text without digits. An error that is not translated is no \<open>ErrDuplicatedKey\<close>.\<close>

definition plain_duplicates :: "'w gorm \<Rightarrow> bool" where
  "plain_duplicates gd \<longleftrightarrow> (\<forall>db ss w e w'. g_ExecInserts gd db ss w = (Some e, w') \<longrightarrow> errors_Is e ErrDuplicatedKey \<longrightarrow>
     (\<forall>d < 10. digit_char d \<notin> set (g_ErrorText gd e)))"

lemma no_id_in_text:
  assumes "\<forall>d < 10. digit_char d \<notin> set (g_ErrorText gd e)"
  shows "\<not> IsIdDuplicateErr gd ids e"
proof
  assume "IsIdDuplicateErr gd ids e"
  then obtain i where "sublist (FormatUint i) (g_ErrorText gd e)" by (auto simp: IsIdDuplicateErr_def)
  then have "set (FormatUint i) \<subseteq> set (g_ErrorText gd e)" by (rule set_mono_sublist)
  moreover obtain c where "c \<in> set (FormatUint i)"
    using format_nat_nonempty [of "unat i"] by (cases "format_nat (unat i)") (auto simp: FormatUint_def)
  moreover from this obtain d where "d < 10" "c = digit_char d"
    using format_nat_digits by (auto simp: FormatUint_def)
  ultimately show False using assms by blast
qed

lemma insert_group_once:
  assumes "plain_duplicates gd"
  shows "insert_group (Suc fuel) env gd nd cb db ps es w = insert_group 1 env gd nd cb db ps es w"
proof -
  have no_retry: "\<not> (errors_Is e ErrDuplicatedKey \<and> IsIdDuplicateErr gd ids e)"
    if "fst (g_ExecInserts gd db sqls w) = Some e" for sqls w e ids
    using assms that no_id_in_text unfolding plain_duplicates_def by (metis prod.collapse)
  show ?thesis
    by (auto simp: io_bind_def split: prod.splits sum.splits option.splits dest: no_retry)
qed

lemma insert_groups_once:
  assumes "plain_duplicates gd"
  shows "insert_groups (Suc fuel) env gd nd cb m es err w = insert_groups 1 env gd nd cb m es err w"
proof (induction m arbitrary: es err w)
  case (Cons g m)
  then show ?case
    by (cases g) (auto simp: io_bind_def insert_group_once [OF assms, of fuel] simp del: insert_group.simps One_nat_def
        split: prod.splits sum.splits option.splits)
qed simp

lemma insert_group_one_ends: "plain_duplicates gd \<Longrightarrow> insert_group 1 env gd nd cb db ps es w = (Inr r, w') \<Longrightarrow> r \<noteq> None"
proof -
  assume gd: "plain_duplicates gd" and run: "insert_group 1 env gd nd cb db ps es w = (Inr r, w')"
  have "\<not> (errors_Is e ErrDuplicatedKey \<and> IsIdDuplicateErr gd ids e)"
    if "fst (g_ExecInserts gd db sqls w) = Some e" for sqls w e ids
    using gd that no_id_in_text unfolding plain_duplicates_def by (metis prod.collapse)
  with run show "r \<noteq> None"
    by (auto simp: io_bind_def split: prod.splits sum.splits option.splits if_splits)
qed

lemma insert_groups_one_end:
  "plain_duplicates gd \<Longrightarrow> insert_groups 1 env gd nd cb m es err w = (Inr r, w') \<Longrightarrow> r \<noteq> None"
proof (induction m arbitrary: es err w)
  case (Cons g m)
  show ?case
  proof
    assume r: "r = None"
    obtain db ps where g: "g = (db, ps)" by (cases g)
    with Cons.prems(2) r obtain r1 w1 where "insert_group 1 env gd nd cb db ps es w = (Inr r1, w1)"
      "r1 = None \<or> (\<exists>es1 e1. insert_groups 1 env gd nd cb m es1 e1 w1 = (Inr r, w'))"
      by (auto simp: io_bind_def simp del: insert_group.simps One_nat_def split: prod.splits sum.splits option.splits if_splits)
    with insert_group_one_ends [OF Cons.prems(1)] Cons.IH [OF Cons.prems(1)] r show False by blast
  qed
qed auto

text \<open>C32. The insert loop of a batch never turns: over a database whose duplicate error is the fixed text of the
  library, or an error the library has not translated, no error is taken for a duplicate id, so a batch
  makes its ids once and is done after one round, whatever the database answers.\<close>

theorem batch_never_retries:
  assumes "plain_duplicates gd"
  shows "NotifShardingDAO_batchCreate (Suc fuel) env gd nd ns cb w = NotifShardingDAO_batchCreate 1 env gd nd ns cb w \<and>
     fst (NotifShardingDAO_batchCreate 1 env gd nd ns cb w) \<noteq> Inr None"
proof -
  have once: "NotifShardingDAO_tryBatchInsert (Suc fuel) env gd nd es cb w = NotifShardingDAO_tryBatchInsert 1 env gd nd es cb w"
    "fst (NotifShardingDAO_tryBatchInsert 1 env gd nd es cb w) \<noteq> Inr None" for es w
  proof -
    show "NotifShardingDAO_tryBatchInsert (Suc fuel) env gd nd es cb w = NotifShardingDAO_tryBatchInsert 1 env gd nd es cb w"
      by (simp add: NotifShardingDAO_tryBatchInsert_def io_bind_def insert_groups_once [OF assms, of fuel]
          del: One_nat_def split: sum.splits)
    show "fst (NotifShardingDAO_tryBatchInsert 1 env gd nd es cb w) \<noteq> Inr None"
    proof
      assume "fst (NotifShardingDAO_tryBatchInsert 1 env gd nd es cb w) = Inr None"
      then obtain w' where "NotifShardingDAO_tryBatchInsert 1 env gd nd es cb w = (Inr None, w')" by (metis prod.collapse)
      then obtain m where "insert_groups 1 env gd nd cb m es None w = (Inr None, w')"
        by (auto simp: NotifShardingDAO_tryBatchInsert_def io_bind_def simp del: One_nat_def split: sum.splits)
      from insert_groups_one_end [OF assms this] show False by simp
    qed
  qed
  then show ?thesis
    by (simp add: NotifShardingDAO_batchCreate_def io_NowMilli_def del: One_nat_def)
qed

lemma mem_plain_duplicates: "plain_duplicates mem_gorm"
  by (simp add: plain_duplicates_def mem_gorm_def)

lemma batch_never_retries_witness:
  "fst (NotifShardingDAO_batchCreate 1 mem_env mem_gorm mem_dao [zero_NotifEntity] True mem_empty) \<noteq> Inr None"
  using batch_never_retries [OF mem_plain_duplicates] by blast

section \<open>A database that is down\<close>

text \<open>The memory, with one database that refuses every insertion of a batch.\<close>

definition down_gorm :: "string \<Rightarrow> 'x mem_world_scheme gorm" where
  "down_gorm db0 = mem_gorm\<lparr>g_ExecInserts := (\<lambda>db ss w. if db = db0 then (Some (External 1), w) else mem_exec db ss w)\<rparr>"

lemma down_gorm_laws: "gorm_laws mem_env (down_gorm db0) mw_rows mw_cbs"
  unfolding gorm_laws_def down_gorm_def mem_gorm_def mem_env_def same_rows_def
  by (auto simp: mem_exec_keeps mem_exec_inserts split: if_splits option.splits prod.splits)

lemma down_write_laws: "write_laws (down_gorm db0) mw_rows"
  unfolding write_laws_def
proof (intro conjI allI impI)
  fix db ss d t i n e and w w' :: "'x mem_world_scheme"
  assume "g_ExecInserts (down_gorm db0) db ss w = (e, w')" "mw_rows w d t i = None" "mw_rows w' d t i = Some n"
  then show "d = db" "ne_Id n = i" "InsertNotification t n \<in> set ss"
    using mem_exec_new [of db ss w e w' d t i n] by (simp_all add: down_gorm_def split: if_splits)
qed (auto simp: down_gorm_def mem_gorm_def split: option.splits)

text \<open>Two notifications of different databases.\<close>

lemma group_by_db_two:
  assumes "dao_ok nd" "d1 = row_dst env nd (ne_BizId n1) (ne_BizKey n1)" "d2 = row_dst env nd (ne_BizId n2) (ne_BizKey n2)"
    and "dst_DB d1 \<noteq> dst_DB d2"
  shows "group_by_db (ev_xxh env) (nd_notifShardingStrategy nd) [n1, n2] 0 [] = Inr [(dst_DB d1, [0]), (dst_DB d2, [1])]"
  using dao_ok_Shard(1) [OF assms(1), of env] assms(2-4) by (simp add: Let_def)

lemma down_insert_up:
  fixes w :: send_mem and es :: "NotifEntity list" and i :: nat
  defines "d \<equiv> row_dst (mem_env :: send_mem env) mem_dao (ne_BizId (es ! i)) (ne_BizKey (es ! i))"
  assumes "db0 \<noteq> dst_DB d" "mw_rows w = (\<lambda>_ _ _. None)"
  shows "\<exists>iden w'. insert_group 1 mem_env (down_gorm db0) mem_dao cb (dst_DB d) [i] es w
     = (Inr (Some (es[i := (es ! i)\<lparr>ne_Id := iden\<rparr>], None)), w') \<and> sm_quota w' = sm_quota w"
proof -
  let ?n = "es ! i" and ?env = "mem_env :: send_mem env"
  obtain iden w1 where id: "nextId ?env (ne_BizId ?n) (ne_BizKey ?n) w = (iden, w1)" by fastforce
  then have q: "sm_quota w1 = sm_quota w" by (auto simp: nextId_def mem_env_def split: prod.splits)
  with nextId_rows [OF mem_gorm_laws id] assms(3) have "mw_rows w1 = (\<lambda>_ _ _. None)" by (simp add: same_rows_def)
  then have "fst (mem_exec db [InsertNotification t m] w1) = None"
    "fst (mem_exec db [InsertNotification t m, InsertCallbackLog t' c] w1) = None" for db t m t' c by simp_all
  moreover have "g_ExecInserts (down_gorm db0) (dst_DB d) = (mem_exec (dst_DB d) :: _ \<Rightarrow> send_mem \<Rightarrow> _)"
    using assms(2) by (simp add: down_gorm_def fun_eq_iff)
  ultimately show ?thesis
    using id q dao_ok_Shard(1,2) [OF mem_dao_ok, of ?env "ne_BizId ?n" "ne_BizKey ?n"]
    by (intro exI [of _ iden], cases cb) (simp_all add: NotifShardingDAO_sqlGenerate_def io_NowMilli_def io_bind_assoc Let_def mem_exec_quota
        del: mem_exec.simps)
qed

lemma down_insert_down:
  fixes w :: send_mem and es :: "NotifEntity list" and i :: nat
  shows "\<exists>iden w1. insert_group 1 mem_env (down_gorm db0) mem_dao cb db0 [i] es w
     = (Inr (Some (es[i := (es ! i)\<lparr>ne_Id := iden\<rparr>], Some (External 1))), w1) \<and> same_rows mw_rows mw_cbs w w1 \<and>
       sm_quota w1 = sm_quota w"
proof -
  let ?n = "es ! i" and ?env = "mem_env :: send_mem env"
  obtain iden w1 where id: "nextId ?env (ne_BizId ?n) (ne_BizKey ?n) w = (iden, w1)" by fastforce
  then have q: "sm_quota w1 = sm_quota w" by (auto simp: nextId_def mem_env_def split: prod.splits)
  have "g_ExecInserts (down_gorm db0) db0 = (\<lambda>ss w :: send_mem. (Some (External 1), w))"
    by (simp add: down_gorm_def fun_eq_iff)
  then show ?thesis
    using id q nextId_rows [OF mem_gorm_laws id] dao_ok_Shard(1,2) [OF mem_dao_ok, of ?env "ne_BizId ?n" "ne_BizKey ?n"]
    by (intro exI [of _ iden], cases cb) (simp_all add: NotifShardingDAO_sqlGenerate_def io_NowMilli_def io_bind_assoc Let_def)
qed

lemma down_batch:
  fixes w :: send_mem and n1 n2 :: NotifEntity
  defines "d1 \<equiv> row_dst (mem_env :: send_mem env) mem_dao (ne_BizId n1) (ne_BizKey n1)"
    and "d2 \<equiv> row_dst (mem_env :: send_mem env) mem_dao (ne_BizId n2) (ne_BizKey n2)"
  assumes "dst_DB d1 \<noteq> dst_DB d2" "mw_rows w = (\<lambda>_ _ _. None)"
  shows "\<exists>es w' row. NotifShardingDAO_batchCreate 1 mem_env (down_gorm (dst_DB d2)) mem_dao [n1, n2] cb w
       = (Inr (Some (es, Some (External 1))), w') \<and>
     mw_rows w' (dst_DB d1) (dst_Table d1) (ne_Id row) = Some row \<and> ne_BizId row = ne_BizId n1 \<and> ne_BizKey row = ne_BizKey n1 \<and>
     sm_quota w' = sm_quota w"
proof -
  let ?env = "mem_env :: send_mem env"
  let ?gd = "down_gorm (dst_DB d2) :: send_mem gorm" and ?ns = "stamped_batch ?env w [n1, n2]"
  have keys: "ne_BizId (?ns ! 0) = ne_BizId n1" "ne_BizKey (?ns ! 0) = ne_BizKey n1"
    "ne_BizId (?ns ! 1) = ne_BizId n2" "ne_BizKey (?ns ! 1) = ne_BizKey n2" by (simp_all add: stamped_batch_def stamped_def)
  have len: "length ?ns = 2" by (simp add: stamped_batch_def)
  have ns: "?ns = [?ns ! 0, ?ns ! 1]" by (simp add: stamped_batch_def)
  have g: "group_by_db (ev_xxh ?env) (nd_notifShardingStrategy mem_dao) ?ns 0 [] = Inr [(dst_DB d1, [0]), (dst_DB d2, [1])]"
    by (subst ns, rule group_by_db_two [OF mem_dao_ok]) (simp_all only: keys d1_def d2_def assms(3) [unfolded d1_def d2_def] not_False_eq_True)
  obtain i1 w1 where r1: "insert_group 1 ?env ?gd mem_dao cb (dst_DB d1) [0] ?ns w
      = (Inr (Some (?ns[0 := (?ns ! 0)\<lparr>ne_Id := i1\<rparr>], None)), w1)" "sm_quota w1 = sm_quota w"
    using down_insert_up [of "dst_DB d2" ?ns 0 w cb] assms(3,4) unfolding keys d1_def by metis
  let ?es = "?ns[0 := (?ns ! 0)\<lparr>ne_Id := i1\<rparr>]"
  obtain i2 w2 where r2: "insert_group 1 ?env ?gd mem_dao cb (dst_DB d2) [1] ?es w1
      = (Inr (Some (?es[1 := (?es ! 1)\<lparr>ne_Id := i2\<rparr>], Some (External 1))), w2)" "same_rows mw_rows mw_cbs w1 w2" "sm_quota w2 = sm_quota w1"
    using down_insert_down [of "dst_DB d2" cb 1 ?es w1] by blast
  have "nd_dbs mem_dao = (\<lambda>_. True)" by (simp add: mem_dao_def)
  with r1(1) r2(1) g have run: "NotifShardingDAO_batchCreate 1 ?env ?gd mem_dao [n1, n2] cb w
      = (Inr (Some (?es[1 := (?es ! 1)\<lparr>ne_Id := i2\<rparr>], Some (External 1))), w2)"
    by (simp add: NotifShardingDAO_batchCreate_def NotifShardingDAO_tryBatchInsert_def io_NowMilli_def stamped_batch_def
        stamped_def del: insert_group.simps One_nat_def)
  have "\<forall>i \<in> set [0]. db_of (ev_xxh ?env) (nd_notifShardingStrategy mem_dao) (?ns ! i) = dst_DB d1"
    using keys by (simp add: db_of_def d1_def row_dst_def)
  from insert_group_spec [OF down_gorm_laws mem_dao_ok _ _ this r1(1)] len
  have "entry_ok ?env mem_dao mw_rows w1 (?es ! 0)" by auto
  with len keys r2(2) have "mw_rows w2 (dst_DB d1) (dst_Table d1) (ne_Id (?es ! 0)) = Some (?es ! 0)"
    "ne_BizId (?es ! 0) = ne_BizId n1" "ne_BizKey (?es ! 0) = ne_BizKey n1"
    by (simp_all add: entry_ok_def d1_def same_rows_def)
  with run r1(2) r2(3) show ?thesis by (intro exI conjI) (assumption | simp)+
qed

lemma sharded_repo_batchCreate:
  "repo_BatchCreate (sharded_repo fuel env gd nd rd js) = DefaultNotifRepo_batchCreate
     \<lparr>dr_notifDAO = NewNotifShardingDAO fuel env gd (nd_dbs nd) (nd_notifShardingStrategy nd) (nd_cbLogShardingStrategy nd),
      dr_quotaCache = rd, dr_json = js\<rparr> (\<lambda>ns. io_returns (NotifShardingDAO_batchCreate fuel env gd nd ns False))"
  by (cases nd) (simp add: sharded_repo_def NewDefaultNotifRepo_def NewNotifShardingDAO_def Let_def fun_eq_iff
      DefaultNotifRepo_BatchCreate_def NotifShardingDAO_BatchCreate_def)



end
