(* ===== verification/PickRaces.thy ===== *)
theory PickRaces
  imports WeightBalancers
begin

text \<open>
  Concurrent picks of \<open>weight_balancer.go\<close> and \<open>dynamic_weight_balancer.go\<close>. A pick takes the lock of
  one node at a time, so the turns of the loops of several picks, the subtractions at their ends and the
  calls of \<open>Done\<close> interleave. \<open>pick_step\<close> is this for the weight balancer, which holds the lock of a node
  exclusively while it adds the weight; the dynamic balancer holds only its read lock, which several picks
  may hold at once: in \<open>dynamic_step\<close> it reads the weight in one step and writes the sum in another, and only
  the subtraction and \<open>Done\<close> wait for the readers to leave.
\<close>

section \<open>A turn of the loop\<close>

definition pick_turn ::
    "'n weight_fields \<Rightarrow> nat \<Rightarrow> (nat \<Rightarrow> 'n) \<times> u32 \<times> nat option \<Rightarrow> (nat \<Rightarrow> 'n) \<times> u32 \<times> nat option" where
  "pick_turn f node = (\<lambda>(h, totalWeight, selectedNode).
     let totalWeight = totalWeight + wf_efficient f (h node);
         h = h(node := wf_set_current f (wf_current f (h node) + wf_efficient f (h node)) (h node));
         selectedNode = (case selectedNode of
           None \<Rightarrow> Some node
         | Some s \<Rightarrow> if wf_current f (h s) < wf_current f (h node) then Some node else Some s)
     in (h, totalWeight, selectedNode))"

lemma pick_loop_turns: "pick_loop f nodes h t sel = fold (pick_turn f) nodes (h, t, sel)"
  by (induction nodes arbitrary: h t sel) (simp_all add: pick_turn_def Let_def)

definition subtract_total :: "'n weight_fields \<Rightarrow> nat \<Rightarrow> u32 \<Rightarrow> (nat \<Rightarrow> 'n) \<Rightarrow> nat \<Rightarrow> 'n" where
  "subtract_total f s totalWeight h = h(s := wf_set_current f (wf_current f (h s) - totalWeight) (h s))"

section \<open>Picks under the lock of each node\<close>

datatype pick_pc =
    Visiting "nat list" u32 "nat option"
  | Answered nat
  | PickEnded

inductive pick_step ::
    "nat list \<Rightarrow> (go_error option \<Rightarrow> 'cc weightServiceNode \<Rightarrow> 'cc weightServiceNode)
      \<Rightarrow> pick_pc list \<times> (nat \<Rightarrow> 'cc weightServiceNode) \<Rightarrow> pick_pc list \<times> (nat \<Rightarrow> 'cc weightServiceNode) \<Rightarrow> bool"
  for nodes finish where
  started: "pick_step nodes finish (ps, h) (ps @ [Visiting nodes 0 None], h)"
| visited: "i < length ps \<Longrightarrow> ps ! i = Visiting (node # todo) tot sel \<Longrightarrow>
     pick_turn weight_node_fields node (h, tot, sel) = (h', tot', sel') \<Longrightarrow>
     pick_step nodes finish (ps, h) (ps[i := Visiting todo tot' sel'], h')"
| chosen: "i < length ps \<Longrightarrow> ps ! i = Visiting [] tot (Some s) \<Longrightarrow>
     pick_step nodes finish (ps, h) (ps[i := Answered s], subtract_total weight_node_fields s tot h)"
| finished: "i < length ps \<Longrightarrow> ps ! i = Answered s \<Longrightarrow>
     pick_step nodes finish (ps, h) (ps[i := PickEnded], h(s := finish err (h s)))"

definition picks_reachable where
  "picks_reachable nodes finish h0 = (pick_step nodes finish)\<^sup>*\<^sup>* ([], h0)"

text \<open>What a pick has added to the nodes and not yet taken from one.\<close>

fun pick_held :: "pick_pc \<Rightarrow> u32" where
  "pick_held (Visiting todo tot sel) = tot"
| "pick_held (Answered s) = 0"
| "pick_held PickEnded = 0"

fun pick_ok :: "nat list \<Rightarrow> pick_pc \<Rightarrow> bool" where
  "pick_ok nodes (Visiting todo tot sel) \<longleftrightarrow> set todo \<subseteq> set nodes \<and> set_option sel \<subseteq> set nodes"
| "pick_ok nodes (Answered s) \<longleftrightarrow> s \<in> set nodes"
| "pick_ok nodes PickEnded \<longleftrightarrow> True"

definition current_sum :: "nat list \<Rightarrow> (nat \<Rightarrow> 'cc weightServiceNode) \<Rightarrow> u32" where
  "current_sum nodes h = sum_list (map (\<lambda>r. wn_currentWeight (h r)) nodes)"

lemma current_sum_update:
  assumes "distinct nodes" "r \<in> set nodes"
  shows "current_sum nodes (h(r := n)) = current_sum nodes h + wn_currentWeight n - wn_currentWeight (h r)"
  using assms
proof (induction nodes)
  case Nil
  then show ?case by simp
next
  case (Cons a nodes)
  show ?case
  proof (cases "r \<in> set nodes")
    case True
    with Cons show ?thesis by (auto simp: current_sum_def)
  next
    case False
    then have "sum_list (map (\<lambda>x. wn_currentWeight ((h(r := n)) x)) nodes) = sum_list (map (\<lambda>x. wn_currentWeight (h x)) nodes)"
      by (intro arg_cong [where f = sum_list] map_cong) auto
    with Cons.prems False show ?thesis by (simp add: current_sum_def)
  qed
qed

lemma sum_list_update_word:
  "i < length ps \<Longrightarrow> sum_list (map g (ps[i := x])) = sum_list (map g ps) + g x - (g (ps ! i) :: u32)"
  by (induction ps arbitrary: i) (auto split: nat.splits)

lemma sum_list_zero: "(\<And>x. x \<in> set xs \<Longrightarrow> g x = 0) \<Longrightarrow> sum_list (map g xs) = (0 :: u32)"
  by (induction xs) simp_all

definition picks_inv :: "nat list \<Rightarrow> u32 \<Rightarrow> pick_pc list \<times> (nat \<Rightarrow> 'cc weightServiceNode) \<Rightarrow> bool" where
  "picks_inv nodes tot s \<longleftrightarrow> list_all (pick_ok nodes) (fst s) \<and>
     current_sum nodes (snd s) = tot + sum_list (map pick_held (fst s))"

lemma list_all_replace: "list_all P ps \<Longrightarrow> P x \<Longrightarrow> list_all P (ps[i := x])"
  by (auto simp: list_all_iff dest: set_update_subset_insert [THEN subsetD])

lemma picks_inv_step:
  assumes "distinct nodes" "\<And>err n. wn_currentWeight (finish err n) = wn_currentWeight n"
    and "pick_step nodes finish s s'" "picks_inv nodes tot s"
  shows "picks_inv nodes tot s'"
  using assms(3,4)
proof (cases rule: pick_step.cases)
  case (started ps h)
  with assms(4) show ?thesis by (simp add: picks_inv_def)
next
  case (visited i ps node todo t sel h h' t' sel')
  have pc: "pick_ok nodes (Visiting (node # todo) t sel)"
    using assms(4) visited(1,3,4) unfolding picks_inv_def list_all_length by (metis fst_conv)
  have h': "h' = h(node := (h node)\<lparr>wn_currentWeight := wn_currentWeight (h node) + wn_efficientWeight (h node)\<rparr>)"
    "t' = t + wn_efficientWeight (h node)" "sel' = Some node \<or> sel' = sel"
    using visited(5) by (auto simp: pick_turn_def Let_def split: option.splits if_splits)
  with pc have "pick_ok nodes (Visiting todo t' sel')" by auto
  with visited h'(1,2) pc assms(4) show ?thesis
    by (simp add: picks_inv_def current_sum_update [OF assms(1)] sum_list_update_word list_all_replace)
next
  case (chosen i ps t s' h)
  have pc: "pick_ok nodes (Visiting [] t (Some s'))"
    using assms(4) chosen(1,3,4) unfolding picks_inv_def list_all_length by (metis fst_conv)
  with chosen assms(4) show ?thesis
    by (simp add: picks_inv_def subtract_total_def current_sum_update [OF assms(1)] sum_list_update_word
        list_all_replace)
next
  case (finished i ps s' h err)
  have pc: "pick_ok nodes (Answered s')"
    using assms(4) finished(1,3,4) unfolding picks_inv_def list_all_length by (metis fst_conv)
  with finished assms(4) show ?thesis
    by (simp add: picks_inv_def current_sum_update [OF assms(1)] assms(2) sum_list_update_word list_all_replace)
qed

lemma picks_inv_reachable:
  assumes "distinct nodes" "\<And>err n. wn_currentWeight (finish err n) = wn_currentWeight n"
    and "picks_reachable nodes finish h0 s"
  shows "picks_inv nodes (current_sum nodes h0) s"
  using assms(3) unfolding picks_reachable_def
proof (induction rule: rtranclp_induct)
  case base
  then show ?case by (simp add: picks_inv_def)
next
  case (step s s')
  then show ?case using picks_inv_step [where finish = finish, OF assms(1,2)] by blast
qed

lemma WeightBalancer_Done_current: "wn_currentWeight (WeightBalancer_Done EOF err n) = wn_currentWeight n"
  by (simp add: WeightBalancer_Done_def node_success_def node_decrement_def Let_def split: option.splits)

text \<open>C17. However the picks and the ends of calls of a weight balancer interleave, no weight is lost: the
  current weights add up (modulo \<open>2 ^ 32\<close>) to what they were at first and what the picks under way have
  added so far; so whenever no pick is under way their sum is the original one, and the node a pick has
  answered is one of the picker.\<close>

theorem concurrent_picks_conserve:
  assumes "distinct (wb_nodes p)"
    and "picks_reachable (wb_nodes p) (WeightBalancer_Done EOF) (wb_store p) (ps, h)"
  shows "current_sum (wb_nodes p) h = current_sum (wb_nodes p) (wb_store p) + sum_list (map pick_held ps) \<and>
     ((\<forall>pc \<in> set ps. \<forall>todo t sel. pc \<noteq> Visiting todo t sel) \<longrightarrow>
        current_sum (wb_nodes p) h = current_sum (wb_nodes p) (wb_store p)) \<and>
     (\<forall>s. Answered s \<in> set ps \<longrightarrow> s \<in> set (wb_nodes p))"
proof -
  have inv: "picks_inv (wb_nodes p) (current_sum (wb_nodes p) (wb_store p)) (ps, h)"
    using assms(2) by (rule picks_inv_reachable [OF assms(1) WeightBalancer_Done_current])
  have "sum_list (map pick_held ps) = 0" if "\<forall>pc \<in> set ps. \<forall>todo t sel. pc \<noteq> Visiting todo t sel"
  proof -
    have "pick_held pc = 0" if "pc \<in> set ps" for pc
    proof (cases pc)
      case (Visiting todo t sel)
      with that \<open>\<forall>pc \<in> set ps. _\<close> show ?thesis by blast
    qed simp_all
    then show ?thesis by (rule sum_list_zero)
  qed
  with inv show ?thesis by (auto simp: picks_inv_def list_all_iff)
qed

section \<open>Picks under the read lock of each node\<close>

text \<open>\<open>Adding\<close> is a pick that holds the read lock of a node and has read its weights: it still has to
  write the sum.\<close>

datatype dynamic_pc =
    DVisiting "nat list" u32 "nat option"
  | Adding nat "nat list" u32 "nat option" u32
  | DAnswered nat
  | DEnded

definition unread :: "nat \<Rightarrow> dynamic_pc list \<Rightarrow> bool" where
  "unread r ps \<longleftrightarrow> (\<forall>todo t sel v. Adding r todo t sel v \<notin> set ps)"

inductive dynamic_step ::
    "nat list \<Rightarrow> (go_error option \<Rightarrow> 'cc weightServiceNode \<Rightarrow> 'cc weightServiceNode)
      \<Rightarrow> dynamic_pc list \<times> (nat \<Rightarrow> 'cc weightServiceNode) \<Rightarrow> dynamic_pc list \<times> (nat \<Rightarrow> 'cc weightServiceNode) \<Rightarrow> bool"
  for nodes finish where
  dstarted: "dynamic_step nodes finish (ps, h) (ps @ [DVisiting nodes 0 None], h)"
| dread: "i < length ps \<Longrightarrow> ps ! i = DVisiting (node # todo) tot sel \<Longrightarrow>
     dynamic_step nodes finish (ps, h)
       (ps[i := Adding node todo (tot + wn_efficientWeight (h node)) sel
                  (wn_currentWeight (h node) + wn_efficientWeight (h node))], h)"
| dwritten: "i < length ps \<Longrightarrow> ps ! i = Adding node todo tot sel v \<Longrightarrow>
     h' = h(node := (h node)\<lparr>wn_currentWeight := v\<rparr>) \<Longrightarrow>
     sel' = (case sel of None \<Rightarrow> Some node
       | Some s \<Rightarrow> if wn_currentWeight (h' s) < wn_currentWeight (h' node) then Some node else Some s) \<Longrightarrow>
     dynamic_step nodes finish (ps, h) (ps[i := DVisiting todo tot sel'], h')"
| dchosen: "i < length ps \<Longrightarrow> ps ! i = DVisiting [] tot (Some s) \<Longrightarrow> unread s ps \<Longrightarrow>
     dynamic_step nodes finish (ps, h) (ps[i := DAnswered s], subtract_total weight_node_fields s tot h)"
| dfinished: "i < length ps \<Longrightarrow> ps ! i = DAnswered s \<Longrightarrow> unread s ps \<Longrightarrow>
     dynamic_step nodes finish (ps, h) (ps[i := DEnded], h(s := finish err (h s)))"

definition dynamic_reachable where
  "dynamic_reachable nodes finish h0 = (dynamic_step nodes finish)\<^sup>*\<^sup>* ([], h0)"

text \<open>A pick that runs alone to its end takes away what it has added, and what it held.\<close>

lemma dynamic_run_alone:
  assumes "distinct nodes" "\<forall>r. unread r ps" "i < length ps" "ps ! i = DVisiting todo tot sel"
    and "set todo \<subseteq> set nodes" "set_option sel \<subseteq> set nodes" "todo \<noteq> [] \<or> sel \<noteq> None"
  shows "\<exists>h' s. (dynamic_step nodes finish)\<^sup>*\<^sup>* (ps, h) (ps[i := DAnswered s], h') \<and>
     current_sum nodes h' = current_sum nodes h - tot"
  using assms(2-7)
proof (induction todo arbitrary: ps tot sel h)
  case Nil
  then obtain s where s: "sel = Some s" "s \<in> set nodes" by (cases sel) auto
  with Nil have "dynamic_step nodes finish (ps, h) (ps[i := DAnswered s], subtract_total weight_node_fields s tot h)"
    by (intro dchosen) auto
  moreover have "current_sum nodes (subtract_total weight_node_fields s tot h) = current_sum nodes h - tot"
    using s(2) by (simp add: subtract_total_def current_sum_update [OF assms(1)])
  ultimately show ?case by blast
next
  case (Cons r todo)
  let ?e = "wn_efficientWeight (h r)" and ?v = "wn_currentWeight (h r) + wn_efficientWeight (h r)"
  let ?h = "h(r := (h r)\<lparr>wn_currentWeight := ?v\<rparr>)"
  define sel' where "sel' = (case sel of None \<Rightarrow> Some r
       | Some s \<Rightarrow> if wn_currentWeight (?h s) < wn_currentWeight (?h r) then Some r else Some s)"
  let ?ps = "ps[i := DVisiting todo (tot + ?e) sel']"
  have "dynamic_step nodes finish (ps, h) (ps[i := Adding r todo (tot + ?e) sel ?v], h)"
    using Cons.prems by (intro dread) auto
  moreover have "dynamic_step nodes finish (ps[i := Adding r todo (tot + ?e) sel ?v], h)
      (ps[i := Adding r todo (tot + ?e) sel ?v, i := DVisiting todo (tot + ?e) sel'], ?h)"
    using Cons.prems by (intro dwritten) (auto simp: sel'_def)
  ultimately have two: "(dynamic_step nodes finish)\<^sup>*\<^sup>* (ps, h) (?ps, ?h)" by simp
  have sel: "set_option sel' \<subseteq> set nodes" "sel' \<noteq> None" using Cons.prems by (auto simp: sel'_def split: option.splits)
  have "\<forall>r. unread r ?ps"
    using Cons.prems(1) by (auto simp: unread_def dest: set_update_subset_insert [THEN subsetD])
  then have "\<exists>h' s. (dynamic_step nodes finish)\<^sup>*\<^sup>* (?ps, ?h) (?ps[i := DAnswered s], h') \<and>
      current_sum nodes h' = current_sum nodes ?h - (tot + ?e)"
    by (rule Cons.IH) (use Cons.prems(2-4) sel in auto)
  then obtain h' s where r: "(dynamic_step nodes finish)\<^sup>*\<^sup>* (?ps, ?h) (ps[i := DAnswered s], h')"
    "current_sum nodes h' = current_sum nodes ?h - (tot + ?e)" by auto
  have "current_sum nodes ?h = current_sum nodes h + ?e"
    using Cons.prems by (simp add: current_sum_update [OF assms(1)])
  with r two show ?case by (auto intro: rtranclp_trans)
qed

text \<open>The dynamic balancer loses weight: since a pick adds to the current weight of a node under the read
  lock only, two picks can both read it before either writes, and one of the additions is lost, while both
  are subtracted at the end. After such a run no pick is under way, both have answered, and the current
  weights add up to less than before by the efficient weight of the node.\<close>

theorem dynamic_lost_update:
  assumes "distinct (wb_nodes p)" "wb_nodes p = r # rest"
  shows "\<exists>s1 s2 h. dynamic_reachable (wb_nodes p) (DynamicWeightBalancer_Done EOF unavailable) (wb_store p)
       ([DAnswered s1, DAnswered s2], h) \<and>
     current_sum (wb_nodes p) h = current_sum (wb_nodes p) (wb_store p) - wn_efficientWeight (wb_store p r)"
proof -
  let ?n = "wb_nodes p" and ?st = "wb_store p"
  let ?step = "dynamic_step ?n (DynamicWeightBalancer_Done EOF unavailable)"
  let ?e = "wn_efficientWeight (?st r)" and ?v = "wn_currentWeight (?st r) + wn_efficientWeight (?st r)"
  let ?h = "?st(r := (?st r)\<lparr>wn_currentWeight := ?v\<rparr>)"
  let ?start = "DVisiting ?n 0 None" and ?add = "Adding r rest ?e None ?v" and ?next = "DVisiting rest ?e (Some r)"
  have s1: "?step ([], ?st) ([?start], ?st)" using dstarted [of ?n _ "[]" ?st] by simp
  have s2: "?step ([?start], ?st) ([?start, ?start], ?st)" using dstarted [of ?n _ "[?start]" ?st] by simp
  have s3: "?step ([?start, ?start], ?st) ([?add, ?start], ?st)"
    using dread [of 0 "[?start, ?start]" r rest 0 None ?n _ ?st] assms(2) by simp
  have s4: "?step ([?add, ?start], ?st) ([?add, ?add], ?st)"
    using dread [of 1 "[?add, ?start]" r rest 0 None ?n _ ?st] assms(2) by simp
  have s5: "?step ([?add, ?add], ?st) ([?next, ?add], ?h)"
    using dwritten [of 0 "[?add, ?add]" r rest ?e None ?v ?h ?st "Some r"] by simp
  have s6: "?step ([?next, ?add], ?h) ([?next, ?next], ?h)"
    using dwritten [of 1 "[?next, ?add]" r rest ?e None ?v ?h ?h "Some r"] by simp
  have race: "?step\<^sup>*\<^sup>* ([], ?st) ([?next, ?next], ?h)"
    by (rule s1 s2 s3 s4 s5 s6 rtranclp.rtrancl_refl converse_rtranclp_into_rtranclp)+
  have sub: "set rest \<subseteq> set ?n" "set_option (Some r) \<subseteq> set ?n" using assms(2) by auto
  obtain h1 s1 where one: "?step\<^sup>*\<^sup>* ([?next, ?next], ?h) ([DAnswered s1, ?next], h1)"
    "current_sum ?n h1 = current_sum ?n ?h - ?e"
    using dynamic_run_alone [OF assms(1), of "[?next, ?next]" 0 rest ?e "Some r" "DynamicWeightBalancer_Done EOF unavailable" ?h] sub
    by (auto simp: unread_def)
  obtain h2 s2 where two: "?step\<^sup>*\<^sup>* ([DAnswered s1, ?next], h1) ([DAnswered s1, DAnswered s2], h2)"
    "current_sum ?n h2 = current_sum ?n h1 - ?e"
    using dynamic_run_alone [OF assms(1), of "[DAnswered s1, ?next]" 1 rest ?e "Some r" "DynamicWeightBalancer_Done EOF unavailable" h1] sub
    by (auto simp: unread_def)
  have "current_sum ?n ?h = current_sum ?n ?st + ?e"
    using sub(2) by (simp add: current_sum_update [OF assms(1)])
  with one(2) two(2) have "current_sum ?n h2 = current_sum ?n ?st - ?e" by simp
  moreover have "dynamic_reachable ?n (DynamicWeightBalancer_Done EOF unavailable) ?st
      ([DAnswered s1, DAnswered s2], h2)"
    unfolding dynamic_reachable_def using race one(1) two(1) by (blast intro: rtranclp_trans)
  ultimately show ?thesis by blast
qed

text \<open>Three nodes of weights 5, 1 and 1, and two picks, one of which has visited the first node.\<close>

lemma three_nodes:
  "wb_nodes (DynamicWeightBalancerBuilder_Build (three_info 5 1 1)) = [0, 1, 2]"
  "wn_efficientWeight (wb_store (DynamicWeightBalancerBuilder_Build (three_info 5 1 1)) 0) = 5"
  "current_sum [0, 1, 2] (wb_store (DynamicWeightBalancerBuilder_Build (three_info 5 1 1))) = 7"
  by (simp_all add: DynamicWeightBalancerBuilder_Build_def three_info_def attr_weight_def as_uint32_def
      current_sum_def Let_def upt_rec)

lemma concurrent_picks_conserve_witness:
  "\<exists>h. picks_reachable [0, 1, 2] (WeightBalancer_Done ErrRecordNotFound)
       (wb_store (DynamicWeightBalancerBuilder_Build (three_info 5 1 1)))
       ([Visiting [1, 2] 5 (Some 0), Visiting [0, 1, 2] 0 None], h) \<and> current_sum [0, 1, 2] h = 12"
proof -
  let ?p = "DynamicWeightBalancerBuilder_Build (three_info 5 1 1)"
  let ?f = "WeightBalancer_Done ErrRecordNotFound" and ?v = "Visiting [0, 1, 2] 0 None"
  obtain h where h: "pick_turn weight_node_fields 0 (wb_store ?p, 0, None) = (h, 5, Some 0)"
    using three_nodes(2) by (simp add: pick_turn_def)
  have s12: "pick_step [0, 1, 2] ?f ([], wb_store ?p) ([?v], wb_store ?p)"
    "pick_step [0, 1, 2] ?f ([?v], wb_store ?p) ([?v, ?v], wb_store ?p)"
    using started [of "[0, 1, 2]" ?f "[]" "wb_store ?p"] started [of "[0, 1, 2]" ?f "[?v]" "wb_store ?p"] by simp_all
  have s3: "pick_step [0, 1, 2] ?f ([?v, ?v], wb_store ?p) ([Visiting [1, 2] 5 (Some 0), ?v], h)"
    using visited [of 0 "[?v, ?v]", OF _ _ h] by simp
  have r: "picks_reachable (wb_nodes ?p) ?f (wb_store ?p) ([Visiting [1, 2] 5 (Some 0), ?v], h)"
    unfolding picks_reachable_def three_nodes
    by (rule s12 s3 rtranclp.rtrancl_refl converse_rtranclp_into_rtranclp)+
  have "distinct (wb_nodes ?p)" by (simp add: three_nodes)
  from concurrent_picks_conserve [OF this r]
  have "current_sum (wb_nodes ?p) h = current_sum (wb_nodes ?p) (wb_store ?p) + 5" by simp
  then have "current_sum [0, 1, 2] h = 12" unfolding three_nodes by simp
  with r show ?thesis unfolding three_nodes(1) by blast
qed

lemma dynamic_lost_update_witness:
  "let p = DynamicWeightBalancerBuilder_Build (three_info 5 1 1)
   in \<exists>s1 s2 h. dynamic_reachable (wb_nodes p) (DynamicWeightBalancer_Done ErrRecordNotFound (\<lambda>_. False)) (wb_store p)
       ([DAnswered s1, DAnswered s2], h) \<and>
     current_sum (wb_nodes p) (wb_store p) = 7 \<and> current_sum (wb_nodes p) h = 2"
proof -
  let ?p = "DynamicWeightBalancerBuilder_Build (three_info 5 1 1)"
  note n = three_nodes
  have d: "distinct (wb_nodes ?p)" by (simp add: n)
  from dynamic_lost_update [OF d n(1)] n show ?thesis by (simp add: Let_def)
qed

end
