(* ===== verification/Subscription.thy ===== *)
theory Subscription
  imports Discovery
begin

text \<open>
  The two goroutines behind a resolver: the loop \<open>watch\<close> of \<open>pkg/client/resolver/grpc_resolver.go\<close> and the
  goroutine that \<open>Subscribe\<close> of \<open>pkg/registry/etcd/etcd_registry.go\<close> starts for it. They meet at an unbuffered
  channel: a send and a receive happen in one step. A \<open>select\<close> takes any case that is ready. etcd
  responds whenever it likes.
\<close>

datatype subscribe_pc = Selecting | Sending | SubReturned

datatype watch_pc = WatchSelecting | WatchResolving | WatchReturned

text \<open>The context of the subscription, canceled by the end of the registry; the channel of the resolver,
  closed by its end; the events received from etcd and the resolutions made for them.\<close>

record subscription =
  sn_subscribe :: subscribe_pc
  sn_watch :: watch_pc
  sn_canceled :: bool
  sn_closed :: bool
  sn_events :: nat
  sn_resolved :: nat

definition subscribed :: subscription where
  "subscribed = \<lparr>sn_subscribe = Selecting, sn_watch = WatchSelecting, sn_canceled = False, sn_closed = False,
     sn_events = 0, sn_resolved = 0\<rparr>"

text \<open>What the goroutine does with a response.\<close>

definition Subscribe_receive :: "watch_response \<Rightarrow> subscribe_pc" where
  "Subscribe_receive resp =
     (if wr_Err resp \<noteq> None then Selecting else if wr_Canceled resp then SubReturned else Sending)"

lemma Subscribe_goroutine_receive:
  "Subscribe_goroutine (SubscribeResponse resp # evs) =
     (case Subscribe_receive resp of Selecting \<Rightarrow> Subscribe_goroutine evs | SubReturned \<Rightarrow> (0, True)
      | Sending \<Rightarrow> apfst Suc (Subscribe_goroutine evs))"
  by (simp add: Subscribe_receive_def split: prod.splits)

inductive subscription_step :: "subscription \<Rightarrow> subscription \<Rightarrow> bool" where
  registry_closed: "subscription_step s (s\<lparr>sn_canceled := True\<rparr>)"
| resolver_closed: "\<not> sn_closed s \<Longrightarrow> subscription_step s (s\<lparr>sn_closed := True\<rparr>)"
| subscribe_done: "sn_subscribe s = Selecting \<Longrightarrow> sn_canceled s \<Longrightarrow>
     subscription_step s (s\<lparr>sn_subscribe := SubReturned\<rparr>)"
| subscribe_response: "sn_subscribe s = Selecting \<Longrightarrow> pc = Subscribe_receive resp \<Longrightarrow>
     subscription_step s (s\<lparr>sn_subscribe := pc, sn_events := sn_events s + (if pc = Sending then 1 else 0)\<rparr>)"
| event_sent: "sn_subscribe s = Sending \<Longrightarrow> sn_watch s = WatchSelecting \<Longrightarrow>
     subscription_step s (s\<lparr>sn_subscribe := Selecting, sn_watch := WatchResolving\<rparr>)"
| watch_resolved: "sn_watch s = WatchResolving \<Longrightarrow>
     subscription_step s (s\<lparr>sn_watch := WatchSelecting, sn_resolved := sn_resolved s + 1\<rparr>)"
| watch_returned: "sn_watch s = WatchSelecting \<Longrightarrow> sn_closed s \<Longrightarrow>
     subscription_step s (s\<lparr>sn_watch := WatchReturned\<rparr>)"

inductive_simps subscription_step_iff: "subscription_step s s'"

definition subscription_reachable :: "subscription \<Rightarrow> bool" where
  "subscription_reachable = subscription_step\<^sup>*\<^sup>* subscribed"

lemma subscription_induct [consumes 1, case_names start step]:
  assumes "subscription_reachable s" "P subscribed"
    and "\<And>s s'. subscription_reachable s \<Longrightarrow> P s \<Longrightarrow> subscription_step s s' \<Longrightarrow> P s'"
  shows "P s"
  using assms(1) unfolding subscription_reachable_def
  by (induction rule: rtranclp_induct) (use assms(2,3) in \<open>auto simp: subscription_reachable_def\<close>)

definition events_inv :: "subscription \<Rightarrow> bool" where
  "events_inv s \<longleftrightarrow> sn_events s = sn_resolved s + (if sn_watch s = WatchResolving then 1 else 0)
       + (if sn_subscribe s = Sending then 1 else 0) \<and>
     (sn_watch s = WatchReturned \<longrightarrow> sn_closed s)"

lemma events_inv_step: "subscription_step s s' \<Longrightarrow> events_inv s \<Longrightarrow> events_inv s'"
  by (auto simp: subscription_step_iff events_inv_def split: if_splits)

lemma events_inv_reachable: "subscription_reachable s \<Longrightarrow> events_inv s"
proof (induction rule: subscription_induct)
  case start
  then show ?case by (simp add: events_inv_def subscribed_def)
next
  case (step s s')
  then show ?case using events_inv_step by blast
qed

text \<open>A goroutine that sends while nobody will receive again.\<close>

lemma stuck_step:
  "subscription_step s s' \<Longrightarrow> sn_subscribe s = Sending \<and> sn_watch s = WatchReturned \<Longrightarrow>
   sn_subscribe s' = Sending \<and> sn_watch s' = WatchReturned"
  by (auto simp: subscription_step_iff)

lemma stuck_forever:
  assumes "subscription_step\<^sup>*\<^sup>* s s'" "sn_subscribe s = Sending" "sn_watch s = WatchReturned"
  shows "sn_subscribe s' = Sending \<and> sn_watch s' = WatchReturned"
  using assms(1)
proof (induction rule: rtranclp_induct)
  case base
  then show ?case using assms by simp
next
  case (step s1 s2)
  then show ?case using stuck_step by blast
qed

lemma event_delivered:
  assumes "sn_subscribe s = Sending" "sn_watch s \<noteq> WatchReturned"
  shows "\<exists>s'. subscription_step\<^sup>*\<^sup>* s s' \<and> sn_subscribe s' = Selecting \<and> sn_resolved s < sn_resolved s'"
proof -
  have del: "\<exists>s'. subscription_step\<^sup>*\<^sup>* s s' \<and> sn_subscribe s' = Selecting \<and> sn_resolved s' = sn_resolved s + 1"
    if "sn_subscribe s = Sending" "sn_watch s = WatchSelecting" for s
  proof -
    let ?a = "s\<lparr>sn_subscribe := Selecting, sn_watch := WatchResolving\<rparr>"
    let ?b = "?a\<lparr>sn_watch := WatchSelecting, sn_resolved := sn_resolved ?a + 1\<rparr>"
    have "subscription_step s ?a" using that by (rule event_sent)
    moreover have "subscription_step ?a ?b" by (rule watch_resolved) simp
    ultimately have "subscription_step\<^sup>*\<^sup>* s ?b" by simp
    then show ?thesis by (intro exI [of _ ?b] conjI) simp_all
  qed
  show ?thesis
  proof (cases "sn_watch s")
    case WatchSelecting
    with del [OF assms(1)] show ?thesis by force
  next
    case WatchResolving
    let ?s = "s\<lparr>sn_watch := WatchSelecting, sn_resolved := sn_resolved s + 1\<rparr>"
    have first: "subscription_step s ?s" using WatchResolving by (rule watch_resolved)
    from del [of ?s] assms(1) obtain s' where "subscription_step\<^sup>*\<^sup>* ?s s'" "sn_subscribe s' = Selecting"
      "sn_resolved s' = sn_resolved s + 2" by auto
    with first show ?thesis by (intro exI [of _ s'] conjI) (auto intro: converse_rtranclp_into_rtranclp)
  qed (use assms in simp)
qed

text \<open>C28. Events and resolutions of a resolver: at every moment each event taken from etcd has been resolved,
  is being resolved or is still to be handed over, none of them twice. And the goroutine of the
  subscription can hand over its event exactly as long as the loop of the resolver runs: after the resolver
  was closed and its loop has returned, a goroutine that has an event sends for ever, and neither the end
  of the registry, which cancels its context, nor anything else ends it.\<close>

theorem subscription_events:
  assumes "subscription_reachable s"
  shows "sn_events s = sn_resolved s + (if sn_watch s = WatchResolving then 1 else 0)
       + (if sn_subscribe s = Sending then 1 else 0) \<and>
     (sn_subscribe s = Sending \<longrightarrow>
        (if sn_watch s = WatchReturned
         then sn_closed s \<and> (\<forall>s'. subscription_step\<^sup>*\<^sup>* s s' \<longrightarrow> sn_subscribe s' = Sending)
         else \<exists>s'. subscription_step\<^sup>*\<^sup>* s s' \<and> sn_subscribe s' = Selecting \<and> sn_resolved s < sn_resolved s'))"
proof -
  have "\<forall>s'. subscription_step\<^sup>*\<^sup>* s s' \<longrightarrow> sn_subscribe s' = Sending"
    if "sn_subscribe s = Sending" "sn_watch s = WatchReturned"
    using stuck_forever [OF _ that] by blast
  with events_inv_reachable [OF assms] event_delivered [of s] show ?thesis by (simp add: events_inv_def)
qed

text \<open>The registry and the resolver are closed, and the goroutine still sends.\<close>

definition leaked :: subscription where
  "leaked = \<lparr>sn_subscribe = Sending, sn_watch = WatchReturned, sn_canceled = True, sn_closed = True,
     sn_events = 1, sn_resolved = 0\<rparr>"

lemma leaked_reachable: "subscription_reachable leaked"
proof -
  let ?a = "subscribed\<lparr>sn_closed := True\<rparr>"
  let ?b = "?a\<lparr>sn_watch := WatchReturned\<rparr>"
  let ?c = "?b\<lparr>sn_subscribe := Sending, sn_events := 1\<rparr>"
  have "subscription_step subscribed ?a" by (rule resolver_closed) (simp add: subscribed_def)
  moreover have "subscription_step ?a ?b" by (rule watch_returned) (simp_all add: subscribed_def)
  moreover have "subscription_step ?b ?c"
    using subscribe_response [of ?b Sending zero_response]
    by (simp add: subscribed_def Subscribe_receive_def zero_response_def)
  moreover have "subscription_step ?c (?c\<lparr>sn_canceled := True\<rparr>)" by (rule registry_closed)
  moreover have "?c\<lparr>sn_canceled := True\<rparr> = leaked" by (simp add: subscribed_def leaked_def)
  ultimately show ?thesis unfolding subscription_reachable_def
    by (metis rtranclp.simps)
qed

lemma subscription_events_witness:
  "subscription_reachable leaked \<and> sn_canceled leaked \<and>
   \<not> (\<exists>s'. subscription_step\<^sup>*\<^sup>* leaked s' \<and> sn_subscribe s' \<noteq> Sending)"
  using subscription_events [OF leaked_reachable] leaked_reachable by (auto simp: leaked_def)

end
