(* ===== verification/Program.thy ===== *)
theory Program
  imports ReturnedIds Lookup
begin

text \<open>
  The sending program as one value: what the constructors of the repository build when each is given
  what it asks for, from the DAO over the sharded databases up to the send service. The statements
  here are about this value; the databases, Redis, the clock, the generator, the configuration
  repository, the channels and the callback service are its parameters.
\<close>

record 'w parts =
  pt_fuel :: nat
  pt_env :: "'w env"
  pt_gorm :: "'w gorm"
  pt_dao :: NotifShardingDAO
  pt_redis :: "'w redis"
  pt_json :: json_codec
  pt_conf :: "'w BizConfRepo"
  pt_channels :: "Channel \<Rightarrow> (Notification \<Rightarrow> ('w, SendResp \<times> go_error option) io) option"
  pt_callback :: "'w CallbackService"
  pt_senderOrder :: "Notification list \<Rightarrow> nat list"
  pt_groupOrder :: "Notification list \<Rightarrow> string list"

definition jotify_repo :: "'w parts \<Rightarrow> 'w NotificationRepo" where
  "jotify_repo pt = sharded_repo (pt_fuel pt) (pt_env pt) (pt_gorm pt) (pt_dao pt) (pt_redis pt) (pt_json pt)"

definition jotify_sender :: "'w parts \<Rightarrow> 'w Sender" where
  "jotify_sender pt = NewDefaultSender (channel_Dispatcher_Send (channel_NewDispatcher (pt_channels pt)))
     (jotify_repo pt) (pt_conf pt) (pt_callback pt) (pt_senderOrder pt)"

definition jotify :: "'w parts \<Rightarrow> 'w SendService" where
  "jotify pt = NewDefaultSendService (pt_env pt)
     (NewDispatcher (pt_env pt) (NewDefaultSendStrategy (jotify_repo pt) (pt_conf pt))
        (NewImmediateSendStrategy (jotify_repo pt) (jotify_sender pt)))
     (pt_groupOrder pt)"

text \<open>The laws of the parts, over the views of the rows, the callback logs and the counters.\<close>

definition parts_laws ::
    "'w parts \<Rightarrow> ('w \<Rightarrow> NotifEntity tables) \<Rightarrow> ('w \<Rightarrow> CallbackLogEntity tables) \<Rightarrow> ('w \<Rightarrow> string \<Rightarrow> int) \<Rightarrow> bool" where
  "parts_laws pt rows cbs cnt \<longleftrightarrow>
     send_world (pt_env pt) (pt_gorm pt) (pt_redis pt) (pt_conf pt) rows cbs cnt \<and> dao_ok (pt_dao pt)"

abbreviation pt_now :: "'w parts \<Rightarrow> 'w \<Rightarrow> Time" where
  "pt_now pt w \<equiv> ev_now (pt_env pt) w"

abbreviation pt_stored where
  "pt_stored pt rows cbs cb n row w w' \<equiv>
     stored_as (pt_env pt) (pt_dao pt) rows cbs cb (toEntity (pt_json pt) n) row w w'"

section \<open>Asynchronous sending\<close>

lemma jotify_AsyncSend_run:
  "svc_AsyncSend (jotify pt) = DefaultSendService_AsyncSend (pt_env pt) (NewDispatcher (pt_env pt)
     (NewDefaultSendStrategy (jotify_repo pt) (pt_conf pt))
     (NewImmediateSendStrategy (jotify_repo pt) (jotify_sender pt)))"
  by (simp add: jotify_def NewDefaultSendService_def)



text \<open>The row of a successful call, and the notification it is read back as.\<close>

lemma jotify_AsyncSend_row:
  assumes "parts_laws pt rows cbs cnt" "Notification_Validate n (pt_now pt w) = None"
    and "svc_AsyncSend (jotify pt) n w = (Inr (resp, None), w')"
  shows "\<exists>row cb. pt_stored pt rows cbs cb (deferred n (pt_now pt w)) row w w' \<and>
     sr_NotificationId resp = ne_Id row \<and>
     HashStrategy_ShardWithId (nd_notifShardingStrategy (pt_dao pt)) (ne_Id row)
       = Inr (row_dst (pt_env pt) (pt_dao pt) (n_BizId n) (n_BizKey n))"
proof -
  let ?default = "NewDefaultSendStrategy (jotify_repo pt) (pt_conf pt)"
  have "send_world (pt_env pt) (pt_gorm pt) (pt_redis pt) (dss_bizConfRepo ?default) rows cbs cnt" "dao_ok (pt_dao pt)"
    "dss_notifRepo ?default = sharded_repo (pt_fuel pt) (pt_env pt) (pt_gorm pt) (pt_dao pt) (pt_redis pt) (pt_json pt)"
    using assms(1) by (simp_all add: parts_laws_def NewDefaultSendStrategy_def jotify_repo_def)
  from AsyncSend_stored [OF this assms(2), of "NewImmediateSendStrategy (jotify_repo pt) (jotify_sender pt)"] assms(3)
  show ?thesis by (auto simp: jotify_AsyncSend_run)
qed

lemma toDomain_stored:
  assumes "json_laws js" "milli_range (n_ScheduledStart d)" "milli_range (n_ScheduledEnd d)"
    and "stored_as env nd rows cbs cb (toEntity js d) row w w'"
  shows "\<exists>ps. set ps = set (tpl_Params (n_Template d)) \<and> toDomain js row = d
     \<lparr>n_Id := ne_Id row, n_Version := 1, n_Template := (n_Template d)\<lparr>tpl_Params := ps\<rparr>,
      n_ScheduledStart := n_ScheduledStart d - (n_ScheduledStart d - unix_epoch) mod 1000000,
      n_ScheduledEnd := n_ScheduledEnd d - (n_ScheduledEnd d - unix_epoch) mod 1000000,
      n_StrategyConfig := zero_StrategyConf\<rparr>"
proof -
  from assms(4) obtain now where at: "row = (toEntity js d)
      \<lparr>ne_CreatedAt := now, ne_UpdatedAt := now, ne_Version := 1, ne_Id := ne_Id row\<rparr>"
    by (auto simp: stored_as_def Let_def)
  obtain ps where ps: "toDomain js (toEntity js d) = d\<lparr>n_Template := (n_Template d)\<lparr>tpl_Params := ps\<rparr>,
       n_ScheduledStart := n_ScheduledStart d - (n_ScheduledStart d - unix_epoch) mod 1000000,
       n_ScheduledEnd := n_ScheduledEnd d - (n_ScheduledEnd d - unix_epoch) mod 1000000,
       n_StrategyConfig := zero_StrategyConf\<rparr>" "set ps = set (tpl_Params (n_Template d))"
    using toDomain_toEntity [OF assms(1-3)] by blast
  have "toDomain js row = (toDomain js (toEntity js d))\<lparr>n_Id := ne_Id row, n_Version := 1\<rparr>"
    by (subst at) (simp add: toDomain_def)
  with ps show ?thesis by (intro exI [of _ ps]) simp
qed

text \<open>C4. Round trip from the service to a lookup: the id that a successful \<open>AsyncSend\<close> returns can be given to the
  repository, and unless the store fails the lookup finds under it, and under no other id, the notification
  as it was stored: with the window of its strategy cut to whole milliseconds, the same template
  parameters, version 1 and the new id, but without its strategy.\<close>

theorem jotify_lookup:
  assumes "parts_laws pt rows cbs cnt" "find_laws (pt_gorm pt) rows cbs" "json_laws (pt_json pt)" "keyed (rows w)"
    and "Notification_Validate n (pt_now pt w) = None" "d = deferred n (pt_now pt w)"
    and "milli_range (n_ScheduledStart d)" "milli_range (n_ScheduledEnd d)"
    and "svc_AsyncSend (jotify pt) n w = (Inr (resp, None), w')"
  shows "\<exists>ms err w2 ps. repo_GetMapByIds (jotify_repo pt) [sr_NotificationId resp] w' = (Inr (ms, err), w2) \<and>
     rows w2 = rows w' \<and> set ps = set (tpl_Params (n_Template n)) \<and>
     (err = None \<longrightarrow> map_of ms = [sr_NotificationId resp \<mapsto> d
        \<lparr>n_Id := sr_NotificationId resp, n_Version := 1, n_Template := (n_Template n)\<lparr>tpl_Params := ps\<rparr>,
         n_ScheduledStart := n_ScheduledStart d - (n_ScheduledStart d - unix_epoch) mod 1000000,
         n_ScheduledEnd := n_ScheduledEnd d - (n_ScheduledEnd d - unix_epoch) mod 1000000,
         n_StrategyConfig := zero_StrategyConf\<rparr>])"
proof -
  let ?h = "nd_notifShardingStrategy (pt_dao pt)" and ?dst = "row_dst (pt_env pt) (pt_dao pt) (n_BizId n) (n_BizKey n)"
  have ok: "dao_ok (pt_dao pt)" using assms(1) by (simp add: parts_laws_def)
  obtain row cb where row: "pt_stored pt rows cbs cb d row w w'" "sr_NotificationId resp = ne_Id row"
      "HashStrategy_ShardWithId ?h (ne_Id row) = Inr ?dst"
    using jotify_AsyncSend_row [OF assms(1,5,9)] unfolding assms(6) by blast
  have at: "rows w' = put_row (dst_DB ?dst) (dst_Table ?dst) (ne_Id row) row (rows w)"
    using row(1) by (auto simp: stored_as_def Let_def toEntity_keys deferred_keys assms(6))
  then have found: "row_of ?h (rows w') (ne_Id row) = Some row"
    using row(3) by (simp add: row_of_def id_table_def put_row_def)
  have tpl: "n_Template d = n_Template n"
    by (simp add: assms(6) deferred_def Notification_SetSendTime_def Notification_ReplaceAsyncImmediate_def
        split: prod.splits)
  note found_as = toDomain_stored [OF assms(3,7,8) row(1), unfolded tpl]
  have "keyed (rows w')" unfolding at using assms(4) by (rule keyed_put_row)
  from GetMapByIds_rows [OF assms(2) this ShardWithId_total [OF ok], of "[ne_Id row]"] obtain m err w2 where
    m: "NotifShardingDAO_GetMapByIds (pt_gorm pt) (pt_dao pt) [ne_Id row] w' = (Inr (m, err), w2)"
      "same_rows rows cbs w' w2"
      "err = None \<longrightarrow> (\<forall>i. map_of m i = (if i = ne_Id row then row_of ?h (rows w') i else None))" by auto
  let ?ms = "map (\<lambda>(i, e). (i, toDomain (pt_json pt) e)) m"
  have get: "repo_GetMapByIds (jotify_repo pt) [ne_Id row] w' = (Inr (if err \<noteq> None then ([], err) else (?ms, None)), w2)"
    using m(1) by (cases "pt_dao pt") (simp add: jotify_repo_def sharded_repo_def NewDefaultNotifRepo_def
        NewNotifShardingDAO_def Let_def DefaultNotifRepo_GetMapByIds_def)
  have "map_of ?ms = [ne_Id row \<mapsto> toDomain (pt_json pt) row]" if "err = None"
    using m(3) that found by (auto simp: map_of_map)
  with get m(2) found_as show ?thesis unfolding row(2)
    by (intro exI [of _ "fst (if err \<noteq> None then ([], err) else (?ms, None))"] exI [of _ err] exI [of _ w2])
      (auto simp: same_rows_def)
qed

text \<open>The program over the memory.\<close>

definition mem_parts :: "send_mem parts" where
  "mem_parts = \<lparr>pt_fuel = 1, pt_env = mem_env, pt_gorm = mem_gorm, pt_dao = mem_dao, pt_redis = send_redis,
     pt_json = mark_codec, pt_conf = send_conf,
     pt_channels = (\<lambda>_. Some (\<lambda>_. io_return (zero_SendResult\<lparr>sr_Status := SendStatusSuccess\<rparr>, None))),
     pt_callback = \<lparr>cbs_SendByNotification = (\<lambda>_. io_return None),
       cbs_SendByNotifications = (\<lambda>_. io_return None)\<rparr>,
     pt_senderOrder = (\<lambda>ns. [0..<length ns]), pt_groupOrder = (\<lambda>_. [SendStrategyDelayed])\<rparr>"

lemma mem_parts: "parts_laws mem_parts mw_rows mw_cbs sm_quota"
  "NewDefaultSendStrategy (jotify_repo mem_parts) (pt_conf mem_parts) = send_default"
  by (simp_all add: parts_laws_def mem_parts_def send_mem_world mem_dao_ok NewDefaultSendStrategy_def
      send_default_def jotify_repo_def)

lemma mem_parts_run: "svc_AsyncSend (jotify mem_parts) = DefaultSendService_AsyncSend mem_env (NewDispatcher mem_env
    send_default (NewImmediateSendStrategy (jotify_repo mem_parts) (jotify_sender mem_parts)))"
  by (simp add: jotify_AsyncSend_run mem_parts(2)) (simp add: mem_parts_def)


lemma jotify_lookup_witness:
  "\<exists>w'. \<exists>iden ms w2 n'. repo_GetMapByIds (jotify_repo mem_parts) [iden] w' = (Inr (ms, None), w2) \<and>
     map_of ms = [iden \<mapsto> n'] \<and> n_Receivers n' = [''r''] \<and> n_Version n' = 1"
proof -
  let ?n = sample_notification
  define w where "w = send_start (\<lambda>_. 1)"
  let ?d = "deferred ?n (pt_now mem_parts w)"
  have v: "Notification_Validate ?n (pt_now mem_parts w) = None"
    by (simp add: mem_parts_def sample_notification_valid)
  from send_start_AsyncSend obtain resp w' where r: "svc_AsyncSend (jotify mem_parts) ?n w = (Inr (resp, None), w')"
    unfolding mem_parts_run w_def by blast
  have laws: "find_laws (pt_gorm mem_parts) mw_rows mw_cbs" "json_laws (pt_json mem_parts)" "keyed (mw_rows w)"
    by (simp_all add: mem_parts_def mem_find_laws mark_codec_laws w_def send_start_def keyed_def)
  have range: "milli_range (n_ScheduledStart ?d)" "milli_range (n_ScheduledEnd ?d)"
    by (simp_all add: milli_range_def deferred_def sample_notification_def Notification_SetSendTime_def
      Notification_ReplaceAsyncImmediate_def Notification_IsImmediate_def mem_parts_def mem_env_def
      SendStrategyConf_CalcTimeWindow_def SendStrategy_defs zero_StrategyConf_def zero_Notification_def unix_epoch_def Time_Add_def Minute_def
      split: prod.splits)
  let ?i = "sr_NotificationId resp"
  obtain d where "HashStrategy_ShardWithId (nd_notifShardingStrategy mem_dao) ?i = Inr d"
    using ShardWithId_total [OF mem_dao_ok] by blast
  then have "\<exists>ms w2. repo_GetMapByIds (jotify_repo mem_parts) [?i] w' = (Inr (ms, None), w2)"
    by (simp add: jotify_repo_def mem_parts_def sharded_repo_def NewDefaultNotifRepo_def NewNotifShardingDAO_def
        Let_def DefaultNotifRepo_GetMapByIds_def NotifShardingDAO_GetMapByIds_def mem_gorm_def mem_dao_def)
  then obtain ms w2 where get: "repo_GetMapByIds (jotify_repo mem_parts) [?i] w' = (Inr (ms, None), w2)" by blast
  with jotify_lookup [OF mem_parts(1) laws v refl range r] obtain ps where
    m: "map_of ms = [?i \<mapsto> ?d
        \<lparr>n_Id := ?i, n_Version := 1, n_Template := (n_Template ?n)\<lparr>tpl_Params := ps\<rparr>,
         n_ScheduledStart := n_ScheduledStart ?d - (n_ScheduledStart ?d - unix_epoch) mod 1000000,
         n_ScheduledEnd := n_ScheduledEnd ?d - (n_ScheduledEnd ?d - unix_epoch) mod 1000000,
         n_StrategyConfig := zero_StrategyConf\<rparr>]"
    by auto
  have "n_Receivers ?d = [''r'']"
    by (simp add: deferred_def sample_notification_def Notification_SetSendTime_def
        Notification_ReplaceAsyncImmediate_def split: prod.splits)
  with get m show ?thesis by (intro exI [of _ w'] exI [of _ ?i] exI conjI) (assumption, assumption, simp_all)
qed


section \<open>Sending at once\<close>

text \<open>What \<open>Send\<close> makes of the answer of its strategy.\<close>

definition Send_answer ::
    "(SendResp \<times> go_error option) run \<times> 'w \<Rightarrow> (SendResp \<times> go_error option) run \<times> 'w" where
  "Send_answer r = (case r of
     (Inl p, w) \<Rightarrow> (Inl p, w)
   | (Inr (resp, None), w) \<Rightarrow> (Inr (resp, None), w)
   | (Inr (_, Some e), w) \<Rightarrow>
       (Inr (zero_SendResult\<lparr>sr_Status := SendStatusFailure\<rparr>, Some (WrappedBoth ErrFailedSendNotification e)), w))"

lemma Send_valid:
  assumes "generator_laws env" "Notification_Validate n (ev_now env w) = None"
    and "nextId env (n_BizId n) (n_BizKey n) w = (iden, w1)"
  shows "DefaultSendService_Send env st n w = Send_answer (st_Send st (n\<lparr>n_Id := iden\<rparr>) w1)"
  using assms
  by (auto simp: DefaultSendService_Send_def io_nextId_def Let_def Send_answer_def io_bind_def
      split: prod.splits sum.splits option.splits)

lemma jotify_nextId:
  assumes "parts_laws pt rows cbs cnt" "nextId (pt_env pt) b k w = (iden, w1)"
  shows "same_rows rows cbs w w1" "cnt w1 = cnt w" "pt_now pt w1 = pt_now pt w"
  using assms nextId_rows [of "pt_env pt" "pt_gorm pt" rows cbs b k w iden w1] nextId_generator(3) [of "pt_env pt" b k w iden w1]
  by (auto simp: parts_laws_def send_world_def nextId_def split: prod.splits)

lemma jotify_Create:
  assumes "parts_laws pt rows cbs cnt"
  shows "\<exists>r err w'. repo_Create (jotify_repo pt) n w = (Inr (r, err), w') \<and>
     (case err of
        Some e \<Rightarrow> rows w' = rows w \<and> cbs w' = cbs w \<and>
          cnt w' = (if cnt w (notif_key n) < 1 then (cnt w)(notif_key n := cnt w (notif_key n) - 1) else cnt w)
      | None \<Rightarrow> 1 \<le> cnt w (notif_key n) \<and> cnt w' = (cnt w)(notif_key n := cnt w (notif_key n) - 1) \<and>
          (\<exists>row. pt_stored pt rows cbs False n row w w'))"
proof -
  let ?d = "\<lparr>dr_notifDAO = NewNotifShardingDAO (pt_fuel pt) (pt_env pt) (pt_gorm pt) (nd_dbs (pt_dao pt))
        (nd_notifShardingStrategy (pt_dao pt)) (nd_cbLogShardingStrategy (pt_dao pt)),
      dr_quotaCache = pt_redis pt, dr_json = pt_json pt\<rparr>"
  from assms have world: "send_world (pt_env pt) (pt_gorm pt) (pt_redis pt) (pt_conf pt) rows cbs cnt" "dao_ok (pt_dao pt)"
    by (simp_all add: parts_laws_def)
  from repo_create_stored [of "pt_env pt" "pt_gorm pt" ?d "pt_conf pt" rows cbs cnt "pt_dao pt" False n w,
      unfolded DefaultNotifRepo.select_convs, OF world]
  show ?thesis
    using sharded_repo_create [of False "pt_fuel pt" "pt_env pt" "pt_gorm pt" "pt_dao pt" "pt_redis pt" "pt_json pt" n]
    by (force simp: jotify_repo_def split: option.splits)
qed

text \<open>C2. Sending an immediate notification, end to end. Either the repository takes it: then its row is stored
  and its quota charged, but it is not sent, and the caller gets an error. Or the repository refuses it,
  for lack of quota or because the store fails: then there is no row of it, the quota is not charged (but
  lowered below zero when it was used up), and the sender is given the notification all the same, under an
  id no row has.\<close>

theorem jotify_Send_immediate:
  assumes "parts_laws pt rows cbs cnt" "Notification_Validate n (pt_now pt w) = None"
    and "Notification_IsImmediate n"
  shows "\<exists>n' w2. n' = Notification_SetSendTime (n\<lparr>n_Id := fst (nextId (pt_env pt) (n_BizId n) (n_BizKey n) w)\<rparr>) (pt_now pt w) \<and>
     ((1 \<le> cnt w (notif_key n) \<and> cnt w2 = (cnt w)(notif_key n := cnt w (notif_key n) - 1) \<and>
       (\<exists>row. pt_stored pt rows cbs False n' row w w2) \<and>
       svc_Send (jotify pt) n w = (Inr (zero_SendResult\<lparr>sr_Status := SendStatusFailure\<rparr>,
          Some (WrappedBoth ErrFailedSendNotification (ErrorNew ''failed to create notification''))), w2)) \<or>
      (rows w2 = rows w \<and> cbs w2 = cbs w \<and>
       cnt w2 = (if cnt w (notif_key n) < 1 then (cnt w)(notif_key n := cnt w (notif_key n) - 1) else cnt w) \<and>
       svc_Send (jotify pt) n w = Send_answer (snd_Send (jotify_sender pt) n' w2)))"
proof -
  let ?env = "pt_env pt" and ?k = "notif_key n"
  obtain iden w1 where i: "nextId ?env (n_BizId n) (n_BizKey n) w = (iden, w1)" by fastforce
  let ?n = "Notification_SetSendTime (n\<lparr>n_Id := iden\<rparr>) (pt_now pt w)"
  have gen: "generator_laws ?env" using assms(1) by (simp add: parts_laws_def send_world_def)
  note w1 = jotify_nextId [OF assms(1) i]
  have key: "notif_key ?n = ?k" by (subst notif_key_SetSendTime) (simp add: notif_key_def)
  from jotify_Create [OF assms(1), of ?n w1, unfolded key] obtain r err w2 where
    create: "repo_Create (jotify_repo pt) ?n w1 = (Inr (r, err), w2)"
    and s: "case err of
        Some e \<Rightarrow> rows w2 = rows w1 \<and> cbs w2 = cbs w1 \<and>
          cnt w2 = (if cnt w1 ?k < 1 then (cnt w1)(?k := cnt w1 ?k - 1) else cnt w1)
      | None \<Rightarrow> 1 \<le> cnt w1 ?k \<and> cnt w2 = (cnt w1)(?k := cnt w1 ?k - 1) \<and>
          (\<exists>row. pt_stored pt rows cbs False ?n row w1 w2)" by blast
  have imm: "Notification_IsImmediate (n\<lparr>n_Id := iden\<rparr>)" using assms(3) by (simp add: Notification_IsImmediate_def)
  have send: "svc_Send (jotify pt) n w = Send_answer (case err of
      None \<Rightarrow> (Inr (zero_SendResult, Some (ErrorNew ''failed to create notification'')), w2)
    | Some e \<Rightarrow> snd_Send (jotify_sender pt) ?n w2)"
    using create w1(3) imm
    by (cases err) (simp_all add: jotify_def NewDefaultSendService_def Send_valid [OF gen assms(2) i] NewDispatcher_Send
        ImmediateSendStrategy_Send_def NewImmediateSendStrategy_def Let_def option_Is_def wrapf_def)
  show ?thesis
  proof (cases err)
    case None
    with s obtain row where "pt_stored pt rows cbs False ?n row w1 w2" by auto
    from stored_as_cong [OF this w1(1) same_rows_refl] None s w1(2) send i show ?thesis
      by (intro exI [of _ ?n] exI [of _ w2]) (auto simp: Send_answer_def)
  next
    case (Some e)
    with s w1 send i show ?thesis
      by (intro exI [of _ ?n] exI [of _ w2]) (auto simp: same_rows_def)
  qed
qed

lemma jotify_Send_immediate_witness:
  "\<exists>n' w2. sm_quota w2 (notif_key sample_notification) = - 1 \<and> (\<forall>db t i. mw_rows w2 db t i = None) \<and>
     svc_Send (jotify mem_parts) sample_notification (send_start (\<lambda>_. 0)) = Send_answer (snd_Send (jotify_sender mem_parts) n' w2)"
proof -
  define w where "w = send_start (\<lambda>_. 0)"
  have v: "Notification_Validate sample_notification (pt_now mem_parts w) = None"
    by (simp add: mem_parts_def sample_notification_valid)
  have w: "sm_quota w = (\<lambda>_. 0)" "mw_rows w = (\<lambda>_ _ _. None)" by (simp_all add: w_def send_start_def)
  from jotify_Send_immediate [OF mem_parts(1) v sample_notification_immediate] obtain n' w2
    where "sm_quota w2 (notif_key sample_notification) = - 1" "mw_rows w2 = (\<lambda>_ _ _. None)"
      "svc_Send (jotify mem_parts) sample_notification w = Send_answer (snd_Send (jotify_sender mem_parts) n' w2)"
    unfolding w by (elim exE conjE disjE) (simp, rule that [rotated 2], assumption, simp_all)
  then show ?thesis unfolding w_def by (intro exI [of _ n'] exI [of _ w2]) simp
qed

end
